(* ===== verification/Prelude.thy ===== *)
theory Prelude
  imports Main "HOL-Library.Word" "HOL-Library.AList" "HOL-Library.Char_ord"
    "HOL-Library.List_Lexorder"
begin

text \<open>
  Shared vocabulary of the development: Rust's fixed-width integers as words, \<open>Result\<close> as a
  sum with the error on the left, \<open>String\<close> as the list of its UTF-8 bytes (an Isabelle
  character is one byte, so \<open>length\<close> is Rust's \<open>str::len\<close>), \<open>Duration\<close> as a
  number of nanoseconds, and \<open>HashMap\<close> as an association list behind the interface
  \<open>hash_map\<close>.
\<close>

section \<open>Collections of rewrite rules\<close>

named_theorems contract_defs \<open>constructors and validators of the runtime contract\<close>
named_theorems protocol_defs \<open>wire values and framing\<close>
named_theorems store_defs \<open>durable stores\<close>
named_theorems boundary_defs \<open>handlers of the service boundary\<close>
named_theorems dispatch_defs \<open>governed dispatcher\<close>

section \<open>Machine integers, results, durations\<close>

type_synonym u8 = "8 word"
type_synonym u16 = "16 word"
type_synonym u32 = "32 word"
type_synonym u64 = "64 word"
type_synonym i32 = "32 word"
type_synonym bytes = "u8 list"
type_synonym duration = nat
type_synonym instant = nat

text \<open>A Rust \<open>Result\<close> is a sum whose left side is the error.\<close>

abbreviation Ok :: "'a \<Rightarrow> 'e + 'a" where
  "Ok \<equiv> Inr"

abbreviation Err :: "'e \<Rightarrow> 'e + 'a" where
  "Err \<equiv> Inl"

definition is_ok :: "'e + 'a \<Rightarrow> bool" where
  "is_ok r \<longleftrightarrow> (case r of Inl _ \<Rightarrow> False | Inr _ \<Rightarrow> True)"

lemma is_ok_simps [simp]: "is_ok (Ok x)" "\<not> is_ok (Err e)"
  by (simp_all add: is_ok_def)

lemma is_ok_iff: "is_ok r \<longleftrightarrow> (\<exists>x. r = Ok x)"
  by (cases r) auto

text \<open>\<open>u64::checked_add\<close> and \<open>u64::saturating_add\<close>.\<close>

definition u64_max :: u64 where
  "u64_max = - 1"

definition checked_add_u64 :: "u64 \<Rightarrow> u64 \<Rightarrow> u64 option" where
  "checked_add_u64 a b = (if unat a + unat b < 2 ^ 64 then Some (a + b) else None)"

definition saturating_add_u64 :: "u64 \<Rightarrow> u64 \<Rightarrow> u64" where
  "saturating_add_u64 a b = (if unat a + unat b < 2 ^ 64 then a + b else u64_max)"

lemma unat_u64_max: "unat u64_max = 2 ^ 64 - 1"
  by (simp add: u64_max_def unsigned_minus_1_eq_mask mask_eq_exp_minus_1)

lemma unat_u64_less: "unat (x :: u64) < 2 ^ 64"
  using unsigned_less [of x] by simp

lemma checked_add_u64_Some:
  "checked_add_u64 a b = Some c \<longleftrightarrow> unat a + unat b < 2 ^ 64 \<and> unat c = unat a + unat b"
proof -
  have "unat (a + b) = unat a + unat b" if "unat a + unat b < 2 ^ 64"
    using that by (simp add: unat_word_ariths)
  then show ?thesis
    by (auto simp: checked_add_u64_def word_unat_eq_iff)
qed

lemma unat_saturating_add_u64:
  "unat (saturating_add_u64 a b) = min (unat a + unat b) (2 ^ 64 - 1)"
  by (simp add: saturating_add_u64_def unat_u64_max unat_word_ariths)

text \<open>\<open>u64::try_from(len).unwrap_or(u64::MAX)\<close> for a collection length.\<close>

definition u64_of_len :: "nat \<Rightarrow> u64" where
  "u64_of_len n = (if n < 2 ^ 64 then of_nat n else u64_max)"

lemma unat_u64_of_len: "unat (u64_of_len n) = min n (2 ^ 64 - 1)"
  by (auto simp: u64_of_len_def unat_u64_max unat_of_nat)

text \<open>\<open>usize::checked_add\<close> on a 64-bit target; lengths are natural numbers.\<close>

definition checked_add_usize :: "nat \<Rightarrow> nat \<Rightarrow> nat option" where
  "checked_add_usize a b = (if a + b < 2 ^ 64 then Some (a + b) else None)"

definition millis :: "u64 \<Rightarrow> duration" where
  "millis ms = unat ms * 1000000"

definition secs :: "u64 \<Rightarrow> duration" where
  "secs s = unat s * 1000000000"

definition duration_max :: duration where
  "duration_max = (2 ^ 64 - 1) * 1000000000 + 999999999"

definition duration_saturating_add :: "duration \<Rightarrow> duration \<Rightarrow> duration" where
  "duration_saturating_add a b = min (a + b) duration_max"

lemma millis_pos [simp]: "0 < millis ms \<longleftrightarrow> ms \<noteq> 0"
  by (simp add: millis_def unat_gt_0)

lemma millis_eq_0 [simp]: "millis ms = 0 \<longleftrightarrow> ms = 0"
  by (simp add: millis_def unat_eq_0)

section \<open>Bytes and strings\<close>

definition is_ascii_digit :: "char \<Rightarrow> bool" where
  "is_ascii_digit c \<longleftrightarrow> 48 \<le> (of_char c :: nat) \<and> (of_char c :: nat) \<le> 57"

definition is_lower_hex :: "char \<Rightarrow> bool" where
  "is_lower_hex c \<longleftrightarrow> is_ascii_digit c \<or> (97 \<le> (of_char c :: nat) \<and> (of_char c :: nat) \<le> 102)"

definition is_ascii_alphanumeric :: "char \<Rightarrow> bool" where
  "is_ascii_alphanumeric c \<longleftrightarrow> is_ascii_digit c
     \<or> (65 \<le> (of_char c :: nat) \<and> (of_char c :: nat) \<le> 90)
     \<or> (97 \<le> (of_char c :: nat) \<and> (of_char c :: nat) \<le> 122)"

text \<open>The bytes of a string (\<open>str::as_bytes\<close>).\<close>

definition as_bytes :: "string \<Rightarrow> bytes" where
  "as_bytes s = map (\<lambda>c. of_nat (of_char c :: nat)) s"

lemma length_as_bytes [simp]: "length (as_bytes s) = length s"
  by (simp add: as_bytes_def)

lemma byte_of_char_inject:
  "(of_nat (of_char c :: nat) :: u8) = of_nat (of_char d :: nat) \<longleftrightarrow> c = d"
proof
  assume eq: "(of_nat (of_char c :: nat) :: u8) = of_nat (of_char d :: nat)"
  have lt: "(of_char x :: nat) < 256" for x :: char
    using nat_of_char_less_256 [of x] by simp
  from eq have "unat (of_nat (of_char c :: nat) :: u8) = unat (of_nat (of_char d :: nat) :: u8)"
    by simp
  then have "(of_char c :: nat) = of_char d"
    using lt [of c] lt [of d] by (simp add: unat_of_nat)
  then show "c = d"
    by simp
qed simp

lemma as_bytes_inject: "as_bytes s = as_bytes t \<longleftrightarrow> s = t"
  unfolding as_bytes_def
  by (rule inj_map_eq_map) (simp add: inj_on_def byte_of_char_inject)

text \<open>\<open>str::strip_prefix\<close>.\<close>

fun strip_prefix :: "'a list \<Rightarrow> 'a list \<Rightarrow> 'a list option" where
  "strip_prefix [] ys = Some ys"
| "strip_prefix (x # xs) [] = None"
| "strip_prefix (x # xs) (y # ys) = (if x = y then strip_prefix xs ys else None)"

lemma strip_prefix_Some: "strip_prefix xs ys = Some zs \<longleftrightarrow> ys = xs @ zs"
  by (induction xs ys rule: strip_prefix.induct) auto

definition starts_with :: "'a list \<Rightarrow> 'a list \<Rightarrow> bool" where
  "starts_with xs ys \<longleftrightarrow> strip_prefix xs ys \<noteq> None"

definition ends_with :: "'a list \<Rightarrow> 'a list \<Rightarrow> bool" where
  "ends_with xs ys \<longleftrightarrow> starts_with (rev xs) (rev ys)"

lemma starts_with_iff: "starts_with xs ys \<longleftrightarrow> (\<exists>zs. ys = xs @ zs)"
  by (auto simp: starts_with_def strip_prefix_Some)

lemma ends_with_iff: "ends_with xs ys \<longleftrightarrow> (\<exists>zs. ys = zs @ xs)"
proof -
  have "ends_with xs ys \<longleftrightarrow> (\<exists>zs. rev ys = rev xs @ zs)"
    by (simp add: ends_with_def starts_with_iff)
  also have "\<dots> \<longleftrightarrow> (\<exists>zs. ys = zs @ xs)"
    by (metis rev_append rev_rev_ident)
  finally show ?thesis .
qed

text \<open>
  \<open>OsStr::to_str\<close> succeeds on the well-formed UTF-8 sequences (no overlong form, no surrogate,
  nothing above U+10FFFF).
\<close>

fun utf8_ok :: "nat list \<Rightarrow> bool" where
  "utf8_ok [] = True"
| "utf8_ok (a # rest) =
     (if a < 128 then utf8_ok rest
      else case rest of
        [] \<Rightarrow> False
      | b # rest2 \<Rightarrow>
          if 194 \<le> a \<and> a \<le> 223 then 128 \<le> b \<and> b \<le> 191 \<and> utf8_ok rest2
          else (case rest2 of
            [] \<Rightarrow> False
          | c # rest3 \<Rightarrow>
              if 224 \<le> a \<and> a \<le> 239
              then (if a = 224 then 160 \<le> b else 128 \<le> b) \<and> (if a = 237 then b \<le> 159 else b \<le> 191)
                   \<and> 128 \<le> c \<and> c \<le> 191 \<and> utf8_ok rest3
              else (case rest3 of
                [] \<Rightarrow> False
              | d # rest4 \<Rightarrow>
                  240 \<le> a \<and> a \<le> 244 \<and> (if a = 240 then 144 \<le> b else 128 \<le> b)
                  \<and> (if a = 244 then b \<le> 143 else b \<le> 191)
                  \<and> 128 \<le> c \<and> c \<le> 191 \<and> 128 \<le> d \<and> d \<le> 191 \<and> utf8_ok rest4)))"

definition is_utf8 :: "string \<Rightarrow> bool" where
  "is_utf8 s \<longleftrightarrow> utf8_ok (map of_char s)"

definition is_ascii :: "char \<Rightarrow> bool" where
  "is_ascii c \<longleftrightarrow> (of_char c :: nat) < 128"

lemma is_utf8_ascii: "list_all is_ascii s \<Longrightarrow> is_utf8 s"
  unfolding is_utf8_def by (induction s) (auto simp: is_ascii_def)

lemma lower_hex_ascii: "is_lower_hex c \<Longrightarrow> is_ascii c"
  by (auto simp: is_lower_hex_def is_ascii_digit_def is_ascii_def)

text \<open>Splitting a string at its last occurrence of a character (\<open>str::rsplit_once\<close>).\<close>

definition rsplit_once :: "char \<Rightarrow> string \<Rightarrow> (string \<times> string) option" where
  "rsplit_once c s =
     (if c \<in> set s
      then Some (rev (tl (dropWhile (\<lambda>x. x \<noteq> c) (rev s))), rev (takeWhile (\<lambda>x. x \<noteq> c) (rev s)))
      else None)"

lemma rsplit_once_append: "c \<notin> set b \<Longrightarrow> rsplit_once c (a @ c # b) = Some (a, b)"
proof -
  assume c: "c \<notin> set b"
  then have "takeWhile (\<lambda>x. x \<noteq> c) (rev b @ c # rev a) = rev b"
    and "dropWhile (\<lambda>x. x \<noteq> c) (rev b @ c # rev a) = c # rev a"
    by (auto simp: takeWhile_append2 dropWhile_append2 in_set_conv_decomp [of _ "rev b"]
        intro: trans [OF takeWhile_append2] trans [OF dropWhile_append2])
  then show ?thesis
    by (simp add: rsplit_once_def)
qed

text \<open>
  \<open>Path::extension\<close> of a name without a separator: what follows the last dot, unless the name
  is \<open>..\<close>, has no dot, or has only a leading one.
\<close>

definition path_extension :: "string \<Rightarrow> string option" where
  "path_extension name =
     (if name = ''..'' then None
      else case rsplit_once (CHR ''.'') name of
             None \<Rightarrow> None
           | Some (before, after) \<Rightarrow> if before = [] then None else Some after)"

section \<open>Hash maps\<close>

text \<open>
  The interface the in-memory tables of the service rely on: what a lookup returns after an
  insertion or a removal, and that the number of entries is that of the keys.
\<close>

locale hash_map =
  fixes empty :: "'m"
    and get :: "'m \<Rightarrow> 'k \<Rightarrow> 'v option"
    and insert :: "'k \<Rightarrow> 'v \<Rightarrow> 'm \<Rightarrow> 'm"
    and remove :: "'k \<Rightarrow> 'm \<Rightarrow> 'm"
    and len :: "'m \<Rightarrow> nat"
    and invar :: "'m \<Rightarrow> bool"
  assumes get_empty: "get empty k = None"
    and get_insert: "get (insert k v m) k' = (if k' = k then Some v else get m k')"
    and get_remove: "get (remove k m) k' = (if k' = k then None else get m k')"
    and invar_empty: "invar empty"
    and invar_insert: "invar m \<Longrightarrow> invar (insert k v m)"
    and invar_remove: "invar m \<Longrightarrow> invar (remove k m)"
    and len_dom: "invar m \<Longrightarrow> len m = card {k. get m k \<noteq> None} \<and> finite {k. get m k \<noteq> None}"
begin

lemma remove_insert_get: "get (remove k (insert k v m)) = get (remove k m)"
  by (rule ext) (simp add: get_remove get_insert)

lemma insert_remove_get:
  assumes "get m k = Some v"
  shows "get (insert k v (remove k m)) = get m"
  using assms by (intro ext) (simp add: get_remove get_insert)

lemma len_insert_fresh:
  assumes "invar m" and "get m k = None"
  shows "len (insert k v m) = Suc (len m)"
proof -
  have "{k'. get (insert k v m) k' \<noteq> None} = Set.insert k {k'. get m k' \<noteq> None}"
    by (auto simp: get_insert)
  with assms len_dom [OF assms(1)] len_dom [OF invar_insert, OF assms(1), of k v] show ?thesis
    by simp
qed

lemma len_remove_present:
  assumes "invar m" and "get m k = Some v"
  shows "Suc (len (remove k m)) = len m"
proof -
  have dom: "{k'. get (remove k m) k' \<noteq> None} = {k'. get m k' \<noteq> None} - {k}"
    by (auto simp: get_remove)
  have mem: "k \<in> {k'. get m k' \<noteq> None}"
    using assms(2) by simp
  show ?thesis
    using len_dom [OF assms(1)] len_dom [OF invar_remove, OF assms(1), of k] dom mem
    by (metis card_Suc_Diff1)
qed

end

text \<open>The association list that implements it in the model.\<close>

type_synonym ('k, 'v) hm = "('k \<times> 'v) list"

definition hm_get :: "('k, 'v) hm \<Rightarrow> 'k \<Rightarrow> 'v option" where
  "hm_get m k = map_of m k"

definition hm_insert :: "'k \<Rightarrow> 'v \<Rightarrow> ('k, 'v) hm \<Rightarrow> ('k, 'v) hm" where
  "hm_insert k v m = AList.update k v m"

definition hm_remove :: "'k \<Rightarrow> ('k, 'v) hm \<Rightarrow> ('k, 'v) hm" where
  "hm_remove k m = AList.delete k m"

definition hm_invar :: "('k, 'v) hm \<Rightarrow> bool" where
  "hm_invar m \<longleftrightarrow> distinct (map fst m)"

text \<open>\<open>HashMap::retain\<close> on the values.\<close>

definition hm_retain :: "('v \<Rightarrow> bool) \<Rightarrow> ('k, 'v) hm \<Rightarrow> ('k, 'v) hm" where
  "hm_retain P m = filter (\<lambda>(_, v). P v) m"

lemma hm_get_Nil [simp]: "hm_get [] k = None"
  by (simp add: hm_get_def)

lemma hm_get_insert [simp]: "hm_get (hm_insert k v m) k' = (if k' = k then Some v else hm_get m k')"
  by (simp add: hm_get_def hm_insert_def update_conv)

lemma hm_get_remove [simp]: "hm_get (hm_remove k m) k' = (if k' = k then None else hm_get m k')"
  by (simp add: hm_get_def hm_remove_def delete_conv)

lemma hm_invar_Nil [simp]: "hm_invar []"
  by (simp add: hm_invar_def)

lemma hm_invar_insert [simp]: "hm_invar m \<Longrightarrow> hm_invar (hm_insert k v m)"
  by (simp add: hm_invar_def hm_insert_def distinct_update)

lemma hm_invar_remove [simp]: "hm_invar m \<Longrightarrow> hm_invar (hm_remove k m)"
  by (simp add: hm_invar_def hm_remove_def distinct_delete)

lemma hm_dom: "{k. hm_get m k \<noteq> None} = fst ` set m"
  by (simp add: hm_get_def dom_map_of_conv_image_fst [symmetric] dom_def)

interpretation hm: hash_map "[]" hm_get hm_insert hm_remove length hm_invar
proof unfold_locales
  fix m :: "('a, 'b) hm"
  assume "hm_invar m"
  then have "card (fst ` set m) = length m"
    by (metis distinct_card hm_invar_def length_map list.set_map)
  then show "length m = card {k. hm_get m k \<noteq> None} \<and> finite {k. hm_get m k \<noteq> None}"
    unfolding hm_dom by simp
qed simp_all

lemma hm_get_retain:
  assumes "hm_invar m"
  shows "hm_get (hm_retain P m) k = (case hm_get m k of None \<Rightarrow> None | Some v \<Rightarrow> if P v then Some v else None)"
  using assms
  by (induction m) (auto simp: hm_get_def hm_retain_def hm_invar_def map_of_eq_None_iff [symmetric]
      split: option.splits if_splits)

lemma hm_invar_retain [simp]: "hm_invar m \<Longrightarrow> hm_invar (hm_retain P m)"
  by (induction m) (auto simp: hm_invar_def hm_retain_def)

lemma set_hm_retain [simp]: "set (hm_retain P m) = {(k, v) \<in> set m. P v}"
  by (auto simp: hm_retain_def)

lemma hm_get_in_set: "hm_get m k = Some v \<Longrightarrow> (k, v) \<in> set m"
  by (simp add: hm_get_def map_of_SomeD)

lemma hm_set_get: "hm_invar m \<Longrightarrow> (k, v) \<in> set m \<longleftrightarrow> hm_get m k = Some v"
  by (simp add: hm_get_def hm_invar_def)

lemma hm_ball: "hm_invar m \<Longrightarrow> (\<forall>(k, v) \<in> set m. P k v) \<longleftrightarrow> (\<forall>k v. hm_get m k = Some v \<longrightarrow> P k v)"
  by (simp add: Ball_def split_paired_All hm_set_get)

end
