(* ===== verification/Contract_Values.thy ===== *)
theory Contract_Values
  imports Prelude
begin

text \<open>
  The validated request values of the runtime contract
  (\<^verbatim>\<open>src/src/runtime_contract/validation.rs\<close> and \<^verbatim>\<open>request.rs\<close>). A Rust newtype with a private
  field is a datatype with one constructor; its \<open>parse\<close> or \<open>new\<close> is the only way the
  program builds one, and \<open>valid_T\<close> says which values that way can produce. The interface
  \<open>validated_wire\<close> states what serde's \<open>try_from\<close>/\<open>into\<close> attributes promise about a
  type and its wire form; every type is an interpretation of it.
\<close>

section \<open>Validation errors\<close>

datatype ValidationCode =
    VC_Empty
  | VC_InvalidFormat
  | VC_OutOfRange
  | VC_InvalidLength
  | VC_InvalidCombination

record ValidationError =
  ve_field :: string
  ve_code :: ValidationCode

definition ValidationError_new :: "string \<Rightarrow> ValidationCode \<Rightarrow> ValidationError" where
  "ValidationError_new field code = \<lparr>ve_field = field, ve_code = code\<rparr>"

section \<open>Wire forms\<close>

text \<open>
  What a type with a serde \<open>try_from\<close> and \<open>into\<close> attribute promises: decoding yields only
  valid values, a decoded value encodes to the wire form it came from, and every valid value
  survives a round trip.
\<close>

locale validated_wire =
  fixes valid :: "'a \<Rightarrow> bool"
    and try_from :: "'w \<Rightarrow> 'e + 'a"
    and into :: "'a \<Rightarrow> 'w"
  assumes try_from_sound: "try_from w = Ok a \<Longrightarrow> valid a \<and> into a = w"
    and into_complete: "valid a \<Longrightarrow> try_from (into a) = Ok a"
begin

lemma roundtrip_iff: "try_from (into a) = Ok a \<longleftrightarrow> valid a"
  using try_from_sound into_complete by blast

lemma valid_iff_decodable: "valid a \<longleftrightarrow> (\<exists>w. try_from w = Ok a)"
  using try_from_sound into_complete by blast

lemma decode_inj: "try_from w = Ok a \<Longrightarrow> try_from w' = Ok a \<Longrightarrow> w = w'"
  using try_from_sound by metis

lemma into_inj: "valid a \<Longrightarrow> valid b \<Longrightarrow> into a = into b \<Longrightarrow> a = b"
  using into_complete by (metis sum.inject(2))

end

section \<open>Request-owned identifiers\<close>

datatype RequestOwnedId = RequestOwnedId (roid_str: string)

text \<open>
  \<open>generate\<close> cuts the first 15 characters of a simple-format UUID; the UUID text comes from the
  \<open>uuid\<close> crate and is a parameter. Slicing a shorter text panics (\<open>None\<close>).
\<close>

definition RequestOwnedId_generate :: "string \<Rightarrow> RequestOwnedId option" where
  "RequestOwnedId_generate simple =
     (if length simple < 15 then None
      else Some (RequestOwnedId (''sbx-'' @ take 15 simple)))"

definition RequestOwnedId_parse :: "string \<Rightarrow> ValidationError + RequestOwnedId" where
  "RequestOwnedId_parse value =
     (case strip_prefix ''sbx-'' value of
        None \<Rightarrow> Err (ValidationError_new ''request_owned_id'' VC_InvalidFormat)
      | Some suffix \<Rightarrow>
          if length value \<noteq> 19 \<or> length suffix \<noteq> 15 \<or> \<not> list_all is_lower_hex suffix
          then Err (ValidationError_new ''request_owned_id'' VC_InvalidFormat)
          else Ok (RequestOwnedId value))"

definition valid_RequestOwnedId :: "RequestOwnedId \<Rightarrow> bool" where
  "valid_RequestOwnedId i \<longleftrightarrow>
     (\<exists>suffix. roid_str i = ''sbx-'' @ suffix \<and> length suffix = 15 \<and> list_all is_lower_hex suffix)"

text \<open>\<open>RequestOwnedId\<close> derives \<open>Ord\<close>: the byte order of its text.\<close>

instantiation RequestOwnedId :: linorder
begin

definition less_eq_RequestOwnedId :: "RequestOwnedId \<Rightarrow> RequestOwnedId \<Rightarrow> bool" where
  "less_eq_RequestOwnedId a b \<longleftrightarrow> roid_str a \<le> roid_str b"

definition less_RequestOwnedId :: "RequestOwnedId \<Rightarrow> RequestOwnedId \<Rightarrow> bool" where
  "less_RequestOwnedId a b \<longleftrightarrow> roid_str a < roid_str b"

instance
  by standard (auto simp: less_eq_RequestOwnedId_def less_RequestOwnedId_def RequestOwnedId.expand)

end

section \<open>Templates, digests, policies\<close>

datatype TemplateIdentity = TemplateIdentity (template_str: string)

definition TemplateIdentity_new :: "string \<Rightarrow> ValidationError + TemplateIdentity" where
  "TemplateIdentity_new value =
     (if value = [] then Err (ValidationError_new ''template'' VC_Empty)
      else Ok (TemplateIdentity value))"

definition valid_TemplateIdentity :: "TemplateIdentity \<Rightarrow> bool" where
  "valid_TemplateIdentity t \<longleftrightarrow> template_str t \<noteq> []"

datatype Sha256Digest = Sha256Digest (sha_str: string)

definition Sha256Digest_parse :: "string \<Rightarrow> ValidationError + Sha256Digest" where
  "Sha256Digest_parse value =
     (if length value \<noteq> 64 then Err (ValidationError_new ''sha256'' VC_InvalidLength)
      else if \<not> list_all is_lower_hex value
      then Err (ValidationError_new ''sha256'' VC_InvalidFormat)
      else Ok (Sha256Digest value))"

definition valid_Sha256Digest :: "Sha256Digest \<Rightarrow> bool" where
  "valid_Sha256Digest d \<longleftrightarrow> length (sha_str d) = 64 \<and> list_all is_lower_hex (sha_str d)"

record PolicyIdentity =
  policy_id :: string
  policy_version :: u64
  policy_sha256 :: Sha256Digest

definition PolicyIdentity_new :: "string \<Rightarrow> u64 \<Rightarrow> Sha256Digest \<Rightarrow> ValidationError + PolicyIdentity" where
  "PolicyIdentity_new id' version sha256 =
     (if id' = [] then Err (ValidationError_new ''policy.id'' VC_Empty)
      else if version = 0 then Err (ValidationError_new ''policy.version'' VC_OutOfRange)
      else Ok \<lparr>policy_id = id', policy_version = version, policy_sha256 = sha256\<rparr>)"

record PolicyIdentityWire =
  piw_id :: string
  piw_version :: u64
  piw_sha256 :: Sha256Digest

definition PolicyIdentity_try_from :: "PolicyIdentityWire \<Rightarrow> ValidationError + PolicyIdentity" where
  "PolicyIdentity_try_from w = PolicyIdentity_new (piw_id w) (piw_version w) (piw_sha256 w)"

definition PolicyIdentity_into :: "PolicyIdentity \<Rightarrow> PolicyIdentityWire" where
  "PolicyIdentity_into p =
     \<lparr>piw_id = policy_id p, piw_version = policy_version p, piw_sha256 = policy_sha256 p\<rparr>"

definition valid_PolicyIdentity :: "PolicyIdentity \<Rightarrow> bool" where
  "valid_PolicyIdentity p \<longleftrightarrow> policy_id p \<noteq> [] \<and> policy_version p \<noteq> 0"

record PolicyDocument =
  doc_media_type :: string
  doc_bytes :: bytes

definition PolicyDocument_new :: "string \<Rightarrow> bytes \<Rightarrow> ValidationError + PolicyDocument" where
  "PolicyDocument_new media_type body =
     (if media_type = [] then Err (ValidationError_new ''policy.media_type'' VC_Empty)
      else if body = [] then Err (ValidationError_new ''policy.document'' VC_Empty)
      else Ok \<lparr>doc_media_type = media_type, doc_bytes = body\<rparr>)"

text \<open>The wire form carries the bytes in base64; \<open>PolicyDocumentWire\<close> is the decoded struct.\<close>

record PolicyDocumentWire =
  pdw_media_type :: string
  pdw_bytes :: bytes

definition PolicyDocument_try_from :: "PolicyDocumentWire \<Rightarrow> ValidationError + PolicyDocument" where
  "PolicyDocument_try_from w = PolicyDocument_new (pdw_media_type w) (pdw_bytes w)"

definition PolicyDocument_into :: "PolicyDocument \<Rightarrow> PolicyDocumentWire" where
  "PolicyDocument_into d = \<lparr>pdw_media_type = doc_media_type d, pdw_bytes = doc_bytes d\<rparr>"

definition valid_PolicyDocument :: "PolicyDocument \<Rightarrow> bool" where
  "valid_PolicyDocument d \<longleftrightarrow> doc_media_type d \<noteq> [] \<and> doc_bytes d \<noteq> []"

record CreateRequest =
  cr_request_id :: RequestOwnedId
  cr_template :: TemplateIdentity
  cr_policy_document :: PolicyDocument
  cr_expected_policy :: PolicyIdentity

definition CreateRequest_new ::
  "RequestOwnedId \<Rightarrow> TemplateIdentity \<Rightarrow> PolicyDocument \<Rightarrow> PolicyIdentity \<Rightarrow> CreateRequest" where
  "CreateRequest_new request_id template policy_document expected_policy =
     \<lparr>cr_request_id = request_id, cr_template = template,
      cr_policy_document = policy_document, cr_expected_policy = expected_policy\<rparr>"

section \<open>Commands\<close>

datatype Argv = Argv (argv_slice: "string list")

definition Argv_new :: "string list \<Rightarrow> ValidationError + Argv" where
  "Argv_new values =
     (if values = [] then Err (ValidationError_new ''argv'' VC_Empty) else Ok (Argv values))"

definition valid_Argv :: "Argv \<Rightarrow> bool" where
  "valid_Argv a \<longleftrightarrow> argv_slice a \<noteq> []"

datatype CommandTimeout = CommandTimeout (ct_seconds: u16)

definition CommandTimeout_MIN_SECONDS :: u16 where "CommandTimeout_MIN_SECONDS = 1"
definition CommandTimeout_MAX_SECONDS :: u16 where "CommandTimeout_MAX_SECONDS = 300"
definition CommandTimeout_DEFAULT_SECONDS :: u16 where "CommandTimeout_DEFAULT_SECONDS = 30"

definition CommandTimeout_new :: "u16 \<Rightarrow> ValidationError + CommandTimeout" where
  "CommandTimeout_new seconds =
     (if \<not> (CommandTimeout_MIN_SECONDS \<le> seconds \<and> seconds \<le> CommandTimeout_MAX_SECONDS)
      then Err (ValidationError_new ''command_timeout'' VC_OutOfRange)
      else Ok (CommandTimeout seconds))"

definition CommandTimeout_default :: CommandTimeout where
  "CommandTimeout_default = CommandTimeout CommandTimeout_DEFAULT_SECONDS"

definition valid_CommandTimeout :: "CommandTimeout \<Rightarrow> bool" where
  "valid_CommandTimeout t \<longleftrightarrow> 1 \<le> ct_seconds t \<and> ct_seconds t \<le> 300"

record OutputLimits =
  ol_stdout_bytes :: u64
  ol_stderr_bytes :: u64
  ol_combined_bytes :: u64
  ol_chunk_bytes :: u64

definition OutputLimits_new :: "u64 \<Rightarrow> u64 \<Rightarrow> u64 \<Rightarrow> u64 \<Rightarrow> ValidationError + OutputLimits" where
  "OutputLimits_new stdout_bytes stderr_bytes combined_bytes chunk_bytes =
     (if 0 \<in> set [stdout_bytes, stderr_bytes, combined_bytes, chunk_bytes]
      then Err (ValidationError_new ''output_limits'' VC_OutOfRange)
      else Ok \<lparr>ol_stdout_bytes = stdout_bytes, ol_stderr_bytes = stderr_bytes,
               ol_combined_bytes = combined_bytes, ol_chunk_bytes = chunk_bytes\<rparr>)"

record OutputLimitsWire =
  olw_stdout_bytes :: u64
  olw_stderr_bytes :: u64
  olw_combined_bytes :: u64
  olw_chunk_bytes :: u64

definition OutputLimits_try_from :: "OutputLimitsWire \<Rightarrow> ValidationError + OutputLimits" where
  "OutputLimits_try_from w =
     OutputLimits_new (olw_stdout_bytes w) (olw_stderr_bytes w) (olw_combined_bytes w) (olw_chunk_bytes w)"

definition OutputLimits_into :: "OutputLimits \<Rightarrow> OutputLimitsWire" where
  "OutputLimits_into l =
     \<lparr>olw_stdout_bytes = ol_stdout_bytes l, olw_stderr_bytes = ol_stderr_bytes l,
      olw_combined_bytes = ol_combined_bytes l, olw_chunk_bytes = ol_chunk_bytes l\<rparr>"

definition valid_OutputLimits :: "OutputLimits \<Rightarrow> bool" where
  "valid_OutputLimits l \<longleftrightarrow> ol_stdout_bytes l \<noteq> 0 \<and> ol_stderr_bytes l \<noteq> 0
     \<and> ol_combined_bytes l \<noteq> 0 \<and> ol_chunk_bytes l \<noteq> 0"

record ExecRequest =
  er_argv :: Argv
  er_timeout :: CommandTimeout
  er_output_limits :: OutputLimits

definition ExecRequest_new :: "Argv \<Rightarrow> CommandTimeout \<Rightarrow> OutputLimits \<Rightarrow> ExecRequest" where
  "ExecRequest_new argv timeout output_limits =
     \<lparr>er_argv = argv, er_timeout = timeout, er_output_limits = output_limits\<rparr>"

definition SANDBOX_WORKDIR :: string where
  "SANDBOX_WORKDIR = ''/sandbox''"

definition ExecRequest_workdir :: "ExecRequest \<Rightarrow> string" where
  "ExecRequest_workdir r = SANDBOX_WORKDIR"

definition valid_ExecRequest :: "ExecRequest \<Rightarrow> bool" where
  "valid_ExecRequest r \<longleftrightarrow>
     valid_Argv (er_argv r) \<and> valid_CommandTimeout (er_timeout r) \<and> valid_OutputLimits (er_output_limits r)"

section \<open>Operation contexts\<close>

datatype OperationDeadline = OperationDeadline (od_duration: duration)

definition OperationDeadline_new :: "duration \<Rightarrow> ValidationError + OperationDeadline" where
  "OperationDeadline_new d =
     (if d = 0 then Err (ValidationError_new ''operation_deadline'' VC_OutOfRange)
      else Ok (OperationDeadline d))"

text \<open>
  An operation context holds a cancellation token and a deadline. The token is a live value
  shared with the caller; the model keeps its identity, and whether it is cancelled is a
  question to the environment at the moment it is asked.
\<close>

record 'tok OperationContext =
  oc_cancellation :: 'tok
  oc_deadline :: OperationDeadline

definition OperationContext_new :: "'tok \<Rightarrow> OperationDeadline \<Rightarrow> 'tok OperationContext" where
  "OperationContext_new cancellation deadline =
     \<lparr>oc_cancellation = cancellation, oc_deadline = deadline\<rparr>"

lemmas [contract_defs] =
  ValidationError_new_def RequestOwnedId_generate_def RequestOwnedId_parse_def
  TemplateIdentity_new_def Sha256Digest_parse_def PolicyIdentity_new_def PolicyIdentity_try_from_def
  PolicyIdentity_into_def PolicyDocument_new_def PolicyDocument_try_from_def PolicyDocument_into_def
  CreateRequest_new_def Argv_new_def CommandTimeout_MIN_SECONDS_def CommandTimeout_MAX_SECONDS_def
  CommandTimeout_DEFAULT_SECONDS_def CommandTimeout_new_def CommandTimeout_default_def
  OutputLimits_new_def OutputLimits_try_from_def OutputLimits_into_def ExecRequest_new_def
  ExecRequest_workdir_def OperationDeadline_new_def OperationContext_new_def
  valid_TemplateIdentity_def valid_Sha256Digest_def valid_PolicyIdentity_def valid_PolicyDocument_def
  valid_Argv_def valid_CommandTimeout_def valid_OutputLimits_def valid_ExecRequest_def

section \<open>The values satisfy the wire contract\<close>

lemma RequestOwnedId_parse_Ok_iff:
  "RequestOwnedId_parse s = Ok i \<longleftrightarrow> valid_RequestOwnedId i \<and> roid_str i = s"
proof (cases "strip_prefix ''sbx-'' s")
  case None
  then have "\<nexists>suffix. s = ''sbx-'' @ suffix"
    by (metis option.distinct(1) strip_prefix_Some)
  with None show ?thesis
    by (auto simp: RequestOwnedId_parse_def valid_RequestOwnedId_def)
next
  case (Some suffix)
  then have s: "s = ''sbx-'' @ suffix"
    by (simp add: strip_prefix_Some)
  show ?thesis
    by (cases i) (auto simp: RequestOwnedId_parse_def valid_RequestOwnedId_def Some s)
qed

lemma RequestOwnedId_parse_Err:
  "RequestOwnedId_parse s = Err e \<Longrightarrow> e = ValidationError_new ''request_owned_id'' VC_InvalidFormat"
  by (auto simp: RequestOwnedId_parse_def split: option.splits if_splits)

interpretation roid_wire: validated_wire valid_RequestOwnedId RequestOwnedId_parse roid_str
  by unfold_locales (simp_all add: RequestOwnedId_parse_Ok_iff)

interpretation template_wire: validated_wire valid_TemplateIdentity TemplateIdentity_new template_str
  by unfold_locales (auto simp: contract_defs split: if_splits)

interpretation sha_wire: validated_wire valid_Sha256Digest Sha256Digest_parse sha_str
  by unfold_locales (auto simp: contract_defs split: if_splits)

interpretation policy_wire: validated_wire valid_PolicyIdentity PolicyIdentity_try_from PolicyIdentity_into
  by unfold_locales (auto simp: contract_defs split: if_splits)

interpretation document_wire: validated_wire valid_PolicyDocument PolicyDocument_try_from PolicyDocument_into
  by unfold_locales (auto simp: contract_defs split: if_splits)

interpretation argv_wire: validated_wire valid_Argv Argv_new argv_slice
  by unfold_locales (auto simp: contract_defs split: if_splits)

interpretation timeout_wire: validated_wire valid_CommandTimeout CommandTimeout_new ct_seconds
  by unfold_locales (auto simp: contract_defs split: if_splits)

interpretation limits_wire: validated_wire valid_OutputLimits OutputLimits_try_from OutputLimits_into
  by unfold_locales (auto simp: contract_defs split: if_splits)

interpretation deadline_wire: validated_wire "\<lambda>d. 0 < od_duration d" OperationDeadline_new od_duration
  by unfold_locales (auto simp: contract_defs split: if_splits)

lemma valid_RequestOwnedId_length: "valid_RequestOwnedId i \<Longrightarrow> length (roid_str i) = 19"
  by (auto simp: valid_RequestOwnedId_def)

lemma CommandTimeout_default_valid: "valid_CommandTimeout CommandTimeout_default"
  by (simp add: contract_defs)

section \<open>Properties of request identifiers\<close>

text \<open>
  A text is a request identifier exactly when it is \<open>sbx-\<close> followed by fifteen lower-case
  hexadecimal digits, and then the identifier is that text.
\<close>

theorem request_id_text:
  "RequestOwnedId_parse s = Ok i \<longleftrightarrow>
     i = RequestOwnedId s \<and> length s = 19 \<and> take 4 s = ''sbx-'' \<and> list_all is_lower_hex (drop 4 s)"
proof -
  have "(\<exists>suffix. s = ''sbx-'' @ suffix \<and> length suffix = 15 \<and> list_all is_lower_hex suffix)
      \<longleftrightarrow> length s = 19 \<and> take 4 s = ''sbx-'' \<and> list_all is_lower_hex (drop 4 s)"
  proof
    assume *: "length s = 19 \<and> take 4 s = ''sbx-'' \<and> list_all is_lower_hex (drop 4 s)"
    then have "s = ''sbx-'' @ drop 4 s"
      by (metis append_take_drop_id)
    with * show "\<exists>suffix. s = ''sbx-'' @ suffix \<and> length suffix = 15 \<and> list_all is_lower_hex suffix"
      by (intro exI [of _ "drop 4 s"]) simp
  qed (auto simp: numeral_eq_Suc)
  then show ?thesis
    by (cases i) (auto simp: RequestOwnedId_parse_Ok_iff valid_RequestOwnedId_def)
qed

end
