(* ===== verification/Contract_Outcomes.thy ===== *)
theory Contract_Outcomes
  imports Contract_Values
begin

text \<open>
  Lifecycle states, terminal results and typed failures of the runtime contract
  (\<^verbatim>\<open>src/src/runtime_contract/state.rs\<close>, \<^verbatim>\<open>result.rs\<close>, \<^verbatim>\<open>error.rs\<close>), and the shape of the
  provider trait of \<^verbatim>\<open>runtime.rs\<close>. The constructors of a failure check the combination of its
  fields; \<open>valid_ExecFailure\<close> is the set of combinations they let through.
\<close>

section \<open>Lifecycle states\<close>

datatype ProviderCapability = Attested | EnforcedLocally

datatype CreationState = CS_NotCreated | CS_PossiblyCreated | CS_Conflict

datatype DispatchState = NotDispatched | PossiblyDispatched

datatype ObservedTimeout = OT_NotObserved | OT_Confirmed | OT_Possible

datatype FailureTimeout = FT_NotObserved | FT_Confirmed | FT_Possible | FT_Unknown

fun FailureTimeout_from :: "ObservedTimeout \<Rightarrow> FailureTimeout" where
  "FailureTimeout_from OT_NotObserved = FT_NotObserved"
| "FailureTimeout_from OT_Confirmed = FT_Confirmed"
| "FailureTimeout_from OT_Possible = FT_Possible"

datatype CleanupState = CL_NotNeeded | CL_Deleted | CL_Failed

record CleanupTarget =
  target_request_id :: RequestOwnedId

definition CleanupTarget_new :: "RequestOwnedId \<Rightarrow> CleanupTarget" where
  "CleanupTarget_new request_id = \<lparr>target_request_id = request_id\<rparr>"

datatype OpaqueProviderHandle = OpaqueProviderHandle (handle_bytes: bytes)

definition OpaqueProviderHandle_new :: "bytes \<Rightarrow> ValidationError + OpaqueProviderHandle" where
  "OpaqueProviderHandle_new body =
     (if body = [] then Err (ValidationError_new ''provider_handle'' VC_Empty)
      else Ok (OpaqueProviderHandle body))"

record CreatedSandbox =
  cs_request_id :: RequestOwnedId
  cs_provider_handle :: OpaqueProviderHandle
  cs_expected_policy :: PolicyIdentity

definition CreatedSandbox_from_runtime ::
  "RequestOwnedId \<Rightarrow> OpaqueProviderHandle \<Rightarrow> PolicyIdentity \<Rightarrow> CreatedSandbox" where
  "CreatedSandbox_from_runtime request_id provider_handle expected_policy =
     \<lparr>cs_request_id = request_id, cs_provider_handle = provider_handle,
      cs_expected_policy = expected_policy\<rparr>"

definition CreatedSandbox_cleanup_target :: "CreatedSandbox \<Rightarrow> CleanupTarget" where
  "CreatedSandbox_cleanup_target c = CleanupTarget_new (cs_request_id c)"

record ReadySandbox =
  rs_request_id :: RequestOwnedId
  rs_provider_handle :: OpaqueProviderHandle
  rs_active_policy :: PolicyIdentity

definition ReadySandbox_attest ::
  "CreatedSandbox \<Rightarrow> PolicyIdentity \<Rightarrow> PolicyIdentity \<Rightarrow> CreatedSandbox + ReadySandbox" where
  "ReadySandbox_attest created expected observed =
     (if cs_expected_policy created \<noteq> expected \<or> expected \<noteq> observed then Err created
      else Ok \<lparr>rs_request_id = cs_request_id created,
               rs_provider_handle = cs_provider_handle created,
               rs_active_policy = cs_expected_policy created\<rparr>)"

definition ReadySandbox_cleanup_target :: "ReadySandbox \<Rightarrow> CleanupTarget" where
  "ReadySandbox_cleanup_target r = CleanupTarget_new (rs_request_id r)"

section \<open>Terminal results\<close>

datatype EgressDecisionKind = EgressAllowed | EgressDenied

record EgressDecision =
  ed_decision :: EgressDecisionKind
  ed_host :: string
  ed_port :: u16

definition EgressDecision_new :: "EgressDecisionKind \<Rightarrow> string \<Rightarrow> u16 \<Rightarrow> EgressDecision" where
  "EgressDecision_new decision host port =
     \<lparr>ed_decision = decision, ed_host = host, ed_port = port\<rparr>"

datatype ViolationCategory =
  DeniedFileWrite | DeniedFileRead | DeniedNetwork | DeniedProcess | OtherViolation

record ViolationEvidence =
  ve_count :: u64
  ve_categories :: "ViolationCategory list"

record SandboxEvidence =
  se_egress_decisions :: "EgressDecision list"
  se_violation :: "ViolationEvidence option"

definition SandboxEvidence_new ::
  "EgressDecision list \<Rightarrow> ViolationEvidence option \<Rightarrow> SandboxEvidence" where
  "SandboxEvidence_new egress_decisions violation =
     \<lparr>se_egress_decisions = egress_decisions, se_violation = violation\<rparr>"

definition SandboxEvidence_default :: SandboxEvidence where
  "SandboxEvidence_default = \<lparr>se_egress_decisions = [], se_violation = None\<rparr>"

definition SandboxEvidence_is_empty :: "SandboxEvidence \<Rightarrow> bool" where
  "SandboxEvidence_is_empty e \<longleftrightarrow> se_egress_decisions e = [] \<and> se_violation e = None"

datatype DeleteOutcome = Deleted | AlreadyAbsent

text \<open>An exit code is a Rust \<open>i32\<close>: a 32-bit word read as two's complement.\<close>

datatype ObservedExitCode = ObservedExitCode (exit_get: i32)

definition ObservedExitCode_new :: "i32 \<Rightarrow> ValidationError + ObservedExitCode" where
  "ObservedExitCode_new value =
     (if sint value < 0 then Err (ValidationError_new ''exit_code'' VC_OutOfRange)
      else Ok (ObservedExitCode value))"

definition valid_ObservedExitCode :: "ObservedExitCode \<Rightarrow> bool" where
  "valid_ObservedExitCode c \<longleftrightarrow> 0 \<le> sint (exit_get c)"

record OutputByteCounts =
  obc_stdout :: u64
  obc_stderr :: u64

definition OutputByteCounts_new :: "u64 \<Rightarrow> u64 \<Rightarrow> OutputByteCounts" where
  "OutputByteCounts_new stdout_bytes stderr_bytes =
     \<lparr>obc_stdout = stdout_bytes, obc_stderr = stderr_bytes\<rparr>"

definition OutputByteCounts_default :: OutputByteCounts where
  "OutputByteCounts_default = OutputByteCounts_new 0 0"

definition OutputByteCounts_combined :: "OutputByteCounts \<Rightarrow> u64 option" where
  "OutputByteCounts_combined c = checked_add_u64 (obc_stdout c) (obc_stderr c)"

record ExecCompleted =
  ec_exit_code :: ObservedExitCode
  ec_stdout :: bytes
  ec_stderr :: bytes
  ec_timeout :: ObservedTimeout
  ec_sandbox_evidence :: SandboxEvidence

definition ExecCompleted_new ::
  "ObservedExitCode \<Rightarrow> bytes \<Rightarrow> bytes \<Rightarrow> ObservedTimeout \<Rightarrow> ExecCompleted" where
  "ExecCompleted_new exit_code stdout stderr timeout =
     \<lparr>ec_exit_code = exit_code, ec_stdout = stdout, ec_stderr = stderr, ec_timeout = timeout,
      ec_sandbox_evidence = \<lparr>se_egress_decisions = [], se_violation = None\<rparr>\<rparr>"

definition ExecCompleted_with_sandbox_evidence :: "ExecCompleted \<Rightarrow> SandboxEvidence \<Rightarrow> ExecCompleted" where
  "ExecCompleted_with_sandbox_evidence c evidence = c\<lparr>ec_sandbox_evidence := evidence\<rparr>"

text \<open>
  The wire struct has the same fields; an absent \<open>sandbox_evidence\<close> decodes to the default and an
  empty one is not written (\<open>None\<close>).
\<close>

record ExecCompletedWire =
  ecw_exit_code :: ObservedExitCode
  ecw_stdout :: bytes
  ecw_stderr :: bytes
  ecw_timeout :: ObservedTimeout
  ecw_sandbox_evidence :: "SandboxEvidence option"

definition ExecCompleted_try_from :: "ExecCompletedWire \<Rightarrow> ValidationError + ExecCompleted" where
  "ExecCompleted_try_from w =
     Ok (ExecCompleted_with_sandbox_evidence
           (ExecCompleted_new (ecw_exit_code w) (ecw_stdout w) (ecw_stderr w) (ecw_timeout w))
           (case ecw_sandbox_evidence w of None \<Rightarrow> SandboxEvidence_default | Some e \<Rightarrow> e))"

definition ExecCompleted_into :: "ExecCompleted \<Rightarrow> ExecCompletedWire" where
  "ExecCompleted_into c =
     \<lparr>ecw_exit_code = ec_exit_code c, ecw_stdout = ec_stdout c, ecw_stderr = ec_stderr c,
      ecw_timeout = ec_timeout c,
      ecw_sandbox_evidence =
        (if SandboxEvidence_is_empty (ec_sandbox_evidence c) then None
         else Some (ec_sandbox_evidence c))\<rparr>"

section \<open>Failures\<close>

datatype OperatorDetail = OperatorDetail (detail_str: string)

definition OperatorDetail_redacted :: "string \<Rightarrow> OperatorDetail" where
  "OperatorDetail_redacted value = OperatorDetail value"

datatype CreateFailureCode =
    CF_Validation | CF_Auth | CF_Transport | CF_Deadline | CF_Cancelled | CF_Protocol | CF_Provider

datatype CreateFailure =
    NotCreated CreateFailureCode OperatorDetail
  | PossiblyCreated CleanupTarget CreateFailureCode OperatorDetail
  | Conflict CreateFailureCode OperatorDetail

fun CreateFailure_state :: "CreateFailure \<Rightarrow> CreationState" where
  "CreateFailure_state (NotCreated code detail) = CS_NotCreated"
| "CreateFailure_state (PossiblyCreated target code detail) = CS_PossiblyCreated"
| "CreateFailure_state (Conflict code detail) = CS_Conflict"

fun CreateFailure_cleanup_target :: "CreateFailure \<Rightarrow> CleanupTarget option" where
  "CreateFailure_cleanup_target (PossiblyCreated target code detail) = Some target"
| "CreateFailure_cleanup_target (NotCreated code detail) = None"
| "CreateFailure_cleanup_target (Conflict code detail) = None"

fun CreateFailure_code :: "CreateFailure \<Rightarrow> CreateFailureCode" where
  "CreateFailure_code (NotCreated code detail) = code"
| "CreateFailure_code (PossiblyCreated target code detail) = code"
| "CreateFailure_code (Conflict code detail) = code"

datatype ReadinessFailureCode =
    RF_PolicyMismatch | RF_WorkloadError | RF_Transport | RF_Deadline | RF_Cancelled | RF_Protocol

record ReadinessFailure =
  rf_cleanup_target :: CleanupTarget
  rf_code :: ReadinessFailureCode
  rf_detail :: OperatorDetail

definition ReadinessFailure_new ::
  "CleanupTarget \<Rightarrow> ReadinessFailureCode \<Rightarrow> OperatorDetail \<Rightarrow> ReadinessFailure" where
  "ReadinessFailure_new target code detail =
     \<lparr>rf_cleanup_target = target, rf_code = code, rf_detail = detail\<rparr>"

datatype ExecFailureCode =
    EF_Transport | EF_Deadline | EF_Cancelled | EF_MissingTerminalExit | EF_OutputLimitExceeded
  | EF_Protocol | EF_Provider

datatype OutputLimitKind = LimitStdout | LimitStderr | LimitCombined | LimitChunk

record ExecFailure =
  ef_cleanup_target :: CleanupTarget
  ef_dispatch_state :: DispatchState
  ef_timeout_state :: FailureTimeout
  ef_code :: ExecFailureCode
  ef_counts :: OutputByteCounts
  ef_output_limit :: "OutputLimitKind option"
  ef_detail :: OperatorDetail

definition ExecFailure_validated ::
  "CleanupTarget \<Rightarrow> DispatchState \<Rightarrow> FailureTimeout \<Rightarrow> ExecFailureCode \<Rightarrow> OutputByteCounts \<Rightarrow>
   OutputLimitKind option \<Rightarrow> OperatorDetail \<Rightarrow> ValidationError + ExecFailure" where
  "ExecFailure_validated target dispatch_state timeout_state code counts output_limit detail =
     (let special_code = (code = EF_MissingTerminalExit \<or> code = EF_OutputLimitExceeded);
          invalid =
            (case dispatch_state of
               NotDispatched \<Rightarrow>
                 timeout_state \<noteq> FT_NotObserved
                 \<or> counts \<noteq> OutputByteCounts_default
                 \<or> output_limit \<noteq> None
                 \<or> special_code
             | PossiblyDispatched \<Rightarrow>
                 timeout_state = FT_NotObserved
                 \<or> (code = EF_MissingTerminalExit \<and> output_limit \<noteq> None)
                 \<or> (code = EF_OutputLimitExceeded \<and> output_limit = None)
                 \<or> (\<not> special_code \<and> output_limit \<noteq> None))
      in if invalid then Err (ValidationError_new ''exec_failure'' VC_InvalidCombination)
         else Ok \<lparr>ef_cleanup_target = target, ef_dispatch_state = dispatch_state,
                  ef_timeout_state = timeout_state, ef_code = code, ef_counts = counts,
                  ef_output_limit = output_limit, ef_detail = detail\<rparr>)"

definition ExecFailure_not_dispatched ::
  "CleanupTarget \<Rightarrow> ExecFailureCode \<Rightarrow> OperatorDetail \<Rightarrow> ValidationError + ExecFailure" where
  "ExecFailure_not_dispatched target code detail =
     ExecFailure_validated target NotDispatched FT_NotObserved code OutputByteCounts_default None detail"

definition ExecFailure_possibly_dispatched ::
  "CleanupTarget \<Rightarrow> ExecFailureCode \<Rightarrow> FailureTimeout \<Rightarrow> OutputByteCounts \<Rightarrow> OperatorDetail \<Rightarrow>
   ValidationError + ExecFailure" where
  "ExecFailure_possibly_dispatched target code timeout_state counts detail =
     (if code = EF_MissingTerminalExit \<or> code = EF_OutputLimitExceeded
      then Err (ValidationError_new ''exec_failure'' VC_InvalidCombination)
      else ExecFailure_validated target PossiblyDispatched timeout_state code counts None detail)"

definition ExecFailure_missing_terminal_exit ::
  "CleanupTarget \<Rightarrow> FailureTimeout \<Rightarrow> OutputByteCounts \<Rightarrow> OperatorDetail \<Rightarrow> ValidationError + ExecFailure" where
  "ExecFailure_missing_terminal_exit target timeout_state counts detail =
     ExecFailure_validated target PossiblyDispatched timeout_state EF_MissingTerminalExit counts None detail"

definition ExecFailure_output_limit_exceeded ::
  "CleanupTarget \<Rightarrow> FailureTimeout \<Rightarrow> OutputByteCounts \<Rightarrow> OutputLimitKind \<Rightarrow> OperatorDetail \<Rightarrow>
   ValidationError + ExecFailure" where
  "ExecFailure_output_limit_exceeded target timeout_state counts output_limit detail =
     ExecFailure_validated target PossiblyDispatched timeout_state EF_OutputLimitExceeded counts
       (Some output_limit) detail"

text \<open>The wire form of an execution failure is the same struct before validation.\<close>

record ExecFailureWire =
  efw_cleanup_target :: CleanupTarget
  efw_dispatch_state :: DispatchState
  efw_timeout_state :: FailureTimeout
  efw_code :: ExecFailureCode
  efw_counts :: OutputByteCounts
  efw_output_limit :: "OutputLimitKind option"
  efw_detail :: OperatorDetail

definition ExecFailure_try_from :: "ExecFailureWire \<Rightarrow> ValidationError + ExecFailure" where
  "ExecFailure_try_from w =
     ExecFailure_validated (efw_cleanup_target w) (efw_dispatch_state w) (efw_timeout_state w)
       (efw_code w) (efw_counts w) (efw_output_limit w) (efw_detail w)"

definition ExecFailure_into :: "ExecFailure \<Rightarrow> ExecFailureWire" where
  "ExecFailure_into f =
     \<lparr>efw_cleanup_target = ef_cleanup_target f, efw_dispatch_state = ef_dispatch_state f,
      efw_timeout_state = ef_timeout_state f, efw_code = ef_code f, efw_counts = ef_counts f,
      efw_output_limit = ef_output_limit f, efw_detail = ef_detail f\<rparr>"

text \<open>
  The combinations a failure may have: a failure before dispatch carries no timeout evidence and
  no output, a failure after possible dispatch always carries timeout evidence, and an output
  limit is named exactly when the limit is the reason.
\<close>

definition valid_ExecFailure :: "ExecFailure \<Rightarrow> bool" where
  "valid_ExecFailure f \<longleftrightarrow>
     (ef_dispatch_state f = NotDispatched \<longleftrightarrow> ef_timeout_state f = FT_NotObserved)
     \<and> (ef_dispatch_state f = NotDispatched \<longrightarrow>
          ef_counts f = OutputByteCounts_default \<and> ef_code f \<noteq> EF_MissingTerminalExit)
     \<and> (ef_output_limit f \<noteq> None \<longleftrightarrow> ef_code f = EF_OutputLimitExceeded)
     \<and> (ef_code f = EF_OutputLimitExceeded \<longrightarrow> ef_dispatch_state f = PossiblyDispatched)"

datatype CleanupFailureCode =
    CU_Transport | CU_Deadline | CU_Cancelled | CU_Ownership | CU_Protocol | CU_Provider

record CleanupFailure =
  cuf_cleanup_target :: CleanupTarget
  cuf_code :: CleanupFailureCode
  cuf_detail :: OperatorDetail

definition CleanupFailure_new ::
  "CleanupTarget \<Rightarrow> CleanupFailureCode \<Rightarrow> OperatorDetail \<Rightarrow> CleanupFailure" where
  "CleanupFailure_new target code detail =
     \<lparr>cuf_cleanup_target = target, cuf_code = code, cuf_detail = detail\<rparr>"

lemmas [contract_defs] =
  CleanupTarget_new_def OpaqueProviderHandle_new_def CreatedSandbox_from_runtime_def
  CreatedSandbox_cleanup_target_def ReadySandbox_attest_def ReadySandbox_cleanup_target_def
  EgressDecision_new_def SandboxEvidence_new_def SandboxEvidence_default_def
  SandboxEvidence_is_empty_def ObservedExitCode_new_def valid_ObservedExitCode_def
  OutputByteCounts_new_def OutputByteCounts_default_def OutputByteCounts_combined_def
  ExecCompleted_new_def ExecCompleted_with_sandbox_evidence_def ExecCompleted_try_from_def
  ExecCompleted_into_def OperatorDetail_redacted_def ReadinessFailure_new_def
  ExecFailure_not_dispatched_def ExecFailure_possibly_dispatched_def
  ExecFailure_missing_terminal_exit_def ExecFailure_output_limit_exceeded_def
  ExecFailure_try_from_def ExecFailure_into_def CleanupFailure_new_def

section \<open>Lemmas\<close>

lemma target_request_id_new [simp]: "target_request_id (CleanupTarget_new i) = i"
  by (simp add: CleanupTarget_new_def)

lemma CleanupTarget_new_id [simp]: "CleanupTarget_new (target_request_id t) = t"
  by (simp add: CleanupTarget_new_def)

lemma ExecFailure_validated_Ok_iff:
  "ExecFailure_validated target dispatch_state timeout_state code counts output_limit detail = Ok f
   \<longleftrightarrow> valid_ExecFailure f
      \<and> f = \<lparr>ef_cleanup_target = target, ef_dispatch_state = dispatch_state,
              ef_timeout_state = timeout_state, ef_code = code, ef_counts = counts,
              ef_output_limit = output_limit, ef_detail = detail\<rparr>"
  by (cases dispatch_state; cases code)
    (auto simp: ExecFailure_validated_def valid_ExecFailure_def split: if_splits)

lemma ExecFailure_validated_valid:
  "ExecFailure_validated target dispatch_state timeout_state code counts output_limit detail = Ok f
   \<Longrightarrow> valid_ExecFailure f"
  using ExecFailure_validated_Ok_iff by blast

interpretation exit_wire: validated_wire valid_ObservedExitCode ObservedExitCode_new exit_get
  by unfold_locales (auto simp: contract_defs split: if_splits)

interpretation handle_wire: validated_wire "\<lambda>h. handle_bytes h \<noteq> []" OpaqueProviderHandle_new handle_bytes
  by unfold_locales (auto simp: contract_defs split: if_splits)

interpretation exec_failure_wire: validated_wire valid_ExecFailure ExecFailure_try_from ExecFailure_into
  by unfold_locales
    (auto simp: ExecFailure_try_from_def ExecFailure_into_def ExecFailure_validated_Ok_iff)

lemma ExecCompleted_roundtrip: "ExecCompleted_try_from (ExecCompleted_into c) = Ok c"
  by (auto simp: contract_defs)

lemma ReadySandbox_attest_Ok_iff:
  "ReadySandbox_attest created expected observed = Ok ready \<longleftrightarrow>
     cs_expected_policy created = expected \<and> expected = observed
     \<and> rs_request_id ready = cs_request_id created
     \<and> rs_provider_handle ready = cs_provider_handle created
     \<and> rs_active_policy ready = observed"
  by (cases ready) (auto simp: ReadySandbox_attest_def)

lemma ReadySandbox_attest_Err:
  "ReadySandbox_attest created expected observed = Err c \<Longrightarrow> c = created"
  by (auto simp: ReadySandbox_attest_def split: if_splits)

text \<open>
  The \<open>expect\<close> calls of the program on failure constructors: with these codes and with timeout
  evidence after dispatch they never panic.
\<close>

lemma not_dispatched_ok:
  "is_ok (ExecFailure_not_dispatched target code detail) \<longleftrightarrow>
     code \<noteq> EF_MissingTerminalExit \<and> code \<noteq> EF_OutputLimitExceeded"
  by (cases code) (auto simp: contract_defs ExecFailure_validated_def)

lemma possibly_dispatched_ok:
  "is_ok (ExecFailure_possibly_dispatched target code timeout_state counts detail) \<longleftrightarrow>
     code \<noteq> EF_MissingTerminalExit \<and> code \<noteq> EF_OutputLimitExceeded \<and> timeout_state \<noteq> FT_NotObserved"
  by (cases code; cases timeout_state) (auto simp: contract_defs ExecFailure_validated_def)

lemma missing_terminal_exit_ok:
  "is_ok (ExecFailure_missing_terminal_exit target timeout_state counts detail) \<longleftrightarrow>
     timeout_state \<noteq> FT_NotObserved"
  by (cases timeout_state) (auto simp: contract_defs ExecFailure_validated_def)

lemma output_limit_exceeded_ok:
  "is_ok (ExecFailure_output_limit_exceeded target timeout_state counts limit detail) \<longleftrightarrow>
     timeout_state \<noteq> FT_NotObserved"
  by (cases timeout_state) (auto simp: contract_defs ExecFailure_validated_def)

lemmas exec_failure_expects =
  not_dispatched_ok possibly_dispatched_ok missing_terminal_exit_ok output_limit_exceeded_ok

lemma CreateFailure_cleanup_iff:
  "CreateFailure_cleanup_target f \<noteq> None \<longleftrightarrow> CreateFailure_state f = CS_PossiblyCreated"
  by (cases f) auto

section \<open>Properties of execution failures\<close>

text \<open>
  A wire failure decodes exactly to a consistent one: a failure before dispatch has no timeout
  evidence, no output and no cause that needs a running command; after possible dispatch it always
  has timeout evidence; an output limit is named exactly when it is the cause. A decoded failure
  encodes to the text it came from.
\<close>

theorem exec_failure_decodes_iff:
  "ExecFailure_try_from w = Ok f \<longleftrightarrow> valid_ExecFailure f \<and> ExecFailure_into f = w"
  using exec_failure_wire.try_from_sound exec_failure_wire.into_complete by blast

end
