(* ===== verification/Protocol.thy ===== *)
theory Protocol
  imports Contract_Outcomes
begin

text \<open>
  The local service protocol (\<^verbatim>\<open>src/src/protocol/identity.rs\<close>, \<^verbatim>\<open>message.rs\<close>, \<^verbatim>\<open>frame.rs\<close>):
  its identifiers, envelopes and messages, and the length-prefixed framing. The \<open>uuid\<close> and
  \<open>serde_json\<close> crates are parameters: a record of the four UUID operations the code calls, and an
  encoder and a decoder for the JSON text. A reader is the list of bytes still to come before the
  end of the stream; a writer has the bytes it has accepted and how many more it will accept.
\<close>

unbundle bit_operations_syntax

section \<open>Identifiers\<close>

datatype ProtocolValidationError = PV_Empty | PV_InvalidFormat | PV_OutOfRange

text \<open>What the code uses of the \<open>uuid\<close> crate.\<close>

record 'u uuid_lib =
  uuid_parse_str :: "string \<Rightarrow> 'u option"
  uuid_get_version_num :: "'u \<Rightarrow> nat"
  uuid_is_rfc4122 :: "'u \<Rightarrow> bool"
  uuid_to_string :: "'u \<Rightarrow> string"

datatype OperationId = OperationId (oid_str: string)

datatype CapabilityToken = CapabilityToken (token_str: string)

text \<open>The body the macro \<open>uuid_value!\<close> gives to both identifier types.\<close>

definition uuid_value_parse :: "'u uuid_lib \<Rightarrow> string \<Rightarrow> ProtocolValidationError + string" where
  "uuid_value_parse U value =
     (case uuid_parse_str U value of
        None \<Rightarrow> Err PV_InvalidFormat
      | Some uuid \<Rightarrow>
          if length value \<noteq> 36 \<or> uuid_get_version_num U uuid \<noteq> 4
             \<or> \<not> uuid_is_rfc4122 U uuid \<or> uuid_to_string U uuid \<noteq> value
          then Err PV_InvalidFormat
          else Ok value)"

definition uuid_value_generate :: "'u uuid_lib \<Rightarrow> 'u \<Rightarrow> string" where
  "uuid_value_generate U fresh_v4 = uuid_to_string U fresh_v4"

definition OperationId_parse :: "'u uuid_lib \<Rightarrow> string \<Rightarrow> ProtocolValidationError + OperationId" where
  "OperationId_parse U value = map_sum id OperationId (uuid_value_parse U value)"

definition CapabilityToken_parse :: "'u uuid_lib \<Rightarrow> string \<Rightarrow> ProtocolValidationError + CapabilityToken" where
  "CapabilityToken_parse U value = map_sum id CapabilityToken (uuid_value_parse U value)"

definition valid_uuid_text :: "'u uuid_lib \<Rightarrow> string \<Rightarrow> bool" where
  "valid_uuid_text U s \<longleftrightarrow> is_ok (uuid_value_parse U s)"

datatype DeadlineMillis = DeadlineMillis (dm_get: u64)

definition DeadlineMillis_MIN :: u64 where "DeadlineMillis_MIN = 1"
definition DeadlineMillis_MAX :: u64 where "DeadlineMillis_MAX = 1200000"

definition DeadlineMillis_new :: "u64 \<Rightarrow> ProtocolValidationError + DeadlineMillis" where
  "DeadlineMillis_new value =
     (if \<not> (DeadlineMillis_MIN \<le> value \<and> value \<le> DeadlineMillis_MAX) then Err PV_OutOfRange
      else Ok (DeadlineMillis value))"

definition DeadlineMillis_duration :: "DeadlineMillis \<Rightarrow> duration" where
  "DeadlineMillis_duration d = millis (dm_get d)"

definition valid_DeadlineMillis :: "DeadlineMillis \<Rightarrow> bool" where
  "valid_DeadlineMillis d \<longleftrightarrow> DeadlineMillis_MIN \<le> dm_get d \<and> dm_get d \<le> DeadlineMillis_MAX"

record AssetBundleIdentity =
  ab_runtime_contract_version :: u16
  ab_adapter_build_sha256 :: Sha256Digest
  ab_template :: TemplateIdentity
  ab_policy :: PolicyIdentity
  ab_compatibility_id :: string

definition is_compatibility_byte :: "char \<Rightarrow> bool" where
  "is_compatibility_byte c \<longleftrightarrow>
     is_ascii_alphanumeric c \<or> c = CHR ''.'' \<or> c = CHR ''-'' \<or> c = CHR ''_''"

definition AssetBundleIdentity_new ::
  "u16 \<Rightarrow> Sha256Digest \<Rightarrow> TemplateIdentity \<Rightarrow> PolicyIdentity \<Rightarrow> string \<Rightarrow>
   ProtocolValidationError + AssetBundleIdentity" where
  "AssetBundleIdentity_new runtime_contract_version adapter_build_sha256 template policy compatibility_id =
     (if runtime_contract_version = 0 then Err PV_OutOfRange
      else if compatibility_id = [] then Err PV_Empty
      else if length compatibility_id > 128 \<or> \<not> list_all is_compatibility_byte compatibility_id
      then Err PV_InvalidFormat
      else Ok \<lparr>ab_runtime_contract_version = runtime_contract_version,
               ab_adapter_build_sha256 = adapter_build_sha256, ab_template = template,
               ab_policy = policy, ab_compatibility_id = compatibility_id\<rparr>)"

record AssetBundleWire =
  abw_runtime_contract_version :: u16
  abw_adapter_build_sha256 :: Sha256Digest
  abw_template :: TemplateIdentity
  abw_policy :: PolicyIdentity
  abw_compatibility_id :: string

definition AssetBundleIdentity_try_from :: "AssetBundleWire \<Rightarrow> ProtocolValidationError + AssetBundleIdentity" where
  "AssetBundleIdentity_try_from w =
     AssetBundleIdentity_new (abw_runtime_contract_version w) (abw_adapter_build_sha256 w)
       (abw_template w) (abw_policy w) (abw_compatibility_id w)"

definition AssetBundleIdentity_into :: "AssetBundleIdentity \<Rightarrow> AssetBundleWire" where
  "AssetBundleIdentity_into b =
     \<lparr>abw_runtime_contract_version = ab_runtime_contract_version b,
      abw_adapter_build_sha256 = ab_adapter_build_sha256 b, abw_template = ab_template b,
      abw_policy = ab_policy b, abw_compatibility_id = ab_compatibility_id b\<rparr>"

definition valid_AssetBundleIdentity :: "AssetBundleIdentity \<Rightarrow> bool" where
  "valid_AssetBundleIdentity b \<longleftrightarrow>
     ab_runtime_contract_version b \<noteq> 0 \<and> ab_compatibility_id b \<noteq> []
     \<and> length (ab_compatibility_id b) \<le> 128 \<and> list_all is_compatibility_byte (ab_compatibility_id b)"

section \<open>Messages\<close>

definition PROTOCOL_VERSION :: u16 where
  "PROTOCOL_VERSION = 1"

datatype ServiceRequest =
    SReq_Health
  | SReq_Create CreateRequest DeadlineMillis
  | SReq_WaitReady RequestOwnedId CapabilityToken PolicyIdentity DeadlineMillis
  | SReq_PrepareExec RequestOwnedId CapabilityToken ExecRequest DeadlineMillis
  | SReq_CommitExec RequestOwnedId CapabilityToken DeadlineMillis
  | SReq_Delete CleanupTarget DeadlineMillis
  | SReq_WaitDeleted CleanupTarget DeadlineMillis
  | SReq_Cancel OperationId
  | SReq_BeginDrain
  | SReq_DrainStatus

fun ServiceRequest_mutates_lifecycle :: "ServiceRequest \<Rightarrow> bool" where
  "ServiceRequest_mutates_lifecycle (SReq_Create _ _) = True"
| "ServiceRequest_mutates_lifecycle (SReq_WaitReady _ _ _ _) = True"
| "ServiceRequest_mutates_lifecycle (SReq_PrepareExec _ _ _ _) = True"
| "ServiceRequest_mutates_lifecycle (SReq_CommitExec _ _ _) = True"
| "ServiceRequest_mutates_lifecycle (SReq_Delete _ _) = True"
| "ServiceRequest_mutates_lifecycle (SReq_WaitDeleted _ _) = True"
| "ServiceRequest_mutates_lifecycle _ = False"

record RequestEnvelope =
  rqe_protocol_version :: u16
  rqe_operation_id :: OperationId
  rqe_asset_bundle :: AssetBundleIdentity
  rqe_request :: ServiceRequest

definition RequestEnvelope_new :: "OperationId \<Rightarrow> AssetBundleIdentity \<Rightarrow> ServiceRequest \<Rightarrow> RequestEnvelope" where
  "RequestEnvelope_new operation_id asset_bundle request =
     \<lparr>rqe_protocol_version = PROTOCOL_VERSION, rqe_operation_id = operation_id,
      rqe_asset_bundle = asset_bundle, rqe_request = request\<rparr>"

definition RequestEnvelope_into_parts :: "RequestEnvelope \<Rightarrow> OperationId \<times> AssetBundleIdentity \<times> ServiceRequest" where
  "RequestEnvelope_into_parts e = (rqe_operation_id e, rqe_asset_bundle e, rqe_request e)"

record HealthStatus =
  hs_ready :: bool
  hs_draining :: bool
  hs_startup_reconciled :: bool
  hs_active_operations :: u64
  hs_pending_cleanup_records :: u64

definition HealthStatus_new :: "bool \<Rightarrow> bool \<Rightarrow> bool \<Rightarrow> u64 \<Rightarrow> u64 \<Rightarrow> HealthStatus" where
  "HealthStatus_new ready draining startup_reconciled active_operations pending_cleanup_records =
     \<lparr>hs_ready = ready, hs_draining = draining, hs_startup_reconciled = startup_reconciled,
      hs_active_operations = active_operations,
      hs_pending_cleanup_records = pending_cleanup_records\<rparr>"

datatype BoundaryFailureCode =
    BF_Authentication | BF_Authorization | BF_ProtocolVersion | BF_AssetBundleMismatch
  | BF_InvalidRequest | BF_RequestTooLarge | BF_ResponseTooLarge | BF_ServiceUnavailable
  | BF_Draining | BF_LifecycleConflict | BF_DurableState | BF_Internal

record BoundaryFailure =
  bf_code :: BoundaryFailureCode
  bf_cleanup_target :: "CleanupTarget option"
  bf_dispatch_state :: "DispatchState option"
  bf_detail :: OperatorDetail

definition BoundaryFailure_new ::
  "BoundaryFailureCode \<Rightarrow> CleanupTarget option \<Rightarrow> DispatchState option \<Rightarrow> OperatorDetail \<Rightarrow> BoundaryFailure" where
  "BoundaryFailure_new code cleanup_target dispatch_state detail =
     \<lparr>bf_code = code, bf_cleanup_target = cleanup_target, bf_dispatch_state = dispatch_state,
      bf_detail = detail\<rparr>"

datatype ServiceResponse =
    SRes_Health HealthStatus
  | SRes_Created RequestOwnedId CapabilityToken
  | SRes_Ready RequestOwnedId CapabilityToken PolicyIdentity
  | SRes_ExecPrepared CapabilityToken
  | SRes_Executed ExecCompleted
  | SRes_Deleted DeleteOutcome
  | SRes_TerminallyAbsent
  | SRes_Cancelled bool
  | SRes_Draining u64
  | SRes_CreateFailed CreateFailure
  | SRes_ReadinessFailed ReadinessFailure
  | SRes_ExecFailed ExecFailure
  | SRes_CleanupFailed CleanupFailure
  | SRes_BoundaryFailed BoundaryFailure

record ResponseEnvelope =
  rse_protocol_version :: u16
  rse_operation_id :: OperationId
  rse_response :: ServiceResponse

definition ResponseEnvelope_new :: "OperationId \<Rightarrow> ServiceResponse \<Rightarrow> ResponseEnvelope" where
  "ResponseEnvelope_new operation_id response =
     \<lparr>rse_protocol_version = PROTOCOL_VERSION, rse_operation_id = operation_id,
      rse_response = response\<rparr>"

section \<open>Framing\<close>

definition MAX_REQUEST_FRAME_BYTES :: nat where
  "MAX_REQUEST_FRAME_BYTES = 2 * 1024 * 1024"

definition MAX_RESPONSE_FRAME_BYTES :: nat where
  "MAX_RESPONSE_FRAME_BYTES = 4 * 1024 * 1024"

datatype FrameError = FE_Io | FE_Empty | FE_TooLarge | FE_InvalidJson

text \<open>\<open>serde_json::to_vec\<close> and \<open>serde_json::from_slice\<close> at one type.\<close>

record 'a json_codec =
  json_to_vec :: "'a \<Rightarrow> bytes option"
  json_from_slice :: "bytes \<Rightarrow> 'a option"

definition decode :: "'a json_codec \<Rightarrow> bytes \<Rightarrow> nat \<Rightarrow> FrameError + 'a" where
  "decode J body maximum =
     (if body = [] then Err FE_Empty
      else if length body > maximum then Err FE_TooLarge
      else case json_from_slice J body of None \<Rightarrow> Err FE_InvalidJson | Some v \<Rightarrow> Ok v)"

text \<open>\<open>AsyncReadExt::read_u32\<close> is big endian and fails at the end of the stream.\<close>

fun u32_from_be_bytes :: "u8 \<times> u8 \<times> u8 \<times> u8 \<Rightarrow> u32" where
  "u32_from_be_bytes (a, b, c, d) =
     push_bit 24 (ucast a) OR push_bit 16 (ucast b) OR push_bit 8 (ucast c) OR ucast d"

definition u32_to_be_bytes :: "u32 \<Rightarrow> bytes" where
  "u32_to_be_bytes w = [ucast (drop_bit 24 w), ucast (drop_bit 16 w), ucast (drop_bit 8 w), ucast w]"

fun read_u32 :: "bytes \<Rightarrow> (u32 \<times> bytes) option" where
  "read_u32 (a # b # c # d # rest) = Some (u32_from_be_bytes (a, b, c, d), rest)"
| "read_u32 _ = None"

definition read_exact :: "nat \<Rightarrow> bytes \<Rightarrow> (bytes \<times> bytes) option" where
  "read_exact n input = (if length input < n then None else Some (take n input, drop n input))"

definition read_frame :: "bytes \<Rightarrow> nat \<Rightarrow> FrameError + bytes \<times> bytes" where
  "read_frame reader maximum =
     (case read_u32 reader of
        None \<Rightarrow> Err FE_Io
      | Some (w, rest) \<Rightarrow>
          let len = unat w in
          if len = 0 then Err FE_Empty
          else if len > maximum then Err FE_TooLarge
          else case read_exact len rest of
                 None \<Rightarrow> Err FE_Io
               | Some (body, rest') \<Rightarrow> Ok (body, rest'))"

definition read_message :: "'a json_codec \<Rightarrow> nat \<Rightarrow> bytes \<Rightarrow> FrameError + 'a \<times> bytes" where
  "read_message J maximum reader =
     (case read_frame reader maximum of
        Inl e \<Rightarrow> Err e
      | Inr (body, rest) \<Rightarrow>
          (case decode J body maximum of Inl e \<Rightarrow> Err e | Inr v \<Rightarrow> Ok (v, rest)))"

definition read_request :: "RequestEnvelope json_codec \<Rightarrow> bytes \<Rightarrow> FrameError + RequestEnvelope \<times> bytes" where
  "read_request J reader = read_message J MAX_REQUEST_FRAME_BYTES reader"

definition read_response :: "ResponseEnvelope json_codec \<Rightarrow> bytes \<Rightarrow> FrameError + ResponseEnvelope \<times> bytes" where
  "read_response J reader = read_message J MAX_RESPONSE_FRAME_BYTES reader"

record writer =
  w_sent :: bytes
  w_room :: "nat option"
  w_flush_ok :: bool

text \<open>\<open>write_all\<close>: a writer that runs out of room has taken a prefix when it fails.\<close>

definition write_all :: "writer \<Rightarrow> bytes \<Rightarrow> bool \<times> writer" where
  "write_all w body =
     (case w_room w of
        None \<Rightarrow> (True, w\<lparr>w_sent := w_sent w @ body\<rparr>)
      | Some room \<Rightarrow>
          if length body \<le> room
          then (True, w\<lparr>w_sent := w_sent w @ body, w_room := Some (room - length body)\<rparr>)
          else (False, w\<lparr>w_sent := w_sent w @ take room body, w_room := Some 0\<rparr>))"

definition write_json_frame :: "'a json_codec \<Rightarrow> writer \<Rightarrow> 'a \<Rightarrow> nat \<Rightarrow> (FrameError + unit) \<times> writer" where
  "write_json_frame J w value maximum =
     (case json_to_vec J value of
        None \<Rightarrow> (Err FE_InvalidJson, w)
      | Some body \<Rightarrow>
          if body = [] then (Err FE_Empty, w)
          else if length body > maximum then (Err FE_TooLarge, w)
          else if \<not> length body < 2 ^ 32 then (Err FE_TooLarge, w)
          else
            let (ok1, w1) = write_all w (u32_to_be_bytes (of_nat (length body))) in
            if \<not> ok1 then (Err FE_Io, w1)
            else
              let (ok2, w2) = write_all w1 body in
              if \<not> ok2 then (Err FE_Io, w2)
              else if w_flush_ok w2 then (Ok (), w2) else (Err FE_Io, w2))"

definition write_request :: "RequestEnvelope json_codec \<Rightarrow> writer \<Rightarrow> RequestEnvelope \<Rightarrow> (FrameError + unit) \<times> writer" where
  "write_request J w request = write_json_frame J w request MAX_REQUEST_FRAME_BYTES"

definition write_response :: "ResponseEnvelope json_codec \<Rightarrow> writer \<Rightarrow> ResponseEnvelope \<Rightarrow> (FrameError + unit) \<times> writer" where
  "write_response J w response = write_json_frame J w response MAX_RESPONSE_FRAME_BYTES"

lemmas [protocol_defs] =
  uuid_value_parse_def DeadlineMillis_MIN_def DeadlineMillis_MAX_def DeadlineMillis_new_def
  DeadlineMillis_duration_def valid_DeadlineMillis_def AssetBundleIdentity_new_def
  AssetBundleIdentity_try_from_def AssetBundleIdentity_into_def valid_AssetBundleIdentity_def
  RequestEnvelope_new_def RequestEnvelope_into_parts_def HealthStatus_new_def
  BoundaryFailure_new_def ResponseEnvelope_new_def

section \<open>Lemmas\<close>

interpretation deadline_ms_wire: validated_wire valid_DeadlineMillis DeadlineMillis_new dm_get
  by unfold_locales (auto simp: protocol_defs split: if_splits)

interpretation bundle_wire:
  validated_wire valid_AssetBundleIdentity AssetBundleIdentity_try_from AssetBundleIdentity_into
  by unfold_locales (auto simp: protocol_defs split: if_splits)

lemma uuid_value_parse_valid: "valid_uuid_text U s \<Longrightarrow> uuid_value_parse U s = Ok s"
  by (auto simp: uuid_value_parse_def valid_uuid_text_def split: option.splits)

lemma uuid_value_parse_Ok: "uuid_value_parse U s = Ok t \<longleftrightarrow> t = s \<and> valid_uuid_text U s"
  by (auto simp: uuid_value_parse_def valid_uuid_text_def split: option.splits)

interpretation operation_id_wire:
  validated_wire "\<lambda>i. valid_uuid_text U (oid_str i)" "OperationId_parse U" oid_str for U
  by unfold_locales (auto simp: OperationId_parse_def uuid_value_parse_Ok uuid_value_parse_valid map_sum_def
      split: sum.splits elim: OperationId.expand)

interpretation capability_token_wire:
  validated_wire "\<lambda>t. valid_uuid_text U (token_str t)" "CapabilityToken_parse U" token_str for U
  by unfold_locales (auto simp: CapabilityToken_parse_def uuid_value_parse_Ok uuid_value_parse_valid map_sum_def
      split: sum.splits elim: CapabilityToken.expand)

lemma valid_deadline_bounds:
  assumes "valid_DeadlineMillis d"
  shows "1000000 \<le> DeadlineMillis_duration d \<and> DeadlineMillis_duration d \<le> 1200000000000"
  using assms by (simp add: protocol_defs millis_def word_le_nat_alt)

lemma u32_be_roundtrip:
  "u32_from_be_bytes (ucast (drop_bit 24 w), ucast (drop_bit 16 w), ucast (drop_bit 8 w), ucast w) = w"
proof (rule bit_word_eqI)
  fix n
  assume "n < LENGTH(32)"
  then have "n < 8 \<or> (8 \<le> n \<and> n < 16) \<or> (16 \<le> n \<and> n < 24) \<or> (24 \<le> n \<and> n < 32)"
    by auto
  then show "bit (u32_from_be_bytes (ucast (drop_bit 24 w), ucast (drop_bit 16 w),
      ucast (drop_bit 8 w), ucast w)) n \<longleftrightarrow> bit w n"
    by (elim disjE conjE) (auto simp: bit_simps)
qed

lemma read_u32_be: "read_u32 (u32_to_be_bytes w @ rest) = Some (w, rest)"
  using u32_be_roundtrip [of w] by (simp add: u32_to_be_bytes_def del: u32_from_be_bytes.simps)

lemma length_u32_to_be_bytes [simp]: "length (u32_to_be_bytes w) = 4"
  by (simp add: u32_to_be_bytes_def)

lemma read_exact_append [simp]: "read_exact (length body) (body @ rest) = Some (body, rest)"
  by (simp add: read_exact_def)

text \<open>Reading back a frame with a nonempty body within the limit.\<close>

lemma read_frame_of_frame:
  assumes "body \<noteq> []" and "length body \<le> maximum" and "length body < 2 ^ 32"
  shows "read_frame (u32_to_be_bytes (of_nat (length body)) @ body @ rest) maximum = Ok (body, rest)"
proof -
  have "unat (of_nat (length body) :: u32) = length body"
    using assms(3) by (simp add: unat_of_nat)
  with assms show ?thesis
    by (simp add: read_frame_def read_u32_be Let_def)
qed

lemma read_frame_bounds:
  assumes "read_frame reader maximum = Ok (body, rest)"
  shows "body \<noteq> [] \<and> length body \<le> maximum \<and> (\<exists>header. length header = 4 \<and> reader = header @ body @ rest)"
proof -
  obtain a b c d r where reader: "reader = a # b # c # d # r"
    using assms by (cases reader rule: read_u32.cases) (auto simp: read_frame_def)
  define len where "len = unat (u32_from_be_bytes (a, b, c, d))"
  have len: "len \<noteq> 0" "len \<le> maximum" "len \<le> length r" "body = take len r" "rest = drop len r"
    using assms unfolding len_def reader
    by (auto simp: read_frame_def read_exact_def Let_def split: if_splits)
  then have "reader = [a, b, c, d] @ body @ rest"
    by (simp add: reader)
  moreover have "body \<noteq> [] \<and> length body \<le> maximum"
    using len by (auto simp: min_def)
  ultimately show ?thesis
    by (intro conjI exI [of _ "[a, b, c, d]"]) simp_all
qed

lemma write_all_Ok: "write_all w body = (True, w') \<Longrightarrow>
    w_sent w' = w_sent w @ body \<and> w_flush_ok w' = w_flush_ok w"
  by (auto simp: write_all_def split: option.splits if_splits)

lemma write_all_prefix: "write_all w body = (ok, w') \<Longrightarrow> \<exists>n. w_sent w' = w_sent w @ take n body"
  by (auto simp: write_all_def split: option.splits if_splits intro: exI [of _ "length body"])

lemma write_json_frame_Ok:
  assumes "write_json_frame J w v maximum = (Ok (), w')"
  obtains body where "json_to_vec J v = Some body" and "body \<noteq> []" and "length body \<le> maximum"
    and "length body < 2 ^ 32"
    and "w_sent w' = w_sent w @ u32_to_be_bytes (of_nat (length body)) @ body"
  using assms
  by (auto simp: write_json_frame_def Let_def split: option.splits if_splits prod.splits
      dest!: write_all_Ok)

section \<open>Properties of the framing\<close>

lemma read_message_of_frame:
  assumes "body \<noteq> []" and "length body \<le> maximum" and "length body < 2 ^ 32"
    and "json_from_slice J body = Some v"
  shows "read_message J maximum (u32_to_be_bytes (of_nat (length body)) @ body @ rest) = Ok (v, rest)"
  using assms by (simp add: read_message_def read_frame_of_frame decode_def)

text \<open>
  C9. What \<open>write_request\<close> puts on the wire, \<open>read_request\<close> reads back: if the JSON text of a
  request decodes to the request, then a successful write appends one frame, and a reader that meets
  this frame returns the request and stops exactly at its end.
\<close>

theorem request_frame_roundtrip:
  assumes "\<And>body. json_to_vec J request = Some body \<Longrightarrow> json_from_slice J body = Some request"
    and "write_request J w request = (Ok (), w')"
  shows "\<exists>frame. w_sent w' = w_sent w @ frame \<and> length frame \<le> 4 + MAX_REQUEST_FRAME_BYTES
    \<and> (\<forall>rest. read_request J (frame @ rest) = Ok (request, rest))"
proof -
  obtain body where body: "json_to_vec J request = Some body" "body \<noteq> []"
      "length body \<le> MAX_REQUEST_FRAME_BYTES" "length body < 2 ^ 32"
    and sent: "w_sent w' = w_sent w @ u32_to_be_bytes (of_nat (length body)) @ body"
    using assms(2) unfolding write_request_def by (rule write_json_frame_Ok)
  have "read_request J ((u32_to_be_bytes (of_nat (length body)) @ body) @ rest) = Ok (request, rest)" for rest
    using read_message_of_frame [OF body(2-4) assms(1) [OF body(1)]] by (simp add: read_request_def)
  with sent body(3) show ?thesis
    by (intro exI [of _ "u32_to_be_bytes (of_nat (length body)) @ body"]) simp
qed

text \<open>A codec for one fixed request, to run the framing on.\<close>

definition one_value_codec :: "'a \<Rightarrow> bytes \<Rightarrow> 'a json_codec" where
  "one_value_codec v body =
     \<lparr>json_to_vec = (\<lambda>_. Some body), json_from_slice = (\<lambda>b. if b = body then Some v else None)\<rparr>"

definition probe_bundle :: AssetBundleIdentity where
  "probe_bundle = \<lparr>ab_runtime_contract_version = 1, ab_adapter_build_sha256 = Sha256Digest ''00'',
     ab_template = TemplateIdentity ''base'',
     ab_policy = \<lparr>policy_id = ''base'', policy_version = 1, policy_sha256 = Sha256Digest ''00''\<rparr>,
     ab_compatibility_id = ''v1''\<rparr>"

definition probe_request :: RequestEnvelope where
  "probe_request = RequestEnvelope_new (OperationId ''op'') probe_bundle SReq_Health"

theorem request_frame_roundtrip_witness:
  "\<exists>frame. (\<forall>rest. read_request (one_value_codec probe_request [1, 2, 3]) (frame @ rest) = Ok (probe_request, rest))
     \<and> w_sent (snd (write_request (one_value_codec probe_request [1, 2, 3])
          \<lparr>w_sent = [9], w_room = None, w_flush_ok = True\<rparr> probe_request)) = [9] @ frame"
proof -
  let ?J = "one_value_codec probe_request [1, 2, 3]"
  let ?w = "\<lparr>w_sent = [9], w_room = None, w_flush_ok = True\<rparr>"
  have "fst (write_request ?J ?w probe_request) = Ok ()"
    by (simp add: one_value_codec_def write_request_def write_json_frame_def write_all_def
        MAX_REQUEST_FRAME_BYTES_def)
  then obtain w' where w': "write_request ?J ?w probe_request = (Ok (), w')"
    by (cases "write_request ?J ?w probe_request") auto
  have "json_to_vec ?J probe_request = Some body \<Longrightarrow> json_from_slice ?J body = Some probe_request" for body
    by (simp add: one_value_codec_def)
  from request_frame_roundtrip [OF this w'] w' show ?thesis
    by auto
qed

text \<open>
  A reader of responses never takes more than the announced body, never accepts an empty one or
  one above the limit, and consumes exactly the four bytes of the length and the body.
\<close>

theorem response_frame_bounded:
  assumes "read_response J reader = Ok (response, rest)"
  shows "\<exists>header body. reader = header @ body @ rest \<and> length header = 4 \<and> body \<noteq> []
    \<and> length body \<le> MAX_RESPONSE_FRAME_BYTES \<and> json_from_slice J body = Some response"
proof -
  obtain body where frame: "read_frame reader MAX_RESPONSE_FRAME_BYTES = Ok (body, rest)"
    and "decode J body MAX_RESPONSE_FRAME_BYTES = Ok response"
    using assms by (auto simp: read_response_def read_message_def split: sum.splits)
  then have "json_from_slice J body = Some response"
    by (auto simp: decode_def split: if_splits option.splits)
  with read_frame_bounds [OF frame] show ?thesis
    by blast
qed

definition probe_response :: ResponseEnvelope where
  "probe_response = ResponseEnvelope_new (OperationId ''op'') (SRes_Cancelled True)"

theorem response_frame_bounded_witness:
  "\<exists>header body. [0, 0, 0, 2, 5, 6, 7] = header @ body @ [7 :: u8] \<and> length header = 4 \<and> body \<noteq> []
     \<and> length body \<le> MAX_RESPONSE_FRAME_BYTES
     \<and> json_from_slice (one_value_codec probe_response [5, 6]) body = Some probe_response"
proof -
  have "read_response (one_value_codec probe_response [5, 6]) [0, 0, 0, 2, 5, 6, 7] = Ok (probe_response, [7])"
    by (simp add: read_response_def read_message_def read_frame_def read_exact_def decode_def
        one_value_codec_def MAX_RESPONSE_FRAME_BYTES_def)
  from response_frame_bounded [OF this] show ?thesis .
qed

end
