(* ===== verification/Keyed_Store.thy ===== *)
theory Keyed_Store
  imports Prelude
begin

text \<open>
  The interface of a durable store of records with a key: the cleanup store of the service and the
  dispatch store of the dispatcher promise it, each as a table and as a directory of files. A failed
  write may have taken effect or not and never touches another record; a load that succeeds returns
  exactly the stored records, in the order of their keys.
\<close>

locale keyed_store =
  fixes key :: "'r \<Rightarrow> 'k :: linorder"
    and invar :: "'d \<Rightarrow> bool"
    and lookup :: "'d \<Rightarrow> 'k \<Rightarrow> 'r option"
    and storable :: "'r \<Rightarrow> bool"
    and put :: "'f \<Rightarrow> 'r \<Rightarrow> 'd \<Rightarrow> ('e + unit) \<times> 'd"
    and load :: "'h \<Rightarrow> 'd \<Rightarrow> 'e + 'r list"
  assumes lookup_id: "invar d \<Longrightarrow> lookup d i = Some r \<Longrightarrow> key r = i"
    and write_invar: "invar d \<Longrightarrow> storable r \<Longrightarrow> invar (snd (put f r d))"
    and write_Ok: "invar d \<Longrightarrow> storable r \<Longrightarrow> fst (put f r d) = Ok () \<Longrightarrow>
      lookup (snd (put f r d)) = (lookup d)(key r \<mapsto> r)"
    and write_Err: "invar d \<Longrightarrow> storable r \<Longrightarrow> fst (put f r d) = Err e \<Longrightarrow>
      lookup (snd (put f r d)) \<in> {lookup d, (lookup d)(key r \<mapsto> r)}"
    and load_Ok: "invar d \<Longrightarrow> load h d = Ok rs \<Longrightarrow>
      sorted_wrt (<) (map key rs) \<and> (\<forall>r. r \<in> set rs \<longleftrightarrow> lookup d (key r) = Some r)"
begin

lemma write_frame:
  assumes "invar d" and "storable r" and "i \<noteq> key r"
  shows "lookup (snd (put f r d)) i = lookup d i"
proof (cases "fst (put f r d)")
  case (Inl e)
  with write_Err [OF assms(1,2)] assms(3) show ?thesis by fastforce
next
  case (Inr u)
  with write_Ok [OF assms(1,2)] assms(3) show ?thesis by simp
qed

lemma write_self:
  assumes "invar d" and "storable r"
  shows "lookup (snd (put f r d)) (key r) \<in> {lookup d (key r), Some r}"
proof (cases "fst (put f r d)")
  case (Inl e)
  with write_Err [OF assms] show ?thesis by fastforce
next
  case (Inr u)
  with write_Ok [OF assms] show ?thesis by simp
qed

text \<open>An attempted write never loses the record of an identifier.\<close>

lemma write_keeps_presence:
  assumes "invar d" and "storable r" and "lookup d i \<noteq> None"
  shows "lookup (snd (put f r d)) i \<noteq> None"
  using write_self [OF assms(1,2), of f] write_frame [OF assms(1,2), of i f] assms(3)
  by (cases "i = key r") auto

text \<open>A load after a successful write, before or after a restart of the process, finds it.\<close>

lemma load_after_write:
  assumes "invar d" and "storable r" and "fst (put f r d) = Ok ()"
    and "load h (snd (put f r d)) = Ok rs"
  shows "r \<in> set rs"
  using load_Ok [OF write_invar [OF assms(1,2)] assms(4)] write_Ok [OF assms(1-3)] by simp

lemma load_find:
  assumes "invar d" and "load h d = Ok rs"
  shows "find (\<lambda>r. key r = i) rs = lookup d i"
proof (cases "find (\<lambda>r. key r = i) rs")
  case None
  then show ?thesis
    using load_Ok [OF assms] lookup_id [OF assms(1), of i] by (cases "lookup d i") (auto simp: find_None_iff)
next
  case (Some r)
  then have "r \<in> set rs" and "key r = i"
    by (auto simp: find_Some_iff)
  with Some show ?thesis
    using load_Ok [OF assms] by auto
qed

end

section \<open>Sorted listings\<close>

lemma sort_key_strict:
  "distinct (map f xs) \<Longrightarrow> sorted_wrt (<) (map f (sort_key f xs))"
  by (simp add: strict_sorted_iff distinct_map) 

lemma strictly_sorted_unique:
  fixes f :: "'a \<Rightarrow> 'b :: linorder"
  assumes "sorted_wrt (<) (map f xs)" and "sorted_wrt (<) (map f ys)" and "set xs = set ys"
  shows "xs = ys"
  using assms map_sorted_distinct_set_unique [of f xs ys] by (simp add: strict_sorted_iff distinct_map)

lemma hm_get_insert_fun: "hm_get (hm_insert k v m) = (hm_get m)(k \<mapsto> v)"
  by auto

lemma hm_get_remove_fun: "hm_get (hm_remove k m) = (hm_get m)(k := None)"
  by auto

text \<open>The listing of a table whose entries carry their key.\<close>

lemma hm_listing:
  assumes "hm_invar t" and "\<And>i r. hm_get t i = Some r \<Longrightarrow> key r = i"
  shows "sorted_wrt (<) (map key (sort_key key (map snd t)))
    \<and> (\<forall>r. r \<in> snd ` set t \<longleftrightarrow> hm_get t (key r) = Some r)"
proof
  have "key r = i" if "(i, r) \<in> set t" for i r
    using that assms by (simp add: hm_set_get)
  then have "map key (map snd t) = map fst t"
    by auto
  then show "sorted_wrt (<) (map key (sort_key key (map snd t)))"
    using assms(1) by (intro sort_key_strict) (simp add: hm_invar_def del: map_map)
  show "\<forall>r. r \<in> snd ` set t \<longleftrightarrow> hm_get t (key r) = Some r"
  proof
    fix r
    have "r \<in> snd ` set t \<longleftrightarrow> (\<exists>i. hm_get t i = Some r)"
      by (simp add: hm_set_get [OF assms(1), symmetric] image_iff Bex_def)
    also have "\<dots> \<longleftrightarrow> hm_get t (key r) = Some r"
      using assms(2) by blast
    finally show "r \<in> snd ` set t \<longleftrightarrow> hm_get t (key r) = Some r" .
  qed
qed

end
