(* ===== verification/Durable_Store.thy ===== *)
theory Durable_Store
  imports Protocol Keyed_Store
begin

text \<open>
  Caller identities (\<^verbatim>\<open>src/src/service/auth.rs\<close>) and the durable cleanup records of the service
  (\<^verbatim>\<open>src/src/service/store.rs\<close>). The store is modelled twice: at the level of the code, as a
  directory of files with the failures each system call can have (\<open>write_record\<close>,
  \<open>remove_record\<close>, \<open>load_records\<close>), and as a table from request identifiers to records with
  the three outcomes a write can have. Both satisfy the interface \<open>record_store\<close>, and the
  directory refines the table.
\<close>

section \<open>Callers\<close>

datatype AuthValueError = AuthValueError

datatype CallerFingerprint = CallerFingerprint (fp_str: string)

definition hex_digit :: "nat \<Rightarrow> char" where
  "hex_digit n = char_of (if n < 10 then 48 + n else 87 + n)"

text \<open>The format \<open>{byte:02x}\<close>.\<close>

definition hex_byte :: "u8 \<Rightarrow> string" where
  "hex_byte b = [hex_digit (unat b div 16), hex_digit (unat b mod 16)]"

definition hex_string :: "bytes \<Rightarrow> string" where
  "hex_string bs = concat (map hex_byte bs)"

text \<open>\<open>Sha256::digest\<close> is a parameter.\<close>

definition CallerFingerprint_from_certificate_der ::
  "(bytes \<Rightarrow> bytes) \<Rightarrow> bytes \<Rightarrow> AuthValueError + CallerFingerprint" where
  "CallerFingerprint_from_certificate_der sha256 der =
     (if der = [] then Err AuthValueError else Ok (CallerFingerprint (hex_string (sha256 der))))"

definition CallerFingerprint_parse :: "string \<Rightarrow> AuthValueError + CallerFingerprint" where
  "CallerFingerprint_parse value =
     (if length value \<noteq> 64 \<or> \<not> list_all is_lower_hex value then Err AuthValueError
      else Ok (CallerFingerprint value))"

definition valid_CallerFingerprint :: "CallerFingerprint \<Rightarrow> bool" where
  "valid_CallerFingerprint f \<longleftrightarrow> length (fp_str f) = 64 \<and> list_all is_lower_hex (fp_str f)"

datatype CallerRole = RuntimeRole | AdministratorRole

record CallerIdentity =
  ci_fingerprint :: CallerFingerprint
  ci_role :: CallerRole

definition CallerIdentity_new :: "CallerFingerprint \<Rightarrow> CallerRole \<Rightarrow> CallerIdentity" where
  "CallerIdentity_new fingerprint role = \<lparr>ci_fingerprint = fingerprint, ci_role = role\<rparr>"

section \<open>Records\<close>

definition RECORD_SCHEMA_VERSION :: u16 where
  "RECORD_SCHEMA_VERSION = 1"

definition MAX_RECORD_BYTES :: nat where
  "MAX_RECORD_BYTES = 64 * 1024"

datatype StoreError = StoreError

datatype DurableStage =
    St_CreatePossible | St_Created | St_Ready | St_ExecPossible | St_CleanupOnly | St_DeletePending
  | St_Unowned

record DurableRecord =
  dr_schema_version :: u16
  dr_request_id :: RequestOwnedId
  dr_caller :: CallerFingerprint
  dr_stage :: DurableStage
  dr_template :: TemplateIdentity
  dr_policy :: PolicyIdentity
  dr_created_at_unix_ms :: u64
  dr_updated_at_unix_ms :: u64

text \<open>
  The wall clock as read by \<open>unix_time_millis\<close>: milliseconds since the epoch, or none when the
  clock is before the epoch. The conversion to \<open>u64\<close> can fail as well.
\<close>

definition unix_time_millis :: "nat option \<Rightarrow> StoreError + u64" where
  "unix_time_millis clock =
     (case clock of
        None \<Rightarrow> Err StoreError
      | Some ms \<Rightarrow> if ms < 2 ^ 64 then Ok (of_nat ms) else Err StoreError)"

definition DurableRecord_new ::
  "nat option \<Rightarrow> RequestOwnedId \<Rightarrow> CallerFingerprint \<Rightarrow> DurableStage \<Rightarrow> TemplateIdentity \<Rightarrow>
   PolicyIdentity \<Rightarrow> StoreError + DurableRecord" where
  "DurableRecord_new clock request_id caller stage template policy =
     (case unix_time_millis clock of
        Inl e \<Rightarrow> Err e
      | Inr now \<Rightarrow>
          Ok \<lparr>dr_schema_version = RECORD_SCHEMA_VERSION, dr_request_id = request_id,
              dr_caller = caller, dr_stage = stage, dr_template = template, dr_policy = policy,
              dr_created_at_unix_ms = now, dr_updated_at_unix_ms = now\<rparr>)"

text \<open>
  \<open>transition\<close> assigns the stage before it reads the clock, so the stage has changed also when
  it returns an error. The model returns the record beside the result.
\<close>

definition DurableRecord_transition ::
  "nat option \<Rightarrow> DurableStage \<Rightarrow> DurableRecord \<Rightarrow> (StoreError + unit) \<times> DurableRecord" where
  "DurableRecord_transition clock stage r =
     (let r1 = r\<lparr>dr_stage := stage\<rparr> in
      case unix_time_millis clock of
        Inl e \<Rightarrow> (Err e, r1)
      | Inr now \<Rightarrow> (Ok (), r1\<lparr>dr_updated_at_unix_ms := now\<rparr>))"

definition DurableRecord_validate :: "DurableRecord \<Rightarrow> StoreError + unit" where
  "DurableRecord_validate r =
     (if dr_schema_version r \<noteq> RECORD_SCHEMA_VERSION \<or> dr_created_at_unix_ms r = 0
         \<or> dr_updated_at_unix_ms r < dr_created_at_unix_ms r
      then Err StoreError else Ok ())"

section \<open>The directory\<close>

datatype file_kind = RegularFile | SymbolicLink | DirectoryFile | OtherFile

record dir_entry =
  de_kind :: file_kind
  de_mode :: u32
  de_content :: bytes

type_synonym directory = "(string, dir_entry) hm"

text \<open>\<open>DurableStore::initialize\<close>: what the path holds, which of the calls fail,
  and the mode that \<open>metadata\<close> reports after the permissions were set.\<close>

record directory_state =
  dir_present :: "file_kind option"
  dir_mode :: u32

definition DurableStore_initialize ::
  "bool \<Rightarrow> bool \<Rightarrow> (u32 \<Rightarrow> u32 option) \<Rightarrow> string \<Rightarrow> directory_state \<Rightarrow>
   (StoreError + string) \<times> directory_state" where
  "DurableStore_initialize mkdir_ok chmod_ok stat_mode path s =
     (if path = [] then (Err StoreError, s)
      else
        let present =
              (case dir_present s of
                 Some k \<Rightarrow> if k \<noteq> DirectoryFile then None else Some s
               | None \<Rightarrow> if mkdir_ok then Some (s\<lparr>dir_present := Some DirectoryFile\<rparr>) else None)
        in case present of
             None \<Rightarrow> (Err StoreError, s)
           | Some s1 \<Rightarrow>
               if \<not> chmod_ok then (Err StoreError, s1)
               else
                 let s2 = s1\<lparr>dir_mode := 448\<rparr> in
                 case stat_mode (dir_mode s2) of
                   None \<Rightarrow> (Err StoreError, s2)
                 | Some mode \<Rightarrow>
                     if mode AND 511 \<noteq> 448 then (Err StoreError, s2) else (Ok path, s2))"

definition record_path :: "RequestOwnedId \<Rightarrow> string" where
  "record_path request_id = roid_str request_id @ ''.json''"

definition temporary_path :: "RequestOwnedId \<Rightarrow> string \<Rightarrow> string" where
  "temporary_path request_id uuid = ''.'' @ roid_str request_id @ ''.'' @ uuid @ ''.tmp''"

text \<open>Which system call of a write fails, and the identifier in the temporary name.\<close>

record write_faults =
  wf_uuid :: string
  wf_open :: bool
  wf_write :: "nat option"
  wf_sync :: bool
  wf_rename :: bool
  wf_dirsync :: bool
  wf_unlink :: bool

text \<open>The closure of \<open>write_record\<close>: it stops at the first call that fails.\<close>

definition write_through_temporary ::
  "write_faults \<Rightarrow> string \<Rightarrow> string \<Rightarrow> bytes \<Rightarrow> directory \<Rightarrow> (StoreError + unit) \<times> directory" where
  "write_through_temporary F temporary target body d =
     (if wf_open F \<or> hm_get d temporary \<noteq> None then (Err StoreError, d)
      else
        let file = \<lparr>de_kind = RegularFile, de_mode = 384, de_content = body\<rparr> in
        case wf_write F of
          Some n \<Rightarrow> (Err StoreError, hm_insert temporary (file\<lparr>de_content := take n body\<rparr>) d)
        | None \<Rightarrow>
            let d1 = hm_insert temporary file d in
            if wf_sync F \<or> wf_rename F
               \<or> (case hm_get d1 target of Some e \<Rightarrow> de_kind e = DirectoryFile | None \<Rightarrow> False)
            then (Err StoreError, d1)
            else
              let d2 = hm_insert target file (hm_remove temporary d1) in
              if wf_dirsync F then (Err StoreError, d2) else (Ok (), d2))"

definition write_record ::
  "DurableRecord json_codec \<Rightarrow> write_faults \<Rightarrow> DurableRecord \<Rightarrow> directory \<Rightarrow>
   (StoreError + unit) \<times> directory" where
  "write_record J F r d =
     (case DurableRecord_validate r of
        Inl e \<Rightarrow> (Err e, d)
      | Inr _ \<Rightarrow>
          (case json_to_vec J r of
             None \<Rightarrow> (Err StoreError, d)
           | Some body \<Rightarrow>
               if body = [] \<or> length body > MAX_RECORD_BYTES then (Err StoreError, d)
               else
                 let target = record_path (dr_request_id r);
                     temporary = temporary_path (dr_request_id r) (wf_uuid F);
                     (result, d1) = write_through_temporary F temporary target body d
                 in if \<not> is_ok result \<and> \<not> wf_unlink F then (result, hm_remove temporary d1)
                    else (result, d1)))"

text \<open>A removal can fail at the unlink or at the synchronisation of the directory.\<close>

record remove_faults =
  rmf_unlink :: bool
  rmf_dirsync :: bool

definition remove_record ::
  "remove_faults \<Rightarrow> RequestOwnedId \<Rightarrow> directory \<Rightarrow> (StoreError + unit) \<times> directory" where
  "remove_record F request_id d =
     (let path = record_path request_id in
      case hm_get d path of
        None \<Rightarrow> (Ok (), d)
      | Some e \<Rightarrow>
          if rmf_unlink F \<or> de_kind e = DirectoryFile then (Err StoreError, d)
          else
            let d1 = hm_remove path d in
            if rmf_dirsync F then (Err StoreError, d1) else (Ok (), d1))"

text \<open>
  One entry of the listing: \<open>None\<close> when it is skipped, a record, or the error that ends the
  whole load. \<open>readable\<close> says whether the metadata and the content can be read.
\<close>

definition load_entry ::
  "DurableRecord json_codec \<Rightarrow> (string \<Rightarrow> bool) \<Rightarrow> string \<times> dir_entry \<Rightarrow>
   StoreError + DurableRecord option" where
  "load_entry J readable entry =
     (case entry of (file_name, e) \<Rightarrow>
        if \<not> is_utf8 file_name then Err StoreError
        else if starts_with ''.'' file_name then Ok None
        else if \<not> starts_with ''sbx-'' file_name \<or> path_extension file_name \<noteq> Some ''json''
        then Err StoreError
        else if \<not> readable file_name then Err StoreError
        else if de_kind e \<noteq> RegularFile \<or> de_mode e AND 63 \<noteq> 0 \<or> length (de_content e) > MAX_RECORD_BYTES
        then Err StoreError
        else case json_from_slice J (de_content e) of
               None \<Rightarrow> Err StoreError
             | Some r \<Rightarrow>
                 (case DurableRecord_validate r of
                    Inl x \<Rightarrow> Err x
                  | Inr _ \<Rightarrow>
                      if record_path (dr_request_id r) \<noteq> file_name then Err StoreError
                      else Ok (Some r)))"

fun load_entries ::
  "DurableRecord json_codec \<Rightarrow> (string \<Rightarrow> bool) \<Rightarrow> directory \<Rightarrow> StoreError + DurableRecord list" where
  "load_entries J readable [] = Ok []"
| "load_entries J readable (entry # d) =
     (case load_entry J readable entry of
        Inl x \<Rightarrow> Err x
      | Inr found \<Rightarrow>
          (case load_entries J readable d of
             Inl x \<Rightarrow> Err x
           | Inr rs \<Rightarrow> Ok (case found of None \<Rightarrow> rs | Some r \<Rightarrow> r # rs)))"

definition load_records ::
  "DurableRecord json_codec \<Rightarrow> bool \<Rightarrow> (string \<Rightarrow> bool) \<Rightarrow> directory \<Rightarrow> StoreError + DurableRecord list" where
  "load_records J listed readable d =
     (if \<not> listed then Err StoreError
      else case load_entries J readable d of
             Inl x \<Rightarrow> Err x
           | Inr rs \<Rightarrow> Ok (sort_key dr_request_id rs))"

lemmas [store_defs] =
  unix_time_millis_def DurableRecord_new_def DurableRecord_transition_def DurableRecord_validate_def
  RECORD_SCHEMA_VERSION_def

section \<open>The table\<close>

text \<open>
  What a caller of the store can observe of a write: success, a failure that left the previous
  record, or a failure (of the directory synchronisation) after the rename.
\<close>

datatype write_outcome = WriteOk | WriteFailedKept | WriteFailedReplaced

datatype remove_outcome = RemoveOk | RemoveFailedKept | RemoveFailedGone

type_synonym table = "(RequestOwnedId, DurableRecord) hm"

definition table_write :: "write_outcome \<Rightarrow> DurableRecord \<Rightarrow> table \<Rightarrow> (StoreError + unit) \<times> table" where
  "table_write outcome r t =
     (case DurableRecord_validate r of
        Inl e \<Rightarrow> (Err e, t)
      | Inr _ \<Rightarrow>
          (case outcome of
             WriteOk \<Rightarrow> (Ok (), hm_insert (dr_request_id r) r t)
           | WriteFailedKept \<Rightarrow> (Err StoreError, t)
           | WriteFailedReplaced \<Rightarrow> (Err StoreError, hm_insert (dr_request_id r) r t)))"

definition table_remove :: "remove_outcome \<Rightarrow> RequestOwnedId \<Rightarrow> table \<Rightarrow> (StoreError + unit) \<times> table" where
  "table_remove outcome i t =
     (case hm_get t i of
        None \<Rightarrow> (Ok (), t)
      | Some _ \<Rightarrow>
          (case outcome of
             RemoveOk \<Rightarrow> (Ok (), hm_remove i t)
           | RemoveFailedKept \<Rightarrow> (Err StoreError, t)
           | RemoveFailedGone \<Rightarrow> (Err StoreError, hm_remove i t)))"

definition table_load :: "bool \<Rightarrow> table \<Rightarrow> StoreError + DurableRecord list" where
  "table_load readable t =
     (if \<not> readable then Err StoreError else Ok (sort_key dr_request_id (map snd t)))"

definition table_invar :: "table \<Rightarrow> bool" where
  "table_invar t \<longleftrightarrow> hm_invar t
     \<and> (\<forall>(i, r) \<in> set t. dr_request_id r = i \<and> is_ok (DurableRecord_validate r))"

section \<open>The interface of a record store\<close>

text \<open>
  What the service relies on: a keyed store whose records can also be removed. A failed removal may
  have taken effect or not, it never touches another record.
\<close>

locale record_store = keyed_store dr_request_id invar lookup storable put load
  for invar :: "'d \<Rightarrow> bool"
    and lookup :: "'d \<Rightarrow> RequestOwnedId \<Rightarrow> DurableRecord option"
    and storable :: "DurableRecord \<Rightarrow> bool"
    and put :: "'f \<Rightarrow> DurableRecord \<Rightarrow> 'd \<Rightarrow> (StoreError + unit) \<times> 'd"
    and load :: "'h \<Rightarrow> 'd \<Rightarrow> StoreError + DurableRecord list" +
  fixes erase :: "'g \<Rightarrow> RequestOwnedId \<Rightarrow> 'd \<Rightarrow> (StoreError + unit) \<times> 'd"
  assumes remove_invar: "invar d \<Longrightarrow> invar (snd (erase g i d))"
    and remove_Ok: "invar d \<Longrightarrow> fst (erase g i d) = Ok () \<Longrightarrow>
      lookup (snd (erase g i d)) = (lookup d)(i := None)"
    and remove_Err: "invar d \<Longrightarrow> fst (erase g i d) = Err e \<Longrightarrow>
      lookup (snd (erase g i d)) \<in> {lookup d, (lookup d)(i := None)}"
begin

lemma remove_frame:
  assumes "invar d" and "j \<noteq> i"
  shows "lookup (snd (erase g i d)) j = lookup d j"
proof (cases "fst (erase g i d)")
  case (Inl e)
  with remove_Err [OF assms(1)] assms(2) show ?thesis by fastforce
next
  case (Inr u)
  with remove_Ok [OF assms(1)] assms(2) show ?thesis by simp
qed

lemma load_after_remove:
  assumes "invar d" and "fst (erase g i d) = Ok ()" and "load h (snd (erase g i d)) = Ok rs"
  shows "i \<notin> dr_request_id ` set rs"
  using load_Ok [OF remove_invar [OF assms(1)] assms(3)] remove_Ok [OF assms(1,2)] by auto

end

section \<open>The table is a record store\<close>

lemma DurableRecord_validate_eq: "DurableRecord_validate r = Ok () \<longleftrightarrow> is_ok (DurableRecord_validate r)"
  by (simp add: DurableRecord_validate_def)

lemma table_invar_iff:
  "table_invar t \<longleftrightarrow> hm_invar t
     \<and> (\<forall>i r. hm_get t i = Some r \<longrightarrow> dr_request_id r = i \<and> is_ok (DurableRecord_validate r))"
  unfolding table_invar_def by (cases "hm_invar t") (simp_all add: hm_ball)

lemma table_invar_insert:
  "table_invar t \<Longrightarrow> is_ok (DurableRecord_validate r) \<Longrightarrow> table_invar (hm_insert (dr_request_id r) r t)"
  by (auto simp: table_invar_iff)

lemma table_invar_remove: "table_invar t \<Longrightarrow> table_invar (hm_remove i t)"
  by (auto simp: table_invar_iff)

lemma table_invar_get:
  "table_invar t \<Longrightarrow> hm_get t i = Some r \<Longrightarrow> dr_request_id r = i \<and> is_ok (DurableRecord_validate r)"
  by (simp add: table_invar_iff)

lemma table_load_spec:
  assumes "table_invar t"
  shows "sorted_wrt (<) (map dr_request_id (sort_key dr_request_id (map snd t)))
    \<and> (\<forall>r. r \<in> snd ` set t \<longleftrightarrow> hm_get t (dr_request_id r) = Some r)"
  using assms by (intro hm_listing) (auto simp: table_invar_iff)

interpretation table_store: record_store table_invar hm_get "\<lambda>_. True" table_write table_load table_remove
proof unfold_locales
  fix h t rs
  assume "table_invar t" and "table_load h t = Ok rs"
  with table_load_spec [of t]
  show "sorted_wrt (<) (map dr_request_id rs) \<and> (\<forall>r. r \<in> set rs \<longleftrightarrow> hm_get t (dr_request_id r) = Some r)"
    by (auto simp: table_load_def split: if_splits)
qed (auto simp: table_write_def table_remove_def hm_get_insert_fun hm_get_remove_fun is_ok_def
    table_invar_get intro: table_invar_insert table_invar_remove
    split: sum.splits write_outcome.splits remove_outcome.splits option.splits)

section \<open>The directory is a record store\<close>

definition dir_lookup :: "DurableRecord json_codec \<Rightarrow> directory \<Rightarrow> RequestOwnedId \<Rightarrow> DurableRecord option" where
  "dir_lookup J d i =
     (if starts_with ''.'' (record_path i) then None
      else case hm_get d (record_path i) of
             None \<Rightarrow> None
           | Some e \<Rightarrow> json_from_slice J (de_content e))"

text \<open>Every visible file is a record that a load accepts.\<close>

definition dir_invar :: "DurableRecord json_codec \<Rightarrow> directory \<Rightarrow> bool" where
  "dir_invar J d \<longleftrightarrow> hm_invar d
     \<and> (\<forall>(name, e) \<in> set d. starts_with ''.'' name \<or> is_ok (load_entry J (\<lambda>_. True) (name, e)))"

text \<open>The hypothesis on the JSON codec: a record that encodes decodes to itself.\<close>

definition storable :: "DurableRecord json_codec \<Rightarrow> DurableRecord \<Rightarrow> bool" where
  "storable J r \<longleftrightarrow> valid_RequestOwnedId (dr_request_id r)
     \<and> (\<forall>body. json_to_vec J r = Some body \<longrightarrow> json_from_slice J body = Some r)"

lemma record_path_inj [simp]: "record_path i = record_path j \<longleftrightarrow> i = j"
  by (cases i; cases j) (simp add: record_path_def)

lemma temporary_path_hidden [simp]: "starts_with ''.'' (temporary_path i u)"
  by (simp add: temporary_path_def starts_with_def)

lemma record_path_visible: "valid_RequestOwnedId i \<Longrightarrow> \<not> starts_with ''.'' (record_path i)"
  by (auto simp: valid_RequestOwnedId_def record_path_def starts_with_def)

lemma valid_id_ascii: "valid_RequestOwnedId i \<Longrightarrow> list_all is_ascii (roid_str i)"
proof -
  assume "valid_RequestOwnedId i"
  then obtain suffix where i: "roid_str i = ''sbx-'' @ suffix" and "list_all is_lower_hex suffix"
    by (auto simp: valid_RequestOwnedId_def)
  then have "list_all is_ascii suffix"
    using lower_hex_ascii by (auto simp: list_all_iff)
  moreover have "list_all is_ascii ''sbx-''"
    by (simp add: is_ascii_def)
  ultimately show ?thesis
    by (simp add: i del: append.simps)
qed

lemma record_path_loadable:
  assumes "valid_RequestOwnedId i"
  shows "is_utf8 (record_path i) \<and> starts_with ''sbx-'' (record_path i)
    \<and> path_extension (record_path i) = Some ''json''"
proof (intro conjI)
  show "is_utf8 (record_path i)"
    using valid_id_ascii [OF assms] by (intro is_utf8_ascii) (simp add: record_path_def is_ascii_def)
  show "starts_with ''sbx-'' (record_path i)"
    using assms by (auto simp: valid_RequestOwnedId_def record_path_def starts_with_def)
  have "rsplit_once (CHR ''.'') (roid_str i @ CHR ''.'' # ''json'') = Some (roid_str i, ''json'')"
    by (rule rsplit_once_append) simp
  moreover have "length (roid_str i) = 19"
    using assms by (rule valid_RequestOwnedId_length)
  ultimately show "path_extension (record_path i) = Some ''json''"
    by (auto simp: path_extension_def record_path_def)
qed

lemma load_entry_Some:
  assumes "load_entry J P (name, e) = Ok (Some r)"
  shows "json_from_slice J (de_content e) = Some r \<and> name = record_path (dr_request_id r)
    \<and> \<not> starts_with ''.'' name \<and> is_ok (DurableRecord_validate r)"
  using assms by (auto simp: load_entry_def split: if_splits option.splits sum.splits)

lemma load_entry_visible:
  assumes "load_entry J P (name, e) = Ok found" and "\<not> starts_with ''.'' name"
  shows "found \<noteq> None"
  using assms
  by (auto simp: load_entry_def split: if_splits option.splits sum.splits dest: sym [of "Some _"])

lemma load_entry_hidden:
  assumes "load_entry J P (name, e) = Ok found" and "starts_with ''.'' name"
  shows "found = None"
  using assms by (auto simp: load_entry_def split: if_splits)

lemma load_entry_written:
  assumes "storable J r" and "json_to_vec J r = Some body" and "length body \<le> MAX_RECORD_BYTES"
    and "is_ok (DurableRecord_validate r)"
  shows "load_entry J (\<lambda>_. True)
      (record_path (dr_request_id r), \<lparr>de_kind = RegularFile, de_mode = 384, de_content = body\<rparr>)
    = Ok (Some r)"
  using assms record_path_loadable [of "dr_request_id r"] record_path_visible [of "dr_request_id r"]
  by (auto simp: load_entry_def storable_def is_ok_def split: sum.splits)

lemma dir_invar_iff:
  "dir_invar J d \<longleftrightarrow> hm_invar d \<and> (\<forall>name e. hm_get d name = Some e \<longrightarrow>
     starts_with ''.'' name \<or> is_ok (load_entry J (\<lambda>_. True) (name, e)))"
  unfolding dir_invar_def by (cases "hm_invar d") (simp_all add: hm_ball)

lemma dir_hidden_update [simp]:
  assumes "starts_with ''.'' name"
  shows "dir_lookup J (hm_insert name e d) = dir_lookup J d"
    and "dir_lookup J (hm_remove name d) = dir_lookup J d"
    and "dir_invar J d \<Longrightarrow> dir_invar J (hm_insert name e d)"
  using assms by (auto simp: dir_lookup_def dir_invar_iff)

lemma dir_invar_remove [simp]: "dir_invar J d \<Longrightarrow> dir_invar J (hm_remove name d)"
  by (auto simp: dir_invar_iff)

lemma dir_lookup_id:
  assumes "dir_invar J d" and "dir_lookup J d i = Some r"
  shows "dr_request_id r = i \<and> is_ok (DurableRecord_validate r)"
proof -
  obtain e where e: "hm_get d (record_path i) = Some e" "json_from_slice J (de_content e) = Some r"
    and visible: "\<not> starts_with ''.'' (record_path i)"
    using assms(2) by (auto simp: dir_lookup_def split: if_splits option.splits)
  then obtain found where "load_entry J (\<lambda>_. True) (record_path i, e) = Ok found"
    using assms(1) by (auto simp: dir_invar_iff is_ok_iff)
  with load_entry_visible [OF this visible] load_entry_Some e show ?thesis
    by fastforce
qed

text \<open>The three things a write can do to the directory.\<close>

lemma write_record_cases:
  assumes inv: "dir_invar J d" and st: "storable J r"
  shows "dir_invar J (snd (write_record J F r d)) \<and>
    ((fst (write_record J F r d) = Ok () \<and> is_ok (DurableRecord_validate r)
        \<and> dir_lookup J (snd (write_record J F r d)) = (dir_lookup J d)(dr_request_id r \<mapsto> r))
     \<or> (fst (write_record J F r d) = Err StoreError \<and> is_ok (DurableRecord_validate r)
        \<and> dir_lookup J (snd (write_record J F r d)) = (dir_lookup J d)(dr_request_id r \<mapsto> r))
     \<or> (fst (write_record J F r d) = Err StoreError
        \<and> dir_lookup J (snd (write_record J F r d)) = dir_lookup J d))"
proof -
  define target where "target = record_path (dr_request_id r)"
  define temporary where "temporary = temporary_path (dr_request_id r) (wf_uuid F)"
  have hidden: "starts_with ''.'' temporary"
    by (simp add: temporary_def)
  have visible: "\<not> starts_with ''.'' target"
    using st by (simp add: target_def storable_def record_path_visible)
  have placed: "dir_lookup J (hm_insert target f d') = (dir_lookup J d')(dr_request_id r \<mapsto> r)
      \<and> dir_invar J (hm_insert target f d')"
    if "dir_invar J d'" and "json_to_vec J r = Some body" and "length body \<le> MAX_RECORD_BYTES"
      and "is_ok (DurableRecord_validate r)"
      and "f = \<lparr>de_kind = RegularFile, de_mode = 384, de_content = body\<rparr>" for body f d'
    using that st visible load_entry_written [OF st that(2-4)]
    by (auto simp: dir_lookup_def dir_invar_iff target_def storable_def)
  show ?thesis
    using inv hidden placed
    by (auto simp: write_record_def write_through_temporary_def Let_def is_ok_def
        DurableRecord_validate_def target_def [symmetric] temporary_def [symmetric]
        split: option.splits sum.splits if_splits)
qed

lemma remove_record_cases:
  assumes "dir_invar J d"
  shows "dir_invar J (snd (remove_record F i d)) \<and>
    ((fst (remove_record F i d) = Ok ()
        \<and> dir_lookup J (snd (remove_record F i d)) = (dir_lookup J d)(i := None))
     \<or> (fst (remove_record F i d) = Err StoreError
        \<and> dir_lookup J (snd (remove_record F i d)) = (dir_lookup J d)(i := None))
     \<or> (fst (remove_record F i d) = Err StoreError
        \<and> dir_lookup J (snd (remove_record F i d)) = dir_lookup J d))"
  using assms
  by (auto simp: remove_record_def dir_lookup_def Let_def fun_eq_iff split: option.splits)

lemma load_entries_mem:
  "load_entries J P d = Ok rs \<Longrightarrow>
     (\<forall>r. r \<in> set rs \<longleftrightarrow> (\<exists>entry \<in> set d. load_entry J P entry = Ok (Some r)))
     \<and> (\<forall>entry \<in> set d. is_ok (load_entry J P entry))"
  by (induction d arbitrary: rs) (auto split: sum.splits option.splits)

lemma load_entries_names:
  "load_entries J P d = Ok rs \<Longrightarrow>
     map (record_path \<circ> dr_request_id) rs = filter (\<lambda>name. \<not> starts_with ''.'' name) (map fst d)"
proof (induction d arbitrary: rs)
  case (Cons entry d)
  obtain name e where entry: "entry = (name, e)"
    by (cases entry)
  obtain found rs' where "load_entry J P entry = Ok found" and "load_entries J P d = Ok rs'"
    and "rs = (case found of None \<Rightarrow> rs' | Some r \<Rightarrow> r # rs')"
    using Cons.prems by (auto split: sum.splits)
  with Cons.IH [of rs'] load_entry_visible [of J P name e found] load_entry_hidden [of J P name e found]
    load_entry_Some [of J P name e]
  show ?case
    by (cases "starts_with ''.'' name") (auto simp: entry)
qed simp

lemma load_records_Ok:
  assumes inv: "dir_invar J d" and load: "load_records J listed P d = Ok rs"
  shows "sorted_wrt (<) (map dr_request_id rs)
    \<and> (\<forall>r. r \<in> set rs \<longleftrightarrow> dir_lookup J d (dr_request_id r) = Some r)"
proof -
  obtain rs0 where rs0: "load_entries J P d = Ok rs0" and rs: "rs = sort_key dr_request_id rs0"
    using load by (auto simp: load_records_def split: if_splits sum.splits)
  have hm: "hm_invar d"
    using inv by (simp add: dir_invar_def)
  have mem: "r \<in> set rs0 \<longleftrightarrow> (\<exists>entry \<in> set d. load_entry J P entry = Ok (Some r))"
    and ok: "entry \<in> set d \<Longrightarrow> is_ok (load_entry J P entry)" for r entry
    using load_entries_mem [OF rs0] by blast+
  have "r \<in> set rs0 \<longleftrightarrow> dir_lookup J d (dr_request_id r) = Some r" for r
  proof
    assume "r \<in> set rs0"
    then obtain name e where "(name, e) \<in> set d" "load_entry J P (name, e) = Ok (Some r)"
      by (auto simp: mem)
    with load_entry_Some [of J P name e r] show "dir_lookup J d (dr_request_id r) = Some r"
      by (auto simp: dir_lookup_def hm_set_get [OF hm])
  next
    assume "dir_lookup J d (dr_request_id r) = Some r"
    then obtain e where e: "(record_path (dr_request_id r), e) \<in> set d"
        "json_from_slice J (de_content e) = Some r" "\<not> starts_with ''.'' (record_path (dr_request_id r))"
      by (auto simp: dir_lookup_def hm_set_get [OF hm] split: if_splits option.splits)
    then obtain found where found: "load_entry J P (record_path (dr_request_id r), e) = Ok found"
      using ok by (auto simp: is_ok_iff)
    moreover obtain r' where r': "found = Some r'"
      using load_entry_visible [OF found e(3)] by blast
    ultimately have "r' = r"
      using load_entry_Some [of J P "record_path (dr_request_id r)" e r'] e(2) by simp
    with found r' e(1) show "r \<in> set rs0"
      unfolding mem by blast
  qed
  moreover have "distinct (map (record_path \<circ> dr_request_id) rs0)"
    using hm by (simp only: load_entries_names [OF rs0] distinct_filter hm_invar_def)
  then have "distinct (map dr_request_id rs0)"
    by (simp add: distinct_map inj_on_def)
  ultimately show ?thesis
    unfolding rs by (simp add: sort_key_strict)
qed

interpretation dir_store:
  record_store "dir_invar J" "dir_lookup J" "storable J" "write_record J"
    "\<lambda>(listed, readable). load_records J listed readable" remove_record for J
proof unfold_locales
  fix d i r
  assume "dir_invar J d" and "dir_lookup J d i = Some r"
  then show "dr_request_id r = i"
    by (simp add: dir_lookup_id)
next
  fix h d rs
  assume "dir_invar J d" and "(case h of (listed, readable) \<Rightarrow> load_records J listed readable) d = Ok rs"
  then show "sorted_wrt (<) (map dr_request_id rs)
      \<and> (\<forall>r. r \<in> set rs \<longleftrightarrow> dir_lookup J d (dr_request_id r) = Some r)"
    by (cases h) (simp add: load_records_Ok)
next
  fix d r f
  assume *: "dir_invar J d" "storable J r"
  show "dir_invar J (snd (write_record J f r d))"
    using write_record_cases [OF *, of f] by blast
  show "dir_lookup J (snd (write_record J f r d)) = (dir_lookup J d)(dr_request_id r \<mapsto> r)"
    if "fst (write_record J f r d) = Ok ()"
    using write_record_cases [OF *, of f] that by auto
  show "dir_lookup J (snd (write_record J f r d))
      \<in> {dir_lookup J d, (dir_lookup J d)(dr_request_id r \<mapsto> r)}"
    if "fst (write_record J f r d) = Err e" for e
    using write_record_cases [OF *, of f] by auto
next
  fix d i g
  assume *: "dir_invar J d"
  show "dir_invar J (snd (remove_record g i d))"
    using remove_record_cases [OF *, of g i] by blast
  show "dir_lookup J (snd (remove_record g i d)) = (dir_lookup J d)(i := None)"
    if "fst (remove_record g i d) = Ok ()"
    using remove_record_cases [OF *, of g i] that by auto
  show "dir_lookup J (snd (remove_record g i d)) \<in> {dir_lookup J d, (dir_lookup J d)(i := None)}"
    if "fst (remove_record g i d) = Err e" for e
    using remove_record_cases [OF *, of g i] by auto
qed

section \<open>The directory refines the table\<close>

definition dir_refines :: "DurableRecord json_codec \<Rightarrow> directory \<Rightarrow> table \<Rightarrow> bool" where
  "dir_refines J d t \<longleftrightarrow> dir_invar J d \<and> table_invar t \<and> hm_get t = dir_lookup J d"

lemma write_refines:
  assumes "dir_refines J d t" and "storable J r"
  shows "\<exists>outcome. fst (table_write outcome r t) = fst (write_record J F r d)
    \<and> dir_refines J (snd (write_record J F r d)) (snd (table_write outcome r t))"
proof -
  have inv: "dir_invar J d" "table_invar t" "hm_get t = dir_lookup J d"
    using assms(1) by (simp_all add: dir_refines_def)
  have step: ?thesis
    if "fst (table_write outcome r t) = fst (write_record J F r d)"
      and "hm_get (snd (table_write outcome r t)) = dir_lookup J (snd (write_record J F r d))" for outcome
    using that inv write_record_cases [OF inv(1) assms(2), of F]
      table_store.write_invar [OF inv(2) TrueI, of outcome r]
    by (auto simp: dir_refines_def)
  from write_record_cases [OF inv(1) assms(2), of F] show ?thesis
  proof (elim conjE disjE)
    assume "fst (write_record J F r d) = Ok ()" "is_ok (DurableRecord_validate r)"
      "dir_lookup J (snd (write_record J F r d)) = (dir_lookup J d)(dr_request_id r \<mapsto> r)"
    with inv show ?thesis
      by (intro step [of WriteOk]) (auto simp: table_write_def is_ok_iff hm_get_insert_fun)
  next
    assume "fst (write_record J F r d) = Err StoreError" "is_ok (DurableRecord_validate r)"
      "dir_lookup J (snd (write_record J F r d)) = (dir_lookup J d)(dr_request_id r \<mapsto> r)"
    with inv show ?thesis
      by (intro step [of WriteFailedReplaced]) (auto simp: table_write_def is_ok_iff hm_get_insert_fun)
  next
    assume "fst (write_record J F r d) = Err StoreError"
      "dir_lookup J (snd (write_record J F r d)) = dir_lookup J d"
    with inv show ?thesis
      by (intro step [of WriteFailedKept])
        (auto simp: table_write_def DurableRecord_validate_def split: sum.splits)
  qed
qed

lemma dir_lookup_present:
  assumes "dir_invar J d" and "valid_RequestOwnedId i"
  shows "dir_lookup J d i = None \<longleftrightarrow> hm_get d (record_path i) = None"
proof (cases "hm_get d (record_path i)")
  case (Some e)
  have visible: "\<not> starts_with ''.'' (record_path i)"
    using assms(2) by (rule record_path_visible)
  then obtain found where found: "load_entry J (\<lambda>_. True) (record_path i, e) = Ok found"
    using assms(1) Some by (auto simp: dir_invar_iff is_ok_iff)
  then obtain r where "found = Some r"
    using load_entry_visible [OF found visible] by blast
  with found load_entry_Some [of J "\<lambda>_. True" "record_path i" e r] Some visible show ?thesis
    by (simp add: dir_lookup_def)
qed (simp add: dir_lookup_def)

lemma remove_refines:
  assumes "dir_refines J d t" and "valid_RequestOwnedId i"
  shows "\<exists>outcome. fst (table_remove outcome i t) = fst (remove_record F i d)
    \<and> dir_refines J (snd (remove_record F i d)) (snd (table_remove outcome i t))"
proof -
  have inv: "dir_invar J d" "table_invar t" "hm_get t = dir_lookup J d"
    using assms(1) by (simp_all add: dir_refines_def)
  note present = dir_lookup_present [OF inv(1) assms(2)]
  have gone: "dir_lookup J (hm_remove (record_path i) d) = (dir_lookup J d)(i := None)"
    by (auto simp: dir_lookup_def fun_eq_iff)
  show ?thesis
  proof (cases "hm_get d (record_path i)")
    case None
    with inv present show ?thesis
      by (auto simp: table_remove_def remove_record_def dir_refines_def)
  next
    case (Some e)
    then obtain r where r: "hm_get t i = Some r"
      using present inv(3) by auto
    define outcome where "outcome =
      (if rmf_unlink F \<or> de_kind e = DirectoryFile then RemoveFailedKept
       else if rmf_dirsync F then RemoveFailedGone else RemoveOk)"
    have "fst (table_remove outcome i t) = fst (remove_record F i d)
        \<and> dir_refines J (snd (remove_record F i d)) (snd (table_remove outcome i t))"
      using inv Some r gone
      by (simp add: outcome_def table_remove_def remove_record_def dir_refines_def Let_def
          hm_get_remove_fun table_invar_remove)
    then show ?thesis ..
  qed
qed

lemma load_refines:
  assumes "dir_refines J d t" and "load_records J listed readable d = Ok rs"
  shows "table_load True t = Ok rs"
proof -
  obtain rs' where rs': "table_load True t = Ok rs'"
    by (simp add: table_load_def)
  have inv: "dir_invar J d" "table_invar t" "hm_get t = dir_lookup J d"
    using assms(1) by (simp_all add: dir_refines_def)
  have "rs = rs'"
    using load_records_Ok [OF inv(1) assms(2)] table_store.load_Ok [OF inv(2) rs'] inv(3)
    by (intro strictly_sorted_unique [of dr_request_id]) auto
  with rs' show ?thesis by simp
qed

section \<open>Properties of the store\<close>

text \<open>
  C10. The directory implements the table, whatever system calls fail: a write of a record that its
  JSON text represents and a removal have one of the outcomes of the table, with the same result and
  related states, and a load that succeeds returns what the table returns.
\<close>

theorem directory_refines_table:
  assumes "dir_refines J d t" and "storable J r" and "valid_RequestOwnedId i"
  shows "(\<exists>outcome. fst (table_write outcome r t) = fst (write_record J F r d)
        \<and> dir_refines J (snd (write_record J F r d)) (snd (table_write outcome r t)))
    \<and> (\<exists>outcome. fst (table_remove outcome i t) = fst (remove_record G i d)
        \<and> dir_refines J (snd (remove_record G i d)) (snd (table_remove outcome i t)))
    \<and> (\<forall>listed readable rs. load_records J listed readable d = Ok rs \<longrightarrow> table_load True t = Ok rs)"
  using write_refines [OF assms(1,2)] remove_refines [OF assms(1,3)] load_refines [OF assms(1)] by blast

definition probe_id :: RequestOwnedId where
  "probe_id = RequestOwnedId ''sbx-0123456789abcde''"

definition probe_record :: DurableRecord where
  "probe_record = \<lparr>dr_schema_version = 1, dr_request_id = probe_id, dr_caller = CallerFingerprint ''00'',
     dr_stage = St_Created, dr_template = TemplateIdentity ''base'',
     dr_policy = \<lparr>policy_id = ''base'', policy_version = 1, policy_sha256 = Sha256Digest ''00''\<rparr>,
     dr_created_at_unix_ms = 5, dr_updated_at_unix_ms = 6\<rparr>"

definition probe_codec :: "DurableRecord json_codec" where
  "probe_codec = one_value_codec probe_record [1, 2, 3]"

definition sync_fails :: write_faults where
  "sync_fails = \<lparr>wf_uuid = ''u'', wf_open = False, wf_write = None, wf_sync = False, wf_rename = False,
     wf_dirsync = True, wf_unlink = False\<rparr>"

definition no_faults :: write_faults where
  "no_faults = sync_fails\<lparr>wf_dirsync := False\<rparr>"

lemma probe_valid: "valid_RequestOwnedId probe_id"
proof -
  have "RequestOwnedId_parse (roid_str probe_id) = Ok probe_id"
    by (simp add: probe_id_def RequestOwnedId_parse_def is_lower_hex_def is_ascii_digit_def)
  then show ?thesis
    by (simp add: RequestOwnedId_parse_Ok_iff)
qed

lemma probe_storable: "storable probe_codec probe_record"
  using probe_valid by (simp add: storable_def probe_codec_def one_value_codec_def probe_record_def)

theorem directory_refines_table_witness:
  "\<exists>outcome. fst (table_write outcome probe_record []) = fst (write_record probe_codec sync_fails probe_record [])
     \<and> dir_refines probe_codec (snd (write_record probe_codec sync_fails probe_record []))
         (snd (table_write outcome probe_record []))"
proof -
  have "dir_refines probe_codec [] []"
    by (simp add: dir_refines_def dir_invar_def table_invar_def dir_lookup_def fun_eq_iff)
  from directory_refines_table [OF this probe_storable probe_valid] show ?thesis
    by blast
qed

text \<open>Names of entries that \<open>to_str\<close> accepts; the store only creates such.\<close>

definition dir_names_ok :: "directory \<Rightarrow> bool" where
  "dir_names_ok d \<longleftrightarrow> (\<forall>(name, e) \<in> set d. is_utf8 name)"

lemma load_entry_True:
  "dir_invar J d \<Longrightarrow> dir_names_ok d \<Longrightarrow> entry \<in> set d \<Longrightarrow> is_ok (load_entry J (\<lambda>_. True) entry)"
proof (cases entry)
  case (Pair name e)
  assume "dir_invar J d" and "dir_names_ok d" and "entry \<in> set d"
  then have "is_utf8 name" and "starts_with ''.'' name \<or> is_ok (load_entry J (\<lambda>_. True) (name, e))"
    using Pair by (auto simp: dir_invar_def dir_names_ok_def)
  then show ?thesis
    unfolding Pair by (cases "starts_with ''.'' name") (simp_all add: load_entry_def)
qed

lemma load_entries_total:
  "(\<And>entry. entry \<in> set d \<Longrightarrow> is_ok (load_entry J P entry)) \<Longrightarrow> \<exists>rs. load_entries J P d = Ok rs"
proof (induction d)
  case (Cons entry d)
  then obtain found rs where "load_entry J P entry = Ok found" and "load_entries J P d = Ok rs"
    by (metis is_ok_iff list.set_intros(1) list.set_intros(2))
  then show ?case by simp
qed simp

lemma load_records_total:
  "dir_invar J d \<Longrightarrow> dir_names_ok d \<Longrightarrow> \<exists>rs. load_records J True (\<lambda>_. True) d = Ok rs"
  using load_entries_total [of d J "\<lambda>_. True"] load_entry_True
  by (fastforce simp: load_records_def)

lemma dir_names_ok_iff:
  "hm_invar d \<Longrightarrow> dir_names_ok d \<longleftrightarrow> (\<forall>name e. hm_get d name = Some e \<longrightarrow> is_utf8 name)"
  unfolding dir_names_ok_def by (rule hm_ball)

lemma temporary_path_utf8:
  "valid_RequestOwnedId i \<Longrightarrow> list_all is_ascii uuid \<Longrightarrow> is_utf8 (temporary_path i uuid)"
  by (intro is_utf8_ascii) (auto simp: temporary_path_def valid_id_ascii, simp_all add: is_ascii_def)

lemma write_record_names:
  assumes "hm_invar d" and "dir_names_ok d" and "valid_RequestOwnedId (dr_request_id r)"
    and "list_all is_ascii (wf_uuid F)"
  shows "dir_names_ok (snd (write_record J F r d))"
proof -
  have utf8: "is_utf8 (temporary_path (dr_request_id r) (wf_uuid F))" "is_utf8 (record_path (dr_request_id r))"
    using temporary_path_utf8 [OF assms(3,4)] record_path_loadable [OF assms(3)] by simp_all
  show ?thesis
    using assms(1,2) utf8
    by (auto simp: write_record_def write_through_temporary_def Let_def dir_names_ok_iff
        split: sum.splits option.splits if_splits)
qed

text \<open>
  A record whose write succeeded is found again: the next load, by the same or by a restarted
  process, succeeds when the files can be read, returns the records in the order of their
  identifiers, and contains the written record and every other record the directory held.
\<close>

theorem written_record_survives:
  assumes "dir_invar J d" and "dir_names_ok d" and "storable J r" and "list_all is_ascii (wf_uuid F)"
    and "fst (write_record J F r d) = Ok ()"
  shows "\<exists>rs. load_records J True (\<lambda>_. True) (snd (write_record J F r d)) = Ok rs
    \<and> r \<in> set rs \<and> sorted_wrt (<) (map dr_request_id rs)
    \<and> (\<forall>i r'. dir_lookup J d i = Some r' \<and> i \<noteq> dr_request_id r \<longrightarrow> r' \<in> set rs)"
proof -
  let ?d = "snd (write_record J F r d)"
  have inv: "dir_invar J ?d"
    using dir_store.write_invar [OF assms(1,3)] .
  have "dir_names_ok ?d"
    using assms by (intro write_record_names) (simp_all add: dir_invar_def storable_def)
  then obtain rs where rs: "load_records J True (\<lambda>_. True) ?d = Ok rs"
    using load_records_total [OF inv] by blast
  have mem: "x \<in> set rs \<longleftrightarrow> dir_lookup J ?d (dr_request_id x) = Some x" for x
    using load_records_Ok [OF inv rs] by blast
  have "r \<in> set rs"
    using dir_store.load_after_write [OF assms(1,3,5), where h = "(True, \<lambda>_. True)"] rs by simp
  moreover have "r' \<in> set rs" if "dir_lookup J d i = Some r'" and "i \<noteq> dr_request_id r" for i r'
    using that dir_store.write_frame [OF assms(1,3) that(2), of F] dir_lookup_id [OF assms(1) that(1)] mem
    by simp
  ultimately show ?thesis
    using rs load_records_Ok [OF inv rs] by blast
qed

theorem written_record_survives_witness:
  "\<exists>rs. load_records probe_codec True (\<lambda>_. True)
       (snd (write_record probe_codec no_faults probe_record [])) = Ok rs \<and> probe_record \<in> set rs"
proof -
  have "dir_invar probe_codec []" and "dir_names_ok []" and "list_all is_ascii (wf_uuid no_faults)"
    by (simp_all add: dir_invar_def dir_names_ok_def no_faults_def sync_fails_def is_ascii_def)
  moreover have "fst (write_record probe_codec no_faults probe_record []) = Ok ()"
    by (simp add: write_record_def write_through_temporary_def no_faults_def sync_fails_def probe_codec_def
        one_value_codec_def probe_record_def store_defs MAX_RECORD_BYTES_def Let_def)
  ultimately show ?thesis
    using written_record_survives [OF _ _ probe_storable, of "[]" no_faults] by blast
qed

end
