(* ===== verification/Program_Logic.thy ===== *)
theory Program_Logic
  imports Prelude
begin

text \<open>
  Reasoning about programs given as trees of atomic actions. A language of programs is a function
  \<open>step\<close>: the program, the answer of the environment to its next action and the state give the
  observable events, the next state and the rest of the program; \<open>None\<close> when the answer does not
  fit. \<open>reaches\<close> are the points such a program passes through, \<open>holds\<close> says that a predicate is
  true at each of them, so that a property of a program includes every point at which the process can
  be killed. The service boundary and the governed dispatcher are two such languages; \<open>sequencing\<close>
  is what they share.
\<close>

type_synonym ('p, 'a, 's, 'e) stepper = "'p \<Rightarrow> 'a \<Rightarrow> 's \<Rightarrow> ('e list \<times> 's \<times> 'p) option"

inductive reaches :: "('p, 'a, 's, 'e) stepper \<Rightarrow> 's \<Rightarrow> 'p \<Rightarrow> 'e list \<Rightarrow> 's \<Rightarrow> 'p \<Rightarrow> bool"
  for step :: "('p, 'a, 's, 'e) stepper" where
  reaches_refl: "reaches step s p [] s p"
| reaches_step: "step p a s = Some (ev, s1, p1) \<Longrightarrow> reaches step s1 p1 evs s2 p2 \<Longrightarrow>
     reaches step s p (ev @ evs) s2 p2"

text \<open>Running a program on a list of answers, as far as they fit.\<close>

fun runs :: "('p, 'a, 's, 'e) stepper \<Rightarrow> 'a list \<Rightarrow> 's \<Rightarrow> 'p \<Rightarrow> 'e list \<times> 's \<times> 'p" where
  "runs step [] s p = ([], s, p)"
| "runs step (a # answers) s p =
     (case step p a s of
        None \<Rightarrow> ([], s, p)
      | Some (ev, s1, p1) \<Rightarrow> (case runs step answers s1 p1 of (evs, s2, p2) \<Rightarrow> (ev @ evs, s2, p2)))"

lemma runs_reaches: "runs step answers s p = (evs, s', p') \<Longrightarrow> reaches step s p evs s' p'"
  by (induction step answers s p arbitrary: evs s' p' rule: runs.induct)
    (auto split: option.splits prod.splits intro: reaches_refl reaches_step)

lemma reaches_trans:
  "reaches step s p evs s' p' \<Longrightarrow> reaches step s' p' evs' s'' p'' \<Longrightarrow> reaches step s p (evs @ evs') s'' p''"
  by (induction s p evs s' p' rule: reaches.induct) (auto intro: reaches_step)

definition holds ::
  "('p, 'a, 's, 'e) stepper \<Rightarrow> ('e list \<Rightarrow> 's \<Rightarrow> 'p \<Rightarrow> bool) \<Rightarrow> 's \<Rightarrow> 'p \<Rightarrow> bool" where
  "holds step Q s p \<longleftrightarrow> (\<forall>evs s' p'. reaches step s p evs s' p' \<longrightarrow> Q evs s' p')"

lemma holdsD: "holds step Q s p \<Longrightarrow> reaches step s p evs s' p' \<Longrightarrow> Q evs s' p'"
  by (simp add: holds_def)

lemma holds_unfold:
  "holds step Q s p \<longleftrightarrow> Q [] s p \<and> (\<forall>a ev s1 p1. step p a s = Some (ev, s1, p1) \<longrightarrow>
     holds step (\<lambda>evs. Q (ev @ evs)) s1 p1)"
proof (intro iffI conjI allI impI)
  assume Q: "holds step Q s p"
  show "Q [] s p"
    using holdsD [OF Q reaches_refl] .
  show "holds step (\<lambda>evs. Q (ev @ evs)) s1 p1" if "step p a s = Some (ev, s1, p1)" for a ev s1 p1
    unfolding holds_def using holdsD [OF Q reaches_step [of step, OF that]] by blast
next
  assume *: "Q [] s p \<and> (\<forall>a ev s1 p1. step p a s = Some (ev, s1, p1) \<longrightarrow>
     holds step (\<lambda>evs. Q (ev @ evs)) s1 p1)"
  have "Q evs s' p'" if "reaches step s p evs s' p'" for evs s' p'
    using that
  proof cases
    case (reaches_step a ev s1 p1 evs')
    with * have "holds step (\<lambda>evs. Q (ev @ evs)) s1 p1"
      by blast
    from holdsD [OF this] reaches_step show ?thesis
      by blast
  qed (use * in simp)
  then show "holds step Q s p"
    by (simp add: holds_def)
qed

lemma holds_mono:
  assumes "holds step Q s p" and "\<And>evs s' p'. Q evs s' p' \<Longrightarrow> R evs s' p'"
  shows "holds step R s p"
  using assms by (auto simp: holds_def)

lemma holds_conj: "holds step Q s p \<Longrightarrow> holds step R s p \<Longrightarrow> holds step (\<lambda>evs s' p'. Q evs s' p' \<and> R evs s' p') s p"
  by (simp add: holds_def)

lemma holds_reaches:
  "holds step Q s p \<Longrightarrow> reaches step s p evs s' p' \<Longrightarrow> holds step (\<lambda>evs'. Q (evs @ evs')) s' p'"
  by (auto simp: holds_def dest: reaches_trans)

text \<open>
  The contract of a sequencing operator: it runs the first program until that returns, then the
  second.
\<close>

locale sequencing =
  fixes step :: "('p, 'a, 's, 'e) stepper"
    and step' :: "('q, 'a, 's, 'e) stepper"
    and seq :: "'p \<Rightarrow> ('x \<Rightarrow> 'q) \<Rightarrow> 'q"
    and ret :: "'x \<Rightarrow> 'p"
  assumes seq_ret: "seq (ret x) f = f x"
    and step_seq: "(\<And>x. p \<noteq> ret x) \<Longrightarrow>
      step' (seq p f) a s = map_option (\<lambda>(ev, s1, p1). (ev, s1, seq p1 f)) (step p a s)"
begin

lemma reaches_seq:
  assumes "reaches step' s q evs s' q'" and "q = seq p f"
  shows "(\<exists>p'. reaches step s p evs s' p' \<and> q' = seq p' f)
    \<or> (\<exists>ev1 ev2 s1 x. reaches step s p ev1 s1 (ret x) \<and> reaches step' s1 (f x) ev2 s' q' \<and> evs = ev1 @ ev2)"
  using assms
proof (induction s q evs s' q' arbitrary: p rule: reaches.induct)
  case (reaches_refl s q)
  then show ?case by (blast intro: reaches.reaches_refl)
next
  case (reaches_step q a s ev s1 q1 evs s2 q2)
  show ?case
  proof (cases "\<exists>x. p = ret x")
    case True
    then obtain x where x: "p = ret x" ..
    then have "reaches step' s (f x) (ev @ evs) s2 q2"
      using reaches_step.hyps reaches_step.prems by (auto simp: seq_ret intro: reaches.reaches_step)
    then show ?thesis
      using x reaches.reaches_refl [of step s "ret x"] by (metis append_Nil)
  next
    case False
    then obtain p1 where p1: "step p a s = Some (ev, s1, p1)" "q1 = seq p1 f"
      using reaches_step.hyps(1) reaches_step.prems by (auto simp: step_seq)
    from reaches_step.IH [OF p1(2)] show ?thesis
    proof (elim disjE exE conjE)
      fix p' assume "reaches step s1 p1 evs s2 p'" "q2 = seq p' f"
      with p1 show ?thesis by (blast intro: reaches.reaches_step)
    next
      fix ev1 ev2 s3 x
      assume "reaches step s1 p1 ev1 s3 (ret x)" "reaches step' s3 (f x) ev2 s2 q2" "evs = ev1 @ ev2"
      with p1 have "reaches step s p (ev @ ev1) s3 (ret x)" and "reaches step' s3 (f x) ev2 s2 q2"
          and "ev @ evs = (ev @ ev1) @ ev2"
        by (auto intro: reaches.reaches_step)
      then show ?thesis by blast
    qed
  qed
qed

lemma holds_seq:
  assumes "holds step (\<lambda>evs s' p'. Q evs s' (seq p' f) \<and>
      (\<forall>x. p' = ret x \<longrightarrow> holds step' (\<lambda>evs'. Q (evs @ evs')) s' (f x))) s p"
  shows "holds step' Q s (seq p f)"
  unfolding holds_def
proof (intro allI impI)
  fix evs s' q'
  assume "reaches step' s (seq p f) evs s' q'"
  from reaches_seq [OF this refl] show "Q evs s' q'"
    using holdsD [OF assms] by (fastforce dest: holdsD)
qed

end

end
