(* ===== verification/Boundary_Prog.thy ===== *)
theory Boundary_Prog
  imports Durable_Store Program_Logic
begin

text \<open>
  The state of the service boundary (\<^verbatim>\<open>src/src/service/boundary.rs\<close>) and the language its
  handlers are written in. A handler is a value of the type \<open>prog\<close>: the sequence of its atomic
  actions, each with the continuation for every result. An action is one critical section under a
  mutex, one access to an atomic flag, one call to the durable store, the clock, the token generator
  or the sandbox runtime; these are the points at which the asynchronous code can be suspended.
  \<open>step_prog\<close> gives every action its effect; the results that come from outside (clock, store
  failures, runtime) are the \<open>answer\<close> of the step.
\<close>

section \<open>State\<close>

type_synonym canc = nat

type_synonym op_context = "canc OperationContext"

datatype Lifecycle = LC_Created CreatedSandbox | LC_Ready ReadySandbox | LC_CleanupOnly

record OwnedEntry =
  oe_record :: DurableRecord
  oe_lifecycle_token :: CapabilityToken
  oe_lifecycle :: Lifecycle

record PreparedExec =
  pe_caller :: CallerFingerprint
  pe_request_id :: RequestOwnedId
  pe_request :: ExecRequest
  pe_expires_at :: instant

text \<open>
  \<open>sv_epoch\<close> counts the calls of \<open>Notify::notify_waiters\<close>; cancellation tokens are numbered
  in the order of their creation and \<open>sv_cancelled\<close> lists the cancelled ones.
\<close>

record service =
  sv_bundle :: AssetBundleIdentity
  sv_store :: table
  sv_owned :: "(RequestOwnedId, OwnedEntry) hm"
  sv_prepared :: "(CapabilityToken, PreparedExec) hm"
  sv_active :: "(OperationId, canc) hm"
  sv_epoch :: nat
  sv_draining :: bool
  sv_startup_reconciled :: bool
  sv_next_canc :: canc
  sv_cancelled :: "canc list"

definition service_new :: "AssetBundleIdentity \<Rightarrow> table \<Rightarrow> service" where
  "service_new bundle store =
     \<lparr>sv_bundle = bundle, sv_store = store, sv_owned = [], sv_prepared = [], sv_active = [],
      sv_epoch = 0, sv_draining = False, sv_startup_reconciled = False, sv_next_canc = 0,
      sv_cancelled = []\<rparr>"

definition take_owned ::
  "CallerIdentity \<Rightarrow> RequestOwnedId \<Rightarrow> CapabilityToken option \<Rightarrow> (RequestOwnedId, OwnedEntry) hm \<Rightarrow>
   OwnedEntry option \<times> (RequestOwnedId, OwnedEntry) hm" where
  "take_owned caller request_id lifecycle_token owned =
     (case hm_get owned request_id of
        None \<Rightarrow> (None, owned)
      | Some entry \<Rightarrow>
          let removed = hm_remove request_id owned;
              token_matches = (case lifecycle_token of None \<Rightarrow> True | Some t \<Rightarrow> t = oe_lifecycle_token entry)
          in if dr_caller (oe_record entry) = ci_fingerprint caller \<and> token_matches
             then (Some entry, removed)
             else (None, hm_insert request_id entry removed))"

section \<open>Programs\<close>

datatype wake = WakeCancelled | WakeDeadline | WakeChanged

datatype 'a prog =
    Ret 'a
  | Panic
  | OutOfFuel
  | UnixTime "nat option \<Rightarrow> 'a prog"
  | Now "instant \<Rightarrow> 'a prog"
  | GenerateToken "CapabilityToken \<Rightarrow> 'a prog"
  | NewCancellation "canc \<Rightarrow> 'a prog"
  | LoadDraining "bool \<Rightarrow> 'a prog"
  | LoadReconciled "bool \<Rightarrow> 'a prog"
  | StoreDraining bool "'a prog"
  | StoreReconciled bool "'a prog"
  | OwnedGet RequestOwnedId "OwnedEntry option \<Rightarrow> 'a prog"
  | OwnedTake CallerIdentity RequestOwnedId "CapabilityToken option" "OwnedEntry option \<Rightarrow> 'a prog"
  | OwnedPut RequestOwnedId OwnedEntry "'a prog"
  | PreparedReserve RequestOwnedId "instant \<Rightarrow> PreparedExec" "CapabilityToken option \<Rightarrow> 'a prog"
  | PreparedRemove CapabilityToken "PreparedExec option \<Rightarrow> 'a prog"
  | PreparedForget RequestOwnedId "'a prog"
  | ActiveInsert OperationId canc "bool \<Rightarrow> 'a prog"
  | ActiveRemove OperationId "'a prog"
  | ActiveLen "nat \<Rightarrow> 'a prog"
  | ActiveCancel OperationId "bool \<Rightarrow> 'a prog"
  | ActiveCancelAll "'a prog"
  | Notified "nat \<Rightarrow> 'a prog"
  | Select canc instant nat "wake \<Rightarrow> 'a prog"
  | StoreWrite DurableRecord "bool \<Rightarrow> 'a prog"
  | StoreRemove RequestOwnedId "bool \<Rightarrow> 'a prog"
  | StoreLoad "DurableRecord list option \<Rightarrow> 'a prog"
  | RtCreate CreateRequest op_context "CreateFailure + CreatedSandbox \<Rightarrow> 'a prog"
  | RtWaitReady CreatedSandbox PolicyIdentity op_context "ReadinessFailure + ReadySandbox \<Rightarrow> 'a prog"
  | RtExec ReadySandbox ExecRequest op_context "ExecFailure + ExecCompleted \<Rightarrow> 'a prog"
  | RtDelete CleanupTarget op_context "CleanupFailure + DeleteOutcome \<Rightarrow> 'a prog"
  | RtWaitDeleted CleanupTarget op_context "CleanupFailure + unit \<Rightarrow> 'a prog"

primrec bind :: "'a prog \<Rightarrow> ('a \<Rightarrow> 'b prog) \<Rightarrow> 'b prog" where
  "bind (Ret x) f = f x"
| "bind Panic f = Panic"
| "bind OutOfFuel f = OutOfFuel"
| "bind (UnixTime k) f = UnixTime (\<lambda>x. bind (k x) f)"
| "bind (Now k) f = Now (\<lambda>x. bind (k x) f)"
| "bind (GenerateToken k) f = GenerateToken (\<lambda>x. bind (k x) f)"
| "bind (NewCancellation k) f = NewCancellation (\<lambda>x. bind (k x) f)"
| "bind (LoadDraining k) f = LoadDraining (\<lambda>x. bind (k x) f)"
| "bind (LoadReconciled k) f = LoadReconciled (\<lambda>x. bind (k x) f)"
| "bind (StoreDraining b p) f = StoreDraining b (bind p f)"
| "bind (StoreReconciled b p) f = StoreReconciled b (bind p f)"
| "bind (OwnedGet i k) f = OwnedGet i (\<lambda>x. bind (k x) f)"
| "bind (OwnedTake c i t k) f = OwnedTake c i t (\<lambda>x. bind (k x) f)"
| "bind (OwnedPut i e p) f = OwnedPut i e (bind p f)"
| "bind (PreparedReserve i item k) f = PreparedReserve i item (\<lambda>x. bind (k x) f)"
| "bind (PreparedRemove t k) f = PreparedRemove t (\<lambda>x. bind (k x) f)"
| "bind (PreparedForget i p) f = PreparedForget i (bind p f)"
| "bind (ActiveInsert i c k) f = ActiveInsert i c (\<lambda>x. bind (k x) f)"
| "bind (ActiveRemove i p) f = ActiveRemove i (bind p f)"
| "bind (ActiveLen k) f = ActiveLen (\<lambda>x. bind (k x) f)"
| "bind (ActiveCancel i k) f = ActiveCancel i (\<lambda>x. bind (k x) f)"
| "bind (ActiveCancelAll p) f = ActiveCancelAll (bind p f)"
| "bind (Notified k) f = Notified (\<lambda>x. bind (k x) f)"
| "bind (Select c t n k) f = Select c t n (\<lambda>x. bind (k x) f)"
| "bind (StoreWrite r k) f = StoreWrite r (\<lambda>x. bind (k x) f)"
| "bind (StoreRemove i k) f = StoreRemove i (\<lambda>x. bind (k x) f)"
| "bind (StoreLoad k) f = StoreLoad (\<lambda>x. bind (k x) f)"
| "bind (RtCreate q c k) f = RtCreate q c (\<lambda>x. bind (k x) f)"
| "bind (RtWaitReady q p c k) f = RtWaitReady q p c (\<lambda>x. bind (k x) f)"
| "bind (RtExec r q c k) f = RtExec r q c (\<lambda>x. bind (k x) f)"
| "bind (RtDelete t c k) f = RtDelete t c (\<lambda>x. bind (k x) f)"
| "bind (RtWaitDeleted t c k) f = RtWaitDeleted t c (\<lambda>x. bind (k x) f)"

section \<open>Semantics\<close>

datatype answer =
    A_tick
  | A_unix "nat option"
  | A_now instant
  | A_token CapabilityToken
  | A_reserve CapabilityToken instant
  | A_wake wake
  | A_write write_outcome
  | A_remove remove_outcome
  | A_load bool
  | A_create "CreateFailure + CreatedSandbox"
  | A_ready "ReadinessFailure + ReadySandbox"
  | A_exec "ExecFailure + ExecCompleted"
  | A_delete "CleanupFailure + DeleteOutcome"
  | A_absent "CleanupFailure + unit"

text \<open>What an observer of the store and of the runtime sees of a step.\<close>

datatype event =
    Ev_write DurableRecord bool
  | Ev_remove RequestOwnedId bool
  | Ev_create CreateRequest "CreateFailure + CreatedSandbox"
  | Ev_wait_ready CreatedSandbox "ReadinessFailure + ReadySandbox"
  | Ev_exec ReadySandbox ExecRequest "ExecFailure + ExecCompleted"
  | Ev_delete CleanupTarget "CleanupFailure + DeleteOutcome"
  | Ev_absent CleanupTarget "CleanupFailure + unit"
  | Ev_create_interrupted RequestOwnedId

text \<open>
  One action. \<open>None\<close>: the answer is of another kind, or the action cannot happen now (a wait
  that nothing has ended). A cancelled wake-up needs a cancelled token, a notified one a call of
  \<open>notify_waiters\<close> since \<open>Notified\<close> was read.
\<close>

primrec step_prog :: "'a prog \<Rightarrow> answer \<Rightarrow> service \<Rightarrow> (event list \<times> service \<times> 'a prog) option" where
  "step_prog (Ret x) a s = None"
| "step_prog Panic a s = None"
| "step_prog OutOfFuel a s = None"
| "step_prog (UnixTime k) a s = (case a of A_unix c \<Rightarrow> Some ([], s, k c) | _ \<Rightarrow> None)"
| "step_prog (Now k) a s = (case a of A_now t \<Rightarrow> Some ([], s, k t) | _ \<Rightarrow> None)"
| "step_prog (GenerateToken k) a s = (case a of A_token t \<Rightarrow> Some ([], s, k t) | _ \<Rightarrow> None)"
| "step_prog (NewCancellation k) a s =
     (case a of A_tick \<Rightarrow> Some ([], s\<lparr>sv_next_canc := Suc (sv_next_canc s)\<rparr>, k (sv_next_canc s)) | _ \<Rightarrow> None)"
| "step_prog (LoadDraining k) a s = (case a of A_tick \<Rightarrow> Some ([], s, k (sv_draining s)) | _ \<Rightarrow> None)"
| "step_prog (LoadReconciled k) a s =
     (case a of A_tick \<Rightarrow> Some ([], s, k (sv_startup_reconciled s)) | _ \<Rightarrow> None)"
| "step_prog (StoreDraining b p) a s = (case a of A_tick \<Rightarrow> Some ([], s\<lparr>sv_draining := b\<rparr>, p) | _ \<Rightarrow> None)"
| "step_prog (StoreReconciled b p) a s =
     (case a of A_tick \<Rightarrow> Some ([], s\<lparr>sv_startup_reconciled := b\<rparr>, p) | _ \<Rightarrow> None)"
| "step_prog (OwnedGet i k) a s = (case a of A_tick \<Rightarrow> Some ([], s, k (hm_get (sv_owned s) i)) | _ \<Rightarrow> None)"
| "step_prog (OwnedTake c i t k) a s =
     (case a of
        A_tick \<Rightarrow> (case take_owned c i t (sv_owned s) of (e, owned) \<Rightarrow> Some ([], s\<lparr>sv_owned := owned\<rparr>, k e))
      | _ \<Rightarrow> None)"
| "step_prog (OwnedPut i e p) a s =
     (case a of
        A_tick \<Rightarrow> Some ([], s\<lparr>sv_owned := hm_insert i e (sv_owned s), sv_epoch := Suc (sv_epoch s)\<rparr>, p)
      | _ \<Rightarrow> None)"
| "step_prog (PreparedReserve i item k) a s =
     (case a of
        A_reserve token now \<Rightarrow>
          if list_ex (\<lambda>(_, x). pe_request_id x = i) (sv_prepared s) then Some ([], s, k None)
          else Some ([], s\<lparr>sv_prepared := hm_insert token (item now) (sv_prepared s)\<rparr>, k (Some token))
      | _ \<Rightarrow> None)"
| "step_prog (PreparedRemove t k) a s =
     (case a of
        A_tick \<Rightarrow> Some ([], s\<lparr>sv_prepared := hm_remove t (sv_prepared s)\<rparr>, k (hm_get (sv_prepared s) t))
      | _ \<Rightarrow> None)"
| "step_prog (PreparedForget i p) a s =
     (case a of
        A_tick \<Rightarrow> Some ([], s\<lparr>sv_prepared := hm_retain (\<lambda>x. pe_request_id x \<noteq> i) (sv_prepared s)\<rparr>, p)
      | _ \<Rightarrow> None)"
| "step_prog (ActiveInsert i c k) a s =
     (case a of
        A_tick \<Rightarrow> Some ([], s\<lparr>sv_active := hm_insert i c (sv_active s)\<rparr>, k (hm_get (sv_active s) i \<noteq> None))
      | _ \<Rightarrow> None)"
| "step_prog (ActiveRemove i p) a s =
     (case a of A_tick \<Rightarrow> Some ([], s\<lparr>sv_active := hm_remove i (sv_active s)\<rparr>, p) | _ \<Rightarrow> None)"
| "step_prog (ActiveLen k) a s = (case a of A_tick \<Rightarrow> Some ([], s, k (length (sv_active s))) | _ \<Rightarrow> None)"
| "step_prog (ActiveCancel i k) a s =
     (case a of
        A_tick \<Rightarrow>
          (case hm_get (sv_active s) i of
             None \<Rightarrow> Some ([], s, k False)
           | Some c \<Rightarrow> Some ([], s\<lparr>sv_cancelled := c # sv_cancelled s\<rparr>, k True))
      | _ \<Rightarrow> None)"
| "step_prog (ActiveCancelAll p) a s =
     (case a of A_tick \<Rightarrow> Some ([], s\<lparr>sv_cancelled := map snd (sv_active s) @ sv_cancelled s\<rparr>, p) | _ \<Rightarrow> None)"
| "step_prog (Notified k) a s = (case a of A_tick \<Rightarrow> Some ([], s, k (sv_epoch s)) | _ \<Rightarrow> None)"
| "step_prog (Select c t n k) a s =
     (case a of
        A_wake w \<Rightarrow>
          if (w = WakeCancelled \<longrightarrow> c \<in> set (sv_cancelled s)) \<and> (w = WakeChanged \<longrightarrow> n < sv_epoch s)
          then Some ([], s, k w) else None
      | _ \<Rightarrow> None)"
| "step_prog (StoreWrite r k) a s =
     (case a of
        A_write w \<Rightarrow>
          (case table_write w r (sv_store s) of
             (x, t) \<Rightarrow> Some ([Ev_write r (is_ok x)], s\<lparr>sv_store := t\<rparr>, k (is_ok x)))
      | _ \<Rightarrow> None)"
| "step_prog (StoreRemove i k) a s =
     (case a of
        A_remove w \<Rightarrow>
          (case table_remove w i (sv_store s) of
             (x, t) \<Rightarrow> Some ([Ev_remove i (is_ok x)], s\<lparr>sv_store := t\<rparr>, k (is_ok x)))
      | _ \<Rightarrow> None)"
| "step_prog (StoreLoad k) a s =
     (case a of
        A_load b \<Rightarrow>
          Some ([], s, k (case table_load b (sv_store s) of Inl _ \<Rightarrow> None | Inr rs \<Rightarrow> Some rs))
      | _ \<Rightarrow> None)"
| "step_prog (RtCreate q c k) a s = (case a of A_create x \<Rightarrow> Some ([Ev_create q x], s, k x) | _ \<Rightarrow> None)"
| "step_prog (RtWaitReady q p c k) a s =
     (case a of A_ready x \<Rightarrow> Some ([Ev_wait_ready q x], s, k x) | _ \<Rightarrow> None)"
| "step_prog (RtExec r q c k) a s = (case a of A_exec x \<Rightarrow> Some ([Ev_exec r q x], s, k x) | _ \<Rightarrow> None)"
| "step_prog (RtDelete t c k) a s = (case a of A_delete x \<Rightarrow> Some ([Ev_delete t x], s, k x) | _ \<Rightarrow> None)"
| "step_prog (RtWaitDeleted t c k) a s = (case a of A_absent x \<Rightarrow> Some ([Ev_absent t x], s, k x) | _ \<Rightarrow> None)"

text \<open>The states a program can pass through when it runs alone, with the events so far.\<close>

abbreviation preach :: "service \<Rightarrow> 'a prog \<Rightarrow> event list \<Rightarrow> service \<Rightarrow> 'a prog \<Rightarrow> bool" where
  "preach \<equiv> reaches step_prog"

abbreviation run_prog :: "answer list \<Rightarrow> service \<Rightarrow> 'a prog \<Rightarrow> event list \<times> service \<times> 'a prog" where
  "run_prog \<equiv> runs step_prog"

abbreviation always :: "(event list \<Rightarrow> service \<Rightarrow> 'a prog \<Rightarrow> bool) \<Rightarrow> service \<Rightarrow> 'a prog \<Rightarrow> bool" where
  "always \<equiv> holds step_prog"

lemmas preach_refl = reaches_refl [of step_prog]
lemmas preach_step = reaches_step [of step_prog]
lemmas preach_trans = reaches_trans [of step_prog]
lemmas run_prog_preach = runs_reaches [of step_prog]
lemmas always_def = holds_def [of step_prog]
lemmas alwaysD = holdsD [of step_prog]
lemmas always_unfold = holds_unfold [of step_prog]
lemmas always_mono = holds_mono [of step_prog]

text \<open>One rewrite rule per action: the proof obligations of a handler.\<close>

named_theorems always_simps \<open>how \<open>always\<close> unfolds on each action\<close>

lemma always_Ret [always_simps]: "always Q s (Ret x) \<longleftrightarrow> Q [] s (Ret x)"
  by (subst always_unfold) simp

lemma always_Panic [always_simps]: "always Q s (Panic) \<longleftrightarrow> Q [] s (Panic)"
  by (subst always_unfold) simp

lemma always_OutOfFuel [always_simps]: "always Q s (OutOfFuel) \<longleftrightarrow> Q [] s (OutOfFuel)"
  by (subst always_unfold) simp

lemma always_UnixTime [always_simps]:
  "always Q s (UnixTime k) \<longleftrightarrow> Q [] s (UnixTime k)
     \<and> (\<forall>c. always Q s (k c))"
  by (subst always_unfold) (auto split: answer.splits prod.splits)

lemma always_Now [always_simps]:
  "always Q s (Now k) \<longleftrightarrow> Q [] s (Now k)
     \<and> (\<forall>t. always Q s (k t))"
  by (subst always_unfold) (auto split: answer.splits prod.splits)

lemma always_GenerateToken [always_simps]:
  "always Q s (GenerateToken k) \<longleftrightarrow> Q [] s (GenerateToken k)
     \<and> (\<forall>t. always Q s (k t))"
  by (subst always_unfold) (auto split: answer.splits prod.splits)

lemma always_NewCancellation [always_simps]:
  "always Q s (NewCancellation k) \<longleftrightarrow> Q [] s (NewCancellation k)
     \<and> always Q (s\<lparr>sv_next_canc := Suc (sv_next_canc s)\<rparr>) (k (sv_next_canc s))"
  by (subst always_unfold) (auto split: answer.splits prod.splits)

lemma always_LoadDraining [always_simps]:
  "always Q s (LoadDraining k) \<longleftrightarrow> Q [] s (LoadDraining k)
     \<and> always Q s (k (sv_draining s))"
  by (subst always_unfold) (auto split: answer.splits prod.splits)

lemma always_LoadReconciled [always_simps]:
  "always Q s (LoadReconciled k) \<longleftrightarrow> Q [] s (LoadReconciled k)
     \<and> always Q s (k (sv_startup_reconciled s))"
  by (subst always_unfold) (auto split: answer.splits prod.splits)

lemma always_StoreDraining [always_simps]:
  "always Q s (StoreDraining b p) \<longleftrightarrow> Q [] s (StoreDraining b p)
     \<and> always Q (s\<lparr>sv_draining := b\<rparr>) (p)"
  by (subst always_unfold) (auto split: answer.splits prod.splits)

lemma always_StoreReconciled [always_simps]:
  "always Q s (StoreReconciled b p) \<longleftrightarrow> Q [] s (StoreReconciled b p)
     \<and> always Q (s\<lparr>sv_startup_reconciled := b\<rparr>) (p)"
  by (subst always_unfold) (auto split: answer.splits prod.splits)

lemma always_OwnedGet [always_simps]:
  "always Q s (OwnedGet i k) \<longleftrightarrow> Q [] s (OwnedGet i k)
     \<and> always Q s (k (hm_get (sv_owned s) i))"
  by (subst always_unfold) (auto split: answer.splits prod.splits)

lemma always_OwnedTake [always_simps]:
  "always Q s (OwnedTake c i t k) \<longleftrightarrow> Q [] s (OwnedTake c i t k)
     \<and> always Q (s\<lparr>sv_owned := snd (take_owned c i t (sv_owned s))\<rparr>) (k (fst (take_owned c i t (sv_owned s))))"
  by (subst always_unfold) (auto split: answer.splits prod.splits)

lemma always_OwnedPut [always_simps]:
  "always Q s (OwnedPut i e p) \<longleftrightarrow> Q [] s (OwnedPut i e p)
     \<and> always Q (s\<lparr>sv_owned := hm_insert i e (sv_owned s), sv_epoch := Suc (sv_epoch s)\<rparr>) (p)"
  by (subst always_unfold) (auto split: answer.splits prod.splits)

lemma always_PreparedReserve [always_simps]:
  "always Q s (PreparedReserve i item k) \<longleftrightarrow> Q [] s (PreparedReserve i item k)
     \<and> (if list_ex (\<lambda>(_, x). pe_request_id x = i) (sv_prepared s) then always Q s (k None)
        else (\<forall>token now. always Q
               (s\<lparr>sv_prepared := hm_insert token (item now) (sv_prepared s)\<rparr>) (k (Some token))))"
  by (subst always_unfold) (auto split: answer.splits prod.splits)

lemma always_PreparedRemove [always_simps]:
  "always Q s (PreparedRemove t k) \<longleftrightarrow> Q [] s (PreparedRemove t k)
     \<and> always Q (s\<lparr>sv_prepared := hm_remove t (sv_prepared s)\<rparr>) (k (hm_get (sv_prepared s) t))"
  by (subst always_unfold) (auto split: answer.splits prod.splits)

lemma always_PreparedForget [always_simps]:
  "always Q s (PreparedForget i p) \<longleftrightarrow> Q [] s (PreparedForget i p)
     \<and> always Q (s\<lparr>sv_prepared := hm_retain (\<lambda>x. pe_request_id x \<noteq> i) (sv_prepared s)\<rparr>) (p)"
  by (subst always_unfold) (auto split: answer.splits prod.splits)

lemma always_ActiveInsert [always_simps]:
  "always Q s (ActiveInsert i c k) \<longleftrightarrow> Q [] s (ActiveInsert i c k)
     \<and> always Q (s\<lparr>sv_active := hm_insert i c (sv_active s)\<rparr>) (k (hm_get (sv_active s) i \<noteq> None))"
  by (subst always_unfold) (auto split: answer.splits prod.splits)

lemma always_ActiveRemove [always_simps]:
  "always Q s (ActiveRemove i p) \<longleftrightarrow> Q [] s (ActiveRemove i p)
     \<and> always Q (s\<lparr>sv_active := hm_remove i (sv_active s)\<rparr>) (p)"
  by (subst always_unfold) (auto split: answer.splits prod.splits)

lemma always_ActiveLen [always_simps]:
  "always Q s (ActiveLen k) \<longleftrightarrow> Q [] s (ActiveLen k)
     \<and> always Q s (k (length (sv_active s)))"
  by (subst always_unfold) (auto split: answer.splits prod.splits)

lemma always_ActiveCancel [always_simps]:
  "always Q s (ActiveCancel i k) \<longleftrightarrow> Q [] s (ActiveCancel i k)
     \<and> (case hm_get (sv_active s) i of
          None \<Rightarrow> always Q s (k False)
        | Some c \<Rightarrow> always Q (s\<lparr>sv_cancelled := c # sv_cancelled s\<rparr>) (k True))"
  by (subst always_unfold) (auto split: answer.splits option.splits)

lemma always_ActiveCancelAll [always_simps]:
  "always Q s (ActiveCancelAll p) \<longleftrightarrow> Q [] s (ActiveCancelAll p)
     \<and> always Q (s\<lparr>sv_cancelled := map snd (sv_active s) @ sv_cancelled s\<rparr>) (p)"
  by (subst always_unfold) (auto split: answer.splits prod.splits)

lemma always_Notified [always_simps]:
  "always Q s (Notified k) \<longleftrightarrow> Q [] s (Notified k)
     \<and> always Q s (k (sv_epoch s))"
  by (subst always_unfold) (auto split: answer.splits prod.splits)

lemma always_Select [always_simps]:
  "always Q s (Select c t n k) \<longleftrightarrow> Q [] s (Select c t n k)
     \<and> (\<forall>w. ((w = WakeCancelled \<longrightarrow> c \<in> set (sv_cancelled s)) \<and> (w = WakeChanged \<longrightarrow> n < sv_epoch s) \<longrightarrow> always Q s (k w)))"
  by (subst always_unfold) (auto split: answer.splits prod.splits)

lemma always_StoreWrite [always_simps]:
  "always Q s (StoreWrite r k) \<longleftrightarrow> Q [] s (StoreWrite r k)
     \<and> (\<forall>w. always (\<lambda>evs. Q (Ev_write r (is_ok (fst (table_write w r (sv_store s)))) # evs)) (s\<lparr>sv_store := snd (table_write w r (sv_store s))\<rparr>) (k (is_ok (fst (table_write w r (sv_store s))))))"
  by (subst always_unfold) (auto simp: case_prod_beta split: answer.splits)

lemma always_StoreRemove [always_simps]:
  "always Q s (StoreRemove i k) \<longleftrightarrow> Q [] s (StoreRemove i k)
     \<and> (\<forall>w. always (\<lambda>evs. Q (Ev_remove i (is_ok (fst (table_remove w i (sv_store s)))) # evs)) (s\<lparr>sv_store := snd (table_remove w i (sv_store s))\<rparr>) (k (is_ok (fst (table_remove w i (sv_store s))))))"
  by (subst always_unfold) (auto simp: case_prod_beta split: answer.splits)

lemma always_StoreLoad [always_simps]:
  "always Q s (StoreLoad k) \<longleftrightarrow> Q [] s (StoreLoad k)
     \<and> always Q s (k None)
     \<and> always Q s (k (Some (sort_key dr_request_id (map snd (sv_store s)))))"
  by (subst always_unfold) (auto simp: table_load_def split: answer.splits)

lemma always_RtCreate [always_simps]:
  "always Q s (RtCreate q c k) \<longleftrightarrow> Q [] s (RtCreate q c k)
     \<and> (\<forall>x. always (\<lambda>evs. Q (Ev_create q x # evs)) s (k x))"
  by (subst always_unfold) (auto split: answer.splits prod.splits)

lemma always_RtWaitReady [always_simps]:
  "always Q s (RtWaitReady q p c k) \<longleftrightarrow> Q [] s (RtWaitReady q p c k)
     \<and> (\<forall>x. always (\<lambda>evs. Q (Ev_wait_ready q x # evs)) s (k x))"
  by (subst always_unfold) (auto split: answer.splits prod.splits)

lemma always_RtExec [always_simps]:
  "always Q s (RtExec r q c k) \<longleftrightarrow> Q [] s (RtExec r q c k)
     \<and> (\<forall>x. always (\<lambda>evs. Q (Ev_exec r q x # evs)) s (k x))"
  by (subst always_unfold) (auto split: answer.splits prod.splits)

lemma always_RtDelete [always_simps]:
  "always Q s (RtDelete t c k) \<longleftrightarrow> Q [] s (RtDelete t c k)
     \<and> (\<forall>x. always (\<lambda>evs. Q (Ev_delete t x # evs)) s (k x))"
  by (subst always_unfold) (auto split: answer.splits prod.splits)

lemma always_RtWaitDeleted [always_simps]:
  "always Q s (RtWaitDeleted t c k) \<longleftrightarrow> Q [] s (RtWaitDeleted t c k)
     \<and> (\<forall>x. always (\<lambda>evs. Q (Ev_absent t x # evs)) s (k x))"
  by (subst always_unfold) (auto split: answer.splits prod.splits)

text \<open>Sequencing.\<close>

definition is_Ret :: "'a prog \<Rightarrow> bool" where
  "is_Ret p \<longleftrightarrow> (case p of Ret _ \<Rightarrow> True | _ \<Rightarrow> False)"

lemma is_Ret_iff: "is_Ret p \<longleftrightarrow> (\<exists>x. p = Ret x)"
  by (cases p) (simp_all add: is_Ret_def)

lemma step_prog_bind:
  "\<not> is_Ret p \<Longrightarrow> step_prog (bind p f) a s = map_option (\<lambda>(ev, s1, p1). (ev, s1, bind p1 f)) (step_prog p a s)"
  by (cases p) (auto simp: is_Ret_def split: answer.splits prod.splits option.splits)

interpretation handler: sequencing step_prog step_prog bind Ret
  by unfold_locales (simp, subst step_prog_bind, simp_all add: is_Ret_iff)

lemmas preach_bind = handler.reaches_seq
lemmas always_bind = handler.holds_seq

end
