(* ===== verification/Boundary.thy ===== *)
theory Boundary
  imports Boundary_Prog
begin

text \<open>
  The handlers of \<^verbatim>\<open>src/src/service/boundary.rs\<close>, one definition per method, written as programs of
  \<open>Boundary_Prog\<close>.
\<close>

section \<open>Responses and contexts\<close>

datatype CleanupAcquireFailure = CA_NotOwned | CA_Cancelled | CA_Deadline | CA_DurableState

record ReconciliationReport =
  rr_removed_records :: u64
  rr_unresolved_records :: u64

definition boundary_failure ::
  "BoundaryFailureCode \<Rightarrow> CleanupTarget option \<Rightarrow> DispatchState option \<Rightarrow> ServiceResponse" where
  "boundary_failure code target dispatch_state =
     SRes_BoundaryFailed (BoundaryFailure_new code target dispatch_state
       (OperatorDetail_redacted ''sandbox service boundary rejected the operation''))"

definition cleanup_failure_response :: "CleanupTarget \<Rightarrow> CleanupFailureCode \<Rightarrow> ServiceResponse" where
  "cleanup_failure_response target code =
     SRes_CleanupFailed (CleanupFailure_new target code
       (OperatorDetail_redacted ''cleanup could not acquire the durable lifecycle state''))"

fun cleanup_acquire_failure :: "CleanupTarget \<Rightarrow> CleanupAcquireFailure \<Rightarrow> ServiceResponse" where
  "cleanup_acquire_failure target CA_NotOwned = boundary_failure BF_LifecycleConflict None None"
| "cleanup_acquire_failure target CA_DurableState = boundary_failure BF_DurableState (Some target) None"
| "cleanup_acquire_failure target CA_Cancelled = cleanup_failure_response target CU_Cancelled"
| "cleanup_acquire_failure target CA_Deadline = cleanup_failure_response target CU_Deadline"

definition operation_context :: "canc \<Rightarrow> duration \<Rightarrow> StoreError + op_context" where
  "operation_context cancellation deadline =
     (case OperationDeadline_new deadline of
        Inl _ \<Rightarrow> Err StoreError
      | Inr d \<Rightarrow> Ok (OperationContext_new cancellation d))"

text \<open>The \<open>expect\<close> in \<open>operation_context_ms\<close> panics on a zero deadline.\<close>

definition operation_context_ms :: "canc \<Rightarrow> DeadlineMillis \<Rightarrow> (op_context \<Rightarrow> 'a prog) \<Rightarrow> 'a prog" where
  "operation_context_ms cancellation deadline k =
     (case OperationDeadline_new (DeadlineMillis_duration deadline) of
        Inl _ \<Rightarrow> Panic
      | Inr d \<Rightarrow> k (OperationContext_new cancellation d))"

definition process_loss_after_commit :: "CleanupTarget \<Rightarrow> ExecFailure option" where
  "process_loss_after_commit target =
     (case ExecFailure_possibly_dispatched target EF_Transport FT_Unknown OutputByteCounts_default
             (OperatorDetail_redacted ''sandbox service response lost after possible dispatch'') of
        Inl _ \<Rightarrow> None
      | Inr f \<Rightarrow> Some f)"

text \<open>
  Two shapes of updating a record: \<open>transition(..).is_err() || store.write(..).is_err()\<close>, and both
  calls with their results ignored.
\<close>

definition transition_and_write ::
  "DurableStage \<Rightarrow> DurableRecord \<Rightarrow> (bool \<Rightarrow> DurableRecord \<Rightarrow> 'a prog) \<Rightarrow> 'a prog" where
  "transition_and_write stage r k =
     UnixTime (\<lambda>clock.
       case DurableRecord_transition clock stage r of
         (Inl _, r1) \<Rightarrow> k False r1
       | (Inr _, r1) \<Rightarrow> StoreWrite r1 (\<lambda>ok. k ok r1))"

definition transition_and_try_write ::
  "DurableStage \<Rightarrow> DurableRecord \<Rightarrow> (DurableRecord \<Rightarrow> 'a prog) \<Rightarrow> 'a prog" where
  "transition_and_try_write stage r k =
     UnixTime (\<lambda>clock.
       let r1 = snd (DurableRecord_transition clock stage r)
       in StoreWrite r1 (\<lambda>_. k r1))"

definition put_owned ::
  "RequestOwnedId \<Rightarrow> DurableRecord \<Rightarrow> CapabilityToken \<Rightarrow> Lifecycle \<Rightarrow> 'a prog \<Rightarrow> 'a prog" where
  "put_owned request_id r lifecycle_token lifecycle p =
     OwnedPut request_id
       \<lparr>oe_record = r, oe_lifecycle_token = lifecycle_token, oe_lifecycle = lifecycle\<rparr> p"

definition reject_new_work :: "(bool \<Rightarrow> 'a prog) \<Rightarrow> 'a prog" where
  "reject_new_work k =
     LoadDraining (\<lambda>draining. if draining then k True else LoadReconciled (\<lambda>reconciled. k (\<not> reconciled)))"

section \<open>Handlers\<close>

definition health :: "ServiceResponse prog" where
  "health =
     StoreLoad (\<lambda>records.
       let pending = (case records of None \<Rightarrow> u64_max | Some rs \<Rightarrow> u64_of_len (length rs)) in
       ActiveLen (\<lambda>n.
         let active = u64_of_len n in
         LoadReconciled (\<lambda>startup_reconciled.
           LoadDraining (\<lambda>draining.
             Ret (SRes_Health (HealthStatus_new (startup_reconciled \<and> \<not> draining \<and> pending \<noteq> u64_max)
                    draining startup_reconciled active pending))))))"

text \<open>The \<open>match result\<close> of \<open>create\<close>.\<close>

definition create_outcome ::
  "RequestOwnedId \<Rightarrow> DurableRecord \<Rightarrow> CreateFailure + CreatedSandbox \<Rightarrow> ServiceResponse prog" where
  "create_outcome request_id record0 result =
     (case result of
        Inr created \<Rightarrow>
          GenerateToken (\<lambda>lifecycle_token.
            transition_and_write St_Created record0 (\<lambda>ok record1.
              if \<not> ok then
                put_owned request_id record1 lifecycle_token LC_CleanupOnly
                  (Ret (boundary_failure BF_DurableState
                     (Some (CreatedSandbox_cleanup_target created)) None))
              else
                put_owned request_id record1 lifecycle_token (LC_Created created)
                  (Ret (SRes_Created request_id lifecycle_token))))
      | Inl failure \<Rightarrow>
          if CreateFailure_cleanup_target failure \<noteq> None then
            transition_and_try_write St_CleanupOnly record0 (\<lambda>record1.
              GenerateToken (\<lambda>token.
                put_owned request_id record1 token LC_CleanupOnly
                  (Ret (SRes_CreateFailed failure))))
          else
            transition_and_try_write St_Unowned record0 (\<lambda>_.
              StoreRemove request_id (\<lambda>_. Ret (SRes_CreateFailed failure))))"

definition boundary_create ::
  "AssetBundleIdentity \<Rightarrow> CallerIdentity \<Rightarrow> CreateRequest \<Rightarrow> DeadlineMillis \<Rightarrow> canc \<Rightarrow> ServiceResponse prog" where
  "boundary_create bundle caller request deadline cancellation =
     reject_new_work (\<lambda>rejected.
       if rejected then Ret (boundary_failure BF_Draining None None)
       else if cr_template request \<noteq> ab_template bundle \<or> cr_expected_policy request \<noteq> ab_policy bundle
       then Ret (boundary_failure BF_AssetBundleMismatch None None)
       else
         let request_id = cr_request_id request in
         OwnedGet request_id (\<lambda>present.
           if present \<noteq> None then Ret (boundary_failure BF_LifecycleConflict None None)
           else UnixTime (\<lambda>clock.
             case DurableRecord_new clock request_id (ci_fingerprint caller) St_CreatePossible
                    (cr_template request) (cr_expected_policy request) of
               Inl _ \<Rightarrow> Ret (boundary_failure BF_DurableState None None)
             | Inr record0 \<Rightarrow>
                 StoreWrite record0 (\<lambda>ok.
                   if \<not> ok then Ret (boundary_failure BF_DurableState None None)
                   else operation_context_ms cancellation deadline (\<lambda>ctx.
                     RtCreate request ctx (create_outcome request_id record0))))))"

definition boundary_wait_ready ::
  "AssetBundleIdentity \<Rightarrow> CallerIdentity \<Rightarrow> RequestOwnedId \<Rightarrow> CapabilityToken \<Rightarrow> PolicyIdentity \<Rightarrow>
   DeadlineMillis \<Rightarrow> canc \<Rightarrow> ServiceResponse prog" where
  "boundary_wait_ready bundle caller request_id lifecycle_token expected_policy deadline cancellation =
     OwnedTake caller request_id (Some lifecycle_token) (\<lambda>taken.
       case taken of
         None \<Rightarrow> Ret (boundary_failure BF_LifecycleConflict None None)
       | Some entry \<Rightarrow>
           let record0 = oe_record entry; token0 = oe_lifecycle_token entry in
           (case oe_lifecycle entry of
              LC_Created created \<Rightarrow>
                if expected_policy \<noteq> ab_policy bundle \<or> dr_policy record0 \<noteq> expected_policy then
                  transition_and_try_write St_CleanupOnly record0 (\<lambda>record1.
                    put_owned request_id record1 token0 LC_CleanupOnly
                      (Ret (boundary_failure BF_AssetBundleMismatch
                         (Some (CreatedSandbox_cleanup_target created)) None)))
                else
                  operation_context_ms cancellation deadline (\<lambda>ctx.
                    RtWaitReady created expected_policy ctx (\<lambda>result.
                      case result of
                        Inr ready \<Rightarrow>
                          transition_and_write St_Ready record0 (\<lambda>ok record1.
                            if \<not> ok then
                              put_owned request_id record1 token0 LC_CleanupOnly
                                (Ret (boundary_failure BF_DurableState
                                   (Some (CreatedSandbox_cleanup_target created)) None))
                            else
                              GenerateToken (\<lambda>ready_token.
                                put_owned request_id record1 ready_token (LC_Ready ready)
                                  (Ret (SRes_Ready request_id ready_token (rs_active_policy ready)))))
                      | Inl failure \<Rightarrow>
                          transition_and_try_write St_CleanupOnly record0 (\<lambda>record1.
                            put_owned request_id record1 token0 LC_CleanupOnly
                              (Ret (SRes_ReadinessFailed failure)))))
            | other \<Rightarrow>
                put_owned request_id record0 token0 other
                  (Ret (boundary_failure BF_LifecycleConflict None None))))"

definition boundary_prepare_exec ::
  "CallerIdentity \<Rightarrow> RequestOwnedId \<Rightarrow> CapabilityToken \<Rightarrow> ExecRequest \<Rightarrow> DeadlineMillis \<Rightarrow> ServiceResponse prog" where
  "boundary_prepare_exec caller request_id lifecycle_token request deadline =
     reject_new_work (\<lambda>rejected.
       if rejected then Ret (boundary_failure BF_Draining None None)
       else OwnedGet request_id (\<lambda>found.
         case found of
           None \<Rightarrow> Ret (boundary_failure BF_LifecycleConflict None None)
         | Some entry \<Rightarrow>
             if dr_caller (oe_record entry) \<noteq> ci_fingerprint caller
                \<or> oe_lifecycle_token entry \<noteq> lifecycle_token
                \<or> \<not> (case oe_lifecycle entry of LC_Ready _ \<Rightarrow> True | _ \<Rightarrow> False)
             then Ret (boundary_failure BF_Authorization None None)
             else
               PreparedReserve request_id
                 (\<lambda>now. \<lparr>pe_caller = ci_fingerprint caller, pe_request_id = request_id,
                         pe_request = request, pe_expires_at = now + DeadlineMillis_duration deadline\<rparr>)
                 (\<lambda>reserved.
                    case reserved of
                      None \<Rightarrow> Ret (boundary_failure BF_LifecycleConflict None None)
                    | Some token \<Rightarrow> Ret (SRes_ExecPrepared token))))"

text \<open>The end of \<open>commit_exec\<close>, once the owned entry has been taken.\<close>

definition commit_taken ::
  "RequestOwnedId \<Rightarrow> PreparedExec \<Rightarrow> DeadlineMillis \<Rightarrow> canc \<Rightarrow> OwnedEntry \<Rightarrow> ServiceResponse prog" where
  "commit_taken request_id prepared deadline cancellation entry =
     (let record0 = oe_record entry; token0 = oe_lifecycle_token entry in
      case oe_lifecycle entry of
        LC_Ready ready \<Rightarrow>
          let target = ReadySandbox_cleanup_target ready in
          Now (\<lambda>now.
            if pe_expires_at prepared \<le> now then
              put_owned request_id record0 token0 (LC_Ready ready)
                (case ExecFailure_not_dispatched target EF_Deadline
                        (OperatorDetail_redacted ''prepared execution expired before dispatch'') of
                   Inl _ \<Rightarrow> Panic
                 | Inr failure \<Rightarrow> Ret (SRes_ExecFailed failure))
            else
              transition_and_write St_ExecPossible record0 (\<lambda>ok record1.
                if \<not> ok then
                  put_owned request_id record1 token0 (LC_Ready ready)
                    (Ret (boundary_failure BF_DurableState (Some target) (Some NotDispatched)))
                else
                  operation_context_ms cancellation deadline (\<lambda>ctx.
                    RtExec ready (pe_request prepared) ctx (\<lambda>result.
                      transition_and_try_write St_CleanupOnly record1 (\<lambda>record2.
                        put_owned request_id record2 token0 LC_CleanupOnly
                          (Ret (case result of
                                  Inr completed \<Rightarrow> SRes_Executed completed
                                | Inl failure \<Rightarrow> SRes_ExecFailed failure)))))))
      | other \<Rightarrow>
          put_owned request_id record0 token0 other
            (Ret (boundary_failure BF_LifecycleConflict
               (Some (CleanupTarget_new request_id)) (Some NotDispatched))))"

definition boundary_commit_exec ::
  "CallerIdentity \<Rightarrow> RequestOwnedId \<Rightarrow> CapabilityToken \<Rightarrow> DeadlineMillis \<Rightarrow> canc \<Rightarrow> ServiceResponse prog" where
  "boundary_commit_exec caller request_id token deadline cancellation =
     (let not_dispatched = (\<lambda>code.
            Ret (boundary_failure code (Some (CleanupTarget_new request_id)) (Some NotDispatched))) in
      reject_new_work (\<lambda>rejected.
        if rejected then not_dispatched BF_Draining
        else PreparedRemove token (\<lambda>found.
          case found of
            None \<Rightarrow> not_dispatched BF_LifecycleConflict
          | Some prepared \<Rightarrow>
              if pe_caller prepared \<noteq> ci_fingerprint caller \<or> pe_request_id prepared \<noteq> request_id
              then not_dispatched BF_Authorization
              else OwnedTake caller request_id None (\<lambda>taken.
                case taken of
                  None \<Rightarrow> not_dispatched BF_LifecycleConflict
                | Some entry \<Rightarrow> commit_taken request_id prepared deadline cancellation entry))))"

text \<open>
  The loop of \<open>acquire_for_cleanup\<close>. Every iteration but the first follows a notification; the
  first argument bounds how many there are, and the loop stops with \<open>OutOfFuel\<close> beyond it.
\<close>

primrec acquire_loop ::
  "nat \<Rightarrow> CallerIdentity \<Rightarrow> RequestOwnedId \<Rightarrow> instant \<Rightarrow> canc \<Rightarrow>
   (CleanupAcquireFailure + OwnedEntry \<Rightarrow> 'a prog) \<Rightarrow> 'a prog" where
  "acquire_loop 0 caller request_id expires_at cancellation k = OutOfFuel"
| "acquire_loop (Suc n) caller request_id expires_at cancellation k =
     Notified (\<lambda>changed.
       OwnedTake caller request_id None (\<lambda>taken.
         case taken of
           Some entry \<Rightarrow> k (Ok entry)
         | None \<Rightarrow>
             StoreLoad (\<lambda>loaded.
               case loaded of
                 None \<Rightarrow> k (Err CA_DurableState)
               | Some records \<Rightarrow>
                   (case find (\<lambda>r. dr_request_id r = request_id) records of
                      None \<Rightarrow> k (Err CA_NotOwned)
                    | Some r \<Rightarrow>
                        if dr_caller r \<noteq> ci_fingerprint caller \<or> dr_stage r = St_Unowned
                        then k (Err CA_NotOwned)
                        else Select cancellation expires_at changed (\<lambda>wake.
                          case wake of
                            WakeCancelled \<Rightarrow> k (Err CA_Cancelled)
                          | WakeDeadline \<Rightarrow> k (Err CA_Deadline)
                          | WakeChanged \<Rightarrow>
                              acquire_loop n caller request_id expires_at cancellation k)))))"

definition acquire_for_cleanup ::
  "nat \<Rightarrow> CallerIdentity \<Rightarrow> RequestOwnedId \<Rightarrow> DeadlineMillis \<Rightarrow> canc \<Rightarrow>
   (CleanupAcquireFailure + OwnedEntry \<Rightarrow> 'a prog) \<Rightarrow> 'a prog" where
  "acquire_for_cleanup fuel caller request_id deadline cancellation k =
     Now (\<lambda>now. acquire_loop fuel caller request_id (now + DeadlineMillis_duration deadline) cancellation k)"

text \<open>\<open>deadline.duration().checked_sub(started.elapsed()).filter(|d| !d.is_zero())\<close>\<close>

definition remaining_deadline :: "DeadlineMillis \<Rightarrow> instant \<Rightarrow> instant \<Rightarrow> duration option" where
  "remaining_deadline deadline started now =
     (let elapsed = now - started; total = DeadlineMillis_duration deadline in
      if elapsed > total \<or> total - elapsed = 0 then None else Some (total - elapsed))"

definition boundary_delete ::
  "nat \<Rightarrow> CallerIdentity \<Rightarrow> CleanupTarget \<Rightarrow> DeadlineMillis \<Rightarrow> canc \<Rightarrow> ServiceResponse prog" where
  "boundary_delete fuel caller target deadline cancellation =
     (let request_id = target_request_id target in
      Now (\<lambda>started.
        acquire_for_cleanup fuel caller request_id deadline cancellation (\<lambda>acquired.
          case acquired of
            Inl failure \<Rightarrow> Ret (cleanup_acquire_failure target failure)
          | Inr entry \<Rightarrow>
              let token0 = oe_lifecycle_token entry; lifecycle = oe_lifecycle entry in
              PreparedForget request_id (
                transition_and_write St_DeletePending (oe_record entry) (\<lambda>ok record1.
                  if \<not> ok then
                    put_owned request_id record1 token0 lifecycle
                      (Ret (boundary_failure BF_DurableState (Some target) None))
                  else Now (\<lambda>now.
                    case remaining_deadline deadline started now of
                      None \<Rightarrow>
                        put_owned request_id record1 token0 lifecycle
                          (Ret (cleanup_failure_response target CU_Deadline))
                    | Some remaining \<Rightarrow>
                        (case operation_context cancellation remaining of
                           Inl _ \<Rightarrow> Panic
                         | Inr ctx \<Rightarrow>
                             RtDelete target ctx (\<lambda>result.
                               put_owned request_id record1 token0 LC_CleanupOnly
                                 (Ret (case result of
                                         Inr outcome \<Rightarrow> SRes_Deleted outcome
                                       | Inl failure \<Rightarrow> SRes_CleanupFailed failure))))))))))"

definition boundary_wait_deleted ::
  "nat \<Rightarrow> CallerIdentity \<Rightarrow> CleanupTarget \<Rightarrow> DeadlineMillis \<Rightarrow> canc \<Rightarrow> ServiceResponse prog" where
  "boundary_wait_deleted fuel caller target deadline cancellation =
     (let request_id = target_request_id target in
      Now (\<lambda>started.
        acquire_for_cleanup fuel caller request_id deadline cancellation (\<lambda>acquired.
          case acquired of
            Inl failure \<Rightarrow> Ret (cleanup_acquire_failure target failure)
          | Inr entry \<Rightarrow>
              let put_back = (\<lambda>lifecycle.
                    put_owned request_id (oe_record entry) (oe_lifecycle_token entry) lifecycle) in
              Now (\<lambda>now.
                case remaining_deadline deadline started now of
                  None \<Rightarrow>
                    put_back (oe_lifecycle entry) (Ret (cleanup_failure_response target CU_Deadline))
                | Some remaining \<Rightarrow>
                    (case operation_context cancellation remaining of
                       Inl _ \<Rightarrow> Panic
                     | Inr ctx \<Rightarrow>
                         RtWaitDeleted target ctx (\<lambda>result.
                           case result of
                             Inr _ \<Rightarrow>
                               StoreRemove request_id (\<lambda>ok.
                                 if \<not> ok then
                                   put_back (oe_lifecycle entry)
                                     (Ret (boundary_failure BF_DurableState (Some target) None))
                                 else Ret SRes_TerminallyAbsent)
                           | Inl failure \<Rightarrow>
                               put_back LC_CleanupOnly (Ret (SRes_CleanupFailed failure))))))))"

definition drain_status :: "ServiceResponse prog" where
  "drain_status = ActiveLen (\<lambda>n. Ret (SRes_Draining (u64_of_len n)))"

definition begin_drain :: "CallerIdentity \<Rightarrow> ServiceResponse prog" where
  "begin_drain caller =
     (if ci_role caller \<noteq> AdministratorRole then Ret (boundary_failure BF_Authorization None None)
      else StoreDraining True drain_status)"

definition start_draining :: "unit prog" where
  "start_draining = StoreDraining True (Ret ())"

definition cancel_operation :: "OperationId \<Rightarrow> (bool \<Rightarrow> 'a prog) \<Rightarrow> 'a prog" where
  "cancel_operation operation_id k = ActiveCancel operation_id k"

definition cancel_all_operations :: "unit prog" where
  "cancel_all_operations = ActiveCancelAll (Ret ())"

definition handle_cancel :: "OperationId \<Rightarrow> ServiceRequest \<Rightarrow> ResponseEnvelope prog" where
  "handle_cancel operation_id request =
     (case request of
        SReq_Cancel target_operation_id \<Rightarrow>
          cancel_operation target_operation_id (\<lambda>found.
            Ret (ResponseEnvelope_new operation_id (SRes_Cancelled found)))
      | _ \<Rightarrow> Ret (ResponseEnvelope_new operation_id (boundary_failure BF_InvalidRequest None None)))"

fun dispatch ::
  "AssetBundleIdentity \<Rightarrow> nat \<Rightarrow> CallerIdentity \<Rightarrow> ServiceRequest \<Rightarrow> canc \<Rightarrow> ServiceResponse prog" where
  "dispatch bundle fuel caller SReq_Health c = health"
| "dispatch bundle fuel caller (SReq_Create request deadline) c =
     boundary_create bundle caller request deadline c"
| "dispatch bundle fuel caller (SReq_WaitReady request_id token expected_policy deadline) c =
     boundary_wait_ready bundle caller request_id token expected_policy deadline c"
| "dispatch bundle fuel caller (SReq_PrepareExec request_id token request deadline) c =
     boundary_prepare_exec caller request_id token request deadline"
| "dispatch bundle fuel caller (SReq_CommitExec request_id token deadline) c =
     boundary_commit_exec caller request_id token deadline c"
| "dispatch bundle fuel caller (SReq_Delete target deadline) c =
     boundary_delete fuel caller target deadline c"
| "dispatch bundle fuel caller (SReq_WaitDeleted target deadline) c =
     boundary_wait_deleted fuel caller target deadline c"
| "dispatch bundle fuel caller SReq_BeginDrain c = begin_drain caller"
| "dispatch bundle fuel caller SReq_DrainStatus c = drain_status"
| "dispatch bundle fuel caller (SReq_Cancel _) c = Ret (boundary_failure BF_InvalidRequest None None)"

definition handle ::
  "AssetBundleIdentity \<Rightarrow> nat \<Rightarrow> CallerIdentity \<Rightarrow> RequestEnvelope \<Rightarrow> ResponseEnvelope prog" where
  "handle bundle fuel caller envelope =
     (let operation_id = rqe_operation_id envelope in
      if rqe_protocol_version envelope \<noteq> PROTOCOL_VERSION
      then Ret (ResponseEnvelope_new operation_id (boundary_failure BF_ProtocolVersion None None))
      else if rqe_asset_bundle envelope \<noteq> bundle
      then Ret (ResponseEnvelope_new operation_id (boundary_failure BF_AssetBundleMismatch None None))
      else
        let (_, _, request) = RequestEnvelope_into_parts envelope in
        case request of
          SReq_Cancel _ \<Rightarrow> handle_cancel operation_id request
        | _ \<Rightarrow>
            NewCancellation (\<lambda>cancellation.
              ActiveInsert operation_id cancellation (\<lambda>replaced.
                if replaced
                then Ret (ResponseEnvelope_new operation_id (boundary_failure BF_LifecycleConflict None None))
                else bind (dispatch bundle fuel caller request cancellation) (\<lambda>outcome.
                  ActiveRemove operation_id (Ret (ResponseEnvelope_new operation_id outcome))))))"

section \<open>Startup reconciliation\<close>

primrec reconcile_loop ::
  "duration \<Rightarrow> duration \<Rightarrow> DurableRecord list \<Rightarrow> u64 \<Rightarrow> u64 \<Rightarrow>
   (StoreError + ReconciliationReport) prog" where
  "reconcile_loop delete_deadline wait_deadline [] removed unresolved =
     (if unresolved = 0 then
        StoreReconciled True
          (Ret (Ok \<lparr>rr_removed_records = removed, rr_unresolved_records = 0\<rparr>))
      else Ret (Err StoreError))"
| "reconcile_loop delete_deadline wait_deadline (r # records) removed unresolved =
     (if dr_stage r = St_Unowned then
        StoreRemove (dr_request_id r) (\<lambda>ok.
          if \<not> ok then Ret (Err StoreError)
          else reconcile_loop delete_deadline wait_deadline records
                 (saturating_add_u64 removed 1) unresolved)
      else
        let target = CleanupTarget_new (dr_request_id r) in
        NewCancellation (\<lambda>c1.
          case operation_context c1 delete_deadline of
            Inl e \<Rightarrow> Ret (Err e)
          | Inr ctx1 \<Rightarrow>
              RtDelete target ctx1 (\<lambda>_.
                NewCancellation (\<lambda>c2.
                  case operation_context c2 wait_deadline of
                    Inl e \<Rightarrow> Ret (Err e)
                  | Inr ctx2 \<Rightarrow>
                      RtWaitDeleted target ctx2 (\<lambda>wait.
                        if is_ok wait then
                          StoreRemove (dr_request_id r) (\<lambda>ok.
                            if \<not> ok then Ret (Err StoreError)
                            else reconcile_loop delete_deadline wait_deadline records
                                   (saturating_add_u64 removed 1) unresolved)
                        else
                          reconcile_loop delete_deadline wait_deadline records removed
                            (saturating_add_u64 unresolved 1))))))"

definition reconcile_startup ::
  "duration \<Rightarrow> duration \<Rightarrow> (StoreError + ReconciliationReport) prog" where
  "reconcile_startup delete_deadline wait_deadline =
     StoreReconciled False (
       StoreLoad (\<lambda>loaded.
         case loaded of
           None \<Rightarrow> Ret (Err StoreError)
         | Some records \<Rightarrow> reconcile_loop delete_deadline wait_deadline records 0 0))"

lemmas [boundary_defs] =
  boundary_failure_def cleanup_failure_response_def operation_context_def operation_context_ms_def
  transition_and_write_def transition_and_try_write_def put_owned_def reject_new_work_def

end
