(* ===== verification/Boundary_Safety.thy ===== *)
theory Boundary_Safety
  imports Boundary
begin

text \<open>
  What the durable records are for: whenever the process stops, every sandbox that the runtime may
  have created and has not confirmed absent has a durable record that the next start will clean up.
  The service here handles one request at a time, is killed at any action, and restarts on the
  store it left.
\<close>

section \<open>Sandboxes that may exist\<close>

fun live_after :: "event \<Rightarrow> RequestOwnedId set \<Rightarrow> RequestOwnedId set" where
  "live_after (Ev_create request x) L =
     (case x of
        Inr _ \<Rightarrow> insert (cr_request_id request) L
      | Inl f \<Rightarrow> if CreateFailure_state f = CS_PossiblyCreated then insert (cr_request_id request) L else L)"
| "live_after (Ev_create_interrupted i) L = insert i L"
| "live_after (Ev_absent target x) L = (if is_ok x then L - {target_request_id target} else L)"
| "live_after _ L = L"

definition possibly_live :: "event list \<Rightarrow> RequestOwnedId set \<Rightarrow> RequestOwnedId set" where
  "possibly_live evs L = fold live_after evs L"

text \<open>A call of \<open>create\<close> in progress may have created its sandbox already.\<close>

fun pending_create :: "'a prog \<Rightarrow> event list" where
  "pending_create (RtCreate request ctx k) = [Ev_create_interrupted (cr_request_id request)]"
| "pending_create _ = []"

definition crash_safe :: "RequestOwnedId set \<Rightarrow> service \<Rightarrow> bool" where
  "crash_safe L s \<longleftrightarrow> table_invar (sv_store s)
     \<and> (\<forall>i \<in> L. \<exists>r. hm_get (sv_store s) i = Some r \<and> dr_stage r \<noteq> St_Unowned)"

text \<open>Between requests a reconciled service also owns, in memory, what may exist.\<close>

definition quiescent :: "RequestOwnedId set \<Rightarrow> service \<Rightarrow> bool" where
  "quiescent L s \<longleftrightarrow> crash_safe L s
     \<and> (sv_startup_reconciled s \<longrightarrow> (\<forall>i \<in> L. hm_get (sv_owned s) i \<noteq> None))
     \<and> (\<forall>i e. hm_get (sv_owned s) i = Some e \<longrightarrow> dr_request_id (oe_record e) = i)"

definition safe_point :: "RequestOwnedId set \<Rightarrow> event list \<Rightarrow> service \<Rightarrow> 'a prog \<Rightarrow> bool" where
  "safe_point L evs s p \<longleftrightarrow>
     crash_safe (possibly_live (evs @ pending_create p) L) s
     \<and> (\<forall>x. p = Ret x \<longrightarrow> quiescent (possibly_live evs L) s)"

lemma possibly_live_simps [simp]:
  "possibly_live [] L = L"
  "possibly_live (ev # evs) L = possibly_live evs (live_after ev L)"
  "possibly_live (evs @ evs') L = possibly_live evs' (possibly_live evs L)"
  by (simp_all add: possibly_live_def)

lemma safe_point_Cons: "(\<lambda>evs. safe_point L (ev # evs)) = safe_point (live_after ev L)"
  by (intro ext) (simp add: safe_point_def)

lemma safe_point_now:
  "safe_point L [] s (Ret x) \<longleftrightarrow> quiescent L s"
  "safe_point L [] s (RtCreate q c k) \<longleftrightarrow> crash_safe (insert (cr_request_id q) L) s"
  "\<not> is_Ret p \<Longrightarrow> pending_create p = [] \<Longrightarrow> safe_point L [] s p \<longleftrightarrow> crash_safe L s"
  by (auto simp: safe_point_def quiescent_def is_Ret_def)

text \<open>What does not concern the store, the owned table and the reconciliation flag is irrelevant.\<close>

lemma crash_safe_cong [simp]:
  "crash_safe L (s\<lparr>sv_owned := ow\<rparr>) = crash_safe L s"
  "crash_safe L (s\<lparr>sv_prepared := pr\<rparr>) = crash_safe L s"
  "crash_safe L (s\<lparr>sv_active := ac\<rparr>) = crash_safe L s"
  "crash_safe L (s\<lparr>sv_epoch := ep\<rparr>) = crash_safe L s"
  "crash_safe L (s\<lparr>sv_draining := b\<rparr>) = crash_safe L s"
  "crash_safe L (s\<lparr>sv_startup_reconciled := b\<rparr>) = crash_safe L s"
  "crash_safe L (s\<lparr>sv_next_canc := nc\<rparr>) = crash_safe L s"
  "crash_safe L (s\<lparr>sv_cancelled := cs\<rparr>) = crash_safe L s"
  by (simp_all add: crash_safe_def)

lemma crash_safe_write:
  assumes "crash_safe L s" and "dr_stage r \<noteq> St_Unowned"
  shows "crash_safe L (s\<lparr>sv_store := snd (table_write w r (sv_store s))\<rparr>)"
  using assms by (auto simp: crash_safe_def table_write_def table_invar_insert
      split: sum.splits write_outcome.splits)

section \<open>Proof rules\<close>

text \<open>A handler that has taken the entry of \<open>i\<close> out of the owned table.\<close>

definition holding :: "RequestOwnedId \<Rightarrow> RequestOwnedId set \<Rightarrow> service \<Rightarrow> bool" where
  "holding i L s \<longleftrightarrow> crash_safe L s
     \<and> (sv_startup_reconciled s \<longrightarrow> (\<forall>j \<in> L - {i}. hm_get (sv_owned s) j \<noteq> None))
     \<and> (\<forall>j e. hm_get (sv_owned s) j = Some e \<longrightarrow> dr_request_id (oe_record e) = j)"

lemmas safe_simps = always_simps safe_point_Cons safe_point_now is_Ret_def

lemma quiescent_crash_safe: "quiescent L s \<Longrightarrow> crash_safe L s"
  by (simp add: quiescent_def)

lemma holding_crash_safe: "holding i L s \<Longrightarrow> crash_safe L s"
  by (simp add: holding_def)

lemma quiescent_holding: "quiescent L s \<Longrightarrow> holding i L s"
  by (simp add: quiescent_def holding_def)

lemma holding_quiescent: "holding i L s \<Longrightarrow> i \<notin> L \<Longrightarrow> quiescent L s"
  by (auto simp: quiescent_def holding_def)

lemma holding_cong [simp]:
  "holding i L (s\<lparr>sv_prepared := pr\<rparr>) = holding i L s"
  "holding i L (s\<lparr>sv_active := ac\<rparr>) = holding i L s"
  "holding i L (s\<lparr>sv_epoch := ep\<rparr>) = holding i L s"
  "holding i L (s\<lparr>sv_draining := b\<rparr>) = holding i L s"
  "holding i L (s\<lparr>sv_next_canc := nc\<rparr>) = holding i L s"
  "holding i L (s\<lparr>sv_cancelled := cs\<rparr>) = holding i L s"
  by (simp_all add: holding_def)

lemma quiescent_cong [simp]:
  "quiescent L (s\<lparr>sv_prepared := pr\<rparr>) = quiescent L s"
  "quiescent L (s\<lparr>sv_active := ac\<rparr>) = quiescent L s"
  "quiescent L (s\<lparr>sv_epoch := ep\<rparr>) = quiescent L s"
  "quiescent L (s\<lparr>sv_draining := b\<rparr>) = quiescent L s"
  "quiescent L (s\<lparr>sv_next_canc := nc\<rparr>) = quiescent L s"
  "quiescent L (s\<lparr>sv_cancelled := cs\<rparr>) = quiescent L s"
  by (simp_all add: quiescent_def)

lemma holding_write:
  assumes "holding i L s" and "dr_stage r \<noteq> St_Unowned"
  shows "holding i L (s\<lparr>sv_store := snd (table_write w r (sv_store s))\<rparr>)"
  using assms crash_safe_write [of L s r w] by (simp add: holding_def)

lemma holding_remove_absent:
  assumes "holding i L s" and "i \<notin> L"
  shows "holding i L (s\<lparr>sv_store := snd (table_remove w i (sv_store s))\<rparr>)"
  using assms by (auto simp: holding_def crash_safe_def table_remove_def table_invar_remove
      split: option.splits remove_outcome.splits)

lemma holding_write_absent:
  assumes "holding i L s" and "i \<notin> L" and "dr_request_id r = i"
  shows "holding i L (s\<lparr>sv_store := snd (table_write w r (sv_store s))\<rparr>)"
  using assms by (auto simp: holding_def crash_safe_def table_write_def table_invar_insert
      split: sum.splits write_outcome.splits)

lemma holding_born:
  assumes "holding i L s" and "dr_request_id r = i" and "dr_stage r \<noteq> St_Unowned"
    and "is_ok (fst (table_write w r (sv_store s)))"
  shows "holding i (insert i L) (s\<lparr>sv_store := snd (table_write w r (sv_store s))\<rparr>)"
  using assms by (auto simp: holding_def crash_safe_def table_write_def table_invar_insert is_ok_def
      split: sum.splits write_outcome.splits)

lemma holding_taken:
  assumes "quiescent L s" and "take_owned c i t (sv_owned s) = (Some e, ow)"
  shows "holding i L (s\<lparr>sv_owned := ow\<rparr>) \<and> dr_request_id (oe_record e) = i
    \<and> hm_get (sv_owned s) i = Some e \<and> dr_caller (oe_record e) = ci_fingerprint c"
  using assms by (auto simp: take_owned_def quiescent_def holding_def Let_def
      split: option.splits if_splits)

lemma quiescent_not_taken:
  assumes "quiescent L s" and "take_owned c i t (sv_owned s) = (None, ow)"
  shows "quiescent L (s\<lparr>sv_owned := ow\<rparr>)"
  using assms by (auto simp: take_owned_def quiescent_def Let_def split: option.splits if_splits)

lemma quiescent_put:
  assumes "holding i L s" and "dr_request_id (oe_record e) = i"
  shows "quiescent L (s\<lparr>sv_owned := hm_insert i e (sv_owned s)\<rparr>)"
  using assms by (auto simp: holding_def quiescent_def)

lemma safe_put_owned:
  assumes "holding i L s" and "dr_request_id r = i"
  shows "always (safe_point L) s (put_owned i r t lc (Ret x))"
  using assms holding_crash_safe [OF assms(1)] quiescent_put [OF assms(1), of "\<lparr>oe_record = r, oe_lifecycle_token = t, oe_lifecycle = lc\<rparr>"]
  by (simp add: put_owned_def safe_simps)

lemma DurableRecord_transition_simps [simp]:
  "dr_request_id (snd (DurableRecord_transition c stage r)) = dr_request_id r"
  "dr_stage (snd (DurableRecord_transition c stage r)) = stage"
  "dr_caller (snd (DurableRecord_transition c stage r)) = dr_caller r"
  by (auto simp: DurableRecord_transition_def Let_def split: sum.splits)

lemma safe_transition_and_try_write:
  assumes "holding i L s" and "dr_request_id r = i" and "stage \<noteq> St_Unowned"
    and "\<And>r' s'. dr_request_id r' = i \<Longrightarrow> holding i L s' \<Longrightarrow> crash_safe L s' \<Longrightarrow>
      always (safe_point L) s' (k r')"
  shows "always (safe_point L) s (transition_and_try_write stage r k)"
  using assms holding_crash_safe [OF assms(1)] holding_write [OF assms(1)]
    holding_crash_safe [OF holding_write [OF assms(1)]]
  by (simp add: transition_and_try_write_def safe_simps Let_def)

lemma safe_transition_and_write:
  assumes "holding i L s" and "dr_request_id r = i" and "stage \<noteq> St_Unowned"
    and "\<And>ok r' s'. dr_request_id r' = i \<Longrightarrow> holding i L s' \<Longrightarrow> crash_safe L s' \<Longrightarrow>
      always (safe_point L) s' (k ok r')"
  shows "always (safe_point L) s (transition_and_write stage r k)"
proof -
  have "always (safe_point L) s (case DurableRecord_transition c stage r of
      (Inl _, r1) \<Rightarrow> k False r1 | (Inr _, r1) \<Rightarrow> StoreWrite r1 (\<lambda>ok. k ok r1))" for c
    using assms holding_crash_safe [OF assms(1)] holding_write [OF assms(1)]
      holding_crash_safe [OF holding_write [OF assms(1)]] DurableRecord_transition_simps [of c stage r]
    by (cases "DurableRecord_transition c stage r") (auto simp: safe_simps split: sum.splits)
  with holding_crash_safe [OF assms(1)] show ?thesis
    by (simp add: transition_and_write_def safe_simps)
qed

lemma safe_operation_context_ms:
  assumes "\<And>ctx. always (safe_point L) s (k ctx)" and "crash_safe L s"
  shows "always (safe_point L) s (operation_context_ms c d k)"
  using assms by (auto simp: operation_context_ms_def safe_simps split: sum.splits)

lemma DurableRecord_new_Ok:
  "DurableRecord_new c i f st t p = Ok r \<Longrightarrow> dr_request_id r = i \<and> dr_stage r = st \<and> dr_caller r = f"
  by (auto simp: DurableRecord_new_def split: sum.splits)

section \<open>Every handler is safe\<close>

lemma safe_Ret [simp]: "always (safe_point L) s (Ret x) \<longleftrightarrow> quiescent L s"
  by (simp add: safe_simps)

lemma safe_create_outcome_born:
  assumes hold: "holding i (insert i L) s" and r: "dr_request_id r = i"
    and born: "live_after (Ev_create request x) L = insert i L" and i: "cr_request_id request = i" "i \<notin> L"
  shows "always (safe_point (insert i L)) s (create_outcome i r x)"
proof (cases x)
  case (Inl failure)
  with born i have "CreateFailure_state failure = CS_PossiblyCreated"
    by (auto split: if_splits)
  then have "CreateFailure_cleanup_target failure \<noteq> None"
    by (simp only: CreateFailure_cleanup_iff)
  with hold r show ?thesis
    by (auto simp: create_outcome_def Inl safe_simps dest: holding_crash_safe
        intro!: safe_transition_and_try_write [of i] safe_put_owned)
next
  case (Inr created)
  show ?thesis
    using hold r
    by (auto simp: create_outcome_def Inr safe_simps dest: holding_crash_safe
        intro!: safe_transition_and_write [of i] safe_put_owned)
qed

lemma safe_create_outcome_unborn:
  assumes hold: "holding i L s" and r: "dr_request_id r = i" and i: "i \<notin> L"
    and unborn: "live_after (Ev_create request x) L = L" "cr_request_id request = i"
  shows "always (safe_point L) s (create_outcome i r x)"
proof -
  obtain failure where x: "x = Inl failure" and "CreateFailure_cleanup_target failure = None"
    using unborn i CreateFailure_cleanup_iff by (cases x) (auto split: if_splits)
  have written: "holding i L (s\<lparr>sv_store :=
      snd (table_write w (snd (DurableRecord_transition c St_Unowned r)) (sv_store s))\<rparr>)" for w c
    using hold i r by (intro holding_write_absent) simp_all
  have "quiescent L (s\<lparr>sv_store := snd (table_remove w' i
      (snd (table_write w (snd (DurableRecord_transition c St_Unowned r)) (sv_store s))))\<rparr>)" for w w' c
    using holding_quiescent [OF holding_remove_absent [OF written i] i] by simp
  with holding_crash_safe [OF hold] holding_crash_safe [OF written]
    \<open>CreateFailure_cleanup_target failure = None\<close> show ?thesis
    by (simp add: create_outcome_def x transition_and_try_write_def safe_simps Let_def)
qed

lemma safe_create:
  assumes q: "quiescent L s"
  shows "always (safe_point L) s (boundary_create bundle caller request deadline c)"
proof -
  define i where "i = cr_request_id request"
  have hold: "holding i L s"
    using q by (rule quiescent_holding)
  have dead: "i \<notin> L" if "sv_startup_reconciled s" and "hm_get (sv_owned s) i = None"
    using q that by (auto simp: quiescent_def)
  have call: "always (safe_point L) s' (operation_context_ms c deadline (\<lambda>ctx.
      RtCreate request ctx (create_outcome i r)))"
    if "holding i (insert i L) s'" and "holding i L s'" and "dr_request_id r = i" and "i \<notin> L" for s' r
  proof (rule safe_operation_context_ms)
    fix ctx
    have "always (safe_point (live_after (Ev_create request x) L)) s' (create_outcome i r x)" for x
    proof (cases "live_after (Ev_create request x) L = L")
      case True
      show ?thesis
        unfolding True using that(2-4) True i_def [symmetric] by (rule safe_create_outcome_unborn)
    next
      case False
      then have born: "live_after (Ev_create request x) L = insert i L"
        by (auto simp: i_def split: sum.splits if_splits)
      show ?thesis
        unfolding born using that(1,3) born i_def [symmetric] that(4) by (rule safe_create_outcome_born)
    qed
    then show "always (safe_point L) s' (RtCreate request ctx (create_outcome i r))"
      using holding_crash_safe [OF that(1)]
      by (simp add: safe_simps i_def [symmetric] del: live_after.simps)
  qed (use that holding_crash_safe in blast)
  have fence: "always (safe_point L) s (StoreWrite r (\<lambda>ok. if \<not> ok then Ret x
      else operation_context_ms c deadline (\<lambda>ctx. RtCreate request ctx (create_outcome i r))))"
    if "dr_request_id r = i" and "dr_stage r = St_CreatePossible" and "i \<notin> L" for r x
    using that hold holding_crash_safe [OF hold] holding_write [OF hold, of r] holding_born [OF hold, of r]
      holding_quiescent [OF holding_write [OF hold, of r] \<open>i \<notin> L\<close>] call [of _ r]
    by (simp add: safe_simps)
  show ?thesis
    using q quiescent_crash_safe [OF q] dead
    by (auto simp: boundary_create_def reject_new_work_def safe_simps Let_def i_def [symmetric]
        simp del: always_StoreWrite split: sum.splits dest: DurableRecord_new_Ok intro!: fence)
qed

lemma safe_OwnedTake:
  assumes q: "quiescent L s"
    and none: "\<And>s'. quiescent L s' \<Longrightarrow> crash_safe L s' \<Longrightarrow> always (safe_point L) s' (k None)"
    and some: "\<And>s' e. holding i L s' \<Longrightarrow> crash_safe L s' \<Longrightarrow> dr_request_id (oe_record e) = i \<Longrightarrow>
      dr_caller (oe_record e) = ci_fingerprint caller \<Longrightarrow> always (safe_point L) s' (k (Some e))"
  shows "always (safe_point L) s (OwnedTake caller i t k)"
proof -
  obtain found ow where taken: "take_owned caller i t (sv_owned s) = (found, ow)"
    by fastforce
  have "always (safe_point L) (s\<lparr>sv_owned := ow\<rparr>) (k found)"
  proof (cases found)
    case None
    with taken q show ?thesis
      by (auto intro!: none quiescent_not_taken quiescent_crash_safe)
  next
    case (Some e)
    with holding_taken [OF q taken [unfolded Some]] quiescent_crash_safe [OF q] show ?thesis
      by (auto intro!: some)
  qed
  with taken q show ?thesis
    by (simp add: safe_simps quiescent_crash_safe)
qed

lemma safe_wait_ready:
  assumes "quiescent L s"
  shows "always (safe_point L) s (boundary_wait_ready bundle caller i t p d c)"
  unfolding boundary_wait_ready_def Let_def
  by (rule safe_OwnedTake [OF assms])
    (auto simp: safe_simps split: Lifecycle.splits sum.splits intro!: safe_operation_context_ms safe_transition_and_write [of i]
        safe_transition_and_try_write [of i] safe_put_owned)

lemma safe_prepare_exec:
  assumes "quiescent L s"
  shows "always (safe_point L) s (boundary_prepare_exec caller i t request d)"
  using assms quiescent_crash_safe [OF assms]
  by (auto simp: boundary_prepare_exec_def reject_new_work_def safe_simps split: option.splits)

lemma safe_put_owned_then:
  assumes "holding i L s" and "dr_request_id r = i"
    and "\<And>s'. quiescent L s' \<Longrightarrow> always (safe_point L) s' p"
  shows "always (safe_point L) s (put_owned i r t lc p)"
  using assms(3) holding_crash_safe [OF assms(1)]
    quiescent_put [OF assms(1), of "\<lparr>oe_record = r, oe_lifecycle_token = t, oe_lifecycle = lc\<rparr>"] assms(2)
  by (simp add: put_owned_def safe_simps)

lemma safe_commit_taken:
  assumes "holding i L s" and "crash_safe L s" and "dr_request_id (oe_record e) = i"
  shows "always (safe_point L) s (commit_taken i prepared d c e)"
  unfolding commit_taken_def Let_def
  using assms
  by (auto simp: safe_simps split: Lifecycle.splits sum.splits
      intro!: safe_operation_context_ms safe_transition_and_write [of i]
        safe_transition_and_try_write [of i] safe_put_owned_then dest: quiescent_crash_safe)

lemma safe_commit_exec:
  assumes "quiescent L s"
  shows "always (safe_point L) s (boundary_commit_exec caller i t d c)"
proof -
  have "always (safe_point L) s' (OwnedTake caller i None (\<lambda>taken. case taken of
      None \<Rightarrow> Ret x | Some entry \<Rightarrow> commit_taken i prepared d c entry))"
    if "quiescent L s'" for s' x prepared
    by (rule safe_OwnedTake [OF that]) (simp_all add: safe_commit_taken)
  then show ?thesis
    unfolding boundary_commit_exec_def Let_def reject_new_work_def
    using assms quiescent_crash_safe [OF assms]
    by (simp add: safe_simps del: always_OwnedTake split: option.splits)
qed

lemma safe_acquire_loop:
  assumes "quiescent L s"
    and "\<And>s' x. quiescent L s' \<Longrightarrow> always (safe_point L) s' (k (Inl x))"
    and "\<And>s' e. holding i L s' \<Longrightarrow> crash_safe L s' \<Longrightarrow> dr_request_id (oe_record e) = i \<Longrightarrow>
      always (safe_point L) s' (k (Inr e))"
  shows "always (safe_point L) s (acquire_loop n caller i expires c k)"
  using assms(1)
proof (induction n arbitrary: s)
  case 0
  then show ?case by (simp add: safe_simps quiescent_crash_safe)
next
  case (Suc n)
  have "always (safe_point L) s' (StoreLoad (\<lambda>loaded. case loaded of
       None \<Rightarrow> k (Inl CA_DurableState)
     | Some records \<Rightarrow>
        (case find (\<lambda>r. dr_request_id r = i) records of
           None \<Rightarrow> k (Inl CA_NotOwned)
         | Some r \<Rightarrow> if dr_caller r \<noteq> ci_fingerprint caller \<or> dr_stage r = St_Unowned then k (Inl CA_NotOwned)
             else Select c expires m (\<lambda>wake. case wake of WakeCancelled \<Rightarrow> k (Inl CA_Cancelled)
               | WakeDeadline \<Rightarrow> k (Inl CA_Deadline)
               | WakeChanged \<Rightarrow> acquire_loop n caller i expires c k))))"
    if "quiescent L s'" for s' m
    using that Suc.IH [OF that] assms(2) quiescent_crash_safe [OF that]
    by (auto simp: safe_simps split: option.splits wake.splits)
  then have "always (safe_point L) s (OwnedTake caller i None (\<lambda>taken. case taken of
      Some entry \<Rightarrow> k (Inr entry)
    | None \<Rightarrow> StoreLoad (\<lambda>loaded. case loaded of
       None \<Rightarrow> k (Inl CA_DurableState)
     | Some records \<Rightarrow>
        (case find (\<lambda>r. dr_request_id r = i) records of
           None \<Rightarrow> k (Inl CA_NotOwned)
         | Some r \<Rightarrow> if dr_caller r \<noteq> ci_fingerprint caller \<or> dr_stage r = St_Unowned then k (Inl CA_NotOwned)
             else Select c expires m (\<lambda>wake. case wake of WakeCancelled \<Rightarrow> k (Inl CA_Cancelled)
               | WakeDeadline \<Rightarrow> k (Inl CA_Deadline)
               | WakeChanged \<Rightarrow> acquire_loop n caller i expires c k)))))" for m
    by (intro safe_OwnedTake [OF Suc.prems]) (simp_all add: assms(3))
  with quiescent_crash_safe [OF Suc.prems] show ?case
    by (simp add: always_Notified safe_point_now is_Ret_def)
qed

lemma safe_acquire_for_cleanup:
  assumes "quiescent L s"
    and "\<And>s' x. quiescent L s' \<Longrightarrow> always (safe_point L) s' (k (Inl x))"
    and "\<And>s' e. holding i L s' \<Longrightarrow> crash_safe L s' \<Longrightarrow> dr_request_id (oe_record e) = i \<Longrightarrow>
      always (safe_point L) s' (k (Inr e))"
  shows "always (safe_point L) s (acquire_for_cleanup n caller i d c k)"
  using quiescent_crash_safe [OF assms(1)] safe_acquire_loop [OF assms]
  by (simp add: acquire_for_cleanup_def always_Now safe_point_now is_Ret_def)

lemma operation_context_remaining:
  "remaining_deadline d t0 t1 = Some left \<Longrightarrow> \<exists>ctx. operation_context c left = Inr ctx"
  by (auto simp: remaining_deadline_def operation_context_def OperationDeadline_new_def Let_def
      split: if_splits)

lemma safe_delete:
  assumes "quiescent L s"
  shows "always (safe_point L) s (boundary_delete n caller target d c)"
proof -
  have acquire: "always (safe_point L) s (acquire_for_cleanup n caller (target_request_id target) d c (\<lambda>acquired.
      case acquired of
        Inl failure \<Rightarrow> Ret (cleanup_acquire_failure target failure)
      | Inr entry \<Rightarrow> K entry))"
    if "\<And>s' e. holding (target_request_id target) L s' \<Longrightarrow> crash_safe L s' \<Longrightarrow>
      dr_request_id (oe_record e) = target_request_id target \<Longrightarrow> always (safe_point L) s' (K e)" for K
    by (rule safe_acquire_for_cleanup [OF assms]) (simp_all add: that)
  have call: "always (safe_point L) s' (Now (\<lambda>now.
      case remaining_deadline d t0 now of
        None \<Rightarrow> put_owned i r t lc (Ret x)
      | Some left \<Rightarrow> (case operation_context c left of Inl _ \<Rightarrow> Panic | Inr ctx \<Rightarrow>
          RtDelete target ctx (\<lambda>result. put_owned i r t LC_CleanupOnly (Ret (f result))))))"
    if "holding i L s'" "crash_safe L s'" "dr_request_id r = i" for s' i r t lc t0 x f
    using that by (auto simp: safe_simps split: option.splits sum.splits intro!: safe_put_owned)
  show ?thesis
    unfolding boundary_delete_def Let_def
    using quiescent_crash_safe [OF assms]
    by (subst always_Now) (auto simp: always_PreparedForget safe_point_now is_Ret_def
        intro!: acquire call safe_transition_and_write [of "target_request_id target"] safe_put_owned)
qed

lemma holding_dead: "holding i L s \<Longrightarrow> holding i (L - {i}) s"
  by (auto simp: holding_def crash_safe_def)

lemma safe_remove_absent:
  assumes h: "holding i L s" and r: "dr_request_id r = i"
  shows "always (safe_point (L - {i})) s (StoreRemove i (\<lambda>ok.
      if \<not> ok then put_owned i r t lc (Ret x) else Ret y))"
proof -
  have "holding i (L - {i}) (s\<lparr>sv_store := snd (table_remove w i (sv_store s))\<rparr>)" for w
    using holding_remove_absent [OF holding_dead [OF h]] by simp
  with r holding_crash_safe [OF holding_dead [OF h]] show ?thesis
    by (auto simp: safe_simps intro!: safe_put_owned holding_quiescent [of i])
qed

lemma safe_wait_deleted:
  assumes "quiescent L s"
  shows "always (safe_point L) s (boundary_wait_deleted n caller target d c)"
proof -
  define i where "i = target_request_id target"
  have acquire: "always (safe_point L) s (acquire_for_cleanup n caller i d c (\<lambda>acquired.
      case acquired of
        Inl failure \<Rightarrow> Ret (cleanup_acquire_failure target failure)
      | Inr entry \<Rightarrow> K entry))"
    if "\<And>s' e. holding i L s' \<Longrightarrow> crash_safe L s' \<Longrightarrow> dr_request_id (oe_record e) = i \<Longrightarrow>
      always (safe_point L) s' (K e)" for K
    by (rule safe_acquire_for_cleanup [OF assms]) (simp_all add: that)
  show ?thesis
    unfolding boundary_wait_deleted_def Let_def i_def [symmetric]
    using quiescent_crash_safe [OF assms]
    by (auto simp: safe_simps i_def [symmetric] simp del: always_StoreRemove
        split: option.splits sum.splits intro!: acquire safe_remove_absent safe_put_owned)
qed

lemma safe_dispatch:
  assumes "quiescent L s"
  shows "always (safe_point L) s (dispatch bundle n caller request c)"
  using assms quiescent_crash_safe [OF assms]
  by (cases request)
    (auto simp: health_def begin_drain_def drain_status_def safe_simps Let_def
      intro: safe_create safe_wait_ready safe_prepare_exec safe_commit_exec safe_delete safe_wait_deleted)

lemma pending_create_bind: "\<not> is_Ret p \<Longrightarrow> pending_create (bind p f) = pending_create p"
  by (cases p) (auto simp: is_Ret_def)

lemma safe_dispatch_and_finish:
  assumes "quiescent L s"
  shows "always (safe_point L) s (bind (dispatch bundle n caller request c) (\<lambda>outcome.
      ActiveRemove j (Ret (f outcome))))"
proof (rule always_bind, rule always_mono [OF safe_dispatch [OF assms]], intro conjI allI impI)
  fix evs s' and p' :: "ServiceResponse prog"
  assume sp: "safe_point L evs s' p'"
  show "safe_point L evs s' (bind p' (\<lambda>outcome. ActiveRemove j (Ret (f outcome))))"
  proof (cases "is_Ret p'")
    case True
    with sp show ?thesis
      by (auto simp: is_Ret_iff safe_point_def quiescent_crash_safe)
  next
    case False
    have "bind p' (\<lambda>outcome. ActiveRemove j (Ret (f outcome))) \<noteq> Ret x" for x
      using False by (cases p') (auto simp: is_Ret_def)
    with sp False show ?thesis
      by (auto simp: safe_point_def pending_create_bind)
  qed
  show "always (\<lambda>evs'. safe_point L (evs @ evs')) s' (ActiveRemove j (Ret (f x)))"
    if "p' = Ret x" for x
    using sp that by (auto simp: safe_point_def always_simps quiescent_crash_safe)
qed

lemma safe_handle:
  assumes "quiescent L s"
  shows "always (safe_point L) s (handle bundle n caller envelope)"
  unfolding handle_def Let_def RequestEnvelope_into_parts_def
  using assms quiescent_crash_safe [OF assms]
  by (auto simp: handle_cancel_def cancel_operation_def safe_simps simp del: dispatch.simps
      intro!: safe_dispatch_and_finish split: ServiceRequest.splits option.splits)

section \<open>Startup reconciliation is safe\<close>

definition owned_ids_ok :: "service \<Rightarrow> bool" where
  "owned_ids_ok s \<longleftrightarrow> (\<forall>i e. hm_get (sv_owned s) i = Some e \<longrightarrow> dr_request_id (oe_record e) = i)"

lemma quiescent_unreconciled:
  "crash_safe L s \<Longrightarrow> owned_ids_ok s \<Longrightarrow> \<not> sv_startup_reconciled s \<Longrightarrow> quiescent L s"
  by (simp add: quiescent_def owned_ids_ok_def)

lemma saturating_succ_nonzero: "saturating_add_u64 n 1 \<noteq> 0"
proof -
  have "unat (saturating_add_u64 n 1) = min (unat n + 1) (2 ^ 64 - 1)"
    by (simp add: unat_saturating_add_u64)
  then have "unat (saturating_add_u64 n 1) \<noteq> 0"
    by simp
  then show ?thesis
    by auto
qed

text \<open>
  The loop invariant: the records still to visit are the stored ones, and as long as nothing is
  unresolved every sandbox that may exist is among them.
\<close>

definition reconciling :: "RequestOwnedId set \<Rightarrow> DurableRecord list \<Rightarrow> u64 \<Rightarrow> service \<Rightarrow> bool" where
  "reconciling L records unresolved s \<longleftrightarrow>
     crash_safe L s \<and> owned_ids_ok s \<and> \<not> sv_startup_reconciled s \<and> distinct (map dr_request_id records)
     \<and> (\<forall>r \<in> set records. hm_get (sv_store s) (dr_request_id r) = Some r)
     \<and> (unresolved = 0 \<longrightarrow> L \<subseteq> dr_request_id ` set records)"

lemma crash_safe_remove:
  assumes "crash_safe L s"
  shows "crash_safe (L - {i}) (s\<lparr>sv_store := snd (table_remove w i (sv_store s))\<rparr>)"
  using assms table_store.remove_invar [of "sv_store s" w i] table_store.remove_frame [of "sv_store s" _ i w]
  by (simp add: crash_safe_def)

lemma reconciling_removed:
  assumes "reconciling L (r # records) u s"
  shows "reconciling (L - {dr_request_id r}) records u
      (s\<lparr>sv_store := snd (table_remove w (dr_request_id r) (sv_store s))\<rparr>)"
proof -
  have safe: "crash_safe L s" and ids: "owned_ids_ok s" and un: "\<not> sv_startup_reconciled s"
    and dist: "distinct (map dr_request_id (r # records))"
    and all: "\<forall>r' \<in> set (r # records). hm_get (sv_store s) (dr_request_id r') = Some r'"
    and sub: "u = 0 \<longrightarrow> L \<subseteq> dr_request_id ` set (r # records)"
    using assms unfolding reconciling_def by blast+
  have inv: "table_invar (sv_store s)"
    using safe by (simp add: crash_safe_def)
  have stored: "\<forall>r' \<in> set records. hm_get (sv_store s) (dr_request_id r') = Some r'"
    and other: "\<forall>r' \<in> set records. dr_request_id r' \<noteq> dr_request_id r"
    using all dist by (simp, force)
  have "\<forall>r' \<in> set records.
      hm_get (snd (table_remove w (dr_request_id r) (sv_store s))) (dr_request_id r') = Some r'"
    using stored other table_store.remove_frame [OF inv] by metis
  with crash_safe_remove [OF safe] ids un dist sub show ?thesis
    unfolding reconciling_def by (auto simp: owned_ids_ok_def)
qed

lemma reconciling_unowned:
  "reconciling L (r # records) u s \<Longrightarrow> dr_stage r = St_Unowned \<Longrightarrow> dr_request_id r \<notin> L"
  by (auto simp: reconciling_def crash_safe_def)

lemma reconciling_skip: "reconciling L (r # records) u s \<Longrightarrow> u' \<noteq> 0 \<Longrightarrow> reconciling L records u' s"
  by (simp add: reconciling_def)

lemma reconciling_dead: "reconciling L records u s \<Longrightarrow> reconciling (L - {i}) records u s"
  by (auto simp: reconciling_def crash_safe_def)

lemma reconciling_quiescent: "reconciling L records u s \<Longrightarrow> quiescent L s \<and> crash_safe L s"
  by (simp add: reconciling_def quiescent_unreconciled)

lemma reconciling_canc [simp]:
  "reconciling L records u (s\<lparr>sv_next_canc := nc\<rparr>) = reconciling L records u s"
  by (simp add: reconciling_def owned_ids_ok_def)

lemma safe_reconcile_remove:
  assumes inv: "reconciling L (r # records) u s" and i: "dr_request_id r \<notin> L"
    and k: "\<And>s'. reconciling L records u s' \<Longrightarrow> always (safe_point L) s' p"
  shows "always (safe_point L) s (StoreRemove (dr_request_id r) (\<lambda>ok. if \<not> ok then Ret x else p))"
proof -
  have *: "reconciling L records u (s\<lparr>sv_store := snd (table_remove w (dr_request_id r) (sv_store s))\<rparr>)" for w
    using reconciling_removed [OF inv, of w] i by simp
  show ?thesis
    using reconciling_quiescent [OF inv] reconciling_quiescent [OF *] k [OF *]
    by (simp add: safe_simps)
qed

lemma safe_reconcile_loop:
  assumes "reconciling L records u s"
  shows "always (safe_point L) s (reconcile_loop d w records removed u)"
  using assms
proof (induction records arbitrary: L removed u s)
  case Nil
  then show ?case
    using reconciling_quiescent [OF Nil]
    by (auto simp: safe_simps reconciling_def quiescent_def owned_ids_ok_def)
next
  case (Cons r records)
  note q = reconciling_quiescent [OF Cons.prems]
  show ?case
  proof (cases "dr_stage r = St_Unowned")
    case True
    have "always (safe_point L) s (StoreRemove (dr_request_id r) (\<lambda>ok. if \<not> ok then Ret (Err StoreError)
        else reconcile_loop d w records (saturating_add_u64 removed 1) u))"
      by (rule safe_reconcile_remove [OF Cons.prems reconciling_unowned [OF Cons.prems True] Cons.IH])
    with True show ?thesis by simp
  next
    case False
    have absent: "always (safe_point (L - {dr_request_id r})) s' (StoreRemove (dr_request_id r) (\<lambda>ok.
        if \<not> ok then Ret (Err StoreError) else reconcile_loop d w records n u))"
      if "reconciling L (r # records) u s'" for s' n
      using Cons.IH by (intro safe_reconcile_remove [OF reconciling_dead [OF that]]) auto
    have present: "always (safe_point L) s' (reconcile_loop d w records removed (saturating_add_u64 u 1))"
      if "reconciling L (r # records) u s'" for s'
      using Cons.IH reconciling_skip [OF that saturating_succ_nonzero] by blast
    show ?thesis
      using False q Cons.prems
      by (auto simp: safe_simps Let_def simp del: always_StoreRemove
          split: sum.splits intro!: absent present)
  qed
qed

lemma safe_reconcile_startup:
  assumes "quiescent L s"
  shows "always (safe_point L) s (reconcile_startup d w)"
proof -
  have table: "table_invar (sv_store s)"
    using assms by (simp add: quiescent_def crash_safe_def)
  have "i \<in> dr_request_id ` set (map snd (sv_store s))" if i: "i \<in> L" for i
  proof -
    obtain r where "hm_get (sv_store s) i = Some r"
      using assms i by (auto simp: quiescent_def crash_safe_def)
    with table_invar_get [OF table this] hm_get_in_set [OF this] show ?thesis
      by force
  qed
  moreover have "distinct (map dr_request_id (sort_key dr_request_id (map snd (sv_store s))))"
    using table_load_spec [OF table] strict_sorted_iff by blast
  ultimately have "reconciling L (sort_key dr_request_id (map snd (sv_store s))) 0
      (s\<lparr>sv_startup_reconciled := False\<rparr>)"
    using assms table_load_spec [OF table]
    by (auto simp: reconciling_def quiescent_def owned_ids_ok_def)
  from safe_reconcile_loop [OF this] show ?thesis
    using assms quiescent_crash_safe [OF assms]
    by (auto simp: reconcile_startup_def safe_simps quiescent_def)
qed

section \<open>The service over restarts\<close>

text \<open>
  One request at a time, or a reconciliation, to its end; or a kill at any action of one, after
  which a new service starts on the store and everything in memory is gone. A panic or a wait that
  never ends is a run that is killed.
\<close>

inductive serial :: "AssetBundleIdentity \<Rightarrow> service \<Rightarrow> event list \<Rightarrow> bool" for B where
  serial_start: "serial B (service_new B []) []"
| serial_request: "serial B s tr \<Longrightarrow> preach s (handle B n caller envelope) evs s' (Ret v) \<Longrightarrow>
    serial B s' (tr @ evs)"
| serial_reconcile: "serial B s tr \<Longrightarrow> preach s (reconcile_startup d w) evs s' (Ret v) \<Longrightarrow>
    serial B s' (tr @ evs)"
| serial_kill_request: "serial B s tr \<Longrightarrow> preach s (handle B n caller envelope) evs s' p \<Longrightarrow>
    serial B (service_new B (sv_store s')) (tr @ evs @ pending_create p)"
| serial_kill_reconcile: "serial B s tr \<Longrightarrow> preach s (reconcile_startup d w) evs s' p \<Longrightarrow>
    serial B (service_new B (sv_store s')) (tr @ evs @ pending_create p)"

lemma quiescent_restart: "crash_safe L s \<Longrightarrow> quiescent L (service_new bundle (sv_store s))"
  by (simp add: quiescent_def crash_safe_def service_new_def)

lemma serial_quiescent: "serial bundle s tr \<Longrightarrow> quiescent (possibly_live tr {}) s"
proof (induction rule: serial.induct)
  case serial_start
  then show ?case
    by (simp add: quiescent_def crash_safe_def service_new_def table_invar_def)
next
  case (serial_request s tr n caller envelope evs s' v)
  then show ?case
    using alwaysD [OF safe_handle] by (fastforce simp: safe_point_def)
next
  case (serial_reconcile s tr d w evs s' v)
  then show ?case
    using alwaysD [OF safe_reconcile_startup] by (fastforce simp: safe_point_def)
next
  case (serial_kill_request s tr n caller envelope evs s' p)
  then show ?case
    using alwaysD [OF safe_handle] by (fastforce simp: safe_point_def intro: quiescent_restart)
next
  case (serial_kill_reconcile s tr d w evs s' p)
  then show ?case
    using alwaysD [OF safe_reconcile_startup] by (fastforce simp: safe_point_def intro: quiescent_restart)
qed

end
