(* ===== verification/Boundary_Props.thy ===== *)
theory Boundary_Props
  imports Boundary_Safety
begin

text \<open>
  The properties of the service boundary when it handles one request at a time, and the concrete
  values their witnesses run on.
\<close>

section \<open>Concrete values\<close>

definition sample_id :: RequestOwnedId where
  "sample_id = RequestOwnedId ''sbx-0123456789abcde''"

definition sample_policy :: PolicyIdentity where
  "sample_policy = \<lparr>policy_id = ''base'', policy_version = 1,
     policy_sha256 = Sha256Digest (replicate 64 (CHR ''a''))\<rparr>"

definition sample_bundle :: AssetBundleIdentity where
  "sample_bundle = \<lparr>ab_runtime_contract_version = 1,
     ab_adapter_build_sha256 = Sha256Digest (replicate 64 (CHR ''b'')),
     ab_template = TemplateIdentity ''base'', ab_policy = sample_policy, ab_compatibility_id = ''v1''\<rparr>"

definition sample_caller :: CallerIdentity where
  "sample_caller = CallerIdentity_new (CallerFingerprint (replicate 64 (CHR ''c''))) RuntimeRole"

definition sample_create :: CreateRequest where
  "sample_create = \<lparr>cr_request_id = sample_id, cr_template = TemplateIdentity ''base'',
     cr_policy_document = \<lparr>doc_media_type = ''text/yaml'', doc_bytes = [1]\<rparr>,
     cr_expected_policy = sample_policy\<rparr>"

definition sample_deadline :: DeadlineMillis where
  "sample_deadline = DeadlineMillis 1000"

definition sample_envelope :: "string \<Rightarrow> ServiceRequest \<Rightarrow> RequestEnvelope" where
  "sample_envelope op request = RequestEnvelope_new (OperationId op) sample_bundle request"

text \<open>A service that has just reconciled an empty store.\<close>

definition sample_service :: service where
  "sample_service =
     (case run_prog [A_tick, A_load True, A_tick] (service_new sample_bundle [])
             (reconcile_startup 1 1) of (evs, s, p) \<Rightarrow> s)"

lemmas sample_defs =
  sample_id_def sample_policy_def sample_bundle_def sample_caller_def sample_create_def
  sample_deadline_def sample_envelope_def

lemma sample_service_eq:
  "sample_service = (service_new sample_bundle [])\<lparr>sv_startup_reconciled := True\<rparr>"
  by (simp add: sample_service_def reconcile_startup_def service_new_def table_load_def)

text \<open>What it takes to run a handler on concrete values by rewriting.\<close>

lemmas eval_defs =
  sample_defs sample_service_eq handle_def reject_new_work_def service_new_def protocol_defs store_defs
  contract_defs boundary_defs CallerIdentity_new_def PROTOCOL_VERSION_def millis_def table_write_def
  table_remove_def table_load_def Let_def hm_insert_def hm_get_def hm_remove_def take_owned_def

lemma sample_serial: "serial sample_bundle sample_service []"
proof -
  have "run_prog [A_tick, A_load True, A_tick] (service_new sample_bundle []) (reconcile_startup 1 1)
      = ([], sample_service, Ret (Ok \<lparr>rr_removed_records = 0, rr_unresolved_records = 0\<rparr>))"
    by (simp add: sample_service_eq reconcile_startup_def service_new_def table_load_def)
  from serial_reconcile [OF serial_start run_prog_preach [OF this]] show ?thesis
    by simp
qed

section \<open>No sandbox is lost\<close>

text \<open>
  C1. Run the service for any sequence of requests, reconciliations and kills, and stop it at any
  action of the next request: every identifier for which the runtime may have created a sandbox,
  a call of \<open>create\<close> still in progress included, and has not confirmed its absence, has a
  durable record that is not marked unowned.
\<close>

theorem no_lost_sandbox:
  assumes "serial B s tr" and "preach s (handle B fuel caller envelope) evs s' p"
    and "i \<in> possibly_live (tr @ evs @ pending_create p) {}"
  shows "\<exists>r. hm_get (sv_store s') i = Some r \<and> dr_stage r \<noteq> St_Unowned"
  using alwaysD [OF safe_handle [OF serial_quiescent [OF assms(1)]] assms(2)] assms(3)
  by (auto simp: safe_point_def crash_safe_def)

definition sample_create_run :: "event list \<times> service \<times> ResponseEnvelope prog" where
  "sample_create_run =
     run_prog [A_tick, A_tick, A_tick, A_tick, A_tick, A_unix (Some 5), A_write WriteOk] sample_service
       (handle sample_bundle 1 sample_caller
          (sample_envelope ''op1'' (SReq_Create sample_create sample_deadline)))"

theorem no_lost_sandbox_witness:
  "\<exists>r. hm_get (sv_store (fst (snd sample_create_run))) sample_id = Some r \<and> dr_stage r \<noteq> St_Unowned"
proof -
  obtain evs s' p where run: "sample_create_run = (evs, s', p)"
    by (cases sample_create_run)
  have reach: "preach sample_service (handle sample_bundle 1 sample_caller
          (sample_envelope ''op1'' (SReq_Create sample_create sample_deadline))) evs s' p"
    using run unfolding sample_create_run_def by (rule run_prog_preach)
  have "sample_id \<in> possibly_live ([] @ evs @ pending_create p) {}"
    using run by (auto simp: sample_create_run_def boundary_create_def eval_defs)
  from no_lost_sandbox [OF sample_serial reach this] show ?thesis
    unfolding run by simp
qed

section \<open>From a handler to its dispatch\<close>

definition handle_entry :: "service \<Rightarrow> RequestEnvelope \<Rightarrow> service" where
  "handle_entry s envelope =
     s\<lparr>sv_next_canc := Suc (sv_next_canc s),
       sv_active := hm_insert (rqe_operation_id envelope) (sv_next_canc s) (sv_active s)\<rparr>"

definition finish_handle :: "RequestEnvelope \<Rightarrow> ServiceResponse \<Rightarrow> ResponseEnvelope prog" where
  "finish_handle envelope outcome =
     ActiveRemove (rqe_operation_id envelope)
       (Ret (ResponseEnvelope_new (rqe_operation_id envelope) outcome))"

definition bookkeeping_only :: "service \<Rightarrow> service \<Rightarrow> bool" where
  "bookkeeping_only s s' \<longleftrightarrow> sv_store s' = sv_store s \<and> sv_owned s' = sv_owned s
     \<and> sv_prepared s' = sv_prepared s \<and> sv_draining s' = sv_draining s
     \<and> sv_startup_reconciled s' = sv_startup_reconciled s \<and> sv_epoch s' = sv_epoch s"

lemma bookkeeping_refl [simp]: "bookkeeping_only s s"
  by (simp add: bookkeeping_only_def)

text \<open>Where a handler can be that has not been admitted to a dispatch.\<close>

definition rejection :: "ResponseEnvelope prog \<Rightarrow> bool" where
  "rejection p \<longleftrightarrow>
     (case p of
        Ret v \<Rightarrow> (case rse_response v of SRes_BoundaryFailed _ \<Rightarrow> True | SRes_Cancelled _ \<Rightarrow> True | _ \<Rightarrow> False)
      | NewCancellation _ \<Rightarrow> True | ActiveInsert _ _ _ \<Rightarrow> True | ActiveCancel _ _ \<Rightarrow> True | _ \<Rightarrow> False)"

lemma rejection_simps [simp]:
  "rejection (Ret (ResponseEnvelope_new i (boundary_failure code t d)))"
  "rejection (Ret (ResponseEnvelope_new i (SRes_Cancelled b)))"
  "rejection (NewCancellation k)" "rejection (ActiveInsert i c k')" "rejection (ActiveCancel i k')"
  by (simp_all add: rejection_def ResponseEnvelope_new_def boundary_failure_def)

lemma always_rejected_or_admitted:
  assumes admitted: "rqe_protocol_version envelope = PROTOCOL_VERSION \<Longrightarrow> rqe_asset_bundle envelope = B \<Longrightarrow>
      hm_get (sv_active s) (rqe_operation_id envelope) = None \<Longrightarrow>
      always Q (handle_entry s envelope)
        (bind (dispatch B fuel caller (rqe_request envelope) (sv_next_canc s)) (finish_handle envelope))"
    and rejected: "\<And>s' p. bookkeeping_only s s' \<Longrightarrow> rejection p \<Longrightarrow> Q [] s' p"
  shows "always Q s (handle B fuel caller envelope)"
proof (cases "rqe_protocol_version envelope = PROTOCOL_VERSION \<and> rqe_asset_bundle envelope = B")
  case False
  then show ?thesis
    by (auto simp: handle_def always_simps rejected Let_def)
next
  case True
  show ?thesis
  proof (cases "\<exists>t. rqe_request envelope = SReq_Cancel t")
    case True
    with \<open>rqe_protocol_version envelope = PROTOCOL_VERSION \<and> rqe_asset_bundle envelope = B\<close> show ?thesis
      by (auto simp: handle_def Let_def RequestEnvelope_into_parts_def handle_cancel_def cancel_operation_def
          always_simps bookkeeping_only_def intro!: rejected split: option.splits)
  next
    case False
    then have "handle B fuel caller envelope =
       NewCancellation (\<lambda>cancellation.
         ActiveInsert (rqe_operation_id envelope) cancellation (\<lambda>replaced.
           if replaced
           then Ret (ResponseEnvelope_new (rqe_operation_id envelope)
                  (boundary_failure BF_LifecycleConflict None None))
           else bind (dispatch B fuel caller (rqe_request envelope) cancellation) (finish_handle envelope)))"
      using True
      by (cases "rqe_request envelope")
        (simp_all add: handle_def RequestEnvelope_into_parts_def finish_handle_def [abs_def] Let_def cong: if_cong)
    then show ?thesis
      using admitted True
      by (auto simp: always_simps handle_entry_def bookkeeping_only_def simp del: dispatch.simps
          intro!: rejected)
  qed
qed

text \<open>A property of the dispatch that says nothing about its result carries over to the handler.\<close>

lemma always_finish:
  assumes "always Q s p"
    and "\<And>evs s' p'. Q evs s' p' \<Longrightarrow> R evs s' (bind p' (finish_handle envelope))"
    and "\<And>evs s' v. Q evs s' (Ret v) \<Longrightarrow> R evs (s'\<lparr>sv_active := hm_remove (rqe_operation_id envelope) (sv_active s')\<rparr>)
      (Ret (ResponseEnvelope_new (rqe_operation_id envelope) v))"
  shows "always R s (bind p (finish_handle envelope))"
proof (rule always_bind, rule always_mono [OF assms(1)], intro conjI allI impI)
  fix evs s' and p' :: "ServiceResponse prog" and x
  assume Q: "Q evs s' p'"
  show "R evs s' (bind p' (finish_handle envelope))"
    using Q by (rule assms(2))
  show "always (\<lambda>evs'. R (evs @ evs')) s' (finish_handle envelope x)" if "p' = Ret x"
    using assms(2) [OF Q] assms(3) [of evs s' x] Q that
    by (simp add: finish_handle_def always_simps)
qed

section \<open>The execution fence\<close>

text \<open>No handler but \<open>commit_exec\<close> calls \<open>exec\<close>.\<close>

definition is_exec :: "'a prog \<Rightarrow> bool" where
  "is_exec p \<longleftrightarrow> (case p of RtExec _ _ _ _ \<Rightarrow> True | _ \<Rightarrow> False)"

definition no_exec :: "event list \<Rightarrow> service \<Rightarrow> 'a prog \<Rightarrow> bool" where
  "no_exec evs s p \<longleftrightarrow> \<not> is_exec p"

lemma no_exec_Cons [simp]: "(\<lambda>evs. no_exec (ev # evs)) = no_exec"
  by (simp add: no_exec_def fun_eq_iff)

lemma no_exec_acquire:
  assumes "\<And>s' x. always no_exec s' (k x)"
  shows "always no_exec s (acquire_loop n caller i t c k)"
  using assms
  by (induction n arbitrary: s)
    (auto simp: always_simps no_exec_def is_exec_def split: option.splits wake.splits)

lemmas exec_simps =
  always_simps is_exec_def transition_and_write_def transition_and_try_write_def put_owned_def
  reject_new_work_def operation_context_ms_def Let_def

lemma no_exec_dispatch:
  assumes "\<nexists>i t d. request = SReq_CommitExec i t d"
  shows "always no_exec s (dispatch B fuel caller request c)"
proof (cases request)
  case (SReq_Create q d)
  then show ?thesis
    by (auto simp: no_exec_def exec_simps boundary_create_def create_outcome_def split: sum.splits prod.splits)
next
  case (SReq_WaitReady i t pol d)
  then show ?thesis
    by (auto simp: no_exec_def exec_simps boundary_wait_ready_def
        split: sum.splits prod.splits option.splits Lifecycle.splits)
next
  case (SReq_PrepareExec i t q d)
  then show ?thesis
    by (auto simp: no_exec_def exec_simps boundary_prepare_exec_def split: option.splits)
next
  case (SReq_CommitExec i t d)
  with assms show ?thesis by blast
next
  case (SReq_Delete target d)
  then show ?thesis
    by (auto simp: exec_simps no_exec_def [of "[]"] boundary_delete_def acquire_for_cleanup_def
        split: sum.splits prod.splits option.splits intro!: no_exec_acquire)
next
  case (SReq_WaitDeleted target d)
  then show ?thesis
    by (auto simp: exec_simps no_exec_def [of "[]"] boundary_wait_deleted_def acquire_for_cleanup_def
        split: sum.splits prod.splits option.splits intro!: no_exec_acquire)
qed (auto simp: no_exec_def exec_simps health_def begin_drain_def drain_status_def)

text \<open>What holds when \<open>commit_exec\<close> calls the runtime.\<close>

definition exec_authorized ::
  "service \<Rightarrow> CallerIdentity \<Rightarrow> ServiceRequest \<Rightarrow> service \<Rightarrow> ReadySandbox \<Rightarrow> ExecRequest \<Rightarrow> bool" where
  "exec_authorized s caller request s' ready command \<longleftrightarrow>
     \<not> sv_draining s \<and> sv_startup_reconciled s \<and>
     (\<exists>i token d prepared e r.
        request = SReq_CommitExec i token d
        \<and> hm_get (sv_prepared s) token = Some prepared \<and> pe_caller prepared = ci_fingerprint caller
        \<and> pe_request_id prepared = i \<and> pe_request prepared = command
        \<and> hm_get (sv_owned s) i = Some e \<and> oe_lifecycle e = LC_Ready ready
        \<and> dr_caller (oe_record e) = ci_fingerprint caller
        \<and> hm_get (sv_store s') i = Some r \<and> dr_stage r = St_ExecPossible
        \<and> dr_caller r = ci_fingerprint caller
        \<and> hm_get (sv_prepared s') token = None \<and> hm_get (sv_owned s') i = None)"

definition fenced :: "service \<Rightarrow> CallerIdentity \<Rightarrow> ServiceRequest \<Rightarrow> event list \<Rightarrow> service \<Rightarrow> 'a prog \<Rightarrow> bool" where
  "fenced s caller request evs s' p \<longleftrightarrow>
     (case p of RtExec ready command ctx k \<Rightarrow> exec_authorized s caller request s' ready command | _ \<Rightarrow> True)"

lemma fenced_Cons [simp]: "(\<lambda>evs. fenced s caller request (ev # evs)) = fenced s caller request"
  by (simp add: fenced_def fun_eq_iff)

lemma fenced_simps [simp]:
  "fenced s caller request evs s' (RtExec ready command ctx k) \<longleftrightarrow>
     exec_authorized s caller request s' ready command"
  "\<not> is_exec p \<Longrightarrow> fenced s caller request evs s' p"
  by (auto simp: fenced_def is_exec_def split: prog.splits)

lemma table_write_is_ok:
  "is_ok (fst (table_write w r t)) \<Longrightarrow> snd (table_write w r t) = hm_insert (dr_request_id r) r t"
  by (auto simp: table_write_def split: sum.splits write_outcome.splits)

lemma fenced_commit_taken:
  assumes e: "hm_get (sv_owned s) i = Some e" "dr_request_id (oe_record e) = i"
      "dr_caller (oe_record e) = ci_fingerprint caller"
    and pr: "hm_get (sv_prepared s) token = Some prepared" "pe_caller prepared = ci_fingerprint caller"
      "pe_request_id prepared = i"
    and work: "\<not> sv_draining s" "sv_startup_reconciled s"
    and s': "hm_get (sv_prepared s') token = None" "hm_get (sv_owned s') i = None"
  shows "always (fenced s caller (SReq_CommitExec i token d)) s' (commit_taken i prepared d c e)"
proof -
  have "exec_authorized s caller (SReq_CommitExec i token d)
      (s'\<lparr>sv_store := snd (table_write w r (sv_store s'))\<rparr>) ready (pe_request prepared)"
    if "oe_lifecycle e = LC_Ready ready" and "is_ok (fst (table_write w r (sv_store s')))"
      and "DurableRecord_transition clk St_ExecPossible (oe_record e) = (Inr u, r)" for w r ready clk u
  proof -
    have "dr_request_id r = i" and "dr_stage r = St_ExecPossible" and "dr_caller r = ci_fingerprint caller"
      using that(3) e DurableRecord_transition_simps [of clk St_ExecPossible "oe_record e"] by auto
    with e pr work s' that(1) table_write_is_ok [OF that(2)] show ?thesis
      by (simp add: exec_authorized_def)
  qed
  then show ?thesis
    by (auto simp: commit_taken_def exec_simps split: sum.splits prod.splits Lifecycle.splits)
qed

lemma fenced_commit_exec:
  assumes ids: "owned_ids_ok s"
    and same: "bookkeeping_only s s0"
  shows "always (fenced s caller (SReq_CommitExec i token d)) s0 (boundary_commit_exec caller i token d c)"
proof -
  have eq: "sv_owned s0 = sv_owned s" "sv_prepared s0 = sv_prepared s" "sv_draining s0 = sv_draining s"
      "sv_startup_reconciled s0 = sv_startup_reconciled s"
    using same by (simp_all add: bookkeeping_only_def)
  have taken: "always (fenced s caller (SReq_CommitExec i token d))
      (s0\<lparr>sv_prepared := hm_remove token (sv_prepared s), sv_owned := ow\<rparr>) (commit_taken i prepared d c e)"
    if "take_owned caller i None (sv_owned s) = (Some e, ow)" "hm_get (sv_prepared s) token = Some prepared"
      "pe_caller prepared = ci_fingerprint caller" "pe_request_id prepared = i"
      "\<not> sv_draining s" "sv_startup_reconciled s" for e ow prepared
  proof (rule fenced_commit_taken)
    have "hm_get (sv_owned s) i = Some e" "ow = hm_remove i (sv_owned s)"
      and "dr_caller (oe_record e) = ci_fingerprint caller"
      using that(1) by (auto simp: take_owned_def Let_def split: option.splits if_splits)
    with ids show "hm_get (sv_owned s) i = Some e" "dr_request_id (oe_record e) = i"
      "dr_caller (oe_record e) = ci_fingerprint caller"
      "hm_get (sv_owned (s0\<lparr>sv_prepared := hm_remove token (sv_prepared s), sv_owned := ow\<rparr>)) i = None"
      by (simp_all add: owned_ids_ok_def)
  qed (use that in simp_all)
  show ?thesis
    unfolding boundary_commit_exec_def Let_def reject_new_work_def
    using taken
    by (cases "take_owned caller i None (sv_owned s)") 
      (auto simp: always_simps is_exec_def eq split: option.splits)
qed

lemma fenced_finish:
  "fenced s caller request evs s' p \<Longrightarrow> fenced s caller request evs s' (bind p (finish_handle envelope))"
  by (cases p) (simp_all add: fenced_def finish_handle_def)


text \<open>A service with one ready sandbox and one prepared command, and the run of its commit.\<close>

definition sample_ready :: ReadySandbox where
  "sample_ready = \<lparr>rs_request_id = sample_id, rs_provider_handle = OpaqueProviderHandle [7],
     rs_active_policy = sample_policy\<rparr>"

definition sample_created :: CreatedSandbox where
  "sample_created = \<lparr>cs_request_id = sample_id, cs_provider_handle = OpaqueProviderHandle [7],
     cs_expected_policy = sample_policy\<rparr>"

definition sample_exec :: ExecRequest where
  "sample_exec = \<lparr>er_argv = Argv [''true''], er_timeout = CommandTimeout 30,
     er_output_limits = \<lparr>ol_stdout_bytes = 10, ol_stderr_bytes = 10, ol_combined_bytes = 20, ol_chunk_bytes = 5\<rparr>\<rparr>"

text \<open>Requests one after the other, each answered to its end.\<close>

fun sample_session :: "(string \<times> ServiceRequest \<times> answer list) list \<Rightarrow> service \<Rightarrow> (event list \<times> service) option" where
  "sample_session [] s = Some ([], s)"
| "sample_session ((op, request, answers) # rest) s =
     (case run_prog answers s (handle sample_bundle 1 sample_caller (sample_envelope op request)) of
        (evs, s1, Ret v) \<Rightarrow> map_option (\<lambda>(evs', s2). (evs @ evs', s2)) (sample_session rest s1)
      | _ \<Rightarrow> None)"

lemma sample_session_serial:
  "serial sample_bundle s tr \<Longrightarrow> sample_session l s = Some (evs, s') \<Longrightarrow> serial sample_bundle s' (tr @ evs)"
proof (induction l s arbitrary: tr evs rule: sample_session.induct)
  case (2 op request answers rest s)
  then obtain ev1 s1 v ev2 where run: "run_prog answers s
      (handle sample_bundle 1 sample_caller (sample_envelope op request)) = (ev1, s1, Ret v)"
    and rest: "sample_session rest s1 = Some (ev2, s')" and evs: "evs = ev1 @ ev2"
    by (auto split: prod.splits prog.splits)
  have "serial sample_bundle s1 (tr @ ev1)"
    using 2(2) run_prog_preach [OF run] by (rule serial_request)
  from 2(1) [OF run [symmetric] refl refl this rest] show ?case
    by (simp add: evs)
qed simp

definition created_session :: "(string \<times> ServiceRequest \<times> answer list) list" where
  "created_session =
     [(''op1'', SReq_Create sample_create sample_deadline,
       [A_tick, A_tick, A_tick, A_tick, A_tick, A_unix (Some 5), A_write WriteOk,
        A_create (Inr sample_created), A_token (CapabilityToken ''t1''), A_unix (Some 6), A_write WriteOk,
        A_tick, A_tick])]"

definition prepared_session :: "(string \<times> ServiceRequest \<times> answer list) list" where
  "prepared_session = created_session @
     [(''op2'', SReq_WaitReady sample_id (CapabilityToken ''t1'') sample_policy sample_deadline,
       [A_tick, A_tick, A_tick, A_ready (Inr sample_ready), A_unix (Some 7), A_write WriteOk,
        A_token (CapabilityToken ''t2''), A_tick, A_tick]),
      (''op3'', SReq_PrepareExec sample_id (CapabilityToken ''t2'') sample_exec sample_deadline,
       [A_tick, A_tick, A_tick, A_tick, A_tick, A_reserve (CapabilityToken ''p1'') 100, A_tick])]"

definition sample_commit :: RequestEnvelope where
  "sample_commit = sample_envelope ''op4'' (SReq_CommitExec sample_id (CapabilityToken ''p1'') sample_deadline)"

definition commit_answers :: "answer list" where
  "commit_answers = [A_tick, A_tick, A_tick, A_tick, A_tick, A_tick, A_now 200, A_unix (Some 8), A_write WriteOk]"

lemmas session_defs =
  eval_defs created_session_def prepared_session_def sample_commit_def commit_answers_def
  sample_created_def sample_ready_def sample_exec_def boundary_create_def create_outcome_def
  boundary_wait_ready_def boundary_prepare_exec_def boundary_commit_exec_def commit_taken_def

lemma prepared_session_commits:
  "case sample_session prepared_session sample_service of
     None \<Rightarrow> False
   | Some (tr, s) \<Rightarrow>
       (case run_prog commit_answers s (handle sample_bundle 1 sample_caller sample_commit) of
          (evs, s', RtExec ready command ctx k) \<Rightarrow> True | _ \<Rightarrow> False)"
  by (simp add: session_defs)


section \<open>Draining, versions and bundles\<close>



text \<open>
  A request of another protocol version or for another asset bundle is answered at once and
  changes nothing.
\<close>

theorem foreign_requests_rejected:
  assumes "rqe_protocol_version envelope \<noteq> PROTOCOL_VERSION \<or> rqe_asset_bundle envelope \<noteq> B"
  shows "handle B fuel caller envelope =
    Ret (ResponseEnvelope_new (rqe_operation_id envelope)
      (boundary_failure
        (if rqe_protocol_version envelope \<noteq> PROTOCOL_VERSION then BF_ProtocolVersion else BF_AssetBundleMismatch)
        None None))"
  using assms by (auto simp: handle_def Let_def)

theorem foreign_requests_rejected_witness:
  "handle sample_bundle 1 sample_caller (sample_commit\<lparr>rqe_protocol_version := 2\<rparr>) =
    Ret (ResponseEnvelope_new (OperationId ''op4'') (boundary_failure BF_ProtocolVersion None None))"
  using foreign_requests_rejected [of "sample_commit\<lparr>rqe_protocol_version := 2\<rparr>" sample_bundle 1 sample_caller]
  by (simp add: PROTOCOL_VERSION_def sample_commit_def sample_envelope_def RequestEnvelope_new_def)

end
