(* ===== verification/Boundary_Access.thy ===== *)
theory Boundary_Access
  imports Boundary_Props
begin

text \<open>
  Access control of the service boundary: what one caller's request can do to the sandbox of
  another, and when the service says that a sandbox is gone.
\<close>

section \<open>Sandboxes of other callers\<close>

text \<open>The identifier an action names to the store or to the runtime.\<close>

definition action_target :: "'a prog \<Rightarrow> RequestOwnedId option" where
  "action_target p =
     (case p of
        StoreWrite r _ \<Rightarrow> Some (dr_request_id r)
      | StoreRemove i _ \<Rightarrow> Some i
      | RtCreate q _ _ \<Rightarrow> Some (cr_request_id q)
      | RtDelete t _ _ \<Rightarrow> Some (target_request_id t)
      | RtWaitDeleted t _ _ \<Rightarrow> Some (target_request_id t)
      | OwnedPut i _ _ \<Rightarrow> Some i
      | _ \<Rightarrow> None)"

definition untouched :: "RequestOwnedId \<Rightarrow> OwnedEntry \<Rightarrow> DurableRecord option \<Rightarrow> service \<Rightarrow> bool" where
  "untouched i e sr s \<longleftrightarrow> hm_get (sv_owned s) i = Some e \<and> hm_get (sv_store s) i = sr \<and> owned_ids_ok s"

definition leaves_alone ::
  "RequestOwnedId \<Rightarrow> OwnedEntry \<Rightarrow> DurableRecord option \<Rightarrow> event list \<Rightarrow> service \<Rightarrow> 'a prog \<Rightarrow> bool" where
  "leaves_alone i e sr evs s p \<longleftrightarrow> untouched i e sr s \<and> action_target p \<noteq> Some i"

lemma leaves_alone_Cons [simp]: "(\<lambda>evs. leaves_alone i e sr (ev # evs)) = leaves_alone i e sr"
  by (simp add: leaves_alone_def fun_eq_iff)

lemma untouched_cong [simp]:
  "untouched i e sr (s\<lparr>sv_prepared := pr\<rparr>) = untouched i e sr s"
  "untouched i e sr (s\<lparr>sv_active := ac\<rparr>) = untouched i e sr s"
  "untouched i e sr (s\<lparr>sv_epoch := ep\<rparr>) = untouched i e sr s"
  "untouched i e sr (s\<lparr>sv_draining := b\<rparr>) = untouched i e sr s"
  "untouched i e sr (s\<lparr>sv_next_canc := nc\<rparr>) = untouched i e sr s"
  "untouched i e sr (s\<lparr>sv_cancelled := cs\<rparr>) = untouched i e sr s"
  by (simp_all add: untouched_def owned_ids_ok_def)

lemma untouched_write:
  "untouched i e sr s \<Longrightarrow> dr_request_id r \<noteq> i \<Longrightarrow>
     untouched i e sr (s\<lparr>sv_store := snd (table_write w r (sv_store s))\<rparr>)"
  by (auto simp: untouched_def owned_ids_ok_def table_write_def split: sum.splits write_outcome.splits)

lemma untouched_remove:
  "untouched i e sr s \<Longrightarrow> j \<noteq> i \<Longrightarrow>
     untouched i e sr (s\<lparr>sv_store := snd (table_remove w j (sv_store s))\<rparr>)"
  by (auto simp: untouched_def owned_ids_ok_def table_remove_def split: option.splits remove_outcome.splits)

lemma untouched_put:
  "untouched i e sr s \<Longrightarrow> j \<noteq> i \<Longrightarrow> dr_request_id (oe_record x) = j \<Longrightarrow>
     untouched i e sr (s\<lparr>sv_owned := hm_insert j x (sv_owned s)\<rparr>)"
  by (auto simp: untouched_def owned_ids_ok_def)

lemmas alone_simps = always_simps leaves_alone_def [of _ _ _ "[]"] action_target_def

lemma alone_put_owned:
  assumes "untouched i e sr s" and "dr_request_id r \<noteq> i" and "j = dr_request_id r"
    and "\<And>s'. untouched i e sr s' \<Longrightarrow> always (leaves_alone i e sr) s' p"
  shows "always (leaves_alone i e sr) s (put_owned j r t lc p)"
  using assms untouched_put [OF assms(1), of j "\<lparr>oe_record = r, oe_lifecycle_token = t, oe_lifecycle = lc\<rparr>"]
  by (simp add: put_owned_def alone_simps)

lemma alone_try_write:
  assumes "untouched i e sr s" and "dr_request_id r \<noteq> i"
    and "\<And>r' s'. dr_request_id r' = dr_request_id r \<Longrightarrow> untouched i e sr s' \<Longrightarrow>
      always (leaves_alone i e sr) s' (k r')"
  shows "always (leaves_alone i e sr) s (transition_and_try_write stage r k)"
  using assms untouched_write [OF assms(1)]
  by (simp add: transition_and_try_write_def alone_simps Let_def)

lemma alone_write:
  assumes "untouched i e sr s" and "dr_request_id r \<noteq> i"
    and "\<And>ok r' s'. dr_request_id r' = dr_request_id r \<Longrightarrow> untouched i e sr s' \<Longrightarrow>
      always (leaves_alone i e sr) s' (k ok r')"
  shows "always (leaves_alone i e sr) s (transition_and_write stage r k)"
proof -
  have "always (leaves_alone i e sr) s (case DurableRecord_transition c stage r of
      (Inl _, r1) \<Rightarrow> k False r1 | (Inr _, r1) \<Rightarrow> StoreWrite r1 (\<lambda>ok. k ok r1))" for c
    using assms untouched_write [OF assms(1)] DurableRecord_transition_simps [of c stage r]
    by (cases "DurableRecord_transition c stage r") (auto simp: alone_simps split: sum.splits)
  with assms(1) show ?thesis
    by (simp add: transition_and_write_def alone_simps)
qed

lemma alone_context_ms:
  assumes "\<And>ctx. always (leaves_alone i e sr) s (k ctx)" and "untouched i e sr s"
  shows "always (leaves_alone i e sr) s (operation_context_ms c d k)"
  using assms by (auto simp: operation_context_ms_def alone_simps split: sum.splits)

text \<open>Another caller never takes the entry.\<close>

lemma alone_OwnedTake:
  assumes u: "untouched i e sr s" and other: "dr_caller (oe_record e) \<noteq> ci_fingerprint caller"
    and none: "\<And>s'. untouched i e sr s' \<Longrightarrow> always (leaves_alone i e sr) s' (k None)"
    and some: "\<And>s' x. j \<noteq> i \<Longrightarrow> untouched i e sr s' \<Longrightarrow> dr_request_id (oe_record x) = j \<Longrightarrow>
      always (leaves_alone i e sr) s' (k (Some x))"
  shows "always (leaves_alone i e sr) s (OwnedTake caller j t k)"
proof -
  obtain found ow where taken: "take_owned caller j t (sv_owned s) = (found, ow)"
    by fastforce
  have "untouched i e sr (s\<lparr>sv_owned := ow\<rparr>)"
    and "found = Some x \<Longrightarrow> j \<noteq> i \<and> dr_request_id (oe_record x) = j" for x
    using taken u other
    by (auto simp: take_owned_def untouched_def owned_ids_ok_def Let_def split: option.splits if_splits)
  with none some have "always (leaves_alone i e sr) (s\<lparr>sv_owned := ow\<rparr>) (k found)"
    by (cases found) auto
  with taken u show ?thesis
    by (simp add: alone_simps)
qed

lemma alone_acquire_loop:
  assumes "untouched i e sr s" and "dr_caller (oe_record e) \<noteq> ci_fingerprint caller"
    and inl: "\<And>s' x. untouched i e sr s' \<Longrightarrow> always (leaves_alone i e sr) s' (k (Inl x))"
    and inr: "\<And>s' x. j \<noteq> i \<Longrightarrow> untouched i e sr s' \<Longrightarrow> dr_request_id (oe_record x) = j \<Longrightarrow>
      always (leaves_alone i e sr) s' (k (Inr x))"
  shows "always (leaves_alone i e sr) s (acquire_loop n caller j expires c k)"
  using assms(1)
proof (induction n arbitrary: s)
  case 0
  then show ?case by (simp add: alone_simps)
next
  case (Suc n)
  have "always (leaves_alone i e sr) s (OwnedTake caller j None K)"
    if "\<And>s'. untouched i e sr s' \<Longrightarrow> always (leaves_alone i e sr) s' (K None)"
      and "\<And>x. K (Some x) = k (Inr x)" for K
    by (rule alone_OwnedTake [OF Suc.prems assms(2)]) (simp_all add: that inr)
  with Suc inl show ?case
    by (auto simp: always_Notified always_StoreLoad always_Select leaves_alone_def [of _ _ _ "[]"]
        action_target_def split: option.splits wake.splits)
qed

lemma alone_StoreRemove:
  assumes "untouched i e sr s" and "j \<noteq> i"
    and "\<And>s' ok. untouched i e sr s' \<Longrightarrow> always (leaves_alone i e sr) s' (k ok)"
  shows "always (leaves_alone i e sr) s (StoreRemove j k)"
  using assms untouched_remove [OF assms(1,2)] by (simp add: alone_simps)

lemma alone_StoreWrite:
  assumes "untouched i e sr s" and "dr_request_id r \<noteq> i"
    and "\<And>s' ok. untouched i e sr s' \<Longrightarrow> always (leaves_alone i e sr) s' (k ok)"
  shows "always (leaves_alone i e sr) s (StoreWrite r k)"
  using assms untouched_write [OF assms(1,2)] by (simp add: alone_simps)

lemmas alone_rules =
  alone_put_owned alone_try_write alone_write alone_context_ms alone_StoreRemove alone_StoreWrite

lemma alone_create_outcome:
  assumes "untouched i e sr s" and "j \<noteq> i" and "dr_request_id r = j"
  shows "always (leaves_alone i e sr) s (create_outcome j r x)"
  unfolding create_outcome_def
  using assms
  by (auto simp: always_GenerateToken always_Ret leaves_alone_def [of _ _ _ "[]"] action_target_def
      split: sum.splits intro!: alone_rules)

lemma alone_create:
  assumes u: "untouched i e sr s"
  shows "always (leaves_alone i e sr) s (boundary_create B caller request d c)"
proof (cases "cr_request_id request = i")
  case True
  with u show ?thesis
    by (auto simp: boundary_create_def reject_new_work_def alone_simps untouched_def Let_def)
next
  case False
  have "always (leaves_alone i e sr) s (StoreWrite r (\<lambda>ok. if \<not> ok then Ret x
      else operation_context_ms c d (\<lambda>ctx. RtCreate request ctx (create_outcome (cr_request_id request) r))))"
    if "dr_request_id r = cr_request_id request" for r x
    using u False that
    by (auto intro!: alone_rules alone_create_outcome
        simp: always_RtCreate always_Ret leaves_alone_def [of _ _ _ "[]"] action_target_def)
  then show ?thesis
    using u
    by (auto simp: boundary_create_def reject_new_work_def alone_simps Let_def
        simp del: always_StoreWrite split: sum.splits dest!: DurableRecord_new_Ok)
qed

lemma alone_commit_taken:
  assumes "untouched i e sr s" and "j \<noteq> i" and "dr_request_id (oe_record x) = j"
  shows "always (leaves_alone i e sr) s (commit_taken j prepared d c x)"
  unfolding commit_taken_def Let_def
  using assms
  by (auto simp: always_Now always_RtExec always_Ret always_Panic leaves_alone_def [of _ _ _ "[]"]
      action_target_def split: Lifecycle.splits sum.splits intro!: alone_rules)

lemma alone_dispatch:
  assumes u: "untouched i e sr s" and other: "dr_caller (oe_record e) \<noteq> ci_fingerprint caller"
  shows "always (leaves_alone i e sr) s (dispatch B fuel caller request c)"
proof (cases request)
  case (SReq_Create q d)
  with u show ?thesis by (simp add: alone_create)
next
  case (SReq_WaitReady j t pol d)
  have "always (leaves_alone i e sr) s (boundary_wait_ready B caller j t pol d c)"
    unfolding boundary_wait_ready_def Let_def
    by (auto intro!: alone_OwnedTake [OF u other] alone_rules
        simp: always_RtWaitReady always_Ret always_GenerateToken leaves_alone_def [of _ _ _ "[]"]
          action_target_def split: Lifecycle.splits sum.splits)
  with SReq_WaitReady show ?thesis by simp
next
  case (SReq_PrepareExec j t q d)
  with u show ?thesis
    by (auto simp: boundary_prepare_exec_def reject_new_work_def alone_simps split: option.splits)
next
  case (SReq_CommitExec j t d)
  have "always (leaves_alone i e sr) s' (OwnedTake caller j None (\<lambda>taken. case taken of
      None \<Rightarrow> Ret x | Some entry \<Rightarrow> commit_taken j prepared d c entry))"
    if "untouched i e sr s'" for s' x prepared
    by (rule alone_OwnedTake [OF that other])
      (simp_all add: alone_commit_taken always_Ret leaves_alone_def action_target_def)
  with u SReq_CommitExec show ?thesis
    by (simp add: boundary_commit_exec_def reject_new_work_def Let_def alone_simps
        del: always_OwnedTake split: option.splits)
next
  case (SReq_Delete target d)
  have "always (leaves_alone i e sr) s (acquire_loop fuel caller (target_request_id target) t c
      (\<lambda>acquired. case acquired of Inl failure \<Rightarrow> Ret (f failure) | Inr entry \<Rightarrow> K entry))"
    if "\<And>s' x. target_request_id target \<noteq> i \<Longrightarrow> untouched i e sr s' \<Longrightarrow>
      dr_request_id (oe_record x) = target_request_id target \<Longrightarrow> always (leaves_alone i e sr) s' (K x)" for t f K
    by (rule alone_acquire_loop [OF u other]) (simp_all add: that always_Ret leaves_alone_def action_target_def)
  note acquire = this
  have "always (leaves_alone i e sr) s (boundary_delete fuel caller target d c)"
    unfolding boundary_delete_def Let_def acquire_for_cleanup_def
    using u
    by (auto simp: always_Now always_PreparedForget always_RtDelete always_Ret always_Panic
        leaves_alone_def [of _ _ _ "[]"] action_target_def
        split: option.splits sum.splits intro!: acquire alone_rules)
  with SReq_Delete show ?thesis by simp
next
  case (SReq_WaitDeleted target d)
  have "always (leaves_alone i e sr) s (acquire_loop fuel caller (target_request_id target) t c
      (\<lambda>acquired. case acquired of Inl failure \<Rightarrow> Ret (f failure) | Inr entry \<Rightarrow> K entry))"
    if "\<And>s' x. target_request_id target \<noteq> i \<Longrightarrow> untouched i e sr s' \<Longrightarrow>
      dr_request_id (oe_record x) = target_request_id target \<Longrightarrow> always (leaves_alone i e sr) s' (K x)" for t f K
    by (rule alone_acquire_loop [OF u other]) (simp_all add: that always_Ret leaves_alone_def action_target_def)
  note acquire = this
  have "always (leaves_alone i e sr) s (boundary_wait_deleted fuel caller target d c)"
    unfolding boundary_wait_deleted_def Let_def acquire_for_cleanup_def
    using u
    by (auto simp: always_Now always_RtWaitDeleted always_Ret always_Panic
        leaves_alone_def [of _ _ _ "[]"] action_target_def
        split: option.splits sum.splits intro!: acquire alone_rules)
  with SReq_WaitDeleted show ?thesis by simp
qed (use u in \<open>auto simp: health_def begin_drain_def drain_status_def alone_simps Let_def\<close>)

lemma action_target_Ret: "action_target (Ret v) = None"
  by (simp add: action_target_def)

lemma action_target_finish: "action_target (bind p (finish_handle envelope)) = action_target p"
  by (cases p) (simp_all add: action_target_def finish_handle_def)


text \<open>A second caller of the sample service.\<close>

definition sample_intruder :: CallerIdentity where
  "sample_intruder = CallerIdentity_new (CallerFingerprint (replicate 64 (CHR ''d''))) AdministratorRole"

definition intruder_delete :: RequestEnvelope where
  "intruder_delete = sample_envelope ''op9'' (SReq_Delete (CleanupTarget_new sample_id) sample_deadline)"

definition intruder_answers :: "answer list" where
  "intruder_answers = [A_tick, A_tick, A_now 1, A_now 1, A_tick, A_tick, A_load True]"

lemma created_session_owned:
  "case sample_session created_session sample_service of
     None \<Rightarrow> False
   | Some (tr, s) \<Rightarrow>
       (case hm_get (sv_owned s) sample_id of
          None \<Rightarrow> False
        | Some e \<Rightarrow> dr_caller (oe_record e) \<noteq> ci_fingerprint sample_intruder)"
  by (simp add: session_defs sample_intruder_def)


end
