(* ===== verification/Boundary_Cleanup.thy ===== *)
theory Boundary_Cleanup
  imports Boundary_Access
begin

text \<open>
  The end of a sandbox's life and the end of a request: what the answer \<open>TerminallyAbsent\<close> means,
  what a successful startup reconciliation has done, and that every request is answered.
\<close>

section \<open>Terminal absence\<close>

definition absence_confirmed :: "ServiceRequest \<Rightarrow> event list \<Rightarrow> service \<Rightarrow> bool" where
  "absence_confirmed request evs s \<longleftrightarrow>
     (\<exists>target d. request = SReq_WaitDeleted target d \<and> Ev_absent target (Ok ()) \<in> set evs
        \<and> hm_get (sv_store s) (target_request_id target) = None
        \<and> hm_get (sv_owned s) (target_request_id target) = None)"

definition absence_honest :: "ServiceRequest \<Rightarrow> event list \<Rightarrow> service \<Rightarrow> ServiceResponse prog \<Rightarrow> bool" where
  "absence_honest request evs s p \<longleftrightarrow> (p = Ret SRes_TerminallyAbsent \<longrightarrow> absence_confirmed request evs s)"

lemma take_owned_absent:
  "take_owned caller i None owned = (Some e, ow) \<Longrightarrow> hm_get ow i = None"
  by (auto simp: take_owned_def Let_def split: option.splits if_splits)

lemma always_acquire_loop:
  assumes "\<And>s' p. \<not> is_Ret p \<Longrightarrow> Q [] s' p"
    and "\<And>s' x. always Q s' (k (Inl x))"
    and "\<And>s' e. hm_get (sv_owned s') i = None \<Longrightarrow> always Q s' (k (Inr e))"
  shows "always Q s (acquire_loop n caller i t c k)"
proof (induction n arbitrary: s)
  case 0
  show ?case
    using assms(1) by (simp add: always_simps is_Ret_def)
next
  case (Suc n)
  obtain found ow where taken: "take_owned caller i None (sv_owned s) = (found, ow)"
    by fastforce
  show ?case
    using assms Suc taken take_owned_absent [of caller i "sv_owned s" _ ow]
    by (cases found) (auto simp: always_simps is_Ret_def split: option.splits wake.splits)
qed

lemma table_remove_is_ok: "is_ok (fst (table_remove w i t)) \<Longrightarrow> hm_get (snd (table_remove w i t)) i = None"
  by (auto simp: table_remove_def split: option.splits remove_outcome.splits)

lemma absence_wait_deleted:
  "always (absence_honest (SReq_WaitDeleted target d)) s (boundary_wait_deleted fuel caller target d c)"
proof -
  let ?i = "target_request_id target"
  have taken: "always (absence_honest (SReq_WaitDeleted target d)) s' (Now (\<lambda>now.
      case remaining_deadline d started now of
        None \<Rightarrow> put_owned ?i r t lc (Ret (cleanup_failure_response target CU_Deadline))
      | Some remaining \<Rightarrow>
          (case operation_context c remaining of
             Inl _ \<Rightarrow> Panic
           | Inr ctx \<Rightarrow> RtWaitDeleted target ctx (\<lambda>result.
               case result of
                 Inr _ \<Rightarrow> StoreRemove ?i (\<lambda>ok.
                   if \<not> ok then put_owned ?i r t lc (Ret (boundary_failure BF_DurableState (Some target) None))
                   else Ret SRes_TerminallyAbsent)
               | Inl failure \<Rightarrow> put_owned ?i r t LC_CleanupOnly (Ret (SRes_CleanupFailed failure))))))"
    if "hm_get (sv_owned s') ?i = None" for s' started r t lc
    using that
    by (auto simp: always_simps absence_honest_def absence_confirmed_def put_owned_def boundary_failure_def
        cleanup_failure_response_def table_remove_is_ok split: option.splits sum.splits)
  show ?thesis
    unfolding boundary_wait_deleted_def Let_def acquire_for_cleanup_def
    by (simp only: always_Now) (auto intro!: always_acquire_loop taken
        simp: absence_honest_def is_Ret_def always_Ret cleanup_failure_response_def boundary_failure_def
        elim!: cleanup_acquire_failure.elims)
qed

definition not_absent :: "event list \<Rightarrow> service \<Rightarrow> ServiceResponse prog \<Rightarrow> bool" where
  "not_absent evs s p \<longleftrightarrow> p \<noteq> Ret SRes_TerminallyAbsent"

lemma not_absent_Cons [simp]: "(\<lambda>evs. not_absent (ev # evs)) = not_absent"
  by (simp add: not_absent_def fun_eq_iff)

lemma cleanup_acquire_failure_not_absent: "cleanup_acquire_failure target f \<noteq> SRes_TerminallyAbsent"
  by (cases f) (simp_all add: cleanup_failure_response_def boundary_failure_def)

lemma not_absent_dispatch:
  assumes "\<nexists>target d. request = SReq_WaitDeleted target d"
  shows "always not_absent s (dispatch B fuel caller request c)"
proof (cases request)
  case (SReq_Create q d)
  then show ?thesis
    by (auto simp: not_absent_def exec_simps boundary_failure_def boundary_create_def create_outcome_def
        split: sum.splits prod.splits)
next
  case (SReq_WaitReady i t pol d)
  then show ?thesis
    by (auto simp: not_absent_def exec_simps boundary_failure_def boundary_wait_ready_def
        split: sum.splits prod.splits option.splits Lifecycle.splits)
next
  case (SReq_PrepareExec i t q d)
  then show ?thesis
    by (auto simp: not_absent_def exec_simps boundary_failure_def boundary_prepare_exec_def
        split: option.splits)
next
  case (SReq_CommitExec i t d)
  then show ?thesis
    by (auto simp: not_absent_def exec_simps boundary_failure_def boundary_commit_exec_def commit_taken_def
        split: sum.splits prod.splits option.splits Lifecycle.splits)
next
  case (SReq_Delete target d)
  have "always not_absent s (boundary_delete fuel caller target d c)"
    unfolding boundary_delete_def Let_def acquire_for_cleanup_def
    by (simp only: always_Now) (auto intro!: always_acquire_loop
        simp: exec_simps not_absent_def [of "[]"] is_Ret_def cleanup_acquire_failure_not_absent
          cleanup_failure_response_def boundary_failure_def split: option.splits sum.splits prod.splits)
  with SReq_Delete show ?thesis by simp
next
  case (SReq_WaitDeleted target d)
  with assms show ?thesis by blast
qed (auto simp: not_absent_def exec_simps boundary_failure_def health_def begin_drain_def drain_status_def)

text \<open>
  C5. The service answers that a sandbox is terminally absent only to a request to wait for its
  deletion, after the runtime has confirmed the absence during that request, and then neither the
  store nor the owned table has an entry for it.
\<close>

theorem terminally_absent_confirmed:
  assumes "preach s (handle B fuel caller envelope) evs s' (Ret v)"
    and "rse_response v = SRes_TerminallyAbsent"
  shows "absence_confirmed (rqe_request envelope) evs s'"
proof -
  let ?r = "rqe_request envelope"
  let ?R = "\<lambda>evs s' p. \<forall>v. p = Ret v \<longrightarrow> rse_response v = SRes_TerminallyAbsent \<longrightarrow>
    absence_confirmed ?r evs s'"
  have "always (absence_honest ?r) (handle_entry s envelope) (dispatch B fuel caller ?r c)" for c
  proof (cases "\<exists>target d. ?r = SReq_WaitDeleted target d")
    case True
    with absence_wait_deleted show ?thesis by auto
  next
    case False
    from not_absent_dispatch [OF this] show ?thesis
      by (rule always_mono) (simp add: not_absent_def absence_honest_def)
  qed
  then have "always ?R (handle_entry s envelope)
      (bind (dispatch B fuel caller ?r (sv_next_canc s)) (finish_handle envelope))"
  proof (rule always_finish)
    fix evs s' and p' :: "ServiceResponse prog"
    have "bind p' (finish_handle envelope) \<noteq> Ret v" for v
      by (cases p') (simp_all add: finish_handle_def)
    then show "\<forall>v. bind p' (finish_handle envelope) = Ret v \<longrightarrow> rse_response v = SRes_TerminallyAbsent \<longrightarrow>
        absence_confirmed ?r evs s'"
      by blast
  qed (auto simp: absence_honest_def absence_confirmed_def ResponseEnvelope_new_def)
  then have "always ?R s (handle B fuel caller envelope)"
    by (rule always_rejected_or_admitted) (auto simp: rejection_def)
  from alwaysD [OF this assms(1)] assms(2) show ?thesis
    by blast
qed

definition sample_wait_deleted :: RequestEnvelope where
  "sample_wait_deleted =
     sample_envelope ''op5'' (SReq_WaitDeleted (CleanupTarget_new sample_id) sample_deadline)"

definition wait_deleted_answers :: "answer list" where
  "wait_deleted_answers =
     [A_tick, A_tick, A_now 1, A_now 2, A_tick, A_tick, A_now 3, A_absent (Inr ()), A_remove RemoveOk, A_tick]"

lemma created_session_deleted:
  "case sample_session created_session sample_service of
     None \<Rightarrow> False
   | Some (tr, s) \<Rightarrow>
       (case run_prog wait_deleted_answers s (handle sample_bundle 1 sample_caller sample_wait_deleted) of
          (evs, s', Ret v) \<Rightarrow> rse_response v = SRes_TerminallyAbsent | _ \<Rightarrow> False)"
  by (simp add: session_defs sample_wait_deleted_def wait_deleted_answers_def boundary_wait_deleted_def
      acquire_for_cleanup_def remaining_deadline_def)

theorem terminally_absent_confirmed_witness:
  "case sample_session created_session sample_service of
     None \<Rightarrow> False
   | Some (tr, s) \<Rightarrow>
       (case run_prog wait_deleted_answers s (handle sample_bundle 1 sample_caller sample_wait_deleted) of
          (evs, s', p) \<Rightarrow> absence_confirmed (rqe_request sample_wait_deleted) evs s')"
proof -
  obtain tr s evs s' v where session: "sample_session created_session sample_service = Some (tr, s)"
    and run: "run_prog wait_deleted_answers s (handle sample_bundle 1 sample_caller sample_wait_deleted)
      = (evs, s', Ret v)"
    and v: "rse_response v = SRes_TerminallyAbsent"
    using created_session_deleted by (auto split: option.splits prod.splits prog.splits)
  from terminally_absent_confirmed [OF run_prog_preach [OF run] v] show ?thesis
    unfolding session option.case prod.case run .
qed

section \<open>A successful reconciliation\<close>

definition swept ::
  "DurableRecord list \<Rightarrow> u64 \<Rightarrow> service \<Rightarrow> event list \<Rightarrow> service \<Rightarrow> (StoreError + ReconciliationReport) prog \<Rightarrow> bool" where
  "swept records removed s evs s' p \<longleftrightarrow>
     (\<forall>report. p = Ret (Ok report) \<longrightarrow>
        sv_startup_reconciled s' \<and> rr_unresolved_records report = 0
        \<and> unat (rr_removed_records report) = min (unat removed + length records) (2 ^ 64 - 1)
        \<and> (\<forall>i. hm_get (sv_store s') i = (if i \<in> dr_request_id ` set records then None else hm_get (sv_store s) i))
        \<and> (\<forall>r \<in> set records. dr_stage r \<noteq> St_Unowned \<longrightarrow>
             Ev_absent (CleanupTarget_new (dr_request_id r)) (Ok ()) \<in> set evs))"

lemma table_remove_ok_get:
  "is_ok (fst (table_remove w i t)) \<Longrightarrow>
     hm_get (snd (table_remove w i t)) j = (if j = i then None else hm_get t j)"
  by (auto simp: table_remove_def split: option.splits remove_outcome.splits)

lemma swept_step:
  assumes "swept records (saturating_add_u64 removed 1) s1 evs s' p"
    and "\<And>j. hm_get (sv_store s1) j = (if j = dr_request_id r then None else hm_get (sv_store s) j)"
    and "dr_stage r \<noteq> St_Unowned \<longrightarrow> Ev_absent (CleanupTarget_new (dr_request_id r)) (Ok ()) \<in> set pre"
  shows "swept (r # records) removed s (pre @ evs) s' p"
  using assms unfolding swept_def
  by (auto simp: unat_saturating_add_u64 min_def)

lemma failed_sweep:
  "u \<noteq> 0 \<Longrightarrow> always (\<lambda>evs s' p. \<forall>report. p \<noteq> Ret (Ok report)) s (reconcile_loop d w records removed u)"
proof (induction records arbitrary: s removed u)
  case (Cons r records)
  then show ?case
    using saturating_succ_nonzero
    by (auto simp: always_simps Let_def split: sum.splits)
qed (auto simp: always_simps)

lemma swept_not_done: "(\<And>report. p \<noteq> Ret (Ok report)) \<Longrightarrow> swept records removed s evs s' p"
  by (simp add: swept_def)

lemma swept_loop: "always (swept records removed s) s (reconcile_loop d w records removed 0)"
proof (induction records arbitrary: s removed)
  case Nil
  have "unat removed \<le> 2 ^ 64 - 1"
    using unat_u64_less [of removed] by simp
  then show ?case
    by (simp add: always_simps swept_def min_def)
next
  case (Cons r records)
  have rec: "always (\<lambda>evs. swept (r # records) removed s (pre @ evs))
      (s1\<lparr>sv_store := snd (table_remove x (dr_request_id r) (sv_store s1))\<rparr>)
      (reconcile_loop d w records (saturating_add_u64 removed 1) 0)"
    if "is_ok (fst (table_remove x (dr_request_id r) (sv_store s1)))" and "sv_store s1 = sv_store s"
      and "dr_stage r \<noteq> St_Unowned \<longrightarrow> Ev_absent (CleanupTarget_new (dr_request_id r)) (Ok ()) \<in> set pre"
    for s1 x pre
    using that table_remove_ok_get [OF that(1)]
    by (intro always_mono [OF Cons.IH]) (auto intro!: swept_step)
  have lost: "always (\<lambda>evs. swept (r # records) removed s (pre @ evs)) s1
      (reconcile_loop d w records removed (saturating_add_u64 0 1))" for pre s1
    by (rule always_mono [OF failed_sweep [OF saturating_succ_nonzero]]) (simp add: swept_not_done)
  show ?case
  proof (cases "dr_stage r = St_Unowned")
    case True
    then show ?thesis
      using rec [where pre = "[Ev_remove (dr_request_id r) True]" and ?s1.0 = s]
      by (auto simp: always_simps swept_not_done)
  next
    case False
    let ?t = "CleanupTarget_new (dr_request_id r)"
    have gone: "always (\<lambda>evs. swept (r # records) removed s (Ev_delete ?t y # Ev_absent ?t (Ok ()) # evs)) s1
        (StoreRemove (dr_request_id r) (\<lambda>ok. if \<not> ok then Ret (Err StoreError)
           else reconcile_loop d w records (saturating_add_u64 removed 1) 0))"
      if same: "sv_store s1 = sv_store s" for s1 y
    proof -
      note next_step = rec [OF _ same, where pre = "[Ev_delete ?t y, Ev_absent ?t (Ok ()), Ev_remove (dr_request_id r) True]"]
      show ?thesis
        using next_step by (auto simp: always_StoreRemove always_Ret swept_not_done)
    qed
    have kept: "always (\<lambda>evs. swept (r # records) removed s (Ev_delete ?t x # Ev_absent ?t y # evs)) s1
        (reconcile_loop d w records removed (saturating_add_u64 0 1))" for s1 x y
      using lost [of "[Ev_delete ?t x, Ev_absent ?t y]" s1] by simp
    have absent: "always (\<lambda>evs. swept (r # records) removed s (Ev_delete ?t x # Ev_absent ?t y # evs)) s1
        (if is_ok y then StoreRemove (dr_request_id r) (\<lambda>ok.
             if \<not> ok then Ret (Err StoreError)
             else reconcile_loop d w records (saturating_add_u64 removed 1) 0)
         else reconcile_loop d w records removed (saturating_add_u64 0 1))"
      if "sv_store s1 = sv_store s" for s1 x y
      using gone [OF that, of x] kept [of x y s1] by (cases y) simp_all
    show ?thesis
      using False absent
      by (auto simp: always_NewCancellation always_RtDelete always_RtWaitDeleted always_Ret swept_not_done Let_def
          split: sum.splits)
  qed
qed

lemma startup_swept:
  assumes "table_invar (sv_store s)"
    and "preach s (reconcile_startup d w) evs s' (Ret (Ok report))"
  shows "sv_startup_reconciled s' \<and> (\<forall>i. hm_get (sv_store s') i = None)
    \<and> (\<forall>i r. hm_get (sv_store s) i = Some r \<longrightarrow> dr_stage r \<noteq> St_Unowned \<longrightarrow>
         Ev_absent (CleanupTarget_new i) (Ok ()) \<in> set evs)
    \<and> rr_unresolved_records report = 0
    \<and> unat (rr_removed_records report) = min (length (sv_store s)) (2 ^ 64 - 1)"
proof -
  let ?rs = "sort_key dr_request_id (map snd (sv_store s))"
  have "always (swept ?rs 0 (s\<lparr>sv_startup_reconciled := False\<rparr>)) s (reconcile_startup d w)"
    using swept_loop by (simp add: reconcile_startup_def always_simps swept_not_done)
  from alwaysD [OF this assms(2)] have sw: "swept ?rs 0 (s\<lparr>sv_startup_reconciled := False\<rparr>) evs s' (Ret (Ok report))" .
  have stored: "r \<in> set ?rs \<and> dr_request_id r = i" if "hm_get (sv_store s) i = Some r" for i r
    using table_load_spec [OF assms(1)] table_invar_get [OF assms(1) that] that by auto
  have "hm_get (sv_store s') i = None" for i
    using sw stored [of i] by (cases "hm_get (sv_store s) i") (auto simp: swept_def)
  moreover have "Ev_absent (CleanupTarget_new i) (Ok ()) \<in> set evs"
    if "hm_get (sv_store s) i = Some r" and "dr_stage r \<noteq> St_Unowned" for i r
    using sw stored [OF that(1)] that(2) unfolding swept_def by blast
  ultimately show ?thesis
    using sw by (simp add: swept_def)
qed

text \<open>
  C6. When startup reconciliation succeeds the store is empty, the service accepts work, the runtime
  has confirmed, during this reconciliation, the absence of every sandbox whose record was not
  unowned, and the report counts the records.
\<close>

theorem reconcile_startup_sweeps:
  assumes "table_invar (sv_store s)"
    and "preach s (reconcile_startup d w) evs s' (Ret (Ok report))"
  shows "sv_startup_reconciled s' \<and> (\<forall>i. hm_get (sv_store s') i = None)
    \<and> (\<forall>i r. hm_get (sv_store s) i = Some r \<longrightarrow> dr_stage r \<noteq> St_Unowned \<longrightarrow>
         Ev_absent (CleanupTarget_new i) (Ok ()) \<in> set evs)
    \<and> rr_unresolved_records report = 0
    \<and> unat (rr_removed_records report) = min (length (sv_store s)) (2 ^ 64 - 1)"
  using startup_swept [OF assms] .

text \<open>A store with the record of one sandbox whose creation was interrupted.\<close>

definition sample_leftover :: DurableRecord where
  "sample_leftover = \<lparr>dr_schema_version = 1, dr_request_id = sample_id,
     dr_caller = ci_fingerprint sample_caller, dr_stage = St_CreatePossible,
     dr_template = TemplateIdentity ''base'', dr_policy = sample_policy,
     dr_created_at_unix_ms = 5, dr_updated_at_unix_ms = 5\<rparr>"

definition restart_answers :: "answer list" where
  "restart_answers =
     [A_tick, A_load True, A_tick, A_delete (Inr Deleted), A_tick, A_absent (Inr ()), A_remove RemoveOk, A_tick]"

lemma leftover_run:
  "case run_prog restart_answers (service_new sample_bundle [(sample_id, sample_leftover)]) (reconcile_startup 1 1) of
     (evs, s', Ret (Inr report)) \<Rightarrow> True | _ \<Rightarrow> False"
  by (simp add: restart_answers_def service_new_def reconcile_startup_def sample_leftover_def table_load_def
      Let_def operation_context_def OperationDeadline_new_def table_remove_def hm_get_def hm_remove_def)

theorem reconcile_startup_sweeps_witness:
  "case run_prog restart_answers (service_new sample_bundle [(sample_id, sample_leftover)]) (reconcile_startup 1 1) of
     (evs, s', p) \<Rightarrow> sv_startup_reconciled s' \<and> hm_get (sv_store s') sample_id = None
       \<and> Ev_absent (CleanupTarget_new sample_id) (Ok ()) \<in> set evs"
proof -
  let ?s = "service_new sample_bundle [(sample_id, sample_leftover)]"
  obtain evs s' report where run: "run_prog restart_answers ?s (reconcile_startup 1 1) = (evs, s', Ret (Inr report))"
    using leftover_run by (auto split: prod.splits prog.splits sum.splits)
  have "table_invar (sv_store ?s)"
    by (simp add: service_new_def table_invar_def hm_invar_def sample_leftover_def store_defs)
  from reconcile_startup_sweeps [OF this run_prog_preach [OF run]]
  have "sv_startup_reconciled s' \<and> hm_get (sv_store s') sample_id = None
      \<and> Ev_absent (CleanupTarget_new sample_id) (Ok ()) \<in> set evs"
    by (simp add: service_new_def hm_get_def sample_leftover_def)
  then show ?thesis
    unfolding run by simp
qed

section \<open>Every request is answered\<close>

definition no_failure :: "event list \<Rightarrow> service \<Rightarrow> 'a prog \<Rightarrow> bool" where
  "no_failure evs s p \<longleftrightarrow> p \<noteq> Panic \<and> p \<noteq> OutOfFuel"

lemma no_failure_Cons [simp]: "(\<lambda>evs. no_failure (ev # evs)) = no_failure"
  by (simp add: no_failure_def fun_eq_iff)

text \<open>Every action that is not a failure can happen, and no program runs forever.\<close>

definition some_answer :: "'a prog \<Rightarrow> answer" where
  "some_answer p =
     (case p of
        UnixTime _ \<Rightarrow> A_unix None
      | Now _ \<Rightarrow> A_now 0
      | GenerateToken _ \<Rightarrow> A_token (CapabilityToken [])
      | PreparedReserve _ _ _ \<Rightarrow> A_reserve (CapabilityToken []) 0
      | Select _ _ _ _ \<Rightarrow> A_wake WakeDeadline
      | StoreWrite _ _ \<Rightarrow> A_write WriteOk
      | StoreRemove _ _ \<Rightarrow> A_remove RemoveOk
      | StoreLoad _ \<Rightarrow> A_load False
      | RtCreate _ _ _ \<Rightarrow> A_create (Inl (NotCreated CF_Transport (OperatorDetail [])))
      | RtWaitReady c _ _ _ \<Rightarrow>
          A_ready (Inl (ReadinessFailure_new (CreatedSandbox_cleanup_target c) RF_Transport (OperatorDetail [])))
      | RtExec _ _ _ _ \<Rightarrow> A_exec (Inr (ExecCompleted_new (ObservedExitCode 0) [] [] OT_NotObserved))
      | RtDelete _ _ _ \<Rightarrow> A_delete (Inr Deleted)
      | RtWaitDeleted _ _ _ \<Rightarrow> A_absent (Inr ())
      | _ \<Rightarrow> A_tick)"

lemma step_possible:
  "\<not> is_Ret p \<Longrightarrow> no_failure [] s p \<Longrightarrow> \<exists>ev s1 p1. step_prog p (some_answer p) s = Some (ev, s1, p1)"
  by (cases p)
    (auto simp: is_Ret_def no_failure_def some_answer_def split: option.splits prod.splits)

text \<open>The continuations of an action; a step goes to one of them.\<close>

primrec subprogs :: "'a prog \<Rightarrow> 'a prog set" where
  "subprogs (Ret x) = {}"
| "subprogs Panic = {}"
| "subprogs OutOfFuel = {}"
| "subprogs (UnixTime k) = range k"
| "subprogs (Now k) = range k"
| "subprogs (GenerateToken k) = range k"
| "subprogs (NewCancellation k) = range k"
| "subprogs (LoadDraining k) = range k"
| "subprogs (LoadReconciled k) = range k"
| "subprogs (StoreDraining b p) = {p}"
| "subprogs (StoreReconciled b p) = {p}"
| "subprogs (OwnedGet i k) = range k"
| "subprogs (OwnedTake c i t k) = range k"
| "subprogs (OwnedPut i e p) = {p}"
| "subprogs (PreparedReserve i item k) = range k"
| "subprogs (PreparedRemove t k) = range k"
| "subprogs (PreparedForget i p) = {p}"
| "subprogs (ActiveInsert i c k) = range k"
| "subprogs (ActiveRemove i p) = {p}"
| "subprogs (ActiveLen k) = range k"
| "subprogs (ActiveCancel i k) = range k"
| "subprogs (ActiveCancelAll p) = {p}"
| "subprogs (Notified k) = range k"
| "subprogs (Select c t n k) = range k"
| "subprogs (StoreWrite r k) = range k"
| "subprogs (StoreRemove i k) = range k"
| "subprogs (StoreLoad k) = range k"
| "subprogs (RtCreate q c k) = range k"
| "subprogs (RtWaitReady q p c k) = range k"
| "subprogs (RtExec r q c k) = range k"
| "subprogs (RtDelete t c k) = range k"
| "subprogs (RtWaitDeleted t c k) = range k"

lemma step_subprogs:
  assumes "step_prog p a s = Some (ev, s1, q)"
  shows "q \<in> subprogs p"
  using assms by (cases p; cases a) (auto split: option.splits prod.splits if_splits)

lemma subprogs_induct:
  assumes "\<And>p. (\<And>q. q \<in> subprogs p \<Longrightarrow> P q) \<Longrightarrow> P p"
  shows "P p"
  by (induction p) (auto intro: assms)

lemma no_failure_returns: "always no_failure s p \<Longrightarrow> \<exists>evs s' v. preach s p evs s' (Ret v)"
proof (induction p arbitrary: s rule: subprogs_induct)
  case (1 p)
  show ?case
  proof (cases "is_Ret p")
    case True
    then show ?thesis
      by (auto simp: is_Ret_iff intro: preach_refl)
  next
    case False
    have "no_failure [] s p"
      using alwaysD [OF 1(2) preach_refl] .
    with False obtain ev s1 p1 where step: "step_prog p (some_answer p) s = Some (ev, s1, p1)"
      using step_possible by blast
    then have "always (\<lambda>evs. no_failure (ev @ evs)) s1 p1"
      using 1(2) by (subst (asm) always_unfold) blast
    then have "always no_failure s1 p1"
      by (rule always_mono) (simp add: no_failure_def)
    then obtain evs s' v where "preach s1 p1 evs s' (Ret v)"
      using 1(1) step_subprogs [OF step] by blast
    with preach_step [OF step] show ?thesis
      by blast
  qed
qed

fun valid_request_deadline :: "ServiceRequest \<Rightarrow> bool" where
  "valid_request_deadline (SReq_Create _ d) = valid_DeadlineMillis d"
| "valid_request_deadline (SReq_WaitReady _ _ _ d) = valid_DeadlineMillis d"
| "valid_request_deadline (SReq_PrepareExec _ _ _ d) = valid_DeadlineMillis d"
| "valid_request_deadline (SReq_CommitExec _ _ d) = valid_DeadlineMillis d"
| "valid_request_deadline (SReq_Delete _ d) = valid_DeadlineMillis d"
| "valid_request_deadline (SReq_WaitDeleted _ d) = valid_DeadlineMillis d"
| "valid_request_deadline _ = True"

lemma context_ms_valid:
  "valid_DeadlineMillis d \<Longrightarrow> \<exists>ctx. operation_context_ms c d k = k ctx"
  using valid_deadline_bounds [of d]
  by (auto simp: operation_context_ms_def OperationDeadline_new_def)

lemma always_context_ms:
  assumes "valid_DeadlineMillis d" and "\<And>ctx. always Q s (k ctx)"
  shows "always Q s (operation_context_ms c d k)"
  using context_ms_valid [OF assms(1), of c k] assms(2) by auto

text \<open>Alone, the loop that waits for an entry goes round once: nobody else puts one back.\<close>

lemma no_failure_acquire:
  assumes "\<And>s' x. always no_failure s' (k x)"
  shows "always no_failure s (acquire_loop (Suc n) caller i t c k)"
  using assms
  by (auto simp: always_simps no_failure_def [of "[]"] split: option.splits wake.splits)

lemma not_dispatched_deadline:
  "\<exists>f. ExecFailure_not_dispatched target EF_Deadline detail = Inr f"
  using not_dispatched_ok [of target EF_Deadline detail] by (auto simp: is_ok_iff)

lemmas answer_simps =
  always_simps no_failure_def [of "[]"] transition_and_write_def transition_and_try_write_def
  put_owned_def reject_new_work_def Let_def

lemma no_failure_dispatch:
  assumes "valid_request_deadline request"
  shows "always no_failure s (dispatch B (Suc n) caller request c)"
proof (cases request)
  case (SReq_Create q d)
  with assms show ?thesis
    by (auto simp: answer_simps boundary_create_def create_outcome_def
        split: sum.splits prod.splits intro!: always_context_ms)
next
  case (SReq_WaitReady i t pol d)
  with assms show ?thesis
    by (auto simp: answer_simps boundary_wait_ready_def
        split: sum.splits prod.splits option.splits Lifecycle.splits intro!: always_context_ms)
next
  case (SReq_PrepareExec i t q d)
  then show ?thesis
    by (auto simp: answer_simps boundary_prepare_exec_def split: option.splits)
next
  case (SReq_CommitExec i t d)
  with assms show ?thesis
    using not_dispatched_deadline
    by (auto simp: answer_simps boundary_commit_exec_def commit_taken_def
        split: sum.splits prod.splits option.splits Lifecycle.splits intro!: always_context_ms)
      (metis sum.distinct(1))+
next
  case (SReq_Delete target d)
  then show ?thesis
    using operation_context_remaining
    by (auto simp: answer_simps boundary_delete_def acquire_for_cleanup_def
        simp del: acquire_loop.simps split: sum.splits prod.splits option.splits intro!: no_failure_acquire)
      (metis sum.distinct(1))+
next
  case (SReq_WaitDeleted target d)
  then show ?thesis
    using operation_context_remaining
    by (auto simp: answer_simps boundary_wait_deleted_def acquire_for_cleanup_def
        simp del: acquire_loop.simps split: sum.splits prod.splits option.splits intro!: no_failure_acquire)
      (metis sum.distinct(1))+
qed (auto simp: answer_simps health_def begin_drain_def drain_status_def)

lemma always_reach:
  "always Q s p \<Longrightarrow> preach s p evs s1 p1 \<Longrightarrow> always (\<lambda>evs'. Q (evs @ evs')) s1 p1"
  unfolding always_def using preach_trans by blast

lemma no_failure_finish:
  "no_failure evs s p \<Longrightarrow> no_failure evs s (bind p (finish_handle envelope))"
  by (cases p) (simp_all add: no_failure_def finish_handle_def)

lemma no_failure_handle:
  assumes "valid_request_deadline (rqe_request envelope)"
  shows "always no_failure s (handle B (Suc n) caller envelope)"
proof (rule always_rejected_or_admitted)
  show "always no_failure (handle_entry s envelope)
      (bind (dispatch B (Suc n) caller (rqe_request envelope) (sv_next_canc s)) (finish_handle envelope))"
    by (rule always_finish [OF no_failure_dispatch [OF assms]])
      (auto simp: no_failure_finish, simp add: no_failure_def)
qed (auto simp: no_failure_def rejection_def)

lemma handle_operation_id:
  "always (\<lambda>evs s' p. \<forall>v. p = Ret v \<longrightarrow> rse_operation_id v = rqe_operation_id envelope) s
     (handle B fuel caller envelope)"
proof -
  have fin: "always (\<lambda>evs s' p. \<forall>v. p = Ret v \<longrightarrow> rse_operation_id v = rqe_operation_id envelope) s'
      (bind p (finish_handle envelope))" for s' p
  proof (rule always_finish [of "\<lambda>_ _ _. True"])
    fix evs s'' and p' :: "ServiceResponse prog"
    show "\<forall>v. bind p' (finish_handle envelope) = Ret v \<longrightarrow> rse_operation_id v = rqe_operation_id envelope"
      by (cases p') (simp_all add: finish_handle_def)
  qed (simp_all add: always_def ResponseEnvelope_new_def)
  have "always (\<lambda>evs s' p. \<forall>v. p = Ret v \<longrightarrow> rse_operation_id v = rqe_operation_id envelope) s'
      (bind p (\<lambda>outcome. ActiveRemove (rqe_operation_id envelope)
        (Ret (ResponseEnvelope_new (rqe_operation_id envelope) outcome))))" for s' p
    using fin [of s' p] by (simp add: finish_handle_def [abs_def])
  then show ?thesis
    by (auto simp: handle_def Let_def RequestEnvelope_into_parts_def handle_cancel_def cancel_operation_def
        always_simps ResponseEnvelope_new_def simp del: dispatch.simps
        split: ServiceRequest.splits option.splits)
qed

text \<open>
  C7. A request whose deadline is valid never panics and never waits without end when no other
  request runs: from every point of its run it can go on, and it ends with an answer that carries
  the operation identifier of the request.
\<close>

theorem every_request_answered:
  assumes "valid_request_deadline (rqe_request envelope)"
    and "preach s (handle B (Suc n) caller envelope) evs s1 p1"
  shows "p1 \<noteq> Panic \<and> p1 \<noteq> OutOfFuel
    \<and> (\<exists>evs' s2 v. preach s1 p1 evs' s2 (Ret v) \<and> rse_operation_id v = rqe_operation_id envelope)"
proof -
  have nf: "always no_failure s1 p1"
    using always_reach [OF no_failure_handle [OF assms(1)] assms(2)]
    by (rule always_mono) (simp add: no_failure_def)
  then obtain evs' s2 v where ret: "preach s1 p1 evs' s2 (Ret v)"
    using no_failure_returns by blast
  moreover have "rse_operation_id v = rqe_operation_id envelope"
    using alwaysD [OF handle_operation_id preach_trans [OF assms(2) ret]] by simp
  moreover have "no_failure [] s1 p1"
    using alwaysD [OF nf preach_refl] .
  ultimately show ?thesis
    by (auto simp: no_failure_def)
qed

theorem every_request_answered_witness:
  "\<exists>evs' s2 v. preach sample_service (handle sample_bundle 1 sample_caller sample_wait_deleted) evs' s2 (Ret v)
     \<and> rse_operation_id v = OperationId ''op5''"
proof -
  have "valid_request_deadline (rqe_request sample_wait_deleted)"
    by (simp add: sample_wait_deleted_def sample_envelope_def sample_deadline_def RequestEnvelope_new_def
        valid_DeadlineMillis_def DeadlineMillis_MIN_def DeadlineMillis_MAX_def)
  from every_request_answered [OF this preach_refl [of sample_service
        "handle sample_bundle (Suc 0) sample_caller sample_wait_deleted"]]
  show ?thesis
    by (simp add: sample_wait_deleted_def sample_envelope_def RequestEnvelope_new_def)
qed

end
