(* ===== verification/Boundary_Pool.thy ===== *)
theory Boundary_Pool
  imports Boundary_Cleanup
begin

text \<open>
  The service with any number of requests in progress: a pool of handlers that take turns, action
  by action. The handles of sandboxes are values that the Rust code moves; the accounting here is
  that no interleaving uses one more often than the runtime gave it out.
\<close>

section \<open>Interleaving\<close>

type_synonym pool = "service \<times> ResponseEnvelope prog list \<times> event list"

text \<open>
  A step of the pool: a request arrives, a handler makes its next action, or the process drains or
  cancels what is running.
\<close>

inductive pool_step :: "AssetBundleIdentity \<Rightarrow> pool \<Rightarrow> pool \<Rightarrow> bool" for B where
  pool_arrive: "pool_step B (s, ps, tr) (s, ps @ [handle B fuel caller envelope], tr)"
| pool_act: "j < length ps \<Longrightarrow> step_prog (ps ! j) a s = Some (ev, s1, p1) \<Longrightarrow>
    pool_step B (s, ps, tr) (s1, ps[j := p1], tr @ ev)"
| pool_drain: "pool_step B (s, ps, tr) (s\<lparr>sv_draining := True\<rparr>, ps, tr)"
| pool_cancel_all: "pool_step B (s, ps, tr) (s\<lparr>sv_cancelled := map snd (sv_active s) @ sv_cancelled s\<rparr>, ps, tr)"

inductive_cases pool_step_elim: "pool_step B c c'"

inductive pool_reach :: "AssetBundleIdentity \<Rightarrow> pool \<Rightarrow> bool" for B where
  pool_start: "sv_owned s = [] \<Longrightarrow> pool_reach B (s, [], [])"
| pool_next: "pool_reach B c \<Longrightarrow> pool_step B c c' \<Longrightarrow> pool_reach B c'"

section \<open>Handles\<close>

datatype handle_value = H_created CreatedSandbox | H_ready ReadySandbox

fun held_lifecycle :: "handle_value \<Rightarrow> Lifecycle \<Rightarrow> nat" where
  "held_lifecycle h (LC_Created c) = of_bool (h = H_created c)"
| "held_lifecycle h (LC_Ready r) = of_bool (h = H_ready r)"
| "held_lifecycle h LC_CleanupOnly = 0"

definition held :: "handle_value \<Rightarrow> OwnedEntry \<Rightarrow> nat" where
  "held h e = held_lifecycle h (oe_lifecycle e)"

definition held_opt :: "handle_value \<Rightarrow> OwnedEntry option \<Rightarrow> nat" where
  "held_opt h x = (case x of None \<Rightarrow> 0 | Some e \<Rightarrow> held h e)"

definition given_create :: "handle_value \<Rightarrow> CreateFailure + CreatedSandbox \<Rightarrow> nat" where
  "given_create h x = (case x of Inl _ \<Rightarrow> 0 | Inr c \<Rightarrow> of_bool (h = H_created c))"

definition given_ready :: "handle_value \<Rightarrow> ReadinessFailure + ReadySandbox \<Rightarrow> nat" where
  "given_ready h x = (case x of Inl _ \<Rightarrow> 0 | Inr r \<Rightarrow> of_bool (h = H_ready r))"

text \<open>How often a trace shows the runtime giving a handle out, and a handle used up.\<close>

fun given_event :: "handle_value \<Rightarrow> event \<Rightarrow> nat" where
  "given_event h (Ev_create _ x) = given_create h x"
| "given_event h (Ev_wait_ready _ x) = given_ready h x"
| "given_event h _ = 0"

fun used_event :: "handle_value \<Rightarrow> event \<Rightarrow> nat" where
  "used_event h (Ev_wait_ready c _) = of_bool (h = H_created c)"
| "used_event h (Ev_exec r _ _) = of_bool (h = H_ready r)"
| "used_event h _ = 0"

definition given :: "handle_value \<Rightarrow> event list \<Rightarrow> nat" where
  "given h tr = sum_list (map (given_event h) tr)"

definition used :: "handle_value \<Rightarrow> event list \<Rightarrow> nat" where
  "used h tr = sum_list (map (used_event h) tr)"

text \<open>A call in progress uses its handle.\<close>

fun using_now :: "handle_value \<Rightarrow> 'a prog \<Rightarrow> nat" where
  "using_now h (RtWaitReady c _ _ _) = of_bool (h = H_created c)"
| "using_now h (RtExec r _ _ _) = of_bool (h = H_ready r)"
| "using_now h _ = 0"

text \<open>
  \<open>linear h p n\<close>: a program that holds the handle \<open>n\<close> times never puts back or uses it more
  often than it holds it.
\<close>

primrec linear :: "handle_value \<Rightarrow> 'a prog \<Rightarrow> nat \<Rightarrow> bool" where
  "linear h (Ret x) n = True"
| "linear h Panic n = True"
| "linear h OutOfFuel n = True"
| "linear h (UnixTime k) n = (\<forall>x. linear h (k x) n)"
| "linear h (Now k) n = (\<forall>x. linear h (k x) n)"
| "linear h (GenerateToken k) n = (\<forall>x. linear h (k x) n)"
| "linear h (NewCancellation k) n = (\<forall>x. linear h (k x) n)"
| "linear h (LoadDraining k) n = (\<forall>x. linear h (k x) n)"
| "linear h (LoadReconciled k) n = (\<forall>x. linear h (k x) n)"
| "linear h (StoreDraining b p) n = linear h p n"
| "linear h (StoreReconciled b p) n = linear h p n"
| "linear h (OwnedGet i k) n = (\<forall>x. linear h (k x) n)"
| "linear h (OwnedTake c i t k) n = (\<forall>x. linear h (k x) (n + held_opt h x))"
| "linear h (OwnedPut i e p) n = (held h e \<le> n \<and> linear h p (n - held h e))"
| "linear h (PreparedReserve i item k) n = (\<forall>x. linear h (k x) n)"
| "linear h (PreparedRemove t k) n = (\<forall>x. linear h (k x) n)"
| "linear h (PreparedForget i p) n = linear h p n"
| "linear h (ActiveInsert i c k) n = (\<forall>x. linear h (k x) n)"
| "linear h (ActiveRemove i p) n = linear h p n"
| "linear h (ActiveLen k) n = (\<forall>x. linear h (k x) n)"
| "linear h (ActiveCancel i k) n = (\<forall>x. linear h (k x) n)"
| "linear h (ActiveCancelAll p) n = linear h p n"
| "linear h (Notified k) n = (\<forall>x. linear h (k x) n)"
| "linear h (Select c t m k) n = (\<forall>x. linear h (k x) n)"
| "linear h (StoreWrite r k) n = (\<forall>x. linear h (k x) n)"
| "linear h (StoreRemove i k) n = (\<forall>x. linear h (k x) n)"
| "linear h (StoreLoad k) n = (\<forall>x. linear h (k x) n)"
| "linear h (RtCreate q c k) n = (\<forall>x. linear h (k x) (n + given_create h x))"
| "linear h (RtWaitReady q p c k) n = (of_bool (h = H_created q) \<le> n \<and>
     (\<forall>x. linear h (k x) (n - of_bool (h = H_created q) + given_ready h x)))"
| "linear h (RtExec r q c k) n = (of_bool (h = H_ready r) \<le> n \<and>
     (\<forall>x. linear h (k x) (n - of_bool (h = H_ready r))))"
| "linear h (RtDelete t c k) n = (\<forall>x. linear h (k x) n)"
| "linear h (RtWaitDeleted t c k) n = (\<forall>x. linear h (k x) n)"

lemma using_now_linear: "linear h p n \<Longrightarrow> using_now h p \<le> n"
  by (cases p) simp_all

lemma linear_bind:
  "linear h p n \<Longrightarrow> (\<And>x m. linear h (f x) m) \<Longrightarrow> linear h (bind p f) n"
  by (induction p arbitrary: n) auto

definition owned_count :: "handle_value \<Rightarrow> service \<Rightarrow> nat" where
  "owned_count h s = sum_list (map (held h \<circ> snd) (sv_owned s))"

lemma sum_update: "sum_list (map (f \<circ> snd) (hm_insert i e m)) \<le> sum_list (map (f \<circ> snd) m) + (f e :: nat)"
  unfolding hm_insert_def by (induction m) auto

lemma sum_delete: "sum_list (map (f \<circ> snd) (hm_remove i m)) \<le> (sum_list (map (f \<circ> snd) m) :: nat)"
  unfolding hm_remove_def by (induction m) auto

lemma sum_delete_present:
  "hm_get m i = Some e \<Longrightarrow> sum_list (map (f \<circ> snd) (hm_remove i m)) + f e \<le> (sum_list (map (f \<circ> snd) m) :: nat)"
  unfolding hm_get_def
proof (induction m)
  case (Cons x m)
  then show ?case
    using sum_delete [of f i m]
    by (cases x) (auto simp: hm_remove_def comp_def split: if_splits)
qed simp

lemma take_owned_count:
  assumes "take_owned c i t owned = (x, ow)"
  shows "held_opt h x + sum_list (map (held h \<circ> snd) ow) \<le> sum_list (map (held h \<circ> snd) owned)"
proof (cases "hm_get owned i")
  case None
  with assms show ?thesis by (simp add: take_owned_def held_opt_def)
next
  case (Some e)
  have "(x, ow) = (Some e, hm_remove i owned) \<or> (x, ow) = (None, hm_insert i e (hm_remove i owned))"
    using assms unfolding take_owned_def Some option.case Let_def by (auto split: if_splits)
  with sum_delete_present [OF Some, of "held h"] sum_update [of "held h" i e "hm_remove i owned"]
  show ?thesis
    by (auto simp: held_opt_def)
qed

lemma linear_step:
  assumes "linear h p n" and "step_prog p a s = Some (ev, s1, p1)"
  shows "\<exists>m. linear h p1 m \<and> m + owned_count h s1 + used h ev \<le> n + owned_count h s + given h ev"
proof (cases p)
  case (OwnedTake c i t k)
  obtain x ow where taken: "take_owned c i t (sv_owned s) = (x, ow)"
    by fastforce
  with assms OwnedTake have "linear h p1 (n + held_opt h x)" and "s1 = s\<lparr>sv_owned := ow\<rparr>" and "ev = []"
    by (auto split: answer.splits)
  with take_owned_count [OF taken, of h] show ?thesis
    by (intro exI [of _ "n + held_opt h x"]) (simp add: owned_count_def used_def given_def)
next
  case (OwnedPut i e q)
  with assms have "linear h p1 (n - held h e)" and "held h e \<le> n" and "ev = []"
      and "sv_owned s1 = hm_insert i e (sv_owned s)"
    by (auto split: answer.splits)
  with sum_update [of "held h" i e "sv_owned s"] show ?thesis
    by (intro exI [of _ "n - held h e"]) (simp add: owned_count_def used_def given_def)
next
  case (RtCreate q c k)
  with assms show ?thesis
    by (auto simp: used_def given_def split: answer.splits)
next
  case (RtWaitReady q pol c k)
  with assms show ?thesis
    by (auto simp: used_def given_def split: answer.splits
        intro!: exI [of _ "n - of_bool (h = H_created q) + given_ready h x" for x])
next
  case (RtExec r q c k)
  with assms show ?thesis
    by (auto simp: used_def given_def split: answer.splits
        intro!: exI [of _ "n - of_bool (h = H_ready r)"])
qed (use assms in \<open>auto simp: owned_count_def used_def given_def
      split: answer.splits option.splits prod.splits if_splits\<close>)

section \<open>The handlers are linear\<close>

lemma linear_acquire_loop:
  assumes "\<And>x. linear h (k (Inl x)) n" and "\<And>e. linear h (k (Inr e)) (n + held h e)"
  shows "linear h (acquire_loop fuel caller i t c k) n"
  using assms
  by (induction fuel) (auto simp: held_opt_def split: option.splits wake.splits)

lemmas linear_defs =
  transition_and_write_def transition_and_try_write_def put_owned_def reject_new_work_def
  operation_context_ms_def Let_def held_def held_opt_def given_create_def given_ready_def

lemma linear_dispatch: "linear h (dispatch B fuel caller request c) 0"
proof (cases request)
  case (SReq_Create q d)
  then show ?thesis
    by (auto simp: linear_defs boundary_create_def create_outcome_def split: sum.splits prod.splits)
next
  case (SReq_WaitReady i t pol d)
  then show ?thesis
    by (auto simp: linear_defs boundary_wait_ready_def
        split: sum.splits prod.splits option.splits Lifecycle.splits)
next
  case (SReq_PrepareExec i t q d)
  then show ?thesis
    by (auto simp: linear_defs boundary_prepare_exec_def split: option.splits)
next
  case (SReq_CommitExec i t d)
  then show ?thesis
    by (auto simp: linear_defs boundary_commit_exec_def commit_taken_def
        split: sum.splits prod.splits option.splits Lifecycle.splits)
next
  case (SReq_Delete target d)
  then show ?thesis
    by (auto simp: linear_defs boundary_delete_def acquire_for_cleanup_def
        split: sum.splits prod.splits option.splits intro!: linear_acquire_loop)
next
  case (SReq_WaitDeleted target d)
  then show ?thesis
    by (auto simp: linear_defs boundary_wait_deleted_def acquire_for_cleanup_def
        split: sum.splits prod.splits option.splits intro!: linear_acquire_loop)
qed (auto simp: linear_defs health_def begin_drain_def drain_status_def)

lemma linear_handle: "linear h (handle B fuel caller envelope) 0"
  by (auto simp: handle_def Let_def RequestEnvelope_into_parts_def handle_cancel_def cancel_operation_def
      simp del: dispatch.simps intro!: linear_bind linear_dispatch split: ServiceRequest.splits)

definition accounted :: "handle_value \<Rightarrow> pool \<Rightarrow> bool" where
  "accounted h c \<longleftrightarrow> (case c of (s, ps, tr) \<Rightarrow>
     \<exists>budgets. list_all2 (linear h) ps budgets
       \<and> sum_list budgets + owned_count h s + used h tr \<le> given h tr)"

lemma sum_list_replace:
  "j < length xs \<Longrightarrow> sum_list (xs[j := m]) + xs ! j = sum_list xs + (m :: nat)"
  using elem_le_sum_list [of j xs] by (simp add: sum_list_update)

lemma accounted_step:
  assumes "accounted h c" and "pool_step B c c'"
  shows "accounted h c'"
  using assms(2)
proof cases
  case (pool_arrive s ps tr fuel caller envelope)
  with assms(1) obtain budgets where "list_all2 (linear h) ps budgets"
      and "sum_list budgets + owned_count h s + used h tr \<le> given h tr"
    by (auto simp: accounted_def)
  with pool_arrive linear_handle show ?thesis
    by (auto simp: accounted_def list_all2_appendI intro!: exI [of _ "budgets @ [0]"])
next
  case (pool_act j ps a s ev s1 p1 tr)
  with assms(1) obtain budgets where budgets: "list_all2 (linear h) ps budgets"
      and sum: "sum_list budgets + owned_count h s + used h tr \<le> given h tr"
    by (auto simp: accounted_def)
  then have len: "j < length budgets" and "linear h (ps ! j) (budgets ! j)"
    using pool_act by (auto simp: list_all2_conv_all_nth)
  then obtain m where m: "linear h p1 m"
      "m + owned_count h s1 + used h ev \<le> budgets ! j + owned_count h s + given h ev"
    using linear_step pool_act by blast
  have "list_all2 (linear h) (ps[j := p1]) (budgets[j := m])"
    using budgets m(1) by (simp add: list_all2_update_cong)
  moreover have "sum_list (budgets[j := m]) + owned_count h s1 + used h (tr @ ev) \<le> given h (tr @ ev)"
    using m(2) sum sum_list_replace [OF len, of m] by (simp add: used_def given_def)
  ultimately show ?thesis
    using pool_act by (auto simp: accounted_def)
qed (use assms(1) in \<open>auto simp: accounted_def owned_count_def\<close>)

lemma pool_reach_accounted: "pool_reach B c \<Longrightarrow> accounted h c"
proof (induction rule: pool_reach.induct)
  case (pool_start s)
  then show ?case
    by (simp add: accounted_def owned_count_def used_def given_def)
qed (rule accounted_step)

lemma using_now_sum:
  "list_all2 (linear h) ps budgets \<Longrightarrow> sum_list (map (using_now h) ps) \<le> sum_list budgets"
  by (induction rule: list_all2_induct) (auto dest: using_now_linear)

text \<open>
  C8. However the requests interleave, a ready sandbox is executed, the calls in progress included,
  at most as often as the runtime handed it out as ready; and a created sandbox is waited for at
  most as often as the runtime created it.
\<close>

theorem handles_used_linearly:
  assumes "pool_reach B (s, ps, tr)"
  shows "used h tr + sum_list (map (using_now h) ps) \<le> given h tr"
proof -
  obtain budgets where "list_all2 (linear h) ps budgets"
      and "sum_list budgets + owned_count h s + used h tr \<le> given h tr"
    using pool_reach_accounted [OF assms, of h] by (auto simp: accounted_def)
  with using_now_sum [of h ps budgets] show ?thesis
    by linarith
qed

section \<open>Concrete interleavings\<close>

datatype move = Arrive CallerIdentity RequestEnvelope | Act nat answer

fun pool_run :: "move list \<Rightarrow> pool \<Rightarrow> pool option" where
  "pool_run [] c = Some c"
| "pool_run (Arrive caller envelope # ms) (s, ps, tr) =
     pool_run ms (s, ps @ [handle sample_bundle 1 caller envelope], tr)"
| "pool_run (Act j a # ms) (s, ps, tr) =
     (if j < length ps then
        (case step_prog (ps ! j) a s of
           None \<Rightarrow> None
         | Some (ev, s1, p1) \<Rightarrow> pool_run ms (s1, ps[j := p1], tr @ ev))
      else None)"

lemma pool_run_reach: "pool_reach sample_bundle c \<Longrightarrow> pool_run ms c = Some c' \<Longrightarrow> pool_reach sample_bundle c'"
proof (induction ms c rule: pool_run.induct)
  case (2 caller envelope ms s ps tr)
  from 2(1) [OF pool_next [OF 2(2) pool_arrive]] 2(3) show ?case
    by simp
next
  case (3 j a ms s ps tr)
  then obtain ev s1 p1 where j: "j < length ps" and step: "step_prog (ps ! j) a s = Some (ev, s1, p1)"
    and run: "pool_run ms (s1, ps[j := p1], tr @ ev) = Some c'"
    by (auto split: if_splits option.splits)
  from 3(1) [OF j step refl refl pool_next [OF 3(2) pool_act [OF j step]] run] show ?case .
qed simp

lemma sample_pool_start: "pool_reach sample_bundle (sample_service, [], [])"
  by (rule pool_start) (simp add: sample_service_eq service_new_def)

definition race_moves :: "move list" where
  "race_moves =
     Arrive sample_caller (sample_envelope ''op1'' (SReq_Create sample_create sample_deadline)) #
     map (Act 0)
       [A_tick, A_tick, A_tick, A_tick, A_tick, A_unix (Some 5), A_write WriteOk,
        A_create (Inr sample_created), A_token (CapabilityToken ''t1''), A_unix (Some 6), A_write WriteOk,
        A_tick, A_tick] @
     Arrive sample_caller
       (sample_envelope ''op2'' (SReq_WaitReady sample_id (CapabilityToken ''t1'') sample_policy sample_deadline)) #
     map (Act 1) [A_tick, A_tick, A_tick] @
     Arrive sample_intruder (sample_envelope ''op3'' (SReq_Create sample_create sample_deadline)) #
     map (Act 2)
       [A_tick, A_tick, A_tick, A_tick, A_tick, A_unix (Some 7), A_write WriteOk,
        A_create (Inl (Conflict CF_Provider (OperatorDetail ''exists''))),
        A_unix (Some 8), A_write WriteOk, A_remove RemoveOk]"

lemma race_run:
  "case pool_run race_moves (sample_service, [], []) of
     None \<Rightarrow> False
   | Some (s, ps, tr) \<Rightarrow> sample_id \<in> possibly_live tr {} \<and> hm_get (sv_store s) sample_id = None
       \<and> using_now (H_created sample_created) (ps ! 1) = 1"
  by (simp add: race_moves_def session_defs sample_intruder_def)

theorem handles_used_linearly_witness:
  "case pool_run race_moves (sample_service, [], []) of
     None \<Rightarrow> False
   | Some (s, ps, tr) \<Rightarrow>
       used (H_created sample_created) tr + sum_list (map (using_now (H_created sample_created)) ps)
         \<le> given (H_created sample_created) tr"
proof -
  obtain s ps tr where run: "pool_run race_moves (sample_service, [], []) = Some (s, ps, tr)"
    using race_run by (auto split: option.splits)
  from handles_used_linearly [OF pool_run_reach [OF sample_pool_start run]] show ?thesis
    unfolding run option.case prod.case .
qed

text \<open>
  The guarantee of the durable records needs requests for one identifier not to overlap. While
  a request holds the entry of a sandbox, another request to create the same identifier passes the
  check of the owned table, overwrites the record, and removes it when the runtime reports a
  conflict: the sandbox of the first caller may exist and has no durable record.
\<close>

theorem concurrent_create_loses_record:
  "\<exists>s ps tr. pool_reach sample_bundle (s, ps, tr) \<and> sample_id \<in> possibly_live tr {}
     \<and> hm_get (sv_store s) sample_id = None"
proof -
  obtain s ps tr where run: "pool_run race_moves (sample_service, [], []) = Some (s, ps, tr)"
    and lost: "sample_id \<in> possibly_live tr {}" "hm_get (sv_store s) sample_id = None"
    using race_run by (auto split: option.splits)
  with pool_run_reach [OF sample_pool_start run] show ?thesis
    by blast
qed

text \<open>
  A request that repeats the identifier of an operation in progress is refused, but it has
  replaced the cancellation token of that operation first: a later cancel of the identifier reaches
  the new token and not the one the operation listens to.
\<close>

theorem duplicate_operation_replaces_token:
  assumes "hm_get (sv_active s) (rqe_operation_id envelope) = Some c"
    and "rqe_protocol_version envelope = PROTOCOL_VERSION" and "rqe_asset_bundle envelope = B"
    and "\<nexists>t. rqe_request envelope = SReq_Cancel t"
  shows "\<exists>s1. preach s (handle B fuel caller envelope) [] s1
       (Ret (ResponseEnvelope_new (rqe_operation_id envelope) (boundary_failure BF_LifecycleConflict None None)))
     \<and> (\<exists>s2. preach s1 (cancel_operation (rqe_operation_id envelope) Ret) [] s2 (Ret True)
          \<and> sv_cancelled s2 = sv_next_canc s # sv_cancelled s)"
proof -
  let ?op = "rqe_operation_id envelope"
  define s1 where "s1 = handle_entry s envelope"
  have handle: "handle B fuel caller envelope = NewCancellation (\<lambda>cancellation.
         ActiveInsert ?op cancellation (\<lambda>replaced.
           if replaced then Ret (ResponseEnvelope_new ?op (boundary_failure BF_LifecycleConflict None None))
           else bind (dispatch B fuel caller (rqe_request envelope) cancellation) (finish_handle envelope)))"
    using assms
    by (cases "rqe_request envelope")
      (simp_all add: handle_def RequestEnvelope_into_parts_def finish_handle_def [abs_def] Let_def cong: if_cong)
  have "run_prog [A_tick, A_tick] s (handle B fuel caller envelope) =
      ([], s1, Ret (ResponseEnvelope_new ?op (boundary_failure BF_LifecycleConflict None None)))"
    using assms(1) by (simp add: handle s1_def handle_entry_def)
  moreover have "run_prog [A_tick] s1 (cancel_operation ?op Ret) =
      ([], s1\<lparr>sv_cancelled := sv_next_canc s # sv_cancelled s1\<rparr>, Ret True)"
    by (simp add: s1_def handle_entry_def cancel_operation_def)
  ultimately have "preach s (handle B fuel caller envelope) [] s1
       (Ret (ResponseEnvelope_new ?op (boundary_failure BF_LifecycleConflict None None)))"
    and "preach s1 (cancel_operation ?op Ret) [] (s1\<lparr>sv_cancelled := sv_next_canc s # sv_cancelled s1\<rparr>) (Ret True)"
    by (blast intro: run_prog_preach)+
  moreover have "sv_cancelled (s1\<lparr>sv_cancelled := sv_next_canc s # sv_cancelled s1\<rparr>) = sv_next_canc s # sv_cancelled s"
    by (simp add: s1_def handle_entry_def)
  ultimately show ?thesis
    by blast
qed

definition busy_service :: service where
  "busy_service = sample_service\<lparr>sv_active := [(OperationId ''op4'', 7)], sv_next_canc := 8\<rparr>"

theorem duplicate_operation_replaces_token_witness:
  "\<exists>s1 s2. preach busy_service (handle sample_bundle 1 sample_caller sample_commit) [] s1
       (Ret (ResponseEnvelope_new (OperationId ''op4'') (boundary_failure BF_LifecycleConflict None None)))
     \<and> preach s1 (cancel_operation (OperationId ''op4'') Ret) [] s2 (Ret True) \<and> sv_cancelled s2 = [8]"
proof -
  have "hm_get (sv_active busy_service) (rqe_operation_id sample_commit) = Some 7"
    and "rqe_protocol_version sample_commit = PROTOCOL_VERSION" and "rqe_asset_bundle sample_commit = sample_bundle"
    and "\<nexists>t. rqe_request sample_commit = SReq_Cancel t"
    by (simp_all add: busy_service_def sample_commit_def sample_envelope_def RequestEnvelope_new_def hm_get_def)
  from duplicate_operation_replaces_token [OF this, of 1 sample_caller]
  have "\<exists>s1. preach busy_service (handle sample_bundle 1 sample_caller sample_commit) [] s1
       (Ret (ResponseEnvelope_new (OperationId ''op4'') (boundary_failure BF_LifecycleConflict None None)))
     \<and> (\<exists>s2. preach s1 (cancel_operation (OperationId ''op4'') Ret) [] s2 (Ret True)
          \<and> sv_cancelled s2 = sv_next_canc busy_service # sv_cancelled busy_service)"
    by (simp only: sample_commit_def sample_envelope_def RequestEnvelope_new_def RequestEnvelope.simps)
  then show ?thesis
    by (simp only: busy_service_def sample_service_eq service_new_def service.simps) blast
qed

end
