(* ===== verification/Dispatch_Types.thy ===== *)
theory Dispatch_Types
  imports Durable_Store
begin

text \<open>
  The values of the governed dispatcher (\<^verbatim>\<open>src/src/dispatcher/types.rs\<close>): dispatch identifiers,
  commands before and after validation, the canonical encoding behind the command digest, the
  governance outcome, the result a caller receives and the deployment configuration. JSON values are
  those of \<open>serde_json::Value\<close>; an object is the list of its entries.
\<close>

section \<open>Identifiers and commands\<close>

datatype DispatchId = DispatchId (did_str: string)

instantiation DispatchId :: linorder
begin

definition less_eq_DispatchId :: "DispatchId \<Rightarrow> DispatchId \<Rightarrow> bool" where
  "less_eq_DispatchId a b \<longleftrightarrow> did_str a \<le> did_str b"

definition less_DispatchId :: "DispatchId \<Rightarrow> DispatchId \<Rightarrow> bool" where
  "less_DispatchId a b \<longleftrightarrow> did_str a < did_str b"

instance
  by standard (auto simp: less_eq_DispatchId_def less_DispatchId_def DispatchId.expand)

end

definition DispatchId_generate :: "'u uuid_lib \<Rightarrow> 'u \<Rightarrow> DispatchId" where
  "DispatchId_generate U fresh_v4 = DispatchId (uuid_to_string U fresh_v4)"

definition DispatchId_parse :: "'u uuid_lib \<Rightarrow> string \<Rightarrow> ValidationError + DispatchId" where
  "DispatchId_parse U value =
     (case uuid_parse_str U value of
        None \<Rightarrow> Err (ValidationError_new ''dispatch_id'' VC_InvalidFormat)
      | Some uuid \<Rightarrow>
          if length value \<noteq> 36 \<or> uuid_get_version_num U uuid \<noteq> 4
             \<or> \<not> uuid_is_rfc4122 U uuid \<or> uuid_to_string U uuid \<noteq> value
          then Err (ValidationError_new ''dispatch_id'' VC_InvalidFormat)
          else Ok (DispatchId value))"

record Command =
  cmd_dispatch_id :: DispatchId
  cmd_argv :: "string list"
  cmd_timeout_seconds :: "u16 option"
  cmd_resume_only :: bool

definition Command_new :: "DispatchId \<Rightarrow> string list \<Rightarrow> u16 option \<Rightarrow> Command" where
  "Command_new generated argv timeout_seconds =
     \<lparr>cmd_dispatch_id = generated, cmd_argv = argv, cmd_timeout_seconds = timeout_seconds,
      cmd_resume_only = False\<rparr>"

definition Command_resume :: "DispatchId \<Rightarrow> string list \<Rightarrow> u16 option \<Rightarrow> Command" where
  "Command_resume dispatch_id argv timeout_seconds =
     \<lparr>cmd_dispatch_id = dispatch_id, cmd_argv = argv, cmd_timeout_seconds = timeout_seconds,
      cmd_resume_only = True\<rparr>"

definition Command_into_parts :: "Command \<Rightarrow> DispatchId \<times> string list \<times> u16 option \<times> bool" where
  "Command_into_parts c = (cmd_dispatch_id c, cmd_argv c, cmd_timeout_seconds c, cmd_resume_only c)"

text \<open>The JSON form of a command has no identifier: a decoded command gets a generated one.\<close>

record CommandWire =
  cw_argv :: "string list"
  cw_timeout_seconds :: "u16 option"

definition Command_serialize :: "Command \<Rightarrow> CommandWire" where
  "Command_serialize c = \<lparr>cw_argv = cmd_argv c, cw_timeout_seconds = cmd_timeout_seconds c\<rparr>"

definition Command_deserialize :: "DispatchId \<Rightarrow> CommandWire \<Rightarrow> Command" where
  "Command_deserialize generated w = Command_new generated (cw_argv w) (cw_timeout_seconds w)"

record CommandSizeLimits =
  csl_max_argv_elements :: nat
  csl_max_argv_bytes :: nat

definition CommandSizeLimits_new :: "nat \<Rightarrow> nat \<Rightarrow> ValidationError + CommandSizeLimits" where
  "CommandSizeLimits_new max_argv_elements max_argv_bytes =
     (if max_argv_elements = 0 \<or> max_argv_bytes = 0
      then Err (ValidationError_new ''command_size_limits'' VC_OutOfRange)
      else Ok \<lparr>csl_max_argv_elements = max_argv_elements, csl_max_argv_bytes = max_argv_bytes\<rparr>)"

definition CommandSizeLimits_default :: CommandSizeLimits where
  "CommandSizeLimits_default = \<lparr>csl_max_argv_elements = 256, csl_max_argv_bytes = 64 * 1024\<rparr>"

record EffectiveCommand =
  ecm_argv :: "string list"
  ecm_timeout_seconds :: u16

text \<open>The loop of \<open>validate\<close> over the arguments, with the bytes counted so far.\<close>

fun validate_argv :: "CommandSizeLimits \<Rightarrow> nat \<Rightarrow> string list \<Rightarrow> ValidationError + unit" where
  "validate_argv limits count [] = Ok ()"
| "validate_argv limits count (value # rest) =
     (if CHR 0x00 \<in> set value then Err (ValidationError_new ''argv'' VC_InvalidFormat)
      else case checked_add_usize count (length value) of
             None \<Rightarrow> Err (ValidationError_new ''argv'' VC_InvalidLength)
           | Some count' \<Rightarrow>
               if count' > csl_max_argv_bytes limits
               then Err (ValidationError_new ''argv'' VC_InvalidLength)
               else validate_argv limits count' rest)"

definition EffectiveCommand_validate ::
  "string list \<Rightarrow> u16 option \<Rightarrow> CommandSizeLimits \<Rightarrow> ValidationError + EffectiveCommand" where
  "EffectiveCommand_validate argv timeout_seconds limits =
     (if argv = [] then Err (ValidationError_new ''argv'' VC_Empty)
      else if length argv > csl_max_argv_elements limits
      then Err (ValidationError_new ''argv'' VC_InvalidLength)
      else case validate_argv limits 0 argv of
             Inl e \<Rightarrow> Err e
           | Inr _ \<Rightarrow>
               (case CommandTimeout_new
                       (case timeout_seconds of None \<Rightarrow> CommandTimeout_DEFAULT_SECONDS | Some t \<Rightarrow> t) of
                  Inl e \<Rightarrow> Err e
                | Inr timeout \<Rightarrow> Ok \<lparr>ecm_argv = argv, ecm_timeout_seconds = ct_seconds timeout\<rparr>))"

text \<open>\<open>to_be_bytes\<close> of an integer of \<open>k\<close> bytes.\<close>

definition to_be_bytes :: "nat \<Rightarrow> 'a :: len word \<Rightarrow> bytes" where
  "to_be_bytes k w = map (\<lambda>i. ucast (drop_bit (8 * i) w)) (rev [0..<k])"

text \<open>What \<open>digest\<close> feeds to the hasher, argument by argument.\<close>

definition encode_argument :: "string \<Rightarrow> bytes" where
  "encode_argument value = to_be_bytes 8 (u64_of_len (length value)) @ as_bytes value"

definition canonical_encoding :: "EffectiveCommand \<Rightarrow> bytes" where
  "canonical_encoding c =
     as_bytes (''openbox.command.v1'' @ [CHR 0x00])
     @ to_be_bytes 8 (u64_of_len (length (ecm_argv c)))
     @ concat (map encode_argument (ecm_argv c))
     @ to_be_bytes 2 (ecm_timeout_seconds c)"

text \<open>SHA-256 is a parameter; \<open>None\<close> is the panic of the final \<open>expect\<close>.\<close>

definition EffectiveCommand_digest :: "(bytes \<Rightarrow> bytes) \<Rightarrow> EffectiveCommand \<Rightarrow> Sha256Digest option" where
  "EffectiveCommand_digest sha256 c =
     (case Sha256Digest_parse (hex_string (sha256 (canonical_encoding c))) of
        Inl _ \<Rightarrow> None
      | Inr d \<Rightarrow> Some d)"

section \<open>Governance\<close>

record ActivityInput =
  ai_schema_version :: u16
  ai_argv :: "string list"
  ai_timeout_seconds :: u16

record ActivityStarted =
  as_activity_id :: DispatchId
  as_activity_type :: string
  as_activity_input :: ActivityInput

definition ActivityStarted_new :: "DispatchId \<Rightarrow> EffectiveCommand \<Rightarrow> ActivityStarted" where
  "ActivityStarted_new activity_id command =
     \<lparr>as_activity_id = activity_id, as_activity_type = ''openbox.command.v1'',
      as_activity_input =
        \<lparr>ai_schema_version = 1, ai_argv = ecm_argv command, ai_timeout_seconds = ecm_timeout_seconds command\<rparr>\<rparr>"

datatype json =
    J_Null
  | J_Bool bool
  | J_Number string
  | J_String string
  | J_Array "json list"
  | J_Object "(string \<times> json) list"

fun json_as_str :: "json \<Rightarrow> string option" where
  "json_as_str (J_String s) = Some s"
| "json_as_str _ = None"

fun json_as_bool :: "json \<Rightarrow> bool option" where
  "json_as_bool (J_Bool b) = Some b"
| "json_as_bool _ = None"

fun json_as_object :: "json \<Rightarrow> (string \<times> json) list option" where
  "json_as_object (J_Object m) = Some m"
| "json_as_object _ = None"

datatype GovernanceVerdict = GV_Allow | GV_Constrain | GV_RequireApproval | GV_Block | GV_Halt

datatype GovernanceRejection =
    GR_Missing | GR_Malformed | GR_UnknownVerdict | GR_MismatchedActivity | GR_Stale | GR_Synthetic
  | GR_Fallback | GR_ConflictingAction | GR_FailedGuardrails | GR_InvalidConstraints
  | GR_UnsupportedConstraint | GR_Remediation | GR_UnsupportedField | GR_Unauthoritative

datatype GovernanceOutcome =
    GO_NotEvaluated
  | GO_Unavailable
  | GO_Rejected GovernanceRejection
  | GO_Authoritative GovernanceVerdict json

section \<open>Results\<close>

datatype SelectedExecutor = SE_None | SE_Host | SE_Sandbox

datatype GovernedDispatchState = GD_NotDispatched | GD_PossiblyDispatched | GD_Completed

datatype TimeoutState = TS_NotObserved | TS_Possible | TS_Confirmed | TS_Unknown

fun TimeoutState_from_observed :: "ObservedTimeout \<Rightarrow> TimeoutState" where
  "TimeoutState_from_observed OT_NotObserved = TS_NotObserved"
| "TimeoutState_from_observed OT_Possible = TS_Possible"
| "TimeoutState_from_observed OT_Confirmed = TS_Confirmed"

fun TimeoutState_from_failure :: "FailureTimeout \<Rightarrow> TimeoutState" where
  "TimeoutState_from_failure FT_NotObserved = TS_NotObserved"
| "TimeoutState_from_failure FT_Possible = TS_Possible"
| "TimeoutState_from_failure FT_Confirmed = TS_Confirmed"
| "TimeoutState_from_failure FT_Unknown = TS_Unknown"

datatype GovernedCleanupState = GC_NotNeeded | GC_ConfirmedAbsent | GC_PendingReconciliation

datatype ExecutionOutcome =
    EO_NotExecuted
  | EO_Completed ExecCompleted
  | EO_Indeterminate u64 u64

definition ExecutionOutcome_indeterminate :: "OutputByteCounts \<Rightarrow> ExecutionOutcome" where
  "ExecutionOutcome_indeterminate counts = EO_Indeterminate (obc_stdout counts) (obc_stderr counts)"

datatype ErrorPhase =
    EP_Validation | EP_Governance | EP_DispatchPersistence | EP_HostDispatch | EP_SandboxCreate
  | EP_SandboxReadiness | EP_SandboxAttestation | EP_SandboxDispatch | EP_SandboxExecution
  | EP_SandboxTransport | EP_SandboxCleanup | EP_SandboxReconciliation

datatype GovernedErrorCode =
    GE_InvalidCommand | GE_CommandTooLarge | GE_DigestMismatch | GE_GovernanceUnavailable
  | GE_GovernanceRejected | GE_PersistenceFailed | GE_ReplayIndeterminate | GE_HostFailed
  | GE_SandboxCreateFailed | GE_SandboxReadinessFailed | GE_SandboxAttestationFailed
  | GE_SandboxExecutionFailed | GE_SandboxTransportFailed | GE_CleanupPending

record GovernedError =
  ge_code :: GovernedErrorCode
  ge_phase :: ErrorPhase

definition GovernedError_new :: "GovernedErrorCode \<Rightarrow> ErrorPhase \<Rightarrow> GovernedError" where
  "GovernedError_new code phase = \<lparr>ge_code = code, ge_phase = phase\<rparr>"

record GovernedCommandResult =
  gr_dispatch_id :: DispatchId
  gr_governance :: GovernanceOutcome
  gr_selected_executor :: SelectedExecutor
  gr_dispatch_state :: GovernedDispatchState
  gr_execution_outcome :: ExecutionOutcome
  gr_timeout_state :: TimeoutState
  gr_cleanup_state :: GovernedCleanupState
  gr_error :: "GovernedError option"

definition GovernedCommandResult_new ::
  "DispatchId \<Rightarrow> GovernanceOutcome \<Rightarrow> SelectedExecutor \<Rightarrow> GovernedDispatchState \<Rightarrow> ExecutionOutcome \<Rightarrow>
   TimeoutState \<Rightarrow> GovernedCleanupState \<Rightarrow> GovernedError option \<Rightarrow> GovernedCommandResult" where
  "GovernedCommandResult_new dispatch_id governance selected_executor dispatch_state execution_outcome
       timeout_state cleanup_state err =
     \<lparr>gr_dispatch_id = dispatch_id, gr_governance = governance, gr_selected_executor = selected_executor,
      gr_dispatch_state = dispatch_state, gr_execution_outcome = execution_outcome,
      gr_timeout_state = timeout_state, gr_cleanup_state = cleanup_state, gr_error = err\<rparr>"

definition GovernedCommandResult_validation :: "DispatchId \<Rightarrow> GovernedErrorCode \<Rightarrow> GovernedCommandResult" where
  "GovernedCommandResult_validation dispatch_id code =
     GovernedCommandResult_new dispatch_id GO_NotEvaluated SE_None GD_NotDispatched EO_NotExecuted
       TS_NotObserved GC_NotNeeded (Some (GovernedError_new code EP_Validation))"

definition set_cleanup_state :: "GovernedCleanupState \<Rightarrow> GovernedCommandResult \<Rightarrow> GovernedCommandResult" where
  "set_cleanup_state cleanup_state r = r\<lparr>gr_cleanup_state := cleanup_state\<rparr>"

definition set_error_if_none :: "GovernedError \<Rightarrow> GovernedCommandResult \<Rightarrow> GovernedCommandResult" where
  "set_error_if_none err r = (if gr_error r = None then r\<lparr>gr_error := Some err\<rparr> else r)"

section \<open>Deployment configuration\<close>

datatype IsolationSupport = IS_Full | IS_Degraded | IS_Unsupported

record SandboxAssetBundle =
  sab_template :: TemplateIdentity
  sab_template_digest :: Sha256Digest
  sab_policy :: PolicyIdentity
  sab_policy_document :: PolicyDocument
  sab_provider_compatibility :: string

definition SandboxAssetBundle_new ::
  "(bytes \<Rightarrow> bytes) \<Rightarrow> TemplateIdentity \<Rightarrow> Sha256Digest \<Rightarrow> PolicyIdentity \<Rightarrow> PolicyDocument \<Rightarrow> string \<Rightarrow>
   IsolationSupport \<Rightarrow> bool \<Rightarrow> bool \<Rightarrow> ValidationError + SandboxAssetBundle" where
  "SandboxAssetBundle_new sha256 template template_digest policy policy_document provider_compatibility
       isolation_support production deny_network =
     (if provider_compatibility = [] \<or> \<not> deny_network
      then Err (ValidationError_new ''sandbox_asset_bundle'' VC_InvalidCombination)
      else if production \<and> isolation_support \<noteq> IS_Full
      then Err (ValidationError_new ''isolation_support'' VC_InvalidCombination)
      else if \<not> ends_with (''@sha256:'' @ sha_str template_digest) (template_str template)
      then Err (ValidationError_new ''template_digest'' VC_InvalidCombination)
      else if sha_str (policy_sha256 policy) \<noteq> hex_string (sha256 (doc_bytes policy_document))
      then Err (ValidationError_new ''policy.sha256'' VC_InvalidCombination)
      else Ok \<lparr>sab_template = template, sab_template_digest = template_digest, sab_policy = policy,
               sab_policy_document = policy_document,
               sab_provider_compatibility = provider_compatibility\<rparr>)"

record DispatcherConfig =
  dc_state_directory :: string
  dc_command_limits :: CommandSizeLimits
  dc_output_limits :: OutputLimits
  dc_assets :: SandboxAssetBundle
  dc_create_deadline :: duration
  dc_readiness_deadline :: duration
  dc_dispatch_deadline_slack :: duration
  dc_cleanup_deadline :: duration

definition DispatcherConfig_new ::
  "string \<Rightarrow> SandboxAssetBundle \<Rightarrow> OutputLimits \<Rightarrow> ValidationError + DispatcherConfig" where
  "DispatcherConfig_new state_directory assets output_limits =
     (if state_directory = [] then Err (ValidationError_new ''state_directory'' VC_Empty)
      else Ok \<lparr>dc_state_directory = state_directory, dc_command_limits = CommandSizeLimits_default,
               dc_output_limits = output_limits, dc_assets = assets,
               dc_create_deadline = secs 120, dc_readiness_deadline = secs 120,
               dc_dispatch_deadline_slack = secs 5, dc_cleanup_deadline = secs 60\<rparr>)"

definition with_command_limits :: "CommandSizeLimits \<Rightarrow> DispatcherConfig \<Rightarrow> DispatcherConfig" where
  "with_command_limits limits config = config\<lparr>dc_command_limits := limits\<rparr>"

definition with_deadlines ::
  "duration \<Rightarrow> duration \<Rightarrow> duration \<Rightarrow> duration \<Rightarrow> DispatcherConfig \<Rightarrow> ValidationError + DispatcherConfig" where
  "with_deadlines create readiness dispatch_slack cleanup config =
     (if 0 \<in> set [create, readiness, dispatch_slack, cleanup]
      then Err (ValidationError_new ''dispatcher_deadlines'' VC_OutOfRange)
      else Ok (config\<lparr>dc_create_deadline := create, dc_readiness_deadline := readiness,
                      dc_dispatch_deadline_slack := dispatch_slack, dc_cleanup_deadline := cleanup\<rparr>))"

lemmas [dispatch_defs] =
  DispatchId_generate_def Command_new_def Command_resume_def Command_into_parts_def
  ActivityStarted_new_def ExecutionOutcome_indeterminate_def GovernedError_new_def
  GovernedCommandResult_new_def GovernedCommandResult_validation_def set_cleanup_state_def
  set_error_if_none_def

section \<open>Validated commands\<close>

lemma DispatchId_parse_Ok: "DispatchId_parse U s = Ok i \<longleftrightarrow> i = DispatchId s \<and> valid_uuid_text U s"
  by (auto simp: DispatchId_parse_def valid_uuid_text_def uuid_value_parse_def split: option.splits)

interpretation dispatch_id_wire:
  validated_wire "\<lambda>i. valid_uuid_text U (did_str i)" "DispatchId_parse U" did_str for U
  by unfold_locales (auto simp: DispatchId_parse_Ok)

definition argv_bytes :: "string list \<Rightarrow> nat" where
  "argv_bytes argv = sum_list (map length argv)"

lemma validate_argv_Ok:
  assumes "csl_max_argv_bytes limits < 2 ^ 64"
  shows "validate_argv limits count argv = Ok () \<longleftrightarrow>
    (\<forall>v \<in> set argv. CHR 0x00 \<notin> set v) \<and> (argv = [] \<or> count + argv_bytes argv \<le> csl_max_argv_bytes limits)"
proof (induction argv arbitrary: count)
  case (Cons v argv)
  then show ?case
    using assms by (auto simp: checked_add_usize_def argv_bytes_def add.assoc)
qed simp

lemma validate_argv_Err:
  "validate_argv limits count argv = Err e \<Longrightarrow>
     ve_field e = ''argv'' \<and> ve_code e \<in> {VC_InvalidFormat, VC_InvalidLength}"
  by (induction limits count argv rule: validate_argv.induct)
    (auto simp: ValidationError_new_def split: if_splits option.splits)

lemma validate_argv_unit: "validate_argv limits count argv = Ok u \<longleftrightarrow> validate_argv limits count argv = Ok ()"
  by simp

text \<open>The commands that validation lets through.\<close>

definition valid_EffectiveCommand :: "CommandSizeLimits \<Rightarrow> EffectiveCommand \<Rightarrow> bool" where
  "valid_EffectiveCommand limits c \<longleftrightarrow>
     ecm_argv c \<noteq> [] \<and> length (ecm_argv c) \<le> csl_max_argv_elements limits
     \<and> argv_bytes (ecm_argv c) \<le> csl_max_argv_bytes limits
     \<and> list_all (\<lambda>v. CHR 0x00 \<notin> set v) (ecm_argv c)
     \<and> 1 \<le> ecm_timeout_seconds c \<and> ecm_timeout_seconds c \<le> 300"

lemma EffectiveCommand_validate_Ok_iff:
  assumes "csl_max_argv_bytes limits < 2 ^ 64"
  shows "EffectiveCommand_validate argv timeout limits = Ok c \<longleftrightarrow>
    valid_EffectiveCommand limits c \<and> ecm_argv c = argv
    \<and> ecm_timeout_seconds c = (case timeout of None \<Rightarrow> 30 | Some t \<Rightarrow> t)"
proof -
  let ?t = "case timeout of None \<Rightarrow> CommandTimeout_DEFAULT_SECONDS | Some t \<Rightarrow> t"
  have t: "?t = (case timeout of None \<Rightarrow> 30 | Some t \<Rightarrow> t)"
    by (cases timeout) (simp_all add: CommandTimeout_DEFAULT_SECONDS_def)
  have "EffectiveCommand_validate argv timeout limits = Ok c \<longleftrightarrow>
      argv \<noteq> [] \<and> length argv \<le> csl_max_argv_elements limits \<and> validate_argv limits 0 argv = Ok ()
      \<and> 1 \<le> ?t \<and> ?t \<le> 300 \<and> c = \<lparr>ecm_argv = argv, ecm_timeout_seconds = ?t\<rparr>"
    by (auto simp: EffectiveCommand_validate_def CommandTimeout_new_def CommandTimeout_MIN_SECONDS_def
        CommandTimeout_MAX_SECONDS_def split: sum.splits)
  also have "\<dots> \<longleftrightarrow> valid_EffectiveCommand limits c \<and> ecm_argv c = argv \<and> ecm_timeout_seconds c = ?t"
    by (cases c) (auto simp: validate_argv_Ok [OF assms] valid_EffectiveCommand_def list_all_iff)
  finally show ?thesis
    unfolding t .
qed

section \<open>The canonical encoding is injective\<close>

lemma length_to_be_bytes [simp]: "length (to_be_bytes k w) = k"
  by (simp add: to_be_bytes_def)

lemma to_be_bytes_nth: "i < k \<Longrightarrow> to_be_bytes k w ! (k - Suc i) = ucast (drop_bit (8 * i) w)"
  by (simp add: to_be_bytes_def rev_nth)

lemma to_be_bytes_inject:
  fixes v w :: "'a :: len word"
  assumes "LENGTH('a) \<le> 8 * k"
  shows "to_be_bytes k v = to_be_bytes k w \<longleftrightarrow> v = w"
proof
  assume eq: "to_be_bytes k v = to_be_bytes k w"
  show "v = w"
  proof (rule bit_word_eqI)
    fix n
    assume "n < LENGTH('a)"
    with assms have "n div 8 < k"
      by auto
    then have "(ucast (drop_bit (8 * (n div 8)) v) :: u8) = ucast (drop_bit (8 * (n div 8)) w)"
      using eq by (metis to_be_bytes_nth)
    then have "bit (ucast (drop_bit (8 * (n div 8)) v) :: u8) (n mod 8)
        \<longleftrightarrow> bit (ucast (drop_bit (8 * (n div 8)) w) :: u8) (n mod 8)"
      by simp
    then show "bit v n \<longleftrightarrow> bit w n"
      by (simp add: bit_simps)
  qed
qed simp

lemma u64_of_len_inject:
  assumes "m < 2 ^ 64" and "n < 2 ^ 64"
  shows "u64_of_len m = u64_of_len n \<longleftrightarrow> m = n"
proof -
  have "unat (u64_of_len m) = m" and "unat (u64_of_len n) = n"
    unfolding unat_u64_of_len using assms by linarith+
  then show ?thesis
    by metis
qed

lemma encode_arguments_inject:
  assumes "concat (map encode_argument xs) @ r = concat (map encode_argument ys) @ s"
    and "length xs = length ys"
    and "list_all (\<lambda>v. length v < 2 ^ 64) xs" and "list_all (\<lambda>v. length v < 2 ^ 64) ys"
  shows "xs = ys \<and> r = s"
  using assms(2,1,3,4)
proof (induction xs ys rule: list_induct2)
  case (Cons x xs y ys)
  let ?len = "\<lambda>v. to_be_bytes 8 (u64_of_len (length v))"
  have "?len x @ as_bytes x @ concat (map encode_argument xs) @ r
      = ?len y @ as_bytes y @ concat (map encode_argument ys) @ s"
    using Cons.prems(1) by (simp add: encode_argument_def [of x] encode_argument_def [of y])
  then have len: "?len x = ?len y"
    and rest: "as_bytes x @ concat (map encode_argument xs) @ r = as_bytes y @ concat (map encode_argument ys) @ s"
    by (metis append_eq_append_conv length_to_be_bytes)+
  from len have "length x = length y"
    using Cons.prems(2,3) by (simp add: to_be_bytes_inject u64_of_len_inject)
  with rest have "as_bytes x = as_bytes y"
    and "concat (map encode_argument xs) @ r = concat (map encode_argument ys) @ s"
    by (simp_all add: append_eq_append_conv)
  with Cons show ?case
    by (simp add: as_bytes_inject)
qed simp

definition encodable :: "EffectiveCommand \<Rightarrow> bool" where
  "encodable c \<longleftrightarrow> length (ecm_argv c) < 2 ^ 64 \<and> list_all (\<lambda>v. length v < 2 ^ 64) (ecm_argv c)"

lemma canonical_encoding_inject:
  assumes "encodable a" and "encodable b" and "canonical_encoding a = canonical_encoding b"
  shows "a = b"
proof -
  let ?t = "\<lambda>c. to_be_bytes 2 (ecm_timeout_seconds c)"
  have eq: "to_be_bytes 8 (u64_of_len (length (ecm_argv a))) = to_be_bytes 8 (u64_of_len (length (ecm_argv b)))"
    and rest: "concat (map encode_argument (ecm_argv a)) @ ?t a = concat (map encode_argument (ecm_argv b)) @ ?t b"
    using assms(3) by (simp_all add: canonical_encoding_def append_eq_append_conv)
  from eq have "length (ecm_argv a) = length (ecm_argv b)"
    using assms(1,2) by (simp add: encodable_def to_be_bytes_inject u64_of_len_inject)
  with encode_arguments_inject [OF rest] assms(1,2) have "ecm_argv a = ecm_argv b \<and> ?t a = ?t b"
    by (simp add: encodable_def)
  then show ?thesis
    by (simp add: to_be_bytes_inject)
qed

lemma member_length_le_argv_bytes: "v \<in> set argv \<Longrightarrow> length v \<le> argv_bytes argv"
  by (auto simp: argv_bytes_def intro: member_le_sum_list)

lemma valid_encodable:
  assumes "valid_EffectiveCommand limits c"
    and "csl_max_argv_elements limits < 2 ^ 64" and "csl_max_argv_bytes limits < 2 ^ 64"
  shows "encodable c"
  using assms member_length_le_argv_bytes [of _ "ecm_argv c"]
  by (fastforce simp: valid_EffectiveCommand_def encodable_def list_all_iff)

section \<open>The digest\<close>

lemma hex_digit_inject: "m < 16 \<Longrightarrow> n < 16 \<Longrightarrow> hex_digit m = hex_digit n \<longleftrightarrow> m = n"
proof -
  have "\<forall>m \<in> {..<16}. \<forall>n \<in> {..<16}. hex_digit m = hex_digit n \<longrightarrow> m = n"
    by (simp add: hex_digit_def char_of_eq_iff lessThan_nat_numeral lessThan_Suc)
  then show "m < 16 \<Longrightarrow> n < 16 \<Longrightarrow> hex_digit m = hex_digit n \<longleftrightarrow> m = n"
    by auto
qed

lemma hex_digit_lower: "n < 16 \<Longrightarrow> is_lower_hex (hex_digit n)"
proof -
  have "\<forall>n \<in> {..<16}. is_lower_hex (hex_digit n)"
    by (simp add: hex_digit_def is_lower_hex_def is_ascii_digit_def lessThan_nat_numeral lessThan_Suc)
  then show "n < 16 \<Longrightarrow> is_lower_hex (hex_digit n)"
    by auto
qed

lemma hex_byte_inject: "hex_byte a = hex_byte b \<longleftrightarrow> a = b"
proof
  have lt: "unat x div 16 < 16" for x :: u8
    using unsigned_less [of x, where 'a = nat] by simp
  assume "hex_byte a = hex_byte b"
  then have "unat a div 16 = unat b div 16" and "unat a mod 16 = unat b mod 16"
    using lt [of a] lt [of b] by (simp_all add: hex_byte_def hex_digit_inject)
  then have "unat a = unat b"
    by (metis div_mult_mod_eq)
  then show "a = b"
    by (simp add: word_unat_eq_iff)
qed simp

lemma length_hex_string [simp]: "length (hex_string bs) = 2 * length bs"
  by (induction bs) (simp_all add: hex_string_def hex_byte_def)

lemma hex_string_inject: "hex_string a = hex_string b \<longleftrightarrow> a = b"
proof
  assume eq: "hex_string a = hex_string b"
  then have "length a = length b"
    by (metis length_hex_string mult_left_cancel zero_neq_numeral)
  then show "a = b"
    using eq
  proof (induction a b rule: list_induct2)
    case (Cons x xs y ys)
    then show ?case
      using hex_byte_inject [of x y] by (simp add: hex_string_def hex_byte_def)
  qed simp
qed simp

lemma hex_string_lower: "list_all is_lower_hex (hex_string bs)"
proof (induction bs)
  case (Cons b bs)
  have "unat b div 16 < 16"
    using unsigned_less [of b, where 'a = nat] by simp
  with Cons show ?case
    by (simp add: hex_string_def hex_byte_def hex_digit_lower)
qed (simp add: hex_string_def)

lemma EffectiveCommand_digest_Some:
  "EffectiveCommand_digest sha256 c = Some d \<longleftrightarrow>
     length (sha256 (canonical_encoding c)) = 32 \<and> d = Sha256Digest (hex_string (sha256 (canonical_encoding c)))"
  by (auto simp: EffectiveCommand_digest_def Sha256Digest_parse_def hex_string_lower split: sum.splits)

end
