(* ===== verification/Dispatch_Store.thy ===== *)
theory Dispatch_Store
  imports Dispatch_Types
begin

text \<open>
  The durable dispatch records (\<^verbatim>\<open>src/src/dispatcher/store.rs\<close>): the record and its transitions,
  the result a record replays to, the directory of record files with the failure of each system
  call, and the table the dispatcher is modelled on, of which the directory is a refinement.
\<close>

section \<open>Records\<close>

definition DISPATCH_SCHEMA_VERSION :: u16 where
  "DISPATCH_SCHEMA_VERSION = 1"

definition MAX_DISPATCH_BYTES :: nat where
  "MAX_DISPATCH_BYTES = 64 * 1024"

datatype RecordStage =
    RS_GovernancePending | RS_HostDispatchPossible | RS_SandboxCreatePossible | RS_SandboxReady
  | RS_SandboxDispatchPossible | RS_Terminal

record CompletionMetadata =
  cm_exit_code :: ObservedExitCode
  cm_stdout_bytes :: u64
  cm_stderr_bytes :: u64

record DispatchRecord =
  dp_schema_version :: u16
  dp_dispatch_id :: DispatchId
  dp_command_digest :: Sha256Digest
  dp_selected_executor :: SelectedExecutor
  dp_stage :: RecordStage
  dp_governance :: "GovernanceOutcome option"
  dp_dispatch_state :: GovernedDispatchState
  dp_timeout_state :: TimeoutState
  dp_cleanup_id :: "RequestOwnedId option"
  dp_cleanup_state :: GovernedCleanupState
  dp_completion :: "CompletionMetadata option"
  dp_stdout_bytes_observed :: u64
  dp_stderr_bytes_observed :: u64
  dp_error :: "GovernedError option"

definition DispatchRecord_new :: "DispatchId \<Rightarrow> Sha256Digest \<Rightarrow> DispatchRecord" where
  "DispatchRecord_new dispatch_id command_digest =
     \<lparr>dp_schema_version = DISPATCH_SCHEMA_VERSION, dp_dispatch_id = dispatch_id,
      dp_command_digest = command_digest, dp_selected_executor = SE_None,
      dp_stage = RS_GovernancePending, dp_governance = None, dp_dispatch_state = GD_NotDispatched,
      dp_timeout_state = TS_NotObserved, dp_cleanup_id = None, dp_cleanup_state = GC_NotNeeded,
      dp_completion = None, dp_stdout_bytes_observed = 0, dp_stderr_bytes_observed = 0,
      dp_error = None\<rparr>"

definition select_host :: "GovernanceOutcome \<Rightarrow> DispatchRecord \<Rightarrow> DispatchRecord" where
  "select_host governance r =
     r\<lparr>dp_governance := Some governance, dp_selected_executor := SE_Host,
       dp_stage := RS_HostDispatchPossible, dp_dispatch_state := GD_PossiblyDispatched\<rparr>"

definition select_sandbox :: "GovernanceOutcome \<Rightarrow> RequestOwnedId \<Rightarrow> DispatchRecord \<Rightarrow> DispatchRecord" where
  "select_sandbox governance cleanup_id r =
     r\<lparr>dp_governance := Some governance, dp_selected_executor := SE_Sandbox,
       dp_stage := RS_SandboxCreatePossible, dp_cleanup_id := Some cleanup_id,
       dp_cleanup_state := GC_PendingReconciliation\<rparr>"

definition sandbox_ready :: "DispatchRecord \<Rightarrow> DispatchRecord" where
  "sandbox_ready r = r\<lparr>dp_stage := RS_SandboxReady\<rparr>"

definition sandbox_dispatch_possible :: "DispatchRecord \<Rightarrow> DispatchRecord" where
  "sandbox_dispatch_possible r =
     r\<lparr>dp_stage := RS_SandboxDispatchPossible, dp_dispatch_state := GD_PossiblyDispatched\<rparr>"

definition record_terminal :: "GovernedCommandResult \<Rightarrow> DispatchRecord \<Rightarrow> DispatchRecord" where
  "record_terminal result r =
     (let r1 = r\<lparr>dp_stage := RS_Terminal, dp_governance := Some (gr_governance result),
                 dp_selected_executor := gr_selected_executor result,
                 dp_dispatch_state := gr_dispatch_state result,
                 dp_timeout_state := gr_timeout_state result,
                 dp_cleanup_state := gr_cleanup_state result, dp_error := gr_error result,
                 dp_completion := None, dp_stdout_bytes_observed := 0, dp_stderr_bytes_observed := 0\<rparr>
      in case gr_execution_outcome result of
           EO_NotExecuted \<Rightarrow> r1
         | EO_Completed c \<Rightarrow>
             r1\<lparr>dp_completion := Some \<lparr>cm_exit_code = ec_exit_code c,
                 cm_stdout_bytes = u64_of_len (length (ec_stdout c)),
                 cm_stderr_bytes = u64_of_len (length (ec_stderr c))\<rparr>\<rparr>
         | EO_Indeterminate stdout_bytes stderr_bytes \<Rightarrow>
             r1\<lparr>dp_stdout_bytes_observed := stdout_bytes, dp_stderr_bytes_observed := stderr_bytes\<rparr>)"

definition cleanup_confirmed :: "DispatchRecord \<Rightarrow> DispatchRecord" where
  "cleanup_confirmed r = r\<lparr>dp_cleanup_state := GC_ConfirmedAbsent\<rparr>"

fun replayed_timeout :: "TimeoutState \<Rightarrow> ObservedTimeout" where
  "replayed_timeout TS_Confirmed = OT_Confirmed"
| "replayed_timeout TS_Possible = OT_Possible"
| "replayed_timeout TS_NotObserved = OT_NotObserved"
| "replayed_timeout TS_Unknown = OT_NotObserved"

definition replay_result :: "DispatchRecord \<Rightarrow> GovernedCommandResult" where
  "replay_result r =
     (let governance = (case dp_governance r of None \<Rightarrow> GO_Unavailable | Some g \<Rightarrow> g) in
      if dp_stage r \<noteq> RS_Terminal then
        let (execution, timeout) =
              (if dp_dispatch_state r = GD_PossiblyDispatched
               then (ExecutionOutcome_indeterminate OutputByteCounts_default, TS_Unknown)
               else (EO_NotExecuted, TS_NotObserved))
        in GovernedCommandResult_new (dp_dispatch_id r) governance (dp_selected_executor r)
             (dp_dispatch_state r) execution timeout (dp_cleanup_state r)
             (Some (GovernedError_new GE_ReplayIndeterminate EP_DispatchPersistence))
      else
        let execution =
              (case dp_completion r of
                 Some completion \<Rightarrow>
                   EO_Completed (ExecCompleted_new (cm_exit_code completion) [] []
                     (replayed_timeout (dp_timeout_state r)))
               | None \<Rightarrow>
                   if dp_dispatch_state r = GD_PossiblyDispatched
                   then EO_Indeterminate (dp_stdout_bytes_observed r) (dp_stderr_bytes_observed r)
                   else EO_NotExecuted)
        in GovernedCommandResult_new (dp_dispatch_id r) governance (dp_selected_executor r)
             (dp_dispatch_state r) execution (dp_timeout_state r) (dp_cleanup_state r) (dp_error r))"

datatype DispatchStoreError = DispatchStoreError

definition DispatchRecord_validate :: "DispatchRecord \<Rightarrow> DispatchStoreError + unit" where
  "DispatchRecord_validate r =
     (if dp_schema_version r \<noteq> DISPATCH_SCHEMA_VERSION
         \<or> (dp_selected_executor r \<noteq> SE_Sandbox \<and> dp_cleanup_id r \<noteq> None)
         \<or> (dp_stage r = RS_Terminal \<and> dp_dispatch_state r = GD_Completed \<and> dp_completion r = None)
         \<or> (dp_completion r \<noteq> None \<and> dp_dispatch_state r \<noteq> GD_Completed)
      then Err DispatchStoreError else Ok ())"

section \<open>The directory\<close>

definition LOCK_NAME :: string where
  "LOCK_NAME = ''.dispatcher.lock''"

text \<open>
  \<open>DispatchStore::initialize\<close>: the path is prepared as the cleanup store prepares its own, then
  the lock file is created or opened (\<open>lock_open\<close>) and made private (\<open>lock_chmod\<close>).
\<close>

definition DispatchStore_initialize ::
  "bool \<Rightarrow> bool \<Rightarrow> (u32 \<Rightarrow> u32 option) \<Rightarrow> bool \<Rightarrow> bool \<Rightarrow> string \<Rightarrow> directory_state \<times> directory \<Rightarrow>
   (DispatchStoreError + string) \<times> directory_state \<times> directory" where
  "DispatchStore_initialize mkdir_ok chmod_ok stat_mode lock_open lock_chmod path sd =
     (case sd of (s, d) \<Rightarrow>
        if path = [] then (Err DispatchStoreError, s, d)
        else
          let present =
                (case dir_present s of
                   Some k \<Rightarrow> if k \<noteq> DirectoryFile then None else Some s
                 | None \<Rightarrow> if mkdir_ok then Some (s\<lparr>dir_present := Some DirectoryFile\<rparr>) else None)
          in case present of
               None \<Rightarrow> (Err DispatchStoreError, s, d)
             | Some s1 \<Rightarrow>
                 if \<not> chmod_ok then (Err DispatchStoreError, s1, d)
                 else
                   let s2 = s1\<lparr>dir_mode := 448\<rparr> in
                   case stat_mode (dir_mode s2) of
                     None \<Rightarrow> (Err DispatchStoreError, s2, d)
                   | Some mode \<Rightarrow>
                       if mode AND 511 \<noteq> 448 \<or> \<not> lock_open then (Err DispatchStoreError, s2, d)
                       else
                         let created =
                               (case hm_get d LOCK_NAME of
                                  None \<Rightarrow> \<lparr>de_kind = RegularFile, de_mode = 384, de_content = []\<rparr>
                                | Some e \<Rightarrow> e);
                             d1 = hm_insert LOCK_NAME created d
                         in if \<not> lock_chmod then (Err DispatchStoreError, s2, d1)
                            else (Ok path, s2, hm_insert LOCK_NAME (created\<lparr>de_mode := 384\<rparr>) d1))"

definition dispatch_path :: "DispatchId \<Rightarrow> string" where
  "dispatch_path dispatch_id = did_str dispatch_id @ ''.json''"

definition dispatch_temporary_path :: "DispatchId \<Rightarrow> string \<Rightarrow> string" where
  "dispatch_temporary_path dispatch_id uuid = ''.'' @ did_str dispatch_id @ ''.'' @ uuid @ ''.tmp''"

text \<open>\<open>readable\<close> says whether the metadata and the content of a name can be read.\<close>

definition dispatch_load ::
  "DispatchRecord json_codec \<Rightarrow> (string \<Rightarrow> bool) \<Rightarrow> DispatchId \<Rightarrow> directory \<Rightarrow>
   DispatchStoreError + DispatchRecord option" where
  "dispatch_load J readable dispatch_id d =
     (let path = dispatch_path dispatch_id in
      if \<not> readable path then Err DispatchStoreError
      else case hm_get d path of
             None \<Rightarrow> Ok None
           | Some e \<Rightarrow>
               if de_kind e \<noteq> RegularFile \<or> de_mode e AND 63 \<noteq> 0 \<or> length (de_content e) > MAX_DISPATCH_BYTES
               then Err DispatchStoreError
               else case json_from_slice J (de_content e) of
                      None \<Rightarrow> Err DispatchStoreError
                    | Some r \<Rightarrow>
                        (case DispatchRecord_validate r of
                           Inl x \<Rightarrow> Err x
                         | Inr _ \<Rightarrow>
                             if dp_dispatch_id r \<noteq> dispatch_id then Err DispatchStoreError
                             else Ok (Some r)))"

text \<open>\<open>str::strip_suffix\<close>.\<close>

definition strip_suffix :: "string \<Rightarrow> string \<Rightarrow> string option" where
  "strip_suffix suffix s = map_option rev (strip_prefix (rev suffix) (rev s))"

fun dispatch_load_names ::
  "'u uuid_lib \<Rightarrow> DispatchRecord json_codec \<Rightarrow> (string \<Rightarrow> bool) \<Rightarrow> directory \<Rightarrow> string list \<Rightarrow>
   DispatchStoreError + DispatchRecord list" where
  "dispatch_load_names U J readable d [] = Ok []"
| "dispatch_load_names U J readable d (name # names) =
     (if \<not> is_utf8 name then Err DispatchStoreError
      else if starts_with ''.'' name then dispatch_load_names U J readable d names
      else case strip_suffix ''.json'' name of
             None \<Rightarrow> Err DispatchStoreError
           | Some text \<Rightarrow>
               (case DispatchId_parse U text of
                  Inl _ \<Rightarrow> Err DispatchStoreError
                | Inr dispatch_id \<Rightarrow>
                    (case dispatch_load J readable dispatch_id d of
                       Inl x \<Rightarrow> Err x
                     | Inr None \<Rightarrow> Err DispatchStoreError
                     | Inr (Some r) \<Rightarrow> map_sum id (Cons r) (dispatch_load_names U J readable d names))))"

definition dispatch_load_all ::
  "'u uuid_lib \<Rightarrow> DispatchRecord json_codec \<Rightarrow> bool \<Rightarrow> (string \<Rightarrow> bool) \<Rightarrow> directory \<Rightarrow>
   DispatchStoreError + DispatchRecord list" where
  "dispatch_load_all U J listed readable d =
     (if \<not> listed then Err DispatchStoreError
      else map_sum id (sort_key dp_dispatch_id) (dispatch_load_names U J readable d (map fst d)))"

text \<open>
  \<open>write\<close> has the same closure of system calls as the cleanup store, so it uses the same
  definition of it.
\<close>

definition dispatch_write ::
  "DispatchRecord json_codec \<Rightarrow> write_faults \<Rightarrow> DispatchRecord \<Rightarrow> directory \<Rightarrow>
   (DispatchStoreError + unit) \<times> directory" where
  "dispatch_write J F r d =
     (case DispatchRecord_validate r of
        Inl e \<Rightarrow> (Err e, d)
      | Inr _ \<Rightarrow>
          (case json_to_vec J r of
             None \<Rightarrow> (Err DispatchStoreError, d)
           | Some body \<Rightarrow>
               if body = [] \<or> length body > MAX_DISPATCH_BYTES then (Err DispatchStoreError, d)
               else
                 let target = dispatch_path (dp_dispatch_id r);
                     temporary = dispatch_temporary_path (dp_dispatch_id r) (wf_uuid F);
                     (result, d1) = write_through_temporary F temporary target body d;
                     d2 = (if \<not> is_ok result \<and> \<not> wf_unlink F then hm_remove temporary d1 else d1)
                 in (map_sum (\<lambda>_. DispatchStoreError) id result, d2)))"

section \<open>The table\<close>

type_synonym dispatch_table = "(DispatchId, DispatchRecord) hm"

definition dtable_write ::
  "write_outcome \<Rightarrow> DispatchRecord \<Rightarrow> dispatch_table \<Rightarrow> (DispatchStoreError + unit) \<times> dispatch_table" where
  "dtable_write outcome r t =
     (case DispatchRecord_validate r of
        Inl e \<Rightarrow> (Err e, t)
      | Inr _ \<Rightarrow>
          (case outcome of
             WriteOk \<Rightarrow> (Ok (), hm_insert (dp_dispatch_id r) r t)
           | WriteFailedKept \<Rightarrow> (Err DispatchStoreError, t)
           | WriteFailedReplaced \<Rightarrow> (Err DispatchStoreError, hm_insert (dp_dispatch_id r) r t)))"

definition dtable_load :: "bool \<Rightarrow> DispatchId \<Rightarrow> dispatch_table \<Rightarrow> DispatchStoreError + DispatchRecord option" where
  "dtable_load readable dispatch_id t =
     (if \<not> readable then Err DispatchStoreError else Ok (hm_get t dispatch_id))"

definition dtable_load_all :: "bool \<Rightarrow> dispatch_table \<Rightarrow> DispatchStoreError + DispatchRecord list" where
  "dtable_load_all readable t =
     (if \<not> readable then Err DispatchStoreError else Ok (sort_key dp_dispatch_id (map snd t)))"

definition dtable_invar :: "dispatch_table \<Rightarrow> bool" where
  "dtable_invar t \<longleftrightarrow> hm_invar t
     \<and> (\<forall>(i, r) \<in> set t. dp_dispatch_id r = i \<and> is_ok (DispatchRecord_validate r))"

lemmas [dispatch_defs] =
  DispatchRecord_new_def select_host_def select_sandbox_def sandbox_ready_def
  sandbox_dispatch_possible_def cleanup_confirmed_def DISPATCH_SCHEMA_VERSION_def

section \<open>The table keeps its contract\<close>

lemma DispatchRecord_validate_Ok: "DispatchRecord_validate r = Ok u \<longleftrightarrow> is_ok (DispatchRecord_validate r)"
  by (simp add: DispatchRecord_validate_def)

lemma dtable_invar_iff:
  "dtable_invar t \<longleftrightarrow> hm_invar t
     \<and> (\<forall>i r. hm_get t i = Some r \<longrightarrow> dp_dispatch_id r = i \<and> is_ok (DispatchRecord_validate r))"
  unfolding dtable_invar_def by (cases "hm_invar t") (simp_all add: hm_ball)

lemma dtable_invar_insert:
  "dtable_invar t \<Longrightarrow> is_ok (DispatchRecord_validate r) \<Longrightarrow> dtable_invar (hm_insert (dp_dispatch_id r) r t)"
  by (auto simp: dtable_invar_iff)

interpretation dispatch_table:
  keyed_store dp_dispatch_id dtable_invar hm_get "\<lambda>_. True" dtable_write dtable_load_all
proof unfold_locales
  fix h t rs
  assume "dtable_invar t" and "dtable_load_all h t = Ok rs"
  then have "rs = sort_key dp_dispatch_id (map snd t)"
    by (simp add: dtable_load_all_def split: if_splits)
  with hm_listing [of t dp_dispatch_id] \<open>dtable_invar t\<close>
  show "sorted_wrt (<) (map dp_dispatch_id rs) \<and> (\<forall>r. r \<in> set rs \<longleftrightarrow> hm_get t (dp_dispatch_id r) = Some r)"
    by (simp add: dtable_invar_iff)
qed (auto simp: dtable_write_def hm_get_insert_fun is_ok_def dtable_invar_iff
    split: sum.splits write_outcome.splits option.splits)

section \<open>The directory keeps its contract\<close>

definition ddir_lookup :: "DispatchRecord json_codec \<Rightarrow> directory \<Rightarrow> DispatchId \<Rightarrow> DispatchRecord option" where
  "ddir_lookup J d i =
     (if starts_with ''.'' (dispatch_path i) then None
      else case hm_get d (dispatch_path i) of
             None \<Rightarrow> None
           | Some e \<Rightarrow> json_from_slice J (de_content e))"

text \<open>Every visible file is the record of a dispatch identifier, and loads.\<close>

definition ddir_invar :: "'u uuid_lib \<Rightarrow> DispatchRecord json_codec \<Rightarrow> directory \<Rightarrow> bool" where
  "ddir_invar U J d \<longleftrightarrow> hm_invar d \<and> (\<forall>name. hm_get d name \<noteq> None \<longrightarrow> starts_with ''.'' name \<or>
     (is_utf8 name \<and> (\<exists>i r. name = dispatch_path i \<and> valid_uuid_text U (did_str i)
        \<and> dispatch_load J (\<lambda>_. True) i d = Ok (Some r))))"

definition is_uuid_char :: "char \<Rightarrow> bool" where
  "is_uuid_char c \<longleftrightarrow> is_lower_hex c \<or> c = CHR ''-''"

text \<open>
  The hypotheses on the libraries: the text of the identifier is hexadecimal digits and hyphens, and
  a record that encodes decodes to itself.
\<close>

definition dstorable :: "'u uuid_lib \<Rightarrow> DispatchRecord json_codec \<Rightarrow> DispatchRecord \<Rightarrow> bool" where
  "dstorable U J r \<longleftrightarrow> valid_uuid_text U (did_str (dp_dispatch_id r))
     \<and> did_str (dp_dispatch_id r) \<noteq> [] \<and> list_all is_uuid_char (did_str (dp_dispatch_id r))
     \<and> (\<forall>body. json_to_vec J r = Some body \<longrightarrow> json_from_slice J body = Some r)"

lemma dispatch_path_inj [simp]: "dispatch_path i = dispatch_path j \<longleftrightarrow> i = j"
  by (cases i; cases j) (simp add: dispatch_path_def)

lemma dispatch_temporary_hidden [simp]: "starts_with ''.'' (dispatch_temporary_path i u)"
  by (simp add: dispatch_temporary_path_def starts_with_def)

lemma strip_suffix_Some: "strip_suffix suffix s = Some t \<longleftrightarrow> s = t @ suffix"
proof -
  have "strip_suffix suffix s = Some t \<longleftrightarrow> (\<exists>zs. rev s = rev suffix @ zs \<and> t = rev zs)"
    by (auto simp: strip_suffix_def strip_prefix_Some)
  also have "\<dots> \<longleftrightarrow> rev s = rev suffix @ rev t"
    by (metis rev_rev_ident)
  also have "\<dots> \<longleftrightarrow> s = t @ suffix"
    by (metis rev_append rev_is_rev_conv)
  finally show ?thesis .
qed

lemma uuid_char_ascii: "is_uuid_char c \<Longrightarrow> is_ascii c"
  using lower_hex_ascii [of c] by (auto simp: is_uuid_char_def is_ascii_def)

lemma dstorable_path:
  assumes "dstorable U J r"
  shows "\<not> starts_with ''.'' (dispatch_path (dp_dispatch_id r))" and "is_utf8 (dispatch_path (dp_dispatch_id r))"
proof -
  obtain c cs where str: "did_str (dp_dispatch_id r) = c # cs"
    using assms by (cases "did_str (dp_dispatch_id r)") (auto simp: dstorable_def)
  then have "is_uuid_char c"
    using assms by (simp add: dstorable_def)
  then have "c \<noteq> CHR ''.''"
    by (auto simp: is_uuid_char_def is_lower_hex_def is_ascii_digit_def)
  then show "\<not> starts_with ''.'' (dispatch_path (dp_dispatch_id r))"
    by (simp add: dispatch_path_def starts_with_def str)
  have "list_all is_ascii (did_str (dp_dispatch_id r))"
    using assms uuid_char_ascii by (auto simp: dstorable_def list_all_iff)
  then show "is_utf8 (dispatch_path (dp_dispatch_id r))"
    by (intro is_utf8_ascii) (simp add: dispatch_path_def is_ascii_def)
qed

lemma dispatch_load_Some:
  "dispatch_load J readable i d = Ok (Some r) \<Longrightarrow>
     (\<exists>e. hm_get d (dispatch_path i) = Some e \<and> json_from_slice J (de_content e) = Some r)
     \<and> dp_dispatch_id r = i \<and> is_ok (DispatchRecord_validate r)"
  by (auto simp: dispatch_load_def Let_def split: if_splits option.splits sum.splits)

lemma dispatch_load_all_readable:
  "dispatch_load J readable i d = Ok found \<Longrightarrow> dispatch_load J (\<lambda>_. True) i d = Ok found"
  by (auto simp: dispatch_load_def Let_def split: if_splits)

text \<open>A load depends on one entry of the directory only.\<close>

lemma dispatch_load_cong:
  "hm_get d' (dispatch_path i) = hm_get d (dispatch_path i) \<Longrightarrow>
     dispatch_load J readable i d' = dispatch_load J readable i d"
  by (simp add: dispatch_load_def Let_def)

lemma ddir_invarD:
  assumes "ddir_invar U J d" and "hm_get d name \<noteq> None" and "\<not> starts_with ''.'' name"
  shows "is_utf8 name \<and> (\<exists>i r. name = dispatch_path i \<and> valid_uuid_text U (did_str i)
        \<and> dispatch_load J (\<lambda>_. True) i d = Ok (Some r))"
  using assms unfolding ddir_invar_def by blast

lemma ddir_invar_hm: "ddir_invar U J d \<Longrightarrow> hm_invar d"
  by (simp add: ddir_invar_def)

lemma dispatch_load_lookup:
  assumes "ddir_invar U J d" and "\<not> starts_with ''.'' (dispatch_path i)"
  shows "dispatch_load J (\<lambda>_. True) i d = Ok (ddir_lookup J d i)"
proof (cases "hm_get d (dispatch_path i)")
  case None
  then show ?thesis
    by (simp add: dispatch_load_def ddir_lookup_def)
next
  case (Some e)
  then obtain r where "dispatch_load J (\<lambda>_. True) i d = Ok (Some r)"
    using assms by (auto simp: ddir_invar_def)
  with dispatch_load_Some [OF this] assms(2) show ?thesis
    by (auto simp: ddir_lookup_def)
qed

lemma ddir_lookup_id:
  assumes "ddir_invar U J d" and "ddir_lookup J d i = Some r"
  shows "dp_dispatch_id r = i \<and> is_ok (DispatchRecord_validate r)"
proof -
  have "\<not> starts_with ''.'' (dispatch_path i)"
    using assms(2) by (auto simp: ddir_lookup_def split: if_splits)
  from dispatch_load_lookup [OF assms(1) this] have "dispatch_load J (\<lambda>_. True) i d = Ok (Some r)"
    using assms(2) by simp
  from dispatch_load_Some [OF this] show ?thesis
    by blast
qed

lemma ddir_hidden_update [simp]:
  assumes "starts_with ''.'' name"
  shows "ddir_lookup J (hm_insert name e d) = ddir_lookup J d"
    and "ddir_lookup J (hm_remove name d) = ddir_lookup J d"
  using assms by (auto simp: ddir_lookup_def)

lemma ddir_invar_hidden:
  assumes "ddir_invar U J d" and "starts_with ''.'' name"
    and "\<And>other. other \<noteq> name \<Longrightarrow> hm_get d' other = hm_get d other" and "hm_invar d'"
  shows "ddir_invar U J d'"
  unfolding ddir_invar_def
proof (intro conjI allI impI)
  fix other
  assume present: "hm_get d' other \<noteq> None"
  show "starts_with ''.'' other \<or> (is_utf8 other \<and> (\<exists>i r. other = dispatch_path i
      \<and> valid_uuid_text U (did_str i) \<and> dispatch_load J (\<lambda>_. True) i d' = Ok (Some r)))"
  proof (cases "starts_with ''.'' other")
    case False
    with assms(2) have "other \<noteq> name"
      by metis
    then have "hm_get d' other = hm_get d other"
      by (rule assms(3))
    moreover from this present have "hm_get d other \<noteq> None"
      by simp
    with ddir_invarD [OF assms(1) this False] obtain i r where "is_utf8 other" "other = dispatch_path i"
        "valid_uuid_text U (did_str i)" "dispatch_load J (\<lambda>_. True) i d = Ok (Some r)"
      by blast
    moreover from calculation
    have "dispatch_load J (\<lambda>_. True) i d' = dispatch_load J (\<lambda>_. True) i d"
      by (intro dispatch_load_cong) simp
    ultimately show ?thesis
      by metis
  qed simp
qed (rule assms(4))

lemma ddir_invar_hidden_update [simp]:
  assumes "ddir_invar U J d" and "starts_with ''.'' name"
  shows "ddir_invar U J (hm_insert name e d)" and "ddir_invar U J (hm_remove name d)"
  using ddir_invar_hm [OF assms(1)] by (intro ddir_invar_hidden [OF assms]; simp)+

text \<open>Placing the file of a record.\<close>

lemma ddir_placed:
  assumes "ddir_invar U J d" and "dstorable U J r" and "json_to_vec J r = Some body"
    and "length body \<le> MAX_DISPATCH_BYTES" and "is_ok (DispatchRecord_validate r)"
  defines "f \<equiv> \<lparr>de_kind = RegularFile, de_mode = 384, de_content = body\<rparr>"
  shows "ddir_lookup J (hm_insert (dispatch_path (dp_dispatch_id r)) f d) = (ddir_lookup J d)(dp_dispatch_id r \<mapsto> r)"
    and "ddir_invar U J (hm_insert (dispatch_path (dp_dispatch_id r)) f d)"
proof -
  let ?i = "dp_dispatch_id r" and ?d = "hm_insert (dispatch_path (dp_dispatch_id r)) f d"
  have loaded: "dispatch_load J (\<lambda>_. True) ?i ?d = Ok (Some r)"
    using assms by (auto simp: dispatch_load_def dstorable_def is_ok_def split: sum.splits)
  show "ddir_lookup J ?d = (ddir_lookup J d)(?i \<mapsto> r)"
    using assms dstorable_path [OF assms(2)] by (auto simp: ddir_lookup_def dstorable_def)
  show "ddir_invar U J ?d"
    unfolding ddir_invar_def
  proof (intro conjI allI impI)
    fix name
    assume present: "hm_get ?d name \<noteq> None"
    show "starts_with ''.'' name \<or> (is_utf8 name \<and> (\<exists>i r. name = dispatch_path i
        \<and> valid_uuid_text U (did_str i) \<and> dispatch_load J (\<lambda>_. True) i ?d = Ok (Some r)))"
    proof (cases "name = dispatch_path ?i")
      case True
      with loaded dstorable_path [OF assms(2)] assms(2) show ?thesis
        by (auto simp: dstorable_def)
    next
      case False
      then have eq: "hm_get ?d name = hm_get d name"
        by simp
      with present have "hm_get d name \<noteq> None"
        by simp
      then consider "starts_with ''.'' name" | i r' where "is_utf8 name"
          "name = dispatch_path i" "valid_uuid_text U (did_str i)" "dispatch_load J (\<lambda>_. True) i d = Ok (Some r')"
        using ddir_invarD [OF assms(1)] by blast
      then show ?thesis
        by cases (use eq dispatch_load_cong [of ?d _ d] in auto)
    qed
  qed (use assms(1) in \<open>simp add: ddir_invar_def\<close>)
qed

lemma dispatch_write_cases:
  assumes inv: "ddir_invar U J d" and st: "dstorable U J r"
  shows "ddir_invar U J (snd (dispatch_write J F r d)) \<and>
    ((fst (dispatch_write J F r d) = Ok () \<and> is_ok (DispatchRecord_validate r)
        \<and> ddir_lookup J (snd (dispatch_write J F r d)) = (ddir_lookup J d)(dp_dispatch_id r \<mapsto> r))
     \<or> (fst (dispatch_write J F r d) = Err DispatchStoreError \<and> is_ok (DispatchRecord_validate r)
        \<and> ddir_lookup J (snd (dispatch_write J F r d)) = (ddir_lookup J d)(dp_dispatch_id r \<mapsto> r))
     \<or> (fst (dispatch_write J F r d) = Err DispatchStoreError
        \<and> ddir_lookup J (snd (dispatch_write J F r d)) = ddir_lookup J d))"
proof -
  define target where "target = dispatch_path (dp_dispatch_id r)"
  define temporary where "temporary = dispatch_temporary_path (dp_dispatch_id r) (wf_uuid F)"
  have hidden: "starts_with ''.'' temporary"
    by (simp add: temporary_def)
  have placed: "ddir_lookup J (hm_insert target f d') = (ddir_lookup J d')(dp_dispatch_id r \<mapsto> r)
      \<and> ddir_invar U J (hm_insert target f d')"
    if "ddir_invar U J d'" and "json_to_vec J r = Some body" and "length body \<le> MAX_DISPATCH_BYTES"
      and "is_ok (DispatchRecord_validate r)"
      and "f = \<lparr>de_kind = RegularFile, de_mode = 384, de_content = body\<rparr>" for body f d'
    using ddir_placed [OF that(1) st that(2-4)] that(5) by (simp add: target_def)
  show ?thesis
    using inv hidden placed
    by (auto simp: dispatch_write_def write_through_temporary_def Let_def is_ok_def
        DispatchRecord_validate_def target_def [symmetric] temporary_def [symmetric]
        split: option.splits sum.splits if_splits)
qed

lemma dispatch_load_names_Ok:
  "dispatch_load_names U J readable d names = Ok rs \<Longrightarrow>
     map (dispatch_path \<circ> dp_dispatch_id) rs = filter (\<lambda>name. \<not> starts_with ''.'' name) names
     \<and> (\<forall>r \<in> set rs. dispatch_load J readable (dp_dispatch_id r) d = Ok (Some r))"
proof (induction U J readable d names arbitrary: rs rule: dispatch_load_names.induct)
  case (2 U J readable d name names)
  show ?case
  proof (cases "starts_with ''.'' name")
    case True
    with 2 show ?thesis
      by (auto split: if_splits)
  next
    case False
    obtain stem i r rs' where stem: "strip_suffix ''.json'' name = Some stem" "DispatchId_parse U stem = Ok i"
      and r: "dispatch_load J readable i d = Ok (Some r)"
      and rs': "dispatch_load_names U J readable d names = Ok rs'" and "rs = r # rs'"
      and utf8: "is_utf8 name"
      using 2(3) False by (auto simp: map_sum_def split: if_splits option.splits sum.splits)
    moreover have "name = dispatch_path i"
      using stem by (auto simp: strip_suffix_Some DispatchId_parse_Ok dispatch_path_def)
    moreover have "dp_dispatch_id r = i"
      using dispatch_load_Some [OF r] by simp
    ultimately show ?thesis
      using 2(2) [of stem i "Some r" r rs'] False by simp
  qed
qed simp

lemma dispatch_load_all_Ok:
  assumes inv: "ddir_invar U J d" and load: "dispatch_load_all U J listed readable d = Ok rs"
  shows "sorted_wrt (<) (map dp_dispatch_id rs)
    \<and> (\<forall>r. r \<in> set rs \<longleftrightarrow> ddir_lookup J d (dp_dispatch_id r) = Some r)"
proof -
  obtain rs0 where rs0: "dispatch_load_names U J readable d (map fst d) = Ok rs0"
    and rs: "rs = sort_key dp_dispatch_id rs0"
    using load by (auto simp: dispatch_load_all_def map_sum_def split: if_splits sum.splits)
  note names = dispatch_load_names_Ok [OF rs0]
  have dist: "distinct (map (dispatch_path \<circ> dp_dispatch_id) rs0)"
    unfolding conjunct1 [OF names] using ddir_invar_hm [OF inv] by (simp add: hm_invar_def)
  then have "distinct (map dp_dispatch_id rs0)"
    by (simp add: distinct_map inj_on_def)
  moreover have "r \<in> set rs0 \<longleftrightarrow> ddir_lookup J d (dp_dispatch_id r) = Some r" for r
  proof
    assume "r \<in> set rs0"
    then have "dispatch_path (dp_dispatch_id r) \<in> set (map (dispatch_path \<circ> dp_dispatch_id) rs0)"
      by simp
    moreover from \<open>r \<in> set rs0\<close> have "dispatch_load J (\<lambda>_. True) (dp_dispatch_id r) d = Ok (Some r)"
      using names by (auto intro: dispatch_load_all_readable)
    ultimately show "ddir_lookup J d (dp_dispatch_id r) = Some r"
      using dispatch_load_lookup [OF inv, of "dp_dispatch_id r"]
      unfolding conjunct1 [OF names] by simp
  next
    assume found: "ddir_lookup J d (dp_dispatch_id r) = Some r"
    then have "dispatch_path (dp_dispatch_id r) \<in> set (filter (\<lambda>name. \<not> starts_with ''.'' name) (map fst d))"
      using hm_dom [of d] by (auto simp: ddir_lookup_def split: if_splits option.splits)
    then obtain r' where r': "r' \<in> set rs0" "dp_dispatch_id r' = dp_dispatch_id r"
      unfolding conjunct1 [OF names, symmetric] by auto
    then have "dispatch_load J (\<lambda>_. True) (dp_dispatch_id r) d = Ok (Some r')"
      using names by (metis dispatch_load_all_readable)
    moreover have "\<not> starts_with ''.'' (dispatch_path (dp_dispatch_id r))"
      using found by (auto simp: ddir_lookup_def split: if_splits)
    ultimately have "r' = r"
      using dispatch_load_lookup [OF inv, of "dp_dispatch_id r"] found by simp
    with r' show "r \<in> set rs0"
      by simp
  qed
  ultimately show ?thesis
    unfolding rs by (simp add: sort_key_strict)
qed

interpretation dispatch_directory:
  keyed_store dp_dispatch_id "ddir_invar U J" "ddir_lookup J" "dstorable U J" "dispatch_write J"
    "\<lambda>(listed, readable). dispatch_load_all U J listed readable" for U J
proof unfold_locales
  fix d i r
  assume "ddir_invar U J d" and "ddir_lookup J d i = Some r"
  then show "dp_dispatch_id r = i"
    by (simp add: ddir_lookup_id)
next
  fix h d rs
  assume "ddir_invar U J d" and "(case h of (listed, readable) \<Rightarrow> dispatch_load_all U J listed readable) d = Ok rs"
  then show "sorted_wrt (<) (map dp_dispatch_id rs)
      \<and> (\<forall>r. r \<in> set rs \<longleftrightarrow> ddir_lookup J d (dp_dispatch_id r) = Some r)"
    by (cases h) (simp add: dispatch_load_all_Ok)
next
  fix d r f
  assume *: "ddir_invar U J d" "dstorable U J r"
  show "ddir_invar U J (snd (dispatch_write J f r d))"
    using dispatch_write_cases [OF *, of f] by blast
  show "ddir_lookup J (snd (dispatch_write J f r d)) = (ddir_lookup J d)(dp_dispatch_id r \<mapsto> r)"
    if "fst (dispatch_write J f r d) = Ok ()"
    using dispatch_write_cases [OF *, of f] that by auto
  show "ddir_lookup J (snd (dispatch_write J f r d))
      \<in> {ddir_lookup J d, (ddir_lookup J d)(dp_dispatch_id r \<mapsto> r)}"
    if "fst (dispatch_write J f r d) = Err e" for e
    using dispatch_write_cases [OF *, of f] by auto
qed

section \<open>The directory refines the table\<close>

definition ddir_refines ::
  "'u uuid_lib \<Rightarrow> DispatchRecord json_codec \<Rightarrow> directory \<Rightarrow> dispatch_table \<Rightarrow> bool" where
  "ddir_refines U J d t \<longleftrightarrow> ddir_invar U J d \<and> dtable_invar t \<and> hm_get t = ddir_lookup J d"

lemma dispatch_write_refines:
  assumes "ddir_refines U J d t" and "dstorable U J r"
  shows "\<exists>outcome. fst (dtable_write outcome r t) = fst (dispatch_write J F r d)
    \<and> ddir_refines U J (snd (dispatch_write J F r d)) (snd (dtable_write outcome r t))"
proof -
  have inv: "ddir_invar U J d" "dtable_invar t" "hm_get t = ddir_lookup J d"
    using assms(1) by (simp_all add: ddir_refines_def)
  have step: ?thesis
    if "fst (dtable_write outcome r t) = fst (dispatch_write J F r d)"
      and "hm_get (snd (dtable_write outcome r t)) = ddir_lookup J (snd (dispatch_write J F r d))" for outcome
    using that inv dispatch_write_cases [OF inv(1) assms(2), of F]
      dispatch_table.write_invar [OF inv(2) TrueI, of outcome r]
    by (auto simp: ddir_refines_def)
  from dispatch_write_cases [OF inv(1) assms(2), of F] show ?thesis
  proof (elim conjE disjE)
    assume "fst (dispatch_write J F r d) = Ok ()" "is_ok (DispatchRecord_validate r)"
      "ddir_lookup J (snd (dispatch_write J F r d)) = (ddir_lookup J d)(dp_dispatch_id r \<mapsto> r)"
    with inv show ?thesis
      by (intro step [of WriteOk]) (auto simp: dtable_write_def is_ok_iff hm_get_insert_fun)
  next
    assume "fst (dispatch_write J F r d) = Err DispatchStoreError" "is_ok (DispatchRecord_validate r)"
      "ddir_lookup J (snd (dispatch_write J F r d)) = (ddir_lookup J d)(dp_dispatch_id r \<mapsto> r)"
    with inv show ?thesis
      by (intro step [of WriteFailedReplaced]) (auto simp: dtable_write_def is_ok_iff hm_get_insert_fun)
  next
    assume "fst (dispatch_write J F r d) = Err DispatchStoreError"
      "ddir_lookup J (snd (dispatch_write J F r d)) = ddir_lookup J d"
    with inv show ?thesis
      by (intro step [of WriteFailedKept])
        (auto simp: dtable_write_def DispatchRecord_validate_def split: sum.splits)
  qed
qed

lemma dispatch_load_refines:
  assumes "ddir_refines U J d t" and "\<not> starts_with ''.'' (did_str i)" and "did_str i \<noteq> []"
  shows "\<exists>ok. dispatch_load J readable i d = dtable_load ok i t"
proof -
  have "\<not> starts_with ''.'' (dispatch_path i)"
    using assms(2,3) by (cases "did_str i") (auto simp: starts_with_def dispatch_path_def)
  then have "dispatch_load J (\<lambda>_. True) i d = Ok (hm_get t i)"
    using assms(1) dispatch_load_lookup by (auto simp: ddir_refines_def)
  then have "dispatch_load J readable i d = dtable_load (readable (dispatch_path i)) i t"
    by (simp add: dispatch_load_def dtable_load_def Let_def split: if_splits)
  then show ?thesis ..
qed

lemma dispatch_load_all_refines:
  assumes "ddir_refines U J d t" and "dispatch_load_all U J listed readable d = Ok rs"
  shows "dtable_load_all True t = Ok rs"
proof -
  obtain rs' where rs': "dtable_load_all True t = Ok rs'"
    by (simp add: dtable_load_all_def)
  have inv: "ddir_invar U J d" "dtable_invar t" "hm_get t = ddir_lookup J d"
    using assms(1) by (simp_all add: ddir_refines_def)
  have "rs = rs'"
    using dispatch_load_all_Ok [OF inv(1) assms(2)] dispatch_table.load_Ok [OF inv(2) rs'] inv(3)
    by (intro strictly_sorted_unique [of dp_dispatch_id]) auto
  with rs' show ?thesis by simp
qed

section \<open>Transitions and replay\<close>

text \<open>A result and a record that the dispatcher may combine.\<close>

definition consistent_result :: "GovernedCommandResult \<Rightarrow> bool" where
  "consistent_result result \<longleftrightarrow>
     (case gr_execution_outcome result of
        EO_NotExecuted \<Rightarrow> gr_dispatch_state result = GD_NotDispatched
      | EO_Completed c \<Rightarrow> gr_dispatch_state result = GD_Completed
          \<and> gr_timeout_state result = TimeoutState_from_observed (ec_timeout c)
      | EO_Indeterminate _ _ \<Rightarrow> gr_dispatch_state result = GD_PossiblyDispatched)"

lemma validate_terminal:
  assumes "is_ok (DispatchRecord_validate r)" and "consistent_result result"
    and "dp_cleanup_id r \<noteq> None \<longrightarrow> gr_selected_executor result = SE_Sandbox"
  shows "is_ok (DispatchRecord_validate (record_terminal result r))"
  using assms
  by (cases "gr_execution_outcome result")
    (auto simp: DispatchRecord_validate_def record_terminal_def Let_def consistent_result_def split: if_splits)

lemma validate_steps [simp]:
  "is_ok (DispatchRecord_validate (DispatchRecord_new i digest))"
  "is_ok (DispatchRecord_validate r) \<Longrightarrow> dp_completion r = None \<Longrightarrow> dp_cleanup_id r = None \<Longrightarrow>
     is_ok (DispatchRecord_validate (select_host g r))"
  "is_ok (DispatchRecord_validate r) \<Longrightarrow> dp_completion r = None \<Longrightarrow>
     is_ok (DispatchRecord_validate (select_sandbox g c r))"
  "is_ok (DispatchRecord_validate r) \<Longrightarrow> is_ok (DispatchRecord_validate (sandbox_ready r))"
  "is_ok (DispatchRecord_validate r) \<Longrightarrow> dp_completion r = None \<Longrightarrow>
     is_ok (DispatchRecord_validate (sandbox_dispatch_possible r))"
  "is_ok (DispatchRecord_validate (cleanup_confirmed r)) = is_ok (DispatchRecord_validate r)"
  by (auto simp: DispatchRecord_validate_def dispatch_defs split: if_splits)

text \<open>What a replay keeps of a result: everything but the output bodies and the sandbox evidence.\<close>

definition without_output :: "ExecutionOutcome \<Rightarrow> ExecutionOutcome" where
  "without_output outcome =
     (case outcome of
        EO_Completed c \<Rightarrow> EO_Completed (ExecCompleted_new (ec_exit_code c) [] [] (ec_timeout c))
      | _ \<Rightarrow> outcome)"

lemma replayed_timeout_from [simp]: "replayed_timeout (TimeoutState_from_observed t) = t"
  by (cases t) simp_all

lemma replay_of_terminal:
  assumes "consistent_result result" and "dp_dispatch_id r = gr_dispatch_id result"
  shows "replay_result (record_terminal result r) =
    result\<lparr>gr_execution_outcome := without_output (gr_execution_outcome result)\<rparr>"
  using assms
  by (cases "gr_execution_outcome result")
    (auto simp: replay_result_def record_terminal_def Let_def consistent_result_def without_output_def
      GovernedCommandResult_new_def)

end
