(* ===== verification/Governance.thy ===== *)
theory Governance
  imports Dispatch_Types
begin

text \<open>
  The check of a governance response (\<open>validate_governance_response\<close> of
  \<^verbatim>\<open>src/src/dispatcher/mod.rs\<close>), in the order of the source, and the exact set of responses it
  accepts. A JSON object is a list of entries; \<open>serde_json\<close> keeps one entry per key.
\<close>

definition GOVERNANCE_FIELDS :: "string list" where
  "GOVERNANCE_FIELDS =
     [''activity_id'', ''verdict'', ''action'', ''authoritative'', ''synthetic'', ''fallback_used'',
      ''guardrails_passed'', ''stale'', ''constraints'', ''remediation'', ''patch'', ''replacement'',
      ''transformation'']"

definition REMEDIATION_FIELDS :: "string list" where
  "REMEDIATION_FIELDS = [''remediation'', ''patch'', ''replacement'', ''transformation'']"

text \<open>\<open>object.get(key).and_then(as_str)\<close> and its companions.\<close>

definition object_str :: "(string \<times> json) list \<Rightarrow> string \<Rightarrow> string option" where
  "object_str entries k = Option.bind (map_of entries k) json_as_str"

definition object_bool :: "(string \<times> json) list \<Rightarrow> string \<Rightarrow> bool option" where
  "object_bool entries k = Option.bind (map_of entries k) json_as_bool"

text \<open>\<open>is_some_and(|value| value.as_bool() != Some(false))\<close>: present and not \<open>false\<close>.\<close>

definition flag_raised :: "(string \<times> json) list \<Rightarrow> string \<Rightarrow> bool" where
  "flag_raised entries k = (case map_of entries k of None \<Rightarrow> False | Some v \<Rightarrow> json_as_bool v \<noteq> Some False)"

definition verdict_of_text :: "string \<Rightarrow> GovernanceVerdict option" where
  "verdict_of_text t =
     (if t = ''ALLOW'' then Some GV_Allow
      else if t = ''CONSTRAIN'' then Some GV_Constrain
      else if t = ''REQUIRE_APPROVAL'' then Some GV_RequireApproval
      else if t = ''BLOCK'' then Some GV_Block
      else if t = ''HALT'' then Some GV_Halt
      else None)"

fun constraints_rejection :: "json option \<Rightarrow> GovernanceRejection option" where
  "constraints_rejection None = None"
| "constraints_rejection (Some J_Null) = None"
| "constraints_rejection (Some (J_Array values)) = (if values = [] then None else Some GR_UnsupportedConstraint)"
| "constraints_rejection (Some (J_Object values)) = (if values = [] then None else Some GR_UnsupportedConstraint)"
| "constraints_rejection (Some _) = Some GR_InvalidConstraints"

definition validate_governance_response ::
  "DispatchId \<Rightarrow> json \<Rightarrow> (GovernanceRejection \<times> json) + (GovernanceVerdict \<times> GovernanceOutcome)" where
  "validate_governance_response dispatch_id response =
     (case json_as_object response of
        None \<Rightarrow> Err (if response = J_Null then GR_Missing else GR_Malformed, response)
      | Some entries \<Rightarrow>
          if list_ex (\<lambda>(k, _). k \<notin> set GOVERNANCE_FIELDS) entries then Err (GR_UnsupportedField, response)
          else if list_ex (\<lambda>k. map_of entries k \<noteq> None) REMEDIATION_FIELDS then Err (GR_Remediation, response)
          else if object_str entries ''activity_id'' \<noteq> Some (did_str dispatch_id)
          then Err (GR_MismatchedActivity, response)
          else if object_bool entries ''authoritative'' \<noteq> Some True then Err (GR_Unauthoritative, response)
          else if flag_raised entries ''synthetic'' then Err (GR_Synthetic, response)
          else if flag_raised entries ''fallback_used'' then Err (GR_Fallback, response)
          else if flag_raised entries ''stale'' then Err (GR_Stale, response)
          else if object_bool entries ''guardrails_passed'' \<noteq> Some True then Err (GR_FailedGuardrails, response)
          else case object_str entries ''verdict'' of
                 None \<Rightarrow> Err (GR_Malformed, response)
               | Some verdict_text \<Rightarrow>
                   (case verdict_of_text verdict_text of
                      None \<Rightarrow> Err (GR_UnknownVerdict, response)
                    | Some verdict \<Rightarrow>
                        if (case map_of entries ''action'' of
                              None \<Rightarrow> False
                            | Some action \<Rightarrow> json_as_str action \<noteq> Some verdict_text)
                        then Err (GR_ConflictingAction, response)
                        else case constraints_rejection (map_of entries ''constraints'') of
                               Some reason \<Rightarrow> Err (reason, response)
                             | None \<Rightarrow> Ok (verdict, GO_Authoritative verdict response)))"

section \<open>The accepted responses\<close>

text \<open>
  An independent description: which fields a response has and which values each may take.
\<close>

fun verdict_text :: "GovernanceVerdict \<Rightarrow> string" where
  "verdict_text GV_Allow = ''ALLOW''"
| "verdict_text GV_Constrain = ''CONSTRAIN''"
| "verdict_text GV_RequireApproval = ''REQUIRE_APPROVAL''"
| "verdict_text GV_Block = ''BLOCK''"
| "verdict_text GV_Halt = ''HALT''"

definition field_values :: "DispatchId \<Rightarrow> GovernanceVerdict \<Rightarrow> string \<Rightarrow> json option set" where
  "field_values dispatch_id verdict k =
     (if k = ''activity_id'' then {Some (J_String (did_str dispatch_id))}
      else if k \<in> {''authoritative'', ''guardrails_passed''} then {Some (J_Bool True)}
      else if k \<in> {''synthetic'', ''fallback_used'', ''stale''} then {None, Some (J_Bool False)}
      else if k = ''verdict'' then {Some (J_String (verdict_text verdict))}
      else if k = ''action'' then {None, Some (J_String (verdict_text verdict))}
      else if k = ''constraints'' then {None, Some J_Null, Some (J_Array []), Some (J_Object [])}
      else {None})"

definition accepted_response :: "DispatchId \<Rightarrow> GovernanceVerdict \<Rightarrow> json \<Rightarrow> bool" where
  "accepted_response dispatch_id verdict response \<longleftrightarrow>
     (\<exists>entries. response = J_Object entries \<and> (\<forall>k. map_of entries k \<in> field_values dispatch_id verdict k))"

lemma verdict_of_text_Some: "verdict_of_text t = Some v \<longleftrightarrow> t = verdict_text v"
  by (cases v) (auto simp: verdict_of_text_def)

lemma verdict_of_verdict_text [simp]: "verdict_of_text (verdict_text v) = Some v"
  by (simp add: verdict_of_text_Some)

lemma verdict_text_inject [simp]: "verdict_text v = verdict_text w \<longleftrightarrow> v = w"
  by (cases v; cases w) simp_all

lemma json_as_str_Some: "json_as_str j = Some s \<longleftrightarrow> j = J_String s"
  by (cases j) auto

lemma json_as_bool_Some: "json_as_bool j = Some b \<longleftrightarrow> j = J_Bool b"
  by (cases j) auto

lemma object_str_Some: "object_str entries k = Some s \<longleftrightarrow> map_of entries k = Some (J_String s)"
  by (auto simp: object_str_def json_as_str_Some split: bind_splits)

lemma object_bool_Some: "object_bool entries k = Some b \<longleftrightarrow> map_of entries k = Some (J_Bool b)"
  by (auto simp: object_bool_def json_as_bool_Some split: bind_splits)

lemma flag_raised_iff: "flag_raised entries k \<longleftrightarrow> map_of entries k \<notin> {None, Some (J_Bool False)}"
  by (auto simp: flag_raised_def json_as_bool_Some split: option.splits)

lemma constraints_rejection_None:
  "constraints_rejection j = None \<longleftrightarrow> j \<in> {None, Some J_Null, Some (J_Array []), Some (J_Object [])}"
  by (cases j rule: constraints_rejection.cases) auto

lemma unsupported_field_iff:
  "list_ex (\<lambda>(k, _). k \<notin> set GOVERNANCE_FIELDS) entries \<longleftrightarrow>
     (\<exists>k. k \<notin> set GOVERNANCE_FIELDS \<and> map_of entries k \<noteq> None)"
proof -
  have "list_ex (\<lambda>(k, _). k \<notin> set GOVERNANCE_FIELDS) entries \<longleftrightarrow> (\<exists>k \<in> fst ` set entries. k \<notin> set GOVERNANCE_FIELDS)"
    by (force simp: list_ex_iff)
  also have "\<dots> \<longleftrightarrow> (\<exists>k. k \<notin> set GOVERNANCE_FIELDS \<and> map_of entries k \<noteq> None)"
    unfolding map_of_eq_None_iff by blast
  finally show ?thesis .
qed

lemma json_as_object_Some: "json_as_object j = Some m \<longleftrightarrow> j = J_Object m"
  by (cases j) auto

text \<open>The checks one by one, as conditions on single fields.\<close>

lemma accepted_response_fields:
  "(\<forall>k. map_of entries k \<in> field_values dispatch_id verdict k) \<longleftrightarrow>
     (\<forall>k. k \<notin> set GOVERNANCE_FIELDS \<longrightarrow> map_of entries k = None)
     \<and> (\<forall>k \<in> set REMEDIATION_FIELDS. map_of entries k = None)
     \<and> map_of entries ''activity_id'' = Some (J_String (did_str dispatch_id))
     \<and> map_of entries ''authoritative'' = Some (J_Bool True)
     \<and> map_of entries ''guardrails_passed'' = Some (J_Bool True)
     \<and> map_of entries ''synthetic'' \<in> {None, Some (J_Bool False)}
     \<and> map_of entries ''fallback_used'' \<in> {None, Some (J_Bool False)}
     \<and> map_of entries ''stale'' \<in> {None, Some (J_Bool False)}
     \<and> map_of entries ''verdict'' = Some (J_String (verdict_text verdict))
     \<and> map_of entries ''action'' \<in> {None, Some (J_String (verdict_text verdict))}
     \<and> map_of entries ''constraints'' \<in> {None, Some J_Null, Some (J_Array []), Some (J_Object [])}"
    (is "?L \<longleftrightarrow> ?R")
proof
  assume L: ?L
  have "map_of entries k = None" if "k \<notin> set GOVERNANCE_FIELDS \<or> k \<in> set REMEDIATION_FIELDS" for k
    using L [rule_format, of k] that
    by (auto simp: field_values_def GOVERNANCE_FIELDS_def REMEDIATION_FIELDS_def)
  then show ?R
    using L [rule_format, of "''activity_id''"] L [rule_format, of "''authoritative''"]
      L [rule_format, of "''guardrails_passed''"] L [rule_format, of "''synthetic''"]
      L [rule_format, of "''fallback_used''"] L [rule_format, of "''stale''"]
      L [rule_format, of "''verdict''"] L [rule_format, of "''action''"]
      L [rule_format, of "''constraints''"]
    by (simp add: field_values_def)
next
  assume R: ?R
  show ?L
  proof
    fix k
    show "map_of entries k \<in> field_values dispatch_id verdict k"
    proof (cases "k \<in> set GOVERNANCE_FIELDS - set REMEDIATION_FIELDS")
      case True
      then have "k \<in> set [''activity_id'', ''verdict'', ''action'', ''authoritative'', ''synthetic'',
          ''fallback_used'', ''guardrails_passed'', ''stale'', ''constraints'']"
        unfolding GOVERNANCE_FIELDS_def REMEDIATION_FIELDS_def set_simps Diff_iff insert_iff empty_iff simp_thms
        by argo
      with R show ?thesis
        unfolding set_simps insert_iff empty_iff simp_thms
        by (elim disjE) (simp_all add: field_values_def)
    next
      case False
      with R have "map_of entries k = None"
        by (simp only: Diff_iff) metis
      moreover have "None \<in> field_values dispatch_id verdict k"
        using False by (auto simp: field_values_def GOVERNANCE_FIELDS_def REMEDIATION_FIELDS_def)
      ultimately show ?thesis
        by simp
    qed
  qed
qed

lemma validate_governance_response_Ok:
  "validate_governance_response dispatch_id response = Ok (verdict, outcome) \<longleftrightarrow>
     accepted_response dispatch_id verdict response \<and> outcome = GO_Authoritative verdict response"
proof (cases "json_as_object response")
  case None
  then show ?thesis
    by (auto simp: validate_governance_response_def accepted_response_def)
next
  case (Some entries)
  then have response: "response = J_Object entries"
    by (simp add: json_as_object_Some)
  have absent: "(\<not> (\<exists>k. k \<notin> A \<and> map_of entries k \<noteq> None)) = (\<forall>k. k \<notin> A \<longrightarrow> map_of entries k = None)"
      "(\<not> (\<exists>k \<in> B. map_of entries k \<noteq> None)) = (\<forall>k \<in> B. map_of entries k = None)" for A B
    by auto
  have "validate_governance_response dispatch_id response = Ok (verdict, outcome) \<longleftrightarrow>
      \<not> list_ex (\<lambda>(k, _). k \<notin> set GOVERNANCE_FIELDS) entries
      \<and> \<not> list_ex (\<lambda>k. map_of entries k \<noteq> None) REMEDIATION_FIELDS
      \<and> object_str entries ''activity_id'' = Some (did_str dispatch_id)
      \<and> object_bool entries ''authoritative'' = Some True
      \<and> object_bool entries ''guardrails_passed'' = Some True
      \<and> \<not> flag_raised entries ''synthetic'' \<and> \<not> flag_raised entries ''fallback_used''
      \<and> \<not> flag_raised entries ''stale''
      \<and> object_str entries ''verdict'' = Some (verdict_text verdict)
      \<and> map_of entries ''action'' \<in> {None, Some (J_String (verdict_text verdict))}
      \<and> constraints_rejection (map_of entries ''constraints'') = None
      \<and> outcome = GO_Authoritative verdict response"
    unfolding validate_governance_response_def Some
    by (auto simp: verdict_of_text_Some json_as_str_Some split: option.splits)
  also have "\<dots> \<longleftrightarrow> (\<forall>k. map_of entries k \<in> field_values dispatch_id verdict k)
      \<and> outcome = GO_Authoritative verdict response"
    unfolding accepted_response_fields unsupported_field_iff object_str_Some object_bool_Some
      flag_raised_iff constraints_rejection_None
    unfolding list_ex_iff absent by (simp only: not_not conj_assoc)
  also have "\<dots> \<longleftrightarrow> accepted_response dispatch_id verdict response \<and> outcome = GO_Authoritative verdict response"
    by (simp add: accepted_response_def response)
  finally show ?thesis .
qed

text \<open>
  C11. A governance response selects an executor exactly when it is an object of supported fields
  that names this dispatch, says it is authoritative and passed the guardrails, is neither synthetic
  nor stale nor a fallback, carries a known verdict with no contradicting action, and no
  remediation and no constraint; the verdict is then the one it carries and the response is kept
  unchanged.
\<close>

theorem governance_accepts_iff:
  "validate_governance_response dispatch_id response = Ok accepted \<longleftrightarrow>
     (\<exists>verdict. accepted_response dispatch_id verdict response
        \<and> accepted = (verdict, GO_Authoritative verdict response))"
  using validate_governance_response_Ok [of dispatch_id response] by (cases accepted) auto

end
