(* ===== verification/Dispatcher.thy ===== *)
theory Dispatcher
  imports Dispatch_Store Governance Program_Logic
begin

text \<open>
  The governed dispatcher (\<^verbatim>\<open>src/src/dispatcher/mod.rs\<close>). The operations are programs of atomic
  actions: the calls to the store, to the terminal cache, to governance, to the host executor and to
  the sandbox runtime. The gate mutex and the exclusive file lock are held over a whole operation, so
  operations on one state directory, by any number of processes, do not overlap; each can be killed at
  any action.
\<close>

section \<open>Executors and reports\<close>

datatype HostExecutionFailureCode = HF_Transport | HF_Deadline | HF_Cancelled | HF_Protocol | HF_Executor

record HostExecutionFailure =
  hf_dispatch_state :: DispatchState
  hf_timeout_state :: FailureTimeout
  hf_counts :: OutputByteCounts
  hf_code :: HostExecutionFailureCode

definition HostExecutionFailure_not_dispatched :: "HostExecutionFailureCode \<Rightarrow> HostExecutionFailure" where
  "HostExecutionFailure_not_dispatched code =
     \<lparr>hf_dispatch_state = NotDispatched, hf_timeout_state = FT_NotObserved,
      hf_counts = OutputByteCounts_new 0 0, hf_code = code\<rparr>"

definition HostExecutionFailure_possibly_dispatched ::
  "HostExecutionFailureCode \<Rightarrow> FailureTimeout \<Rightarrow> OutputByteCounts \<Rightarrow> ValidationError + HostExecutionFailure" where
  "HostExecutionFailure_possibly_dispatched code timeout_state counts =
     (if timeout_state = FT_NotObserved
      then Err (ValidationError_new ''host_execution_failure'' VC_InvalidCombination)
      else Ok \<lparr>hf_dispatch_state = PossiblyDispatched, hf_timeout_state = timeout_state,
               hf_counts = counts, hf_code = code\<rparr>)"

datatype GovernanceClientError = GCE_Transport | GCE_Deadline | GCE_MissingResponse | GCE_Protocol

record DispatchReconciliationReport =
  drr_confirmed_absent :: u64
  drr_pending :: u64

section \<open>Programs\<close>

text \<open>
  The state: the store, shared by all processes through the directory, and the terminal cache of the
  process. The cancellation token of an operation is fresh and never shared.
\<close>

record dispatcher =
  ds_store :: dispatch_table
  ds_cache :: "(DispatchId, GovernedCommandResult) hm"

type_synonym dcontext = "unit OperationContext"

datatype 'a dprog =
    DRet 'a
  | DPanic
  | DLock "bool \<Rightarrow> 'a dprog"
  | DLoad DispatchId "DispatchStoreError + DispatchRecord option \<Rightarrow> 'a dprog"
  | DLoadAll "DispatchStoreError + DispatchRecord list \<Rightarrow> 'a dprog"
  | DWrite DispatchRecord "bool \<Rightarrow> 'a dprog"
  | DCacheGet DispatchId "GovernedCommandResult option \<Rightarrow> 'a dprog"
  | DCacheInsert DispatchId GovernedCommandResult "'a dprog"
  | DCacheCleanup DispatchId GovernedCleanupState "'a dprog"
  | DUuid "string \<Rightarrow> 'a dprog"
  | DEvaluate ActivityStarted "GovernanceClientError + json \<Rightarrow> 'a dprog"
  | DHost EffectiveCommand "HostExecutionFailure + ExecCompleted \<Rightarrow> 'a dprog"
  | DCreate CreateRequest dcontext "CreateFailure + CreatedSandbox \<Rightarrow> 'a dprog"
  | DWaitReady CreatedSandbox PolicyIdentity dcontext "ReadinessFailure + ReadySandbox \<Rightarrow> 'a dprog"
  | DExec ReadySandbox ExecRequest dcontext "ExecFailure + ExecCompleted \<Rightarrow> 'a dprog"
  | DDelete CleanupTarget dcontext "CleanupFailure + DeleteOutcome \<Rightarrow> 'a dprog"
  | DWaitDeleted CleanupTarget dcontext "CleanupFailure + unit \<Rightarrow> 'a dprog"

primrec dbind :: "'a dprog \<Rightarrow> ('a \<Rightarrow> 'b dprog) \<Rightarrow> 'b dprog" where
  "dbind (DRet x) f = f x"
| "dbind DPanic f = DPanic"
| "dbind (DLock k) f = DLock (\<lambda>x. dbind (k x) f)"
| "dbind (DLoad i k) f = DLoad i (\<lambda>x. dbind (k x) f)"
| "dbind (DLoadAll k) f = DLoadAll (\<lambda>x. dbind (k x) f)"
| "dbind (DWrite r k) f = DWrite r (\<lambda>x. dbind (k x) f)"
| "dbind (DCacheGet i k) f = DCacheGet i (\<lambda>x. dbind (k x) f)"
| "dbind (DCacheInsert i r p) f = DCacheInsert i r (dbind p f)"
| "dbind (DCacheCleanup i c p) f = DCacheCleanup i c (dbind p f)"
| "dbind (DUuid k) f = DUuid (\<lambda>x. dbind (k x) f)"
| "dbind (DEvaluate a k) f = DEvaluate a (\<lambda>x. dbind (k x) f)"
| "dbind (DHost c k) f = DHost c (\<lambda>x. dbind (k x) f)"
| "dbind (DCreate q c k) f = DCreate q c (\<lambda>x. dbind (k x) f)"
| "dbind (DWaitReady q p c k) f = DWaitReady q p c (\<lambda>x. dbind (k x) f)"
| "dbind (DExec r q c k) f = DExec r q c (\<lambda>x. dbind (k x) f)"
| "dbind (DDelete t c k) f = DDelete t c (\<lambda>x. dbind (k x) f)"
| "dbind (DWaitDeleted t c k) f = DWaitDeleted t c (\<lambda>x. dbind (k x) f)"

datatype danswer =
    DA_tick
  | DA_lock bool
  | DA_load bool
  | DA_write write_outcome
  | DA_uuid string
  | DA_evaluate "GovernanceClientError + json"
  | DA_host "HostExecutionFailure + ExecCompleted"
  | DA_create "CreateFailure + CreatedSandbox"
  | DA_ready "ReadinessFailure + ReadySandbox"
  | DA_exec "ExecFailure + ExecCompleted"
  | DA_delete "CleanupFailure + DeleteOutcome"
  | DA_absent "CleanupFailure + unit"

datatype devent =
    DE_write DispatchRecord bool
  | DE_evaluate ActivityStarted "GovernanceClientError + json"
  | DE_host EffectiveCommand "HostExecutionFailure + ExecCompleted"
  | DE_create CreateRequest "CreateFailure + CreatedSandbox"
  | DE_ready CreatedSandbox "ReadinessFailure + ReadySandbox"
  | DE_exec ReadySandbox ExecRequest "ExecFailure + ExecCompleted"
  | DE_delete CleanupTarget "CleanupFailure + DeleteOutcome"
  | DE_absent CleanupTarget "CleanupFailure + unit"

primrec dstep :: "'a dprog \<Rightarrow> danswer \<Rightarrow> dispatcher \<Rightarrow> (devent list \<times> dispatcher \<times> 'a dprog) option" where
  "dstep (DRet x) a s = None"
| "dstep DPanic a s = None"
| "dstep (DLock k) a s = (case a of DA_lock b \<Rightarrow> Some ([], s, k b) | _ \<Rightarrow> None)"
| "dstep (DLoad i k) a s = (case a of DA_load b \<Rightarrow> Some ([], s, k (dtable_load b i (ds_store s))) | _ \<Rightarrow> None)"
| "dstep (DLoadAll k) a s = (case a of DA_load b \<Rightarrow> Some ([], s, k (dtable_load_all b (ds_store s))) | _ \<Rightarrow> None)"
| "dstep (DWrite r k) a s =
     (case a of
        DA_write w \<Rightarrow>
          (case dtable_write w r (ds_store s) of
             (x, t) \<Rightarrow> Some ([DE_write r (is_ok x)], s\<lparr>ds_store := t\<rparr>, k (is_ok x)))
      | _ \<Rightarrow> None)"
| "dstep (DCacheGet i k) a s = (case a of DA_tick \<Rightarrow> Some ([], s, k (hm_get (ds_cache s) i)) | _ \<Rightarrow> None)"
| "dstep (DCacheInsert i r p) a s =
     (case a of DA_tick \<Rightarrow> Some ([], s\<lparr>ds_cache := hm_insert i r (ds_cache s)\<rparr>, p) | _ \<Rightarrow> None)"
| "dstep (DCacheCleanup i c p) a s =
     (case a of
        DA_tick \<Rightarrow>
          Some ([], (case hm_get (ds_cache s) i of
                       None \<Rightarrow> s
                     | Some r \<Rightarrow> s\<lparr>ds_cache := hm_insert i (set_cleanup_state c r) (ds_cache s)\<rparr>), p)
      | _ \<Rightarrow> None)"
| "dstep (DUuid k) a s = (case a of DA_uuid u \<Rightarrow> Some ([], s, k u) | _ \<Rightarrow> None)"
| "dstep (DEvaluate q k) a s = (case a of DA_evaluate x \<Rightarrow> Some ([DE_evaluate q x], s, k x) | _ \<Rightarrow> None)"
| "dstep (DHost c k) a s = (case a of DA_host x \<Rightarrow> Some ([DE_host c x], s, k x) | _ \<Rightarrow> None)"
| "dstep (DCreate q c k) a s = (case a of DA_create x \<Rightarrow> Some ([DE_create q x], s, k x) | _ \<Rightarrow> None)"
| "dstep (DWaitReady q p c k) a s = (case a of DA_ready x \<Rightarrow> Some ([DE_ready q x], s, k x) | _ \<Rightarrow> None)"
| "dstep (DExec r q c k) a s = (case a of DA_exec x \<Rightarrow> Some ([DE_exec r q x], s, k x) | _ \<Rightarrow> None)"
| "dstep (DDelete t c k) a s = (case a of DA_delete x \<Rightarrow> Some ([DE_delete t x], s, k x) | _ \<Rightarrow> None)"
| "dstep (DWaitDeleted t c k) a s = (case a of DA_absent x \<Rightarrow> Some ([DE_absent t x], s, k x) | _ \<Rightarrow> None)"

section \<open>Results\<close>

definition normalize_exit_124 :: "ExecCompleted \<Rightarrow> ExecCompleted" where
  "normalize_exit_124 result =
     (if exit_get (ec_exit_code result) = 124 \<and> ec_timeout result = OT_NotObserved
      then ExecCompleted_new (ec_exit_code result) (ec_stdout result) (ec_stderr result) OT_Possible
      else result)"

definition dispatch_operation_context :: "duration \<Rightarrow> dcontext option" where
  "dispatch_operation_context deadline =
     (case OperationDeadline_new deadline of
        Inl _ \<Rightarrow> None
      | Inr d \<Rightarrow> Some (OperationContext_new () d))"

text \<open>The panic of the \<open>expect\<close> in \<open>operation_context\<close>, before the call that would use it.\<close>

definition with_context :: "duration \<Rightarrow> (dcontext \<Rightarrow> 'a dprog) \<Rightarrow> 'a dprog" where
  "with_context deadline k = (case dispatch_operation_context deadline of None \<Rightarrow> DPanic | Some ctx \<Rightarrow> k ctx)"

definition persistence_result :: "DispatchId \<Rightarrow> SelectedExecutor \<Rightarrow> GovernedCommandResult" where
  "persistence_result dispatch_id selected_executor =
     GovernedCommandResult_new dispatch_id GO_Unavailable selected_executor GD_NotDispatched EO_NotExecuted
       TS_NotObserved
       (if selected_executor = SE_Sandbox then GC_PendingReconciliation else GC_NotNeeded)
       (Some (GovernedError_new GE_PersistenceFailed EP_DispatchPersistence))"

definition sandbox_result ::
  "DispatchId \<Rightarrow> GovernanceOutcome \<Rightarrow> ExecFailure + ExecCompleted \<Rightarrow> GovernedCleanupState \<Rightarrow>
   GovernedCommandResult" where
  "sandbox_result dispatch_id governance attempt cleanup_state =
     (case attempt of
        Inr completed \<Rightarrow>
          let result = normalize_exit_124 completed;
              governed = GovernedCommandResult_new dispatch_id governance SE_Sandbox GD_Completed
                (EO_Completed result) (TimeoutState_from_observed (ec_timeout result)) cleanup_state None
          in if cleanup_state = GC_PendingReconciliation
             then set_error_if_none (GovernedError_new GE_CleanupPending EP_SandboxCleanup) governed
             else governed
      | Inl failure \<Rightarrow>
          let (dispatch, execution) =
                (case ef_dispatch_state failure of
                   NotDispatched \<Rightarrow> (GD_NotDispatched, EO_NotExecuted)
                 | PossiblyDispatched \<Rightarrow>
                     (GD_PossiblyDispatched, ExecutionOutcome_indeterminate (ef_counts failure)));
              code = (if ef_code failure = EF_Transport then GE_SandboxTransportFailed
                      else GE_SandboxExecutionFailed);
              phase = (if ef_code failure = EF_Transport then EP_SandboxTransport
                       else if dispatch = GD_NotDispatched then EP_SandboxDispatch
                       else EP_SandboxExecution)
          in GovernedCommandResult_new dispatch_id governance SE_Sandbox dispatch execution
               (TimeoutState_from_failure (ef_timeout_state failure)) cleanup_state
               (Some (GovernedError_new code phase)))"

section \<open>Operations\<close>

definition dispatch_cleanup :: "DispatcherConfig \<Rightarrow> CleanupTarget \<Rightarrow> GovernedCleanupState dprog" where
  "dispatch_cleanup config target =
     with_context (dc_cleanup_deadline config) (\<lambda>ctx.
       DDelete target ctx (\<lambda>_.
         with_context (dc_cleanup_deadline config) (\<lambda>ctx.
           DWaitDeleted target ctx (\<lambda>x.
             DRet (if is_ok x then GC_ConfirmedAbsent else GC_PendingReconciliation)))))"

definition dispatch_finish :: "DispatchRecord \<Rightarrow> GovernedCommandResult \<Rightarrow> GovernedCommandResult dprog" where
  "dispatch_finish r result =
     DWrite (record_terminal result r) (\<lambda>written.
       let result = (if written then result
                     else set_error_if_none (GovernedError_new GE_PersistenceFailed EP_DispatchPersistence) result)
       in DCacheInsert (gr_dispatch_id result) result (DRet result))"

definition reconcile_record :: "DispatcherConfig \<Rightarrow> DispatchRecord \<Rightarrow> DispatchRecord dprog" where
  "reconcile_record config r =
     (case dp_cleanup_id r of
        None \<Rightarrow> DRet r
      | Some cleanup_id \<Rightarrow>
          dbind (dispatch_cleanup config (CleanupTarget_new cleanup_id)) (\<lambda>state.
            if state = GC_ConfirmedAbsent then
              DWrite (cleanup_confirmed r) (\<lambda>_.
                DCacheCleanup (dp_dispatch_id r) GC_ConfirmedAbsent (DRet (cleanup_confirmed r)))
            else DRet r))"

fun reconcile_records ::
  "DispatcherConfig \<Rightarrow> DispatchReconciliationReport \<Rightarrow> DispatchRecord list \<Rightarrow> DispatchReconciliationReport dprog" where
  "reconcile_records config report [] = DRet report"
| "reconcile_records config report (r # rs) =
     (if dp_cleanup_state r \<noteq> GC_PendingReconciliation then reconcile_records config report rs
      else dbind (reconcile_record config r) (\<lambda>r1.
             reconcile_records config
               (if dp_cleanup_state r1 = GC_ConfirmedAbsent
                then report\<lparr>drr_confirmed_absent := saturating_add_u64 (drr_confirmed_absent report) 1\<rparr>
                else report\<lparr>drr_pending := saturating_add_u64 (drr_pending report) 1\<rparr>) rs))"

definition reconcile_all :: "DispatcherConfig \<Rightarrow> (GovernedError + DispatchReconciliationReport) dprog" where
  "reconcile_all config =
     DLock (\<lambda>locked.
       if \<not> locked then DRet (Err (GovernedError_new GE_PersistenceFailed EP_SandboxReconciliation))
       else DLoadAll (\<lambda>loaded.
         case loaded of
           Inl _ \<Rightarrow> DRet (Err (GovernedError_new GE_PersistenceFailed EP_SandboxReconciliation))
         | Inr rs \<Rightarrow>
             dbind (reconcile_records config \<lparr>drr_confirmed_absent = 0, drr_pending = 0\<rparr> rs)
               (\<lambda>report. DRet (Ok report))))"

definition execute_host ::
  "DispatchId \<Rightarrow> GovernanceOutcome \<Rightarrow> EffectiveCommand \<Rightarrow> GovernedCommandResult dprog" where
  "execute_host dispatch_id governance command =
     DHost command (\<lambda>x.
       case x of
         Inr completed \<Rightarrow>
           let result = normalize_exit_124 completed in
           DRet (GovernedCommandResult_new dispatch_id governance SE_Host GD_Completed (EO_Completed result)
             (TimeoutState_from_observed (ec_timeout result)) GC_NotNeeded None)
       | Inl failure \<Rightarrow>
           let (dispatch, execution) =
                 (case hf_dispatch_state failure of
                    NotDispatched \<Rightarrow> (GD_NotDispatched, EO_NotExecuted)
                  | PossiblyDispatched \<Rightarrow>
                      (GD_PossiblyDispatched, ExecutionOutcome_indeterminate (hf_counts failure)))
           in DRet (GovernedCommandResult_new dispatch_id governance SE_Host dispatch execution
                (TimeoutState_from_failure (hf_timeout_state failure)) GC_NotNeeded
                (Some (GovernedError_new GE_HostFailed EP_HostDispatch))))"

text \<open>A sandbox attempt that ends before the command is dispatched.\<close>

definition not_executed ::
  "DispatchId \<Rightarrow> GovernanceOutcome \<Rightarrow> GovernedCleanupState \<Rightarrow> GovernedErrorCode \<Rightarrow> ErrorPhase \<Rightarrow>
   GovernedCommandResult" where
  "not_executed dispatch_id governance cleanup_state code phase =
     GovernedCommandResult_new dispatch_id governance SE_Sandbox GD_NotDispatched EO_NotExecuted
       TS_NotObserved cleanup_state (Some (GovernedError_new code phase))"

definition confirm_if_absent :: "GovernedCleanupState \<Rightarrow> DispatchRecord \<Rightarrow> DispatchRecord" where
  "confirm_if_absent state r = (if state = GC_ConfirmedAbsent then cleanup_confirmed r else r)"

text \<open>From the ready sandbox on: two fences, the execution, the cleanup.\<close>

definition execute_ready ::
  "DispatcherConfig \<Rightarrow> DispatchId \<Rightarrow> GovernanceOutcome \<Rightarrow> EffectiveCommand \<Rightarrow> CleanupTarget \<Rightarrow>
   ReadySandbox \<Rightarrow> DispatchRecord \<Rightarrow> (GovernedCommandResult \<times> DispatchRecord) dprog" where
  "execute_ready config dispatch_id governance command cleanup_target ready r =
     (let r1 = sandbox_ready r;
          abandon = (\<lambda>rec. dbind (dispatch_cleanup config cleanup_target) (\<lambda>state.
            DRet (not_executed dispatch_id governance state GE_PersistenceFailed EP_DispatchPersistence, rec)))
      in DWrite r1 (\<lambda>written.
        if \<not> written then abandon r1
        else case Argv_new (ecm_argv command) of
               Inl _ \<Rightarrow> DPanic
             | Inr argv \<Rightarrow>
                 (case CommandTimeout_new (ecm_timeout_seconds command) of
                    Inl _ \<Rightarrow> DPanic
                  | Inr timeout \<Rightarrow>
                      let request = ExecRequest_new argv timeout (dc_output_limits config);
                          r2 = sandbox_dispatch_possible r1
                      in DWrite r2 (\<lambda>written.
                        if \<not> written then abandon r2
                        else
                          with_context
                            (duration_saturating_add (secs (ucast (ecm_timeout_seconds command)))
                               (dc_dispatch_deadline_slack config)) (\<lambda>ctx.
                            DExec ready request ctx (\<lambda>attempt.
                              dbind (dispatch_cleanup config cleanup_target) (\<lambda>state.
                                DRet (sandbox_result dispatch_id governance attempt state,
                                      confirm_if_absent state r2))))))))"

text \<open>From the created sandbox on: readiness and the attestation of the policy.\<close>

definition await_ready ::
  "DispatcherConfig \<Rightarrow> DispatchId \<Rightarrow> GovernanceOutcome \<Rightarrow> EffectiveCommand \<Rightarrow> CreatedSandbox \<Rightarrow>
   DispatchRecord \<Rightarrow> (GovernedCommandResult \<times> DispatchRecord) dprog" where
  "await_ready config dispatch_id governance command created r =
     with_context (dc_readiness_deadline config) (\<lambda>ctx.
       DWaitReady created (sab_policy (dc_assets config)) ctx (\<lambda>x.
         case x of
           Inr ready \<Rightarrow>
             if rs_active_policy ready = sab_policy (dc_assets config)
             then execute_ready config dispatch_id governance command
                    (CreatedSandbox_cleanup_target created) ready r
             else
               dbind (dispatch_cleanup config (ReadySandbox_cleanup_target ready)) (\<lambda>state.
                 DRet (not_executed dispatch_id governance state
                         GE_SandboxAttestationFailed EP_SandboxAttestation,
                       confirm_if_absent state r))
         | Inl failure \<Rightarrow>
             dbind (dispatch_cleanup config (rf_cleanup_target failure)) (\<lambda>state.
               DRet ((if rf_code failure = RF_PolicyMismatch
                      then not_executed dispatch_id governance state
                             GE_SandboxAttestationFailed EP_SandboxAttestation
                      else not_executed dispatch_id governance state
                             GE_SandboxReadinessFailed EP_SandboxReadiness),
                     confirm_if_absent state r))))"

definition execute_sandbox ::
  "DispatcherConfig \<Rightarrow> DispatchId \<Rightarrow> GovernanceOutcome \<Rightarrow> EffectiveCommand \<Rightarrow> RequestOwnedId \<Rightarrow>
   DispatchRecord \<Rightarrow> (GovernedCommandResult \<times> DispatchRecord) dprog" where
  "execute_sandbox config dispatch_id governance command cleanup_id r =
     (let assets = dc_assets config;
          create = CreateRequest_new cleanup_id (sab_template assets) (sab_policy_document assets) (sab_policy assets)
      in with_context (dc_create_deadline config) (\<lambda>ctx.
        DCreate create ctx (\<lambda>x.
          case x of
            Inl failure \<Rightarrow>
              (case CreateFailure_cleanup_target failure of
                 None \<Rightarrow>
                   DRet (not_executed dispatch_id governance GC_NotNeeded GE_SandboxCreateFailed EP_SandboxCreate, r)
               | Some target \<Rightarrow>
                   dbind (dispatch_cleanup config target) (\<lambda>state.
                     DRet (set_cleanup_state state
                             (not_executed dispatch_id governance GC_PendingReconciliation
                                GE_SandboxCreateFailed EP_SandboxCreate),
                           confirm_if_absent state r)))
          | Inr created \<Rightarrow> await_ready config dispatch_id governance command created r)))"

text \<open>A dispatch that ends without an executor.\<close>

definition no_executor ::
  "DispatchId \<Rightarrow> GovernanceOutcome \<Rightarrow> GovernedError option \<Rightarrow> GovernedCommandResult" where
  "no_executor dispatch_id governance err =
     GovernedCommandResult_new dispatch_id governance SE_None GD_NotDispatched EO_NotExecuted
       TS_NotObserved GC_NotNeeded err"

text \<open>The last part of \<open>execute_locked\<close>: routing by the verdict.\<close>

definition route_verdict ::
  "DispatcherConfig \<Rightarrow> DispatchId \<Rightarrow> EffectiveCommand \<Rightarrow> DispatchRecord \<Rightarrow> GovernanceVerdict \<Rightarrow>
   GovernanceOutcome \<Rightarrow> GovernedCommandResult dprog" where
  "route_verdict config dispatch_id effective r verdict governance =
     (case verdict of
        GV_Allow \<Rightarrow>
          let r1 = select_host governance r in
          DWrite r1 (\<lambda>written.
            if \<not> written then DRet (persistence_result dispatch_id SE_Host)
            else dbind (execute_host dispatch_id governance effective) (dispatch_finish r1))
      | GV_Constrain \<Rightarrow>
          DUuid (\<lambda>simple.
            case RequestOwnedId_generate simple of
              None \<Rightarrow> DPanic
            | Some cleanup_id \<Rightarrow>
                let r1 = select_sandbox governance cleanup_id r in
                DWrite r1 (\<lambda>written.
                  if \<not> written then DRet (persistence_result dispatch_id SE_Sandbox)
                  else dbind (execute_sandbox config dispatch_id governance effective cleanup_id r1)
                         (\<lambda>(result, r2). dispatch_finish r2 result)))
      | _ \<Rightarrow> dispatch_finish r (no_executor dispatch_id governance None))"

text \<open>The part of \<open>execute_locked\<close> after the first record is durable.\<close>

definition governed_part ::
  "DispatcherConfig \<Rightarrow> DispatchId \<Rightarrow> EffectiveCommand \<Rightarrow> DispatchRecord \<Rightarrow> GovernedCommandResult dprog" where
  "governed_part config i effective r =
     DEvaluate (ActivityStarted_new i effective) (\<lambda>evaluated.
       case evaluated of
         Inl _ \<Rightarrow>
           dispatch_finish r (no_executor i GO_Unavailable
             (Some (GovernedError_new GE_GovernanceUnavailable EP_Governance)))
       | Inr raw_response \<Rightarrow>
           (case validate_governance_response i raw_response of
              Inl (reason, raw) \<Rightarrow>
                dispatch_finish r (no_executor i (GO_Rejected reason)
                  (Some (GovernedError_new GE_GovernanceRejected EP_Governance)))
            | Inr (verdict, governance) \<Rightarrow> route_verdict config i effective r verdict governance))"

text \<open>A dispatch identifier that already has a record.\<close>

definition replay_existing ::
  "DispatcherConfig \<Rightarrow> DispatchId \<Rightarrow> Sha256Digest \<Rightarrow> DispatchRecord \<Rightarrow> GovernedCommandResult dprog" where
  "replay_existing config dispatch_id digest r =
     (if dp_command_digest r \<noteq> digest
      then DRet (GovernedCommandResult_validation dispatch_id GE_DigestMismatch)
      else DCacheGet dispatch_id (\<lambda>cached.
        case cached of
          Some result \<Rightarrow> DRet result
        | None \<Rightarrow>
            if dp_cleanup_state r = GC_PendingReconciliation
            then dbind (reconcile_record config r) (\<lambda>r1. DRet (replay_result r1))
            else DRet (replay_result r)))"

definition execute_locked ::
  "(bytes \<Rightarrow> bytes) \<Rightarrow> DispatcherConfig \<Rightarrow> Command \<Rightarrow> GovernedCommandResult dprog" where
  "execute_locked sha256 config command =
     (case Command_into_parts command of (dispatch_id, argv, timeout, resume_only) \<Rightarrow>
        case EffectiveCommand_validate argv timeout (dc_command_limits config) of
          Inl e \<Rightarrow>
            DRet (GovernedCommandResult_validation dispatch_id
              (if ve_code e = VC_InvalidLength then GE_CommandTooLarge else GE_InvalidCommand))
        | Inr effective \<Rightarrow>
            (case EffectiveCommand_digest sha256 effective of
               None \<Rightarrow> DPanic
             | Some digest \<Rightarrow>
                 DLoad dispatch_id (\<lambda>loaded.
                   case loaded of
                     Inl _ \<Rightarrow> DRet (persistence_result dispatch_id SE_None)
                   | Inr (Some r) \<Rightarrow> replay_existing config dispatch_id digest r
                   | Inr None \<Rightarrow>
                       if resume_only
                       then DRet (GovernedCommandResult_validation dispatch_id GE_DigestMismatch)
                       else
                         let r = DispatchRecord_new dispatch_id digest in
                         DWrite r (\<lambda>written.
                           if \<not> written then DRet (persistence_result dispatch_id SE_None)
                           else governed_part config dispatch_id effective r))))"

definition execute_owned ::
  "(bytes \<Rightarrow> bytes) \<Rightarrow> DispatcherConfig \<Rightarrow> Command \<Rightarrow> GovernedCommandResult dprog" where
  "execute_owned sha256 config command =
     DLock (\<lambda>locked.
       if \<not> locked then DRet (persistence_result (cmd_dispatch_id command) SE_None)
       else execute_locked sha256 config command)"

text \<open>
  What \<open>execute\<close> returns for the way the spawned task ended: its value, or a fixed result when the
  task panicked.
\<close>

definition execute_outcome ::
  "Command \<Rightarrow> GovernedCommandResult dprog \<Rightarrow> GovernedCommandResult option" where
  "execute_outcome command p =
     (case p of
        DRet result \<Rightarrow> Some result
      | DPanic \<Rightarrow>
          Some (GovernedCommandResult_new (cmd_dispatch_id command) GO_Unavailable SE_None GD_PossiblyDispatched
            (ExecutionOutcome_indeterminate OutputByteCounts_default) TS_Unknown GC_PendingReconciliation
            (Some (GovernedError_new GE_ReplayIndeterminate EP_DispatchPersistence)))
      | _ \<Rightarrow> None)"

definition reconcile_pending_outcome ::
  "(GovernedError + DispatchReconciliationReport) dprog \<Rightarrow> (GovernedError + DispatchReconciliationReport) option" where
  "reconcile_pending_outcome p =
     (case p of
        DRet x \<Rightarrow> Some x
      | DPanic \<Rightarrow> Some (Err (GovernedError_new GE_PersistenceFailed EP_SandboxReconciliation))
      | _ \<Rightarrow> None)"

end
