(* ===== verification/Dispatch_Safety.thy ===== *)
theory Dispatch_Safety
  imports Dispatcher
begin

text \<open>
  The dispatcher over its whole life: any number of processes on one state directory, each killed at
  any action and restarted. The section on histories states what a process can do and what an
  observer of the executors sees; the properties are that a command is executed at most once, only
  behind its durable fence, and that no sandbox is left without a record that asks for its cleanup.
\<close>

section \<open>Rules for programs\<close>

abbreviation dreach :: "dispatcher \<Rightarrow> 'a dprog \<Rightarrow> devent list \<Rightarrow> dispatcher \<Rightarrow> 'a dprog \<Rightarrow> bool" where
  "dreach \<equiv> reaches dstep"

abbreviation dalways :: "(devent list \<Rightarrow> dispatcher \<Rightarrow> 'a dprog \<Rightarrow> bool) \<Rightarrow> dispatcher \<Rightarrow> 'a dprog \<Rightarrow> bool" where
  "dalways \<equiv> holds dstep"

abbreviation drun :: "danswer list \<Rightarrow> dispatcher \<Rightarrow> 'a dprog \<Rightarrow> devent list \<times> dispatcher \<times> 'a dprog" where
  "drun \<equiv> runs dstep"

named_theorems dalways_simps \<open>how \<open>dalways\<close> unfolds on each action\<close>

lemma dalways_end [dalways_simps]:
  "dalways Q s (DRet x) \<longleftrightarrow> Q [] s (DRet x)"
  "dalways Q s DPanic \<longleftrightarrow> Q [] s DPanic"
  by (subst holds_unfold, simp)+

lemma dalways_DLock [dalways_simps]:
  "dalways Q s (DLock k) \<longleftrightarrow> Q [] s (DLock k) \<and> (\<forall>b. dalways Q s (k b))"
  by (subst holds_unfold) (auto split: danswer.splits)

lemma dalways_DLoad [dalways_simps]:
  "dalways Q s (DLoad i k) \<longleftrightarrow> Q [] s (DLoad i k) \<and> dalways Q s (k (Err DispatchStoreError)) \<and> dalways Q s (k (Ok (hm_get (ds_store s) i)))"
  by (subst holds_unfold) (auto simp: dtable_load_def dtable_load_all_def split: danswer.splits)

lemma dalways_DLoadAll [dalways_simps]:
  "dalways Q s (DLoadAll k) \<longleftrightarrow> Q [] s (DLoadAll k) \<and> dalways Q s (k (Err DispatchStoreError))
     \<and> dalways Q s (k (Ok (sort_key dp_dispatch_id (map snd (ds_store s)))))"
  by (subst holds_unfold) (auto simp: dtable_load_def dtable_load_all_def split: danswer.splits)

lemma dalways_DCacheGet [dalways_simps]:
  "dalways Q s (DCacheGet i k) \<longleftrightarrow> Q [] s (DCacheGet i k) \<and> dalways Q s (k (hm_get (ds_cache s) i))"
  by (subst holds_unfold) (auto split: danswer.splits)

lemma dalways_DCacheInsert [dalways_simps]:
  "dalways Q s (DCacheInsert i r p) \<longleftrightarrow> Q [] s (DCacheInsert i r p) \<and> dalways Q (s\<lparr>ds_cache := hm_insert i r (ds_cache s)\<rparr>) p"
  by (subst holds_unfold) (auto split: danswer.splits)

lemma dalways_DUuid [dalways_simps]:
  "dalways Q s (DUuid k) \<longleftrightarrow> Q [] s (DUuid k) \<and> (\<forall>u. dalways Q s (k u))"
  by (subst holds_unfold) (auto split: danswer.splits)

lemma dalways_DEvaluate [dalways_simps]:
  "dalways Q s (DEvaluate q k) \<longleftrightarrow> Q [] s (DEvaluate q k) \<and> (\<forall>x. dalways (\<lambda>evs. Q (DE_evaluate q x # evs)) s (k x))"
  by (subst holds_unfold) (auto split: danswer.splits)

lemma dalways_DHost [dalways_simps]:
  "dalways Q s (DHost c k) \<longleftrightarrow> Q [] s (DHost c k) \<and> (\<forall>x. dalways (\<lambda>evs. Q (DE_host c x # evs)) s (k x))"
  by (subst holds_unfold) (auto split: danswer.splits)

lemma dalways_DCreate [dalways_simps]:
  "dalways Q s (DCreate q c k) \<longleftrightarrow> Q [] s (DCreate q c k) \<and> (\<forall>x. dalways (\<lambda>evs. Q (DE_create q x # evs)) s (k x))"
  by (subst holds_unfold) (auto split: danswer.splits)

lemma dalways_DWaitReady [dalways_simps]:
  "dalways Q s (DWaitReady q p c k) \<longleftrightarrow> Q [] s (DWaitReady q p c k) \<and> (\<forall>x. dalways (\<lambda>evs. Q (DE_ready q x # evs)) s (k x))"
  by (subst holds_unfold) (auto split: danswer.splits)

lemma dalways_DExec [dalways_simps]:
  "dalways Q s (DExec r q c k) \<longleftrightarrow> Q [] s (DExec r q c k) \<and> (\<forall>x. dalways (\<lambda>evs. Q (DE_exec r q x # evs)) s (k x))"
  by (subst holds_unfold) (auto split: danswer.splits)

lemma dalways_DDelete [dalways_simps]:
  "dalways Q s (DDelete t c k) \<longleftrightarrow> Q [] s (DDelete t c k) \<and> (\<forall>x. dalways (\<lambda>evs. Q (DE_delete t x # evs)) s (k x))"
  by (subst holds_unfold) (auto split: danswer.splits)

lemma dalways_DWaitDeleted [dalways_simps]:
  "dalways Q s (DWaitDeleted t c k) \<longleftrightarrow> Q [] s (DWaitDeleted t c k) \<and> (\<forall>x. dalways (\<lambda>evs. Q (DE_absent t x # evs)) s (k x))"
  by (subst holds_unfold) (auto split: danswer.splits)

lemma dalways_DWrite:
  "dalways Q s (DWrite r k) \<longleftrightarrow> Q [] s (DWrite r k)
     \<and> (\<forall>w. dalways (\<lambda>evs. Q (DE_write r (is_ok (fst (dtable_write w r (ds_store s)))) # evs))
          (s\<lparr>ds_store := snd (dtable_write w r (ds_store s))\<rparr>) (k (is_ok (fst (dtable_write w r (ds_store s))))))"
  by (subst holds_unfold) (auto simp: case_prod_beta split: danswer.splits)

lemma dalways_DCacheCleanup [dalways_simps]:
  "dalways Q s (DCacheCleanup i c p) \<longleftrightarrow> Q [] s (DCacheCleanup i c p)
     \<and> dalways Q (case hm_get (ds_cache s) i of
                     None \<Rightarrow> s
                   | Some r \<Rightarrow> s\<lparr>ds_cache := hm_insert i (set_cleanup_state c r) (ds_cache s)\<rparr>) p"
  by (subst holds_unfold) (auto split: danswer.splits)

lemma dstep_dbind:
  "(\<And>x. p \<noteq> DRet x) \<Longrightarrow>
     dstep (dbind p f) a s = map_option (\<lambda>(ev, s1, p1). (ev, s1, dbind p1 f)) (dstep p a s)"
  by (cases p) (auto split: danswer.splits prod.splits)

interpretation operation: sequencing dstep dstep dbind DRet
  by unfold_locales (simp, subst dstep_dbind, simp_all)

text \<open>
  A successful write has the record stored; a failed one has it stored or leaves the table.
\<close>

lemma dalways_DWrite_valid:
  assumes "is_ok (DispatchRecord_validate r)"
  shows "dalways Q s (DWrite r k) \<longleftrightarrow> Q [] s (DWrite r k)
     \<and> dalways (\<lambda>evs. Q (DE_write r True # evs))
          (s\<lparr>ds_store := hm_insert (dp_dispatch_id r) r (ds_store s)\<rparr>) (k True)
     \<and> dalways (\<lambda>evs. Q (DE_write r False # evs))
          (s\<lparr>ds_store := hm_insert (dp_dispatch_id r) r (ds_store s)\<rparr>) (k False)
     \<and> dalways (\<lambda>evs. Q (DE_write r False # evs)) s (k False)"
proof -
  have w: "(\<forall>w. P w) \<longleftrightarrow> P WriteOk \<and> P WriteFailedReplaced \<and> P WriteFailedKept" for P
    by (metis write_outcome.exhaust)
  show ?thesis
    using assms by (auto simp: dalways_DWrite w dtable_write_def is_ok_iff [of "DispatchRecord_validate r"])
qed

section \<open>Histories\<close>

text \<open>What may have happened when the process is killed during a call.\<close>

datatype observation =
    Seen devent
  | HostInterrupted EffectiveCommand
  | ExecInterrupted ReadySandbox ExecRequest
  | CreateInterrupted CreateRequest

fun pending_call :: "'a dprog \<Rightarrow> observation list" where
  "pending_call (DHost c k) = [HostInterrupted c]"
| "pending_call (DExec r q c k) = [ExecInterrupted r q]"
| "pending_call (DCreate q c k) = [CreateInterrupted q]"
| "pending_call _ = []"

definition observed :: "devent list \<Rightarrow> 'a dprog \<Rightarrow> observation list" where
  "observed evs p = map Seen evs @ pending_call p"

fun executes :: "observation \<Rightarrow> bool" where
  "executes (Seen (DE_host _ _)) = True"
| "executes (Seen (DE_exec _ _ _)) = True"
| "executes (HostInterrupted _) = True"
| "executes (ExecInterrupted _ _) = True"
| "executes _ = False"

text \<open>
  A history: every process \<open>n\<close> has its own cache and configuration, the table is shared. An
  operation runs to the point \<open>p\<close>, where it has returned, panicked or is killed; a restart empties a
  cache. The observations of a dispatch carry its identifier.
\<close>

inductive history ::
  "(bytes \<Rightarrow> bytes) \<Rightarrow> dispatch_table \<Rightarrow> (nat \<Rightarrow> (DispatchId, GovernedCommandResult) hm) \<Rightarrow>
   (DispatchId option \<times> observation) list \<Rightarrow> bool" for sha256 where
  history_start: "history sha256 [] (\<lambda>_. []) []"
| history_restart: "history sha256 t C tr \<Longrightarrow> history sha256 t (C(n := [])) tr"
| history_execute: "history sha256 t C tr \<Longrightarrow>
    dreach \<lparr>ds_store = t, ds_cache = C n\<rparr> (execute_owned sha256 config command) evs s p \<Longrightarrow>
    history sha256 (ds_store s) (C(n := ds_cache s))
      (tr @ map (Pair (Some (cmd_dispatch_id command))) (observed evs p))"
| history_reconcile: "history sha256 t C tr \<Longrightarrow>
    dreach \<lparr>ds_store = t, ds_cache = C n\<rparr> (reconcile_all config) evs s p \<Longrightarrow>
    history sha256 (ds_store s) (C(n := ds_cache s)) (tr @ map (Pair None) (observed evs p))"

section \<open>Records are never removed\<close>

lemma dstep_keeps: "dstep p a s = Some (ev, s1, p1) \<Longrightarrow> hm_get (ds_store s) i \<noteq> None \<Longrightarrow> hm_get (ds_store s1) i \<noteq> None"
  by (cases p) (auto simp: dtable_write_def split: danswer.splits sum.splits write_outcome.splits option.splits if_splits)

lemma dreach_keeps: "dreach s p evs s' p' \<Longrightarrow> hm_get (ds_store s) i \<noteq> None \<Longrightarrow> hm_get (ds_store s') i \<noteq> None"
  by (induction rule: reaches.induct) (auto dest: dstep_keeps)

section \<open>How often a program executes\<close>

text \<open>The largest number of executions on any path of the program, as a predicate on its tree.\<close>

primrec budget :: "'a dprog \<Rightarrow> nat \<Rightarrow> bool" where
  "budget (DRet x) n = True"
| "budget DPanic n = True"
| "budget (DLock k) n = (\<forall>x. budget (k x) n)"
| "budget (DLoad i k) n = (\<forall>x. budget (k x) n)"
| "budget (DLoadAll k) n = (\<forall>x. budget (k x) n)"
| "budget (DWrite r k) n = (\<forall>x. budget (k x) n)"
| "budget (DCacheGet i k) n = (\<forall>x. budget (k x) n)"
| "budget (DCacheInsert i r p) n = budget p n"
| "budget (DCacheCleanup i c p) n = budget p n"
| "budget (DUuid k) n = (\<forall>x. budget (k x) n)"
| "budget (DEvaluate a k) n = (\<forall>x. budget (k x) n)"
| "budget (DHost c k) n = (0 < n \<and> (\<forall>x. budget (k x) (n - 1)))"
| "budget (DCreate q c k) n = (\<forall>x. budget (k x) n)"
| "budget (DWaitReady q p c k) n = (\<forall>x. budget (k x) n)"
| "budget (DExec r q c k) n = (0 < n \<and> (\<forall>x. budget (k x) (n - 1)))"
| "budget (DDelete t c k) n = (\<forall>x. budget (k x) n)"
| "budget (DWaitDeleted t c k) n = (\<forall>x. budget (k x) n)"

lemma budget_add: "budget p m \<Longrightarrow> budget p (m + j)"
proof (induction p arbitrary: m)
  case (DHost c k)
  have "budget (k x) (m + j - 1)" for x
    using DHost.IH [of "k x" "m - 1"] DHost.prems by simp
  with DHost.prems show ?case by simp
next
  case (DExec r q c k)
  have "budget (k x) (m + j - 1)" for x
    using DExec.IH [of "k x" "m - 1"] DExec.prems by simp
  with DExec.prems show ?case by simp
qed simp_all

lemma budget_mono: "budget p m \<Longrightarrow> m \<le> n \<Longrightarrow> budget p n"
  using budget_add [of p m "n - m"] by simp

lemma budget_dbind: "budget p m \<Longrightarrow> (\<And>x. budget (f x) n) \<Longrightarrow> budget (dbind p f) (m + n)"
proof (induction p arbitrary: m)
  case (DRet x)
  from budget_mono [OF DRet.prems(2) [of x], of "m + n"] show ?case
    by simp
next
  case (DHost c k)
  then show ?case
    by (auto simp flip: add_diff_assoc2)
next
  case (DExec r q c k)
  then show ?case
    by (auto simp flip: add_diff_assoc2)
qed auto

lemma budget_dbind_0: "budget p 0 \<Longrightarrow> (\<And>x. budget (f x) n) \<Longrightarrow> budget (dbind p f) n"
  using budget_dbind [of p 0 f n] by auto

lemma budget_run:
  "dreach s p evs s' p' \<Longrightarrow> budget p n \<Longrightarrow> length (filter executes (observed evs p')) \<le> n"
proof (induction arbitrary: n rule: reaches.induct)
  case (reaches_refl s p)
  then show ?case
    by (cases p) (auto simp: observed_def)
next
  case (reaches_step p a s ev s1 p1 evs s2 p2)
  from reaches_step.hyps(1) reaches_step.prems
  have "budget p1 (n - length (filter executes (map Seen ev))) \<and> length (filter executes (map Seen ev)) \<le> n"
    by (cases p) (auto split: danswer.splits prod.splits option.splits)
  with reaches_step.IH show ?case
    by (fastforce simp: observed_def)
qed

lemma budget_with_context: "(\<And>ctx. budget (k ctx) n) \<Longrightarrow> budget (with_context d k) n"
  by (simp add: with_context_def split: option.splits)

lemma budget_cleanup: "budget (dispatch_cleanup config target) 0"
  by (simp add: dispatch_cleanup_def budget_with_context)

lemma budget_finish: "budget (dispatch_finish r result) 0"
  by (simp add: dispatch_finish_def Let_def)

lemma budget_reconcile_record: "budget (reconcile_record config r) 0"
  by (simp add: reconcile_record_def budget_dbind_0 budget_cleanup split: option.splits)

lemma budget_reconcile_records: "budget (reconcile_records config report rs) 0"
  by (induction config report rs rule: reconcile_records.induct)
    (simp_all add: budget_dbind_0 budget_reconcile_record)

lemma budget_reconcile_all: "budget (reconcile_all config) 0"
  by (simp add: reconcile_all_def budget_dbind_0 budget_reconcile_records split: sum.splits)

lemma budget_replay: "budget (replay_existing config i digest r) 0"
  by (simp add: replay_existing_def budget_dbind_0 budget_reconcile_record split: option.splits)

lemma budget_host: "budget (execute_host i governance command) (Suc 0)"
  by (simp add: execute_host_def Let_def split: sum.splits prod.splits)

lemma budget_ready: "budget (execute_ready config i governance command target ready r) (Suc 0)"
  by (simp add: execute_ready_def Let_def budget_dbind_0 budget_cleanup budget_with_context split: sum.splits)

lemma budget_sandbox: "budget (execute_sandbox config i governance command cleanup_id r) (Suc 0)"
  by (simp add: execute_sandbox_def await_ready_def Let_def budget_dbind_0 budget_cleanup budget_with_context budget_ready
      split: sum.splits option.splits)

lemma budget_route: "budget (route_verdict config i effective r verdict governance) (Suc 0)"
proof -
  have "budget (dbind (execute_host i governance effective) (dispatch_finish r')) (Suc 0 + 0)" for r'
    by (intro budget_dbind budget_host budget_finish)
  moreover have "budget (dbind (execute_sandbox config i governance effective c r')
      (\<lambda>(result, r2). dispatch_finish r2 result)) (Suc 0 + 0)" for c r'
    by (intro budget_dbind budget_sandbox) (simp add: budget_finish split: prod.splits)
  ultimately show ?thesis
    by (cases verdict)
      (simp_all add: route_verdict_def Let_def budget_mono [OF budget_finish] split: option.splits)
qed

lemma budget_governed: "budget (governed_part config i effective r) (Suc 0)"
  by (simp add: governed_part_def budget_route budget_mono [OF budget_finish] split: sum.splits prod.splits)

text \<open>Results that only say that the request or the store could not be used.\<close>

definition refusals :: "DispatchId \<Rightarrow> GovernedCommandResult set" where
  "refusals i = insert (persistence_result i SE_None)
     (GovernedCommandResult_validation i ` {GE_CommandTooLarge, GE_InvalidCommand, GE_DigestMismatch})"

text \<open>
  The shape of \<open>execute_owned\<close>: it ends without an effect, replays a record, or, when there is no
  record, writes one and goes on behind it.
\<close>

lemma execute_owned_cases:
  assumes "\<And>result. result \<in> refusals (cmd_dispatch_id command) \<Longrightarrow> Q [] s (DRet result)" and "Q [] s DPanic" and "\<And>k. Q [] s (DLock k)"
    and "\<And>k. Q [] s (DLoad (cmd_dispatch_id command) k)"
    and "\<And>r digest. hm_get (ds_store s) (cmd_dispatch_id command) = Some r \<Longrightarrow>
      dalways Q s (replay_existing config (cmd_dispatch_id command) digest r)"
    and "\<And>effective digest. hm_get (ds_store s) (cmd_dispatch_id command) = None \<Longrightarrow>
      \<not> cmd_resume_only command \<Longrightarrow>
      EffectiveCommand_validate (cmd_argv command) (cmd_timeout_seconds command) (dc_command_limits config) = Ok effective \<Longrightarrow>
      EffectiveCommand_digest sha256 effective = Some digest \<Longrightarrow>
      dalways Q s (DWrite (DispatchRecord_new (cmd_dispatch_id command) digest) (\<lambda>written.
        if \<not> written then DRet (persistence_result (cmd_dispatch_id command) SE_None)
        else governed_part config (cmd_dispatch_id command) effective
               (DispatchRecord_new (cmd_dispatch_id command) digest)))"
  shows "dalways Q s (execute_owned sha256 config command)"
proof -
  have Q: "dalways Q s (DRet (persistence_result (cmd_dispatch_id command) SE_None))"
      "dalways Q s (DRet (GovernedCommandResult_validation (cmd_dispatch_id command) GE_DigestMismatch))"
      "dalways Q s (DRet (GovernedCommandResult_validation (cmd_dispatch_id command)
         (if b then GE_CommandTooLarge else GE_InvalidCommand)))" "dalways Q s DPanic" for b
    using assms(1,2) by (simp_all add: dalways_simps refusals_def)
  show ?thesis
  proof (cases "EffectiveCommand_validate (cmd_argv command) (cmd_timeout_seconds command) (dc_command_limits config)")
    case (Inl e)
    then show ?thesis
      using assms(3) Q by (simp add: execute_owned_def execute_locked_def Command_into_parts_def dalways_DLock)
  next
    case (Inr effective)
    show ?thesis
    proof (cases "EffectiveCommand_digest sha256 effective")
      case None
      with Inr show ?thesis
        using assms(3) Q by (simp add: execute_owned_def execute_locked_def Command_into_parts_def dalways_DLock)
    next
      case (Some digest)
      show ?thesis
        using assms(3,4) Q assms(5) [of _ digest] assms(6) [OF _ _ Inr Some] Inr Some
        by (auto simp: execute_owned_def execute_locked_def Command_into_parts_def dalways_DLock dalways_DLoad
            Let_def split: option.splits)
    qed
  qed
qed

section \<open>At most one execution\<close>

definition spends :: "DispatchId \<Rightarrow> nat \<Rightarrow> devent list \<Rightarrow> dispatcher \<Rightarrow> 'a dprog \<Rightarrow> bool" where
  "spends i n evs s p \<longleftrightarrow> length (filter executes (observed evs p)) \<le> n
     \<and> (list_ex executes (observed evs p) \<longrightarrow> hm_get (ds_store s) i \<noteq> None)"

lemma spends_write: "(\<lambda>evs. spends i n (DE_write r b # evs)) = spends i n"
  by (intro ext) (simp add: spends_def observed_def)

lemma spends_still: "pending_call p = [] \<Longrightarrow> spends i n [] s p"
  by (simp add: spends_def observed_def)

lemma spends_none: "budget p 0 \<Longrightarrow> dalways (spends i n) s p"
  using budget_run [of s p _ _ _ 0] by (fastforce simp: holds_def spends_def list_ex_iff filter_empty_conv)

lemma spends_one: "budget p (Suc 0) \<Longrightarrow> hm_get (ds_store s) i \<noteq> None \<Longrightarrow> dalways (spends i (Suc 0)) s p"
  using budget_run [of s p _ _ _ "Suc 0"] dreach_keeps [of s p _ _ _ i] by (simp add: holds_def spends_def)

lemma execute_spends:
  "dalways (spends (cmd_dispatch_id command)
     (if hm_get (ds_store s) (cmd_dispatch_id command) = None then Suc 0 else 0)) s (execute_owned sha256 config command)"
proof (rule execute_owned_cases)
  fix effective digest
  assume "hm_get (ds_store s) (cmd_dispatch_id command) = None"
  then show "dalways (spends (cmd_dispatch_id command)
      (if hm_get (ds_store s) (cmd_dispatch_id command) = None then Suc 0 else 0)) s
      (DWrite (DispatchRecord_new (cmd_dispatch_id command) digest) (\<lambda>written.
        if \<not> written then DRet (persistence_result (cmd_dispatch_id command) SE_None)
        else governed_part config (cmd_dispatch_id command) effective
               (DispatchRecord_new (cmd_dispatch_id command) digest)))"
    by (simp add: dalways_DWrite_valid spends_write spends_still spends_none spends_one budget_governed
        DispatchRecord_new_def [THEN arg_cong, of dp_dispatch_id])
qed (simp_all add: spends_still spends_none budget_replay)

definition executions :: "DispatchId \<Rightarrow> (DispatchId option \<times> observation) list \<Rightarrow> nat" where
  "executions i tr = length (filter (\<lambda>(j, e). j = Some i \<and> executes e) tr)"

lemma executions_append [simp]: "executions i (tr @ tr') = executions i tr + executions i tr'"
  by (simp add: executions_def)

lemma executions_tagged [simp]:
  "executions i (map (Pair (Some j)) es) = (if i = j then length (filter executes es) else 0)"
  "executions i (map (Pair None) es) = 0"
  by (induction es) (auto simp: executions_def)

lemma history_executions:
  assumes "history sha256 t C tr"
  shows "executions i tr \<le> 1 \<and> (executions i tr \<noteq> 0 \<longrightarrow> hm_get t i \<noteq> None)"
  using assms
proof (induction rule: history.induct)
  case (history_execute t C tr n config command evs s p)
  have sp: "spends (cmd_dispatch_id command) (if hm_get t (cmd_dispatch_id command) = None then Suc 0 else 0) evs s p"
    using holdsD [OF execute_spends history_execute.hyps(2)] by simp
  have keep: "hm_get t i \<noteq> None \<Longrightarrow> hm_get (ds_store s) i \<noteq> None"
    using dreach_keeps [OF history_execute.hyps(2)] by simp
  show ?case
  proof (cases "i = cmd_dispatch_id command")
    case True
    let ?n = "length (filter executes (observed evs p))"
    have "?n \<noteq> 0 \<longrightarrow> hm_get (ds_store s) i \<noteq> None"
      using sp True by (simp add: spends_def list_ex_iff filter_empty_conv)
    moreover have "?n \<le> (if hm_get t i = None then 1 else 0)"
      using sp True by (auto simp: spends_def)
    ultimately show ?thesis
      using history_execute.IH keep True by (auto split: if_splits)
  next
    case False
    with history_execute.IH keep show ?thesis by simp
  qed
next
  case (history_reconcile t C tr n config evs s p)
  then show ?case
    using dreach_keeps [OF history_reconcile.hyps(2), of i] by simp
qed (simp_all add: executions_def)

section \<open>The fence of an execution\<close>

text \<open>
  What must be durable and known when an executor gets the command \<open>c\<close> of dispatch \<open>i\<close>: governance
  has answered, in this run, the activity of this command with an accepted response that carries the
  verdict, and the stored record holds this response, the digest of the command, the stage and the
  state \<open>PossiblyDispatched\<close>.
\<close>

definition fenced ::
  "(bytes \<Rightarrow> bytes) \<Rightarrow> DispatchId \<Rightarrow> EffectiveCommand \<Rightarrow> GovernanceVerdict \<Rightarrow> RecordStage \<Rightarrow>
   devent list \<Rightarrow> dispatcher \<Rightarrow> DispatchRecord \<Rightarrow> bool" where
  "fenced sha256 i c verdict stage evs s r \<longleftrightarrow>
     hm_get (ds_store s) i = Some r \<and> dp_stage r = stage \<and> dp_dispatch_state r = GD_PossiblyDispatched
     \<and> EffectiveCommand_digest sha256 c = Some (dp_command_digest r)
     \<and> (\<exists>response. DE_evaluate (ActivityStarted_new i c) (Ok response) \<in> set evs
          \<and> accepted_response i verdict response
          \<and> dp_governance r = Some (GO_Authoritative verdict response))"

text \<open>The sandbox that executes was created and attested in this run for the record's cleanup id.\<close>

definition sandbox_of ::
  "DispatcherConfig \<Rightarrow> devent list \<Rightarrow> DispatchRecord \<Rightarrow> ReadySandbox \<Rightarrow> bool" where
  "sandbox_of config evs r ready \<longleftrightarrow> dp_selected_executor r = SE_Sandbox
     \<and> rs_active_policy ready = sab_policy (dc_assets config)
     \<and> (\<exists>q created. DE_create q (Ok created) \<in> set evs \<and> DE_ready created (Ok ready) \<in> set evs
          \<and> dp_cleanup_id r = Some (cr_request_id q) \<and> cr_expected_policy q = sab_policy (dc_assets config))"

definition authorized ::
  "(bytes \<Rightarrow> bytes) \<Rightarrow> DispatcherConfig \<Rightarrow> DispatchId \<Rightarrow> EffectiveCommand \<Rightarrow>
   devent list \<Rightarrow> dispatcher \<Rightarrow> 'a dprog \<Rightarrow> bool" where
  "authorized sha256 config i c evs s p \<longleftrightarrow>
     (case p of
        DHost c' k \<Rightarrow> c' = c \<and> (\<exists>r. fenced sha256 i c GV_Allow RS_HostDispatchPossible evs s r)
      | DExec ready request ctx k \<Rightarrow>
          argv_slice (er_argv request) = ecm_argv c \<and> ct_seconds (er_timeout request) = ecm_timeout_seconds c
          \<and> er_output_limits request = dc_output_limits config
          \<and> (\<exists>r. fenced sha256 i c GV_Constrain RS_SandboxDispatchPossible evs s r \<and> sandbox_of config evs r ready)
      | _ \<Rightarrow> True)"

lemma authorized_idle: "budget p 0 \<Longrightarrow> authorized sha256 config i c evs s p"
  by (cases p) (simp_all add: authorized_def)

lemma authorized_still: "\<not> list_ex executes (pending_call p) \<Longrightarrow> authorized sha256 config i c evs s p"
  by (cases p) (simp_all add: authorized_def)

lemma authorized_none:
  assumes "budget p 0"
  shows "dalways (\<lambda>evs. authorized sha256 config i c (seen evs)) s p"
proof (unfold holds_def, intro allI impI)
  fix evs s' p'
  assume "dreach s p evs s' p'"
  from budget_run [OF this assms] show "authorized sha256 config i c (seen evs) s' p'"
    by (intro authorized_still) (auto simp: observed_def list_ex_iff filter_empty_conv)
qed

lemma authorized_then:
  fixes p :: "'a dprog" and f :: "'a \<Rightarrow> 'b dprog"
  assumes "dalways (\<lambda>evs. authorized sha256 config i c (seen evs)) s p" and "\<And>x. budget (f x) 0"
  shows "dalways (\<lambda>evs. authorized sha256 config i c (seen evs)) s (dbind p f)"
proof (rule operation.holds_seq, rule holds_mono [OF assms(1)], intro conjI allI impI)
  fix evs s' and p' :: "'a dprog"
  assume "authorized sha256 config i c (seen evs) s' p'"
  then show "authorized sha256 config i c (seen evs) s' (dbind p' f)"
    using authorized_idle [OF assms(2)] by (cases p') (simp_all add: authorized_def)
  show "dalways (\<lambda>evs'. authorized sha256 config i c (seen (evs @ evs'))) s' (f x)" for x
    by (rule authorized_none [OF assms(2)])
qed

lemma authorized_cleanup [simp]:
  "dalways (\<lambda>evs. authorized sha256 config i c (seen evs)) s
     (dbind (dispatch_cleanup config' target) (\<lambda>state. DRet (f state)))"
  by (intro authorized_none budget_dbind_0 budget_cleanup) simp

lemma authorized_finish [simp]:
  "dalways (\<lambda>evs. authorized sha256 config i c (seen evs)) s (dispatch_finish r result)"
  by (rule authorized_none [OF budget_finish])

lemma authorized_end [simp]:
  "authorized sha256 config i c evs s (DRet x)" "authorized sha256 config i c evs s DPanic"
  "authorized sha256 config i c evs s (DWrite r kw)" "authorized sha256 config i c evs s (DCreate q ctx kc)"
  "authorized sha256 config i c evs s (DWaitReady created policy ctx kr)"
  "authorized sha256 config i c evs s (DUuid ku)" "authorized sha256 config i c evs s (DEvaluate a ke)"
  "authorized sha256 config i c evs s (DLock kl)" "authorized sha256 config i c evs s (DLoad i' kd)"
  by (simp_all add: authorized_def)

lemma dalways_with_context:
  "dalways Q s (with_context d k) \<longleftrightarrow> (case dispatch_operation_context d of None \<Rightarrow> Q [] s DPanic | Some ctx \<Rightarrow> dalways Q s (k ctx))"
  by (simp add: with_context_def dalways_simps split: option.splits)

text \<open>One lemma per executor.\<close>

lemma authorized_host:
  assumes "fenced sha256 i c GV_Allow RS_HostDispatchPossible (seen []) s r"
  shows "dalways (\<lambda>evs. authorized sha256 config i c (seen evs)) s (execute_host i governance c)"
proof -
  have "authorized sha256 config i c (seen []) s (DHost c k)" for k :: "_ \<Rightarrow> GovernedCommandResult dprog"
    using assms by (auto simp: authorized_def)
  then show ?thesis
    by (auto simp: execute_host_def dalways_DHost dalways_end Let_def split: sum.splits prod.splits)
qed

text \<open>A record of an accepted constrained dispatch, before its last fence.\<close>

definition constrained ::
  "(bytes \<Rightarrow> bytes) \<Rightarrow> DispatchId \<Rightarrow> EffectiveCommand \<Rightarrow> devent list \<Rightarrow> DispatchRecord \<Rightarrow> bool" where
  "constrained sha256 i c seen r \<longleftrightarrow>
     dp_dispatch_id r = i \<and> is_ok (DispatchRecord_validate r) \<and> dp_completion r = None
     \<and> dp_selected_executor r = SE_Sandbox
     \<and> EffectiveCommand_digest sha256 c = Some (dp_command_digest r)
     \<and> (\<exists>response. DE_evaluate (ActivityStarted_new i c) (Ok response) \<in> set seen
          \<and> accepted_response i GV_Constrain response
          \<and> dp_governance r = Some (GO_Authoritative GV_Constrain response))"

lemma constrained_steps:
  assumes "constrained sha256 i c seen r"
  shows "is_ok (DispatchRecord_validate (sandbox_ready r))"
    and "is_ok (DispatchRecord_validate (sandbox_dispatch_possible (sandbox_ready r)))"
    and "dp_dispatch_id (sandbox_ready r) = i"
    and "dp_dispatch_id (sandbox_dispatch_possible (sandbox_ready r)) = i"
  using assms by (auto simp: constrained_def DispatchRecord_validate_def dispatch_defs split: if_splits)

lemma constrained_mono: "constrained sha256 i c seen r \<Longrightarrow> set seen \<subseteq> set seen' \<Longrightarrow> constrained sha256 i c seen' r"
  by (auto simp: constrained_def)

lemma sandbox_of_mono: "sandbox_of config seen r ready \<Longrightarrow> set seen \<subseteq> set seen' \<Longrightarrow> sandbox_of config seen' r ready"
  by (fastforce simp: sandbox_of_def)

lemma authorized_exec:
  assumes "constrained sha256 i c known r" and "sandbox_of config known r ready" and "set known \<subseteq> set (seen [])"
    and "hm_get (ds_store s) i = Some (sandbox_dispatch_possible (sandbox_ready r))"
    and "\<And>attempt. budget (k attempt) 0"
  shows "dalways (\<lambda>evs. authorized sha256 config i c (seen evs)) s
    (DExec ready (ExecRequest_new (Argv (ecm_argv c)) (CommandTimeout (ecm_timeout_seconds c)) (dc_output_limits config)) ctx k)"
proof -
  let ?r = "sandbox_dispatch_possible (sandbox_ready r)"
  have "fenced sha256 i c GV_Constrain RS_SandboxDispatchPossible (seen []) s ?r"
    using constrained_mono [OF assms(1,3)] assms(4) by (auto simp: constrained_def fenced_def dispatch_defs)
  moreover have "sandbox_of config (seen []) ?r ready"
    using sandbox_of_mono [OF assms(2,3)] by (auto simp: sandbox_of_def dispatch_defs)
  ultimately have "authorized sha256 config i c (seen []) s (DExec ready
      (ExecRequest_new (Argv (ecm_argv c)) (CommandTimeout (ecm_timeout_seconds c)) (dc_output_limits config)) ctx k)"
    by (auto simp: authorized_def ExecRequest_new_def)
  then show ?thesis
    by (simp add: dalways_DExec authorized_none [OF assms(5)])
qed

lemma authorized_ready:
  assumes con: "constrained sha256 i c known r" and box: "sandbox_of config known r ready"
    and seen: "\<And>evs. set known \<subseteq> set (seen evs)"
  shows "dalways (\<lambda>evs. authorized sha256 config i c (seen evs)) s
    (execute_ready config i governance c target ready r)"
proof -
  let ?r1 = "sandbox_ready r" and ?r2 = "sandbox_dispatch_possible (sandbox_ready r)"
  note [simp] = constrained_steps [OF con]
  have exec: "dalways (\<lambda>evs. authorized sha256 config i c (seen (pre @ evs)))
      (s'\<lparr>ds_store := hm_insert i ?r2 t\<rparr>)
      (with_context d (\<lambda>ctx.
        DExec ready (ExecRequest_new (Argv (ecm_argv c)) (CommandTimeout (ecm_timeout_seconds c)) (dc_output_limits config)) ctx
          (\<lambda>attempt. dbind (dispatch_cleanup config target) (\<lambda>state.
             DRet (sandbox_result i governance attempt state, confirm_if_absent state ?r2)))))" for pre s' t d
    by (auto simp: dalways_with_context split: option.splits
        intro!: authorized_exec [OF con box] seen budget_dbind_0 budget_cleanup)
  show ?thesis
    using exec [where pre = "[DE_write ?r1 True, DE_write ?r2 True]" and s' = s and t = "hm_insert i ?r1 (ds_store s)"]
    by (auto simp: execute_ready_def Let_def dalways_DWrite_valid dalways_end Argv_new_def CommandTimeout_new_def
        split: sum.splits)
qed

lemma authorized_sandbox:
  assumes con: "constrained sha256 i c known r" and seen: "\<And>evs. set known \<union> set evs \<subseteq> set (seen evs)"
    and cleanup: "dp_cleanup_id r = Some cleanup_id"
  shows "dalways (\<lambda>evs. authorized sha256 config i c (seen evs)) s
    (execute_sandbox config i governance c cleanup_id r)"
proof -
  let ?q = "CreateRequest_new cleanup_id (sab_template (dc_assets config))
    (sab_policy_document (dc_assets config)) (sab_policy (dc_assets config))"
  have ready: "dalways (\<lambda>evs. authorized sha256 config i c (seen (DE_create ?q (Ok created) # DE_ready created (Ok ready) # evs))) s
      (execute_ready config i governance c target ready r)"
    if "rs_active_policy ready = sab_policy (dc_assets config)" for created ready target
  proof (rule authorized_ready)
    let ?known = "known @ [DE_create ?q (Ok created), DE_ready created (Ok ready)]"
    show "constrained sha256 i c ?known r"
      using con by (rule constrained_mono) auto
    show "sandbox_of config ?known r ready"
      unfolding sandbox_of_def using con cleanup that
      by (intro conjI exI [of _ ?q] exI [of _ created]) (simp_all add: constrained_def CreateRequest_new_def)
    show "set ?known \<subseteq> set (seen (DE_create ?q (Ok created) # DE_ready created (Ok ready) # evs))" for evs
      using seen [of "DE_create ?q (Ok created) # DE_ready created (Ok ready) # evs"] by auto
  qed
  show ?thesis
    by (auto simp: execute_sandbox_def await_ready_def Let_def dalways_with_context dalways_DCreate dalways_DWaitReady dalways_end
        split: sum.splits option.splits intro!: ready)
qed

lemma authorized_route:
  assumes "validate_governance_response i response = Ok (verdict, governance)"
    and "DE_evaluate (ActivityStarted_new i c) (Ok response) \<in> set known"
    and "EffectiveCommand_digest sha256 c = Some digest" and seen: "\<And>evs. set known \<union> set evs \<subseteq> set (seen evs)"
  shows "dalways (\<lambda>evs. authorized sha256 config i c (seen evs)) s
    (route_verdict config i c (DispatchRecord_new i digest) verdict governance)"
proof -
  let ?r = "DispatchRecord_new i digest"
  have acc: "accepted_response i verdict response" "governance = GO_Authoritative verdict response"
    using assms(1) by (simp_all add: validate_governance_response_Ok)
  have id: "dp_dispatch_id (select_host governance ?r) = i" "dp_dispatch_id (select_sandbox governance cid ?r) = i" for cid
    by (simp_all add: dispatch_defs)
  have valid: "is_ok (DispatchRecord_validate (select_host governance ?r))"
      "is_ok (DispatchRecord_validate (select_sandbox governance cid ?r))" for cid
    by (simp_all add: dispatch_defs DispatchRecord_validate_def)
  have seen': "set known \<subseteq> set (seen evs)" for evs
    using seen by blast
  show ?thesis
  proof (cases verdict)
    case GV_Allow
    have "fenced sha256 i c GV_Allow RS_HostDispatchPossible (seen evs)
        (s\<lparr>ds_store := hm_insert i (select_host governance ?r) (ds_store s)\<rparr>) (select_host governance ?r)" for evs
      using acc assms(2,3) seen' [of evs] GV_Allow by (auto simp: fenced_def dispatch_defs)
    from authorized_then [OF authorized_host [OF this] budget_finish] GV_Allow show ?thesis
      by (simp add: route_verdict_def Let_def dalways_DWrite_valid valid id dalways_end)
  next
    case GV_Constrain
    have "constrained sha256 i c known (select_sandbox governance cid ?r)" for cid
      using acc assms(2,3) GV_Constrain valid by (auto simp: constrained_def dispatch_defs)
    then have box: "dalways (\<lambda>evs. authorized sha256 config i c (seen (ev # evs))) s'
        (execute_sandbox config i governance c cid (select_sandbox governance cid ?r))" for cid s' ev
    proof (rule authorized_sandbox)
      show "set known \<union> set evs \<subseteq> set (seen (ev # evs))" for evs
        using seen [of "ev # evs"] by auto
    qed (simp add: select_sandbox_def)
    have "dalways (\<lambda>evs. authorized sha256 config i c (seen (ev # evs))) s'
        (dbind (execute_sandbox config i governance c cid (select_sandbox governance cid ?r))
           (\<lambda>(result, r2). dispatch_finish r2 result))" for cid s' ev
      by (rule authorized_then [OF box]) (simp add: budget_finish split: prod.splits)
    with GV_Constrain show ?thesis
      by (auto simp: route_verdict_def Let_def dalways_DUuid dalways_DWrite_valid valid id dalways_end split: option.splits)
  qed (simp_all add: route_verdict_def)
qed

lemma authorized_execute:
  "dalways (\<lambda>evs s' p. list_ex executes (pending_call p) \<longrightarrow>
     (\<exists>c. EffectiveCommand_validate (cmd_argv command) (cmd_timeout_seconds command) (dc_command_limits config) = Ok c
        \<and> \<not> cmd_resume_only command \<and> hm_get (ds_store s) (cmd_dispatch_id command) = None
        \<and> authorized sha256 config (cmd_dispatch_id command) c evs s' p)) s (execute_owned sha256 config command)"
    (is "dalways ?Q s _")
proof (rule execute_owned_cases)
  fix r digest
  show "dalways ?Q s (replay_existing config (cmd_dispatch_id command) digest r)"
    unfolding holds_def using budget_run [OF _ budget_replay]
    by (fastforce simp: observed_def list_ex_iff filter_empty_conv)
next
  fix c digest
  let ?i = "cmd_dispatch_id command"
  assume *: "hm_get (ds_store s) ?i = None" "\<not> cmd_resume_only command"
      "EffectiveCommand_validate (cmd_argv command) (cmd_timeout_seconds command) (dc_command_limits config) = Ok c"
    and digest: "EffectiveCommand_digest sha256 c = Some digest"
  let ?P = "DWrite (DispatchRecord_new ?i digest) (\<lambda>written.
        if \<not> written then DRet (persistence_result ?i SE_None)
        else governed_part config ?i c (DispatchRecord_new ?i digest))"
  have id: "dp_dispatch_id (DispatchRecord_new ?i digest) = ?i"
    by (simp add: DispatchRecord_new_def)
  have "dalways (\<lambda>evs. authorized sha256 config ?i c evs) s ?P"
    by (auto simp: governed_part_def dalways_DWrite_valid dalways_DEvaluate dalways_end id digest
        split: sum.splits prod.splits intro!: authorized_route [where known = "[DE_evaluate _ _]"])
  then show "dalways ?Q s ?P"
    by (rule holds_mono) (use * in blast)
qed simp_all

end
