(* ===== verification/Dispatch_Cleanup.thy ===== *)
theory Dispatch_Cleanup
  imports Dispatch_Safety
begin

text \<open>
  What the cleanup identifier of a dispatch record is for: in every history, a sandbox that the
  runtime may have created and has not confirmed absent is named by a record that still asks for
  reconciliation. The runtime is trusted to answer about the sandbox it was asked about.
\<close>

section \<open>Sandboxes that may exist\<close>

fun honest_event :: "devent \<Rightarrow> bool" where
  "honest_event (DE_create q (Inr created)) \<longleftrightarrow> cs_request_id created = cr_request_id q"
| "honest_event (DE_create q (Inl f)) \<longleftrightarrow>
     (case CreateFailure_cleanup_target f of None \<Rightarrow> True | Some target \<Rightarrow> target_request_id target = cr_request_id q)"
| "honest_event (DE_ready created (Inr ready)) \<longleftrightarrow> rs_request_id ready = cs_request_id created"
| "honest_event (DE_ready created (Inl f)) \<longleftrightarrow> target_request_id (rf_cleanup_target f) = cs_request_id created"
| "honest_event _ \<longleftrightarrow> True"

fun honest_observation :: "observation \<Rightarrow> bool" where
  "honest_observation (Seen e) = honest_event e"
| "honest_observation _ = True"

fun existing_after :: "observation \<Rightarrow> RequestOwnedId set \<Rightarrow> RequestOwnedId set" where
  "existing_after (Seen (DE_create q x)) L =
     (case x of
        Inr _ \<Rightarrow> insert (cr_request_id q) L
      | Inl f \<Rightarrow> if CreateFailure_state f = CS_PossiblyCreated then insert (cr_request_id q) L else L)"
| "existing_after (CreateInterrupted q) L = insert (cr_request_id q) L"
| "existing_after (Seen (DE_absent target x)) L = (if is_ok x then L - {target_request_id target} else L)"
| "existing_after _ L = L"

definition existing :: "observation list \<Rightarrow> RequestOwnedId set \<Rightarrow> RequestOwnedId set" where
  "existing es L = fold existing_after es L"

lemma existing_simps [simp]:
  "existing [] L = L"
  "existing (e # es) L = existing es (existing_after e L)"
  "existing (es @ es') L = existing es' (existing es L)"
  by (simp_all add: existing_def)

section \<open>Records that ask for cleanup\<close>

definition pending_at :: "dispatcher \<Rightarrow> DispatchId \<Rightarrow> RequestOwnedId \<Rightarrow> bool" where
  "pending_at s i c \<longleftrightarrow> (\<exists>r. hm_get (ds_store s) i = Some r \<and> dp_cleanup_id r = Some c
     \<and> dp_cleanup_state r = GC_PendingReconciliation)"

definition elsewhere :: "DispatchId \<Rightarrow> dispatcher \<Rightarrow> RequestOwnedId set" where
  "elsewhere i s = {c. \<exists>j. j \<noteq> i \<and> pending_at s j c}"

definition tracked :: "dispatcher \<Rightarrow> RequestOwnedId set" where
  "tracked s = {c. \<exists>j. pending_at s j c}"

lemma pending_at_insert [simp]:
  "pending_at (s\<lparr>ds_store := hm_insert i r t\<rparr>) j c \<longleftrightarrow>
     (if j = i then dp_cleanup_id r = Some c \<and> dp_cleanup_state r = GC_PendingReconciliation
      else pending_at (s\<lparr>ds_store := t\<rparr>) j c)"
  by (simp add: pending_at_def)

lemma pending_at_cache [simp]:
  "pending_at (s\<lparr>ds_cache := cache\<rparr>) = pending_at s"
  "pending_at (s\<lparr>ds_store := ds_store s\<rparr>) = pending_at s"
  by (simp_all add: pending_at_def fun_eq_iff)

lemma elsewhere_insert [simp]:
  "elsewhere i (s\<lparr>ds_store := hm_insert i r t\<rparr>) = elsewhere i (s\<lparr>ds_store := t\<rparr>)"
  "elsewhere i (s\<lparr>ds_cache := cache\<rparr>) = elsewhere i s"
  "tracked (s\<lparr>ds_cache := cache\<rparr>) = tracked s"
  by (auto simp: elsewhere_def tracked_def)

lemma tracked_split: "tracked s = elsewhere i s \<union> {c. pending_at s i c}"
  by (auto simp: elsewhere_def tracked_def)

definition tidy :: "RequestOwnedId set \<Rightarrow> devent list \<Rightarrow> dispatcher \<Rightarrow> 'a dprog \<Rightarrow> bool" where
  "tidy L evs s p \<longleftrightarrow> list_all honest_event evs \<longrightarrow> existing (observed evs p) L \<subseteq> tracked s"

lemma tidy_Cons: "tidy L (e # evs) s p \<longleftrightarrow> (honest_event e \<longrightarrow> tidy (existing_after (Seen e) L) evs s p)"
  by (auto simp: tidy_def observed_def)

lemma dalways_tidy_Cons:
  "dalways (\<lambda>evs. tidy L (e # evs)) s p \<longleftrightarrow> (honest_event e \<longrightarrow> dalways (tidy (existing_after (Seen e) L)) s p)"
  by (auto simp: holds_def tidy_Cons)

lemma tidy_now:
  "tidy L [] s (DCreate q ctx k) \<longleftrightarrow> insert (cr_request_id q) L \<subseteq> tracked s"
  "(\<And>q ctx k. p \<noteq> DCreate q ctx k) \<Longrightarrow> tidy L [] s p \<longleftrightarrow> L \<subseteq> tracked s"
  by (simp add: tidy_def observed_def, cases p) (auto simp: tidy_def observed_def)

lemmas tidy_simps = dalways_tidy_Cons tidy_now dalways_simps

lemma dbind_assoc: "dbind (dbind p f) g = dbind p (\<lambda>x. dbind (f x) g)"
  by (induction p) simp_all

lemma dbind_with_context: "dbind (with_context d k) f = with_context d (\<lambda>ctx. dbind (k ctx) f)"
  by (simp add: with_context_def split: option.splits)

lemma tidy_with_context:
  "L \<subseteq> tracked s \<Longrightarrow> (\<And>ctx. dalways (tidy L) s (k ctx)) \<Longrightarrow> dalways (tidy L) s (with_context d k)"
  by (simp add: with_context_def tidy_simps split: option.splits)

lemma tidy_cleanup:
  assumes "L \<subseteq> tracked s" and "dalways (tidy (L - {target_request_id target})) s (f GC_ConfirmedAbsent)"
    and "dalways (tidy L) s (f GC_PendingReconciliation)"
  shows "dalways (tidy L) s (dbind (dispatch_cleanup config target) f)"
  using assms
  by (auto simp: dispatch_cleanup_def dbind_with_context tidy_simps intro!: tidy_with_context)

text \<open>Writing the record of \<open>i\<close>: what stays tracked when the write took effect.\<close>

definition tracked_with :: "DispatchRecord \<Rightarrow> dispatcher \<Rightarrow> RequestOwnedId set" where
  "tracked_with r s = elsewhere (dp_dispatch_id r) s
     \<union> (if dp_cleanup_state r = GC_PendingReconciliation then set_option (dp_cleanup_id r) else {})"

lemma tracked_insert: "tracked (s\<lparr>ds_store := hm_insert (dp_dispatch_id r) r (ds_store s)\<rparr>) = tracked_with r s"
  unfolding tracked_split [of _ "dp_dispatch_id r"] by (auto simp: tracked_with_def elsewhere_def)

lemma tidy_write:
  assumes "L \<subseteq> tracked s" and "L \<subseteq> tracked_with r s"
    and "\<And>b s'. s' \<in> {s, s\<lparr>ds_store := hm_insert (dp_dispatch_id r) r (ds_store s)\<rparr>} \<Longrightarrow>
      (b \<Longrightarrow> hm_get (ds_store s') (dp_dispatch_id r) = Some r) \<Longrightarrow> L \<subseteq> tracked s' \<Longrightarrow> dalways (tidy L) s' (k b)"
  shows "dalways (tidy L) s (DWrite r k)"
proof -
  have "dalways (tidy L) (s\<lparr>ds_store := snd (dtable_write w r (ds_store s))\<rparr>) (k (is_ok (fst (dtable_write w r (ds_store s)))))" for w
  proof (rule assms(3))
    show "s\<lparr>ds_store := snd (dtable_write w r (ds_store s))\<rparr> \<in> {s, s\<lparr>ds_store := hm_insert (dp_dispatch_id r) r (ds_store s)\<rparr>}"
      by (auto simp: dtable_write_def split: sum.splits write_outcome.splits)
    then show "L \<subseteq> tracked (s\<lparr>ds_store := snd (dtable_write w r (ds_store s))\<rparr>)"
      using assms(1,2) tracked_insert [of r s] by auto
  qed (auto simp: dtable_write_def split: sum.splits write_outcome.splits)
  with assms(1) show ?thesis
    by (simp add: dalways_DWrite tidy_simps)
qed

lemma tidy_finish:
  assumes "L \<subseteq> tracked s" and "L \<subseteq> elsewhere (dp_dispatch_id r) s
      \<union> (if gr_cleanup_state result = GC_PendingReconciliation then set_option (dp_cleanup_id r) else {})"
  shows "dalways (tidy L) s (dispatch_finish r result)"
proof -
  have "L \<subseteq> tracked_with (record_terminal result r) s"
    using assms(2) by (auto simp: tracked_with_def record_terminal_def Let_def split: ExecutionOutcome.splits)
  then show ?thesis
    unfolding dispatch_finish_def Let_def
    by (rule tidy_write [OF assms(1)]) (simp_all add: tidy_simps)
qed

section \<open>A constrained dispatch\<close>

text \<open>The record of \<open>i\<close> asks for the cleanup of \<open>c\<close>, everything else is asked for elsewhere.\<close>

definition guarded :: "DispatchId \<Rightarrow> RequestOwnedId \<Rightarrow> RequestOwnedId set \<Rightarrow> dispatcher \<Rightarrow> bool" where
  "guarded i c L s \<longleftrightarrow> pending_at s i c \<and> L \<subseteq> insert c (elsewhere i s)"

definition asks :: "DispatchId \<Rightarrow> RequestOwnedId \<Rightarrow> DispatchRecord \<Rightarrow> bool" where
  "asks i c r \<longleftrightarrow> dp_dispatch_id r = i \<and> dp_cleanup_id r = Some c"

lemma guarded_tracked: "guarded i c L s \<Longrightarrow> L \<subseteq> tracked s"
  by (auto simp: guarded_def tracked_split [of s i])

lemma guarded_mono: "guarded i c L s \<Longrightarrow> L' \<subseteq> insert c L \<Longrightarrow> guarded i c L' s"
  by (auto simp: guarded_def)

lemma asks_steps [simp]:
  "asks i c (sandbox_ready r) = asks i c r"
  "asks i c (sandbox_dispatch_possible r) = asks i c r"
  "asks i c (confirm_if_absent state r) = asks i c r"
  by (simp_all add: asks_def dispatch_defs confirm_if_absent_def)

lemma guarded_write:
  assumes "guarded i c L s" and "asks i c r" and "dp_cleanup_state r = GC_PendingReconciliation"
    and "\<And>b s'. guarded i c L s' \<Longrightarrow> dalways (tidy L) s' (k b)"
  shows "dalways (tidy L) s (DWrite r k)"
proof (rule tidy_write)
  show "L \<subseteq> tracked s"
    using assms(1) by (rule guarded_tracked)
  show "L \<subseteq> tracked_with r s"
    using assms(1-3) by (auto simp: guarded_def asks_def tracked_with_def)
  show "dalways (tidy L) s' (k b)"
    if "s' \<in> {s, s\<lparr>ds_store := hm_insert (dp_dispatch_id r) r (ds_store s)\<rparr>}" for b s'
    using that assms(1-3) by (intro assms(4)) (auto simp: guarded_def asks_def)
qed

text \<open>Ending the dispatch: an absent sandbox may be confirmed, another stays pending.\<close>

lemma guarded_finish:
  assumes "guarded i c L s" and "asks i c r" and "gr_cleanup_state result \<noteq> GC_PendingReconciliation \<Longrightarrow> L \<subseteq> elsewhere i s"
  shows "dalways (tidy L) s (dispatch_finish r result)"
  using assms by (intro tidy_finish guarded_tracked [OF assms(1)]) (auto simp: guarded_def asks_def)

lemma guarded_cleanup_finish:
  assumes "guarded i c L s" and "target_request_id target = c"
    and "\<And>state. asks i c (g state)" and "\<And>state. gr_cleanup_state (f state) = state"
  shows "dalways (tidy L) s (dbind (dispatch_cleanup config target) (\<lambda>state. dispatch_finish (g state) (f state)))"
proof (rule tidy_cleanup)
  have "guarded i c (L - {c}) s"
    using guarded_mono [OF assms(1)] by blast
  then show "dalways (tidy (L - {target_request_id target})) s (dispatch_finish (g GC_ConfirmedAbsent) (f GC_ConfirmedAbsent))"
    unfolding assms(2) by (rule guarded_finish [OF _ assms(3)]) (use assms(1) in \<open>auto simp: guarded_def\<close>)
  show "dalways (tidy L) s (dispatch_finish (g GC_PendingReconciliation) (f GC_PendingReconciliation))"
    using assms by (intro guarded_finish) simp_all
qed (rule guarded_tracked [OF assms(1)])

lemma result_cleanup_state [simp]:
  "gr_cleanup_state (not_executed i governance state code phase) = state"
  "gr_cleanup_state (sandbox_result i governance attempt state) = state"
  "gr_cleanup_state (set_cleanup_state state result) = state"
  by (auto simp: not_executed_def sandbox_result_def GovernedCommandResult_new_def set_cleanup_state_def
      set_error_if_none_def Let_def split: sum.splits DispatchState.splits)

abbreviation finishing :: "(GovernedCommandResult \<times> DispatchRecord) dprog \<Rightarrow> GovernedCommandResult dprog" where
  "finishing p \<equiv> dbind p (\<lambda>(result, r2). dispatch_finish r2 result)"

lemma tidy_ready:
  assumes g: "guarded i c L s" and r: "asks i c r" "dp_cleanup_state r = GC_PendingReconciliation"
    and target: "target_request_id target = c"
  shows "dalways (tidy L) s (finishing (execute_ready config i governance command target ready r))"
proof -
  let ?r1 = "sandbox_ready r" and ?r2 = "sandbox_dispatch_possible (sandbox_ready r)"
  have pend: "dp_cleanup_state ?r1 = GC_PendingReconciliation" "dp_cleanup_state ?r2 = GC_PendingReconciliation"
    using r(2) by (simp_all add: dispatch_defs)
  have after: "dalways (tidy L) s' (dbind (dispatch_cleanup config target) (\<lambda>state. dispatch_finish (h state) (f state)))"
    if "guarded i c L s'" and "\<And>state. asks i c (h state)" and "\<And>state. gr_cleanup_state (f state) = state" for s' h f
    using that target by (intro guarded_cleanup_finish)
  have run: "dalways (tidy L) s' (finishing (with_context d (\<lambda>ctx. DExec ready request ctx (\<lambda>attempt.
      dbind (dispatch_cleanup config target) (\<lambda>state.
        DRet (sandbox_result i governance attempt state, confirm_if_absent state ?r2))))))"
    if "guarded i c L s'" for s' d request
    using that guarded_tracked [OF that] r
    by (auto simp: dbind_with_context dbind_assoc tidy_simps intro!: tidy_with_context after)
  show ?thesis
    unfolding execute_ready_def Let_def dbind.simps
  proof (rule guarded_write [OF g])
    fix b s'
    assume g': "guarded i c L s'"
    note tr = guarded_tracked [OF g']
    show "dalways (tidy L) s' (finishing (if \<not> b then dbind (dispatch_cleanup config target) (\<lambda>state.
        DRet (not_executed i governance state GE_PersistenceFailed EP_DispatchPersistence, ?r1))
      else case Argv_new (ecm_argv command) of
        Inl _ \<Rightarrow> DPanic
      | Inr argv \<Rightarrow> (case CommandTimeout_new (ecm_timeout_seconds command) of
          Inl _ \<Rightarrow> DPanic
        | Inr timeout \<Rightarrow> DWrite ?r2 (\<lambda>written.
            if \<not> written then dbind (dispatch_cleanup config target) (\<lambda>state.
              DRet (not_executed i governance state GE_PersistenceFailed EP_DispatchPersistence, ?r2))
            else with_context (duration_saturating_add (secs (ucast (ecm_timeout_seconds command)))
                (dc_dispatch_deadline_slack config)) (\<lambda>ctx.
              DExec ready (ExecRequest_new argv timeout (dc_output_limits config)) ctx (\<lambda>attempt.
                dbind (dispatch_cleanup config target) (\<lambda>state.
                  DRet (sandbox_result i governance attempt state, confirm_if_absent state ?r2))))))))"
      using tr r pend
      by (auto simp: dbind_assoc tidy_simps split: sum.splits intro!: after [OF g'] guarded_write [OF g'] run after)
  qed (use r pend in simp_all)
qed

lemma tidy_await:
  assumes g: "guarded i c L s" and r: "asks i c r" "dp_cleanup_state r = GC_PendingReconciliation"
    and created: "cs_request_id created = c"
  shows "dalways (tidy L) s (finishing (await_ready config i governance command created r))"
  unfolding await_ready_def dbind_with_context
proof (rule tidy_with_context [OF guarded_tracked [OF g]], simp add: tidy_simps guarded_tracked [OF g], intro allI impI)
  fix x
  assume "honest_event (DE_ready created x)"
  with created r show "dalways (tidy L) s (finishing (case x of
        Inr ready \<Rightarrow> if rs_active_policy ready = sab_policy (dc_assets config)
          then execute_ready config i governance command (CreatedSandbox_cleanup_target created) ready r
          else dbind (dispatch_cleanup config (ReadySandbox_cleanup_target ready)) (\<lambda>state.
            DRet (not_executed i governance state GE_SandboxAttestationFailed EP_SandboxAttestation,
              confirm_if_absent state r))
      | Inl f \<Rightarrow> dbind (dispatch_cleanup config (rf_cleanup_target f)) (\<lambda>state.
          DRet (if rf_code f = RF_PolicyMismatch
                then not_executed i governance state GE_SandboxAttestationFailed EP_SandboxAttestation
                else not_executed i governance state GE_SandboxReadinessFailed EP_SandboxReadiness,
                confirm_if_absent state r))))"
    by (cases x) (auto simp: dbind_assoc CreatedSandbox_cleanup_target_def ReadySandbox_cleanup_target_def
        CleanupTarget_new_def intro!: guarded_cleanup_finish [OF g] tidy_ready [OF g])
qed

lemma tidy_create_failed:
  assumes g: "guarded i c (insert c L) s" and L: "L \<subseteq> elsewhere i s" and r: "asks i c r"
    and f: "honest_event (DE_create q (Err f))" "cr_request_id q = c"
  shows "dalways (tidy (existing_after (Seen (DE_create q (Err f))) L)) s
      (finishing (case CreateFailure_cleanup_target f of
         None \<Rightarrow> DRet (not_executed i governance GC_NotNeeded GE_SandboxCreateFailed EP_SandboxCreate, r)
       | Some target \<Rightarrow> dbind (dispatch_cleanup config target) (\<lambda>state.
           DRet (set_cleanup_state state (not_executed i governance GC_PendingReconciliation
             GE_SandboxCreateFailed EP_SandboxCreate), confirm_if_absent state r))))"
proof -
  have "guarded i c L s"
    using guarded_mono [OF g] by blast
  with assms show ?thesis
    by (cases f) (auto simp: dbind_assoc intro!: guarded_finish guarded_cleanup_finish)
qed

lemma tidy_sandbox:
  assumes pend: "pending_at s i c" and L: "L \<subseteq> elsewhere i s"
    and r: "asks i c r" "dp_cleanup_state r = GC_PendingReconciliation"
  shows "dalways (tidy L) s (finishing (execute_sandbox config i governance command c r))"
proof -
  let ?q = "CreateRequest_new c (sab_template (dc_assets config))
    (sab_policy_document (dc_assets config)) (sab_policy (dc_assets config))"
  have g: "guarded i c (insert c L) s"
    using pend L by (auto simp: guarded_def)
  have tr: "insert c L \<subseteq> tracked s" "L \<subseteq> tracked s"
    using guarded_tracked [OF g] by auto
  have q: "cr_request_id ?q = c"
    by (simp add: CreateRequest_new_def)
  have answer: "dalways (tidy (existing_after (Seen (DE_create ?q x)) L)) s (finishing (case x of
      Inl failure \<Rightarrow> (case CreateFailure_cleanup_target failure of
         None \<Rightarrow> DRet (not_executed i governance GC_NotNeeded GE_SandboxCreateFailed EP_SandboxCreate, r)
       | Some target \<Rightarrow> dbind (dispatch_cleanup config target) (\<lambda>state.
           DRet (set_cleanup_state state (not_executed i governance GC_PendingReconciliation
             GE_SandboxCreateFailed EP_SandboxCreate), confirm_if_absent state r)))
    | Inr created \<Rightarrow> await_ready config i governance command created r))"
    if "honest_event (DE_create ?q x)" for x
  proof (cases x)
    case (Inl f)
    with that show ?thesis
      using tidy_create_failed [OF g L r(1) _ q, of f] by simp
  next
    case (Inr created)
    with that q show ?thesis
      using tidy_await [OF g r, of created] by simp
  qed
  show ?thesis
    unfolding execute_sandbox_def Let_def dbind_with_context
    by (rule tidy_with_context [OF tr(2)])
      (use answer tr q in \<open>simp add: dalways_DCreate dalways_tidy_Cons tidy_now del: existing_after.simps(1)\<close>)
qed

section \<open>Every operation\<close>

lemma tidy_route:
  assumes "hm_get (ds_store s) i = Some r" and "L \<subseteq> elsewhere i s" and "r = DispatchRecord_new i digest"
  shows "dalways (tidy L) s (route_verdict config i effective r verdict governance)"
proof -
  have tr: "L \<subseteq> tracked s"
    using assms(2) by (auto simp: tracked_split [of s i])
  have id: "dp_dispatch_id r = i" "dp_dispatch_id (select_host governance r) = i"
      "dp_cleanup_id (select_host governance r) = None" "dp_dispatch_id (select_sandbox governance c r) = i"
      "dp_cleanup_id (select_sandbox governance c r) = Some c"
      "dp_cleanup_state (select_sandbox governance c r) = GC_PendingReconciliation" for c
    by (simp_all add: assms(3) dispatch_defs)
  have finish: "dalways (tidy L) s (dispatch_finish r result)" for result
    by (rule tidy_finish [OF tr]) (use assms(2) in \<open>auto simp: id\<close>)
  show ?thesis
  proof (cases verdict)
    case GV_Allow
    have "dalways (tidy L) s (DWrite (select_host governance r) (\<lambda>written.
        if \<not> written then DRet (persistence_result i SE_Host)
        else dbind (execute_host i governance effective) (dispatch_finish (select_host governance r))))"
    proof (rule tidy_write [OF tr])
      fix b s'
      assume s': "s' \<in> {s, s\<lparr>ds_store := hm_insert (dp_dispatch_id (select_host governance r)) (select_host governance r) (ds_store s)\<rparr>}"
        and tr': "L \<subseteq> tracked s'"
      have "L \<subseteq> elsewhere i s'"
        using s' assms(2) by (auto simp: id)
      then have "dalways (tidy L) s' (dispatch_finish (select_host governance r) result)" for result
        by (intro tidy_finish tr') (auto simp: id)
      with tr' show "dalways (tidy L) s' (if \<not> b then DRet (persistence_result i SE_Host)
          else dbind (execute_host i governance effective) (dispatch_finish (select_host governance r)))"
        by (auto simp: execute_host_def tidy_simps Let_def split: sum.splits prod.splits)
    qed (use assms(2) in \<open>auto simp: tracked_with_def id\<close>)
    with GV_Allow show ?thesis
      by (simp add: route_verdict_def Let_def)
  next
    case GV_Constrain
    have "dalways (tidy L) s (DWrite (select_sandbox governance c r) (\<lambda>written.
        if \<not> written then DRet (persistence_result i SE_Sandbox)
        else finishing (execute_sandbox config i governance effective c (select_sandbox governance c r))))" for c
    proof (rule tidy_write [OF tr])
      fix b s'
      assume s': "s' \<in> {s, s\<lparr>ds_store := hm_insert (dp_dispatch_id (select_sandbox governance c r)) (select_sandbox governance c r) (ds_store s)\<rparr>}"
        and written: "b \<Longrightarrow> hm_get (ds_store s') (dp_dispatch_id (select_sandbox governance c r)) = Some (select_sandbox governance c r)"
        and tr': "L \<subseteq> tracked s'"
      have "dalways (tidy L) s' (finishing (execute_sandbox config i governance effective c (select_sandbox governance c r)))" if b
        using written [OF that] s' assms(2)
        by (intro tidy_sandbox) (auto simp: id asks_def pending_at_def)
      with tr' show "dalways (tidy L) s' (if \<not> b then DRet (persistence_result i SE_Sandbox)
          else finishing (execute_sandbox config i governance effective c (select_sandbox governance c r)))"
        by (auto simp: tidy_simps)
    qed (use assms(2) in \<open>auto simp: tracked_with_def id\<close>)
    with GV_Constrain tr show ?thesis
      by (auto simp: route_verdict_def Let_def tidy_simps split: option.splits)
  qed (use finish in \<open>simp_all add: route_verdict_def\<close>)
qed

lemma tidy_governed:
  assumes "hm_get (ds_store s) i = Some r" and "L \<subseteq> elsewhere i s" and "r = DispatchRecord_new i digest"
  shows "dalways (tidy L) s (governed_part config i effective r)"
proof -
  have tr: "L \<subseteq> tracked s"
    using assms(2) by (auto simp: tracked_split [of s i])
  have id: "dp_dispatch_id r = i"
    by (simp add: assms(3) dispatch_defs)
  have "dalways (tidy L) s (dispatch_finish r result)" for result
    by (rule tidy_finish [OF tr]) (use assms(2) in \<open>auto simp: id\<close>)
  with tidy_route [OF assms] tr show ?thesis
    by (auto simp: governed_part_def tidy_simps split: sum.splits prod.splits)
qed

text \<open>A reconciliation may be given a copy of the record that the table holds.\<close>

lemma tidy_reconcile:
  assumes "L \<subseteq> tracked s" and "hm_get (ds_store s) (dp_dispatch_id r) = Some r"
    and "\<And>L' s'. L' \<subseteq> tracked s' \<Longrightarrow> (\<And>j. j \<noteq> dp_dispatch_id r \<Longrightarrow> hm_get (ds_store s') j = hm_get (ds_store s) j) \<Longrightarrow>
      (\<And>r'. dalways (tidy L') s' (f r'))"
  shows "dalways (tidy L) s (dbind (reconcile_record config r) f)"
proof (cases "dp_cleanup_id r")
  case None
  then show ?thesis
    using assms by (simp add: reconcile_record_def)
next
  case (Some c)
  have sub: "L - {c} \<subseteq> elsewhere (dp_dispatch_id r) s"
    using assms(1,2) Some by (auto simp: tracked_split [of s "dp_dispatch_id r"] pending_at_def)
  have id: "dp_dispatch_id (cleanup_confirmed r) = dp_dispatch_id r"
    by (simp add: dispatch_defs)
  have "dalways (tidy (L - {c})) s (DWrite (cleanup_confirmed r) (\<lambda>_.
      DCacheCleanup (dp_dispatch_id r) GC_ConfirmedAbsent (f (cleanup_confirmed r))))"
  proof (rule tidy_write)
    fix b s'
    assume s': "s' \<in> {s, s\<lparr>ds_store := hm_insert (dp_dispatch_id (cleanup_confirmed r)) (cleanup_confirmed r) (ds_store s)\<rparr>}"
      and tr: "L - {c} \<subseteq> tracked s'"
    have "dalways (tidy (L - {c})) (s'\<lparr>ds_cache := cache\<rparr>) (f (cleanup_confirmed r))" for cache
      using s' tr by (intro assms(3)) (auto simp: id)
    moreover have "dalways (tidy (L - {c})) s' (f (cleanup_confirmed r))"
      using s' tr by (intro assms(3)) (auto simp: id)
    ultimately show "dalways (tidy (L - {c})) s' (DCacheCleanup (dp_dispatch_id r) GC_ConfirmedAbsent (f (cleanup_confirmed r)))"
      using tr by (auto simp: tidy_simps split: option.splits)
  qed (use assms(1) sub in \<open>auto simp: tracked_with_def id\<close>)
  with assms Some show ?thesis
    by (auto simp: reconcile_record_def dbind_assoc CleanupTarget_new_def intro!: tidy_cleanup)
qed

lemma tidy_execute:
  assumes "L \<subseteq> tracked s" and "dtable_invar (ds_store s)"
  shows "dalways (tidy L) s (execute_owned sha256 config command)"
proof (rule execute_owned_cases)
  fix r digest
  assume r: "hm_get (ds_store s) (cmd_dispatch_id command) = Some r"
  then have "dp_dispatch_id r = cmd_dispatch_id command"
    using assms(2) by (simp add: dtable_invar_iff)
  with r have "dalways (tidy L) s (dbind (reconcile_record config r) (\<lambda>r1. DRet (replay_result r1)))"
    by (intro tidy_reconcile assms(1)) (simp_all add: tidy_simps)
  with assms(1) show "dalways (tidy L) s (replay_existing config (cmd_dispatch_id command) digest r)"
    by (auto simp: replay_existing_def tidy_simps split: option.splits)
next
  fix effective digest
  let ?i = "cmd_dispatch_id command" let ?r = "DispatchRecord_new ?i digest"
  assume "hm_get (ds_store s) ?i = None"
  then have L: "L \<subseteq> elsewhere ?i s"
    using assms(1) by (simp add: tracked_split [of s ?i] pending_at_def)
  have id: "dp_dispatch_id ?r = ?i"
    by (simp add: dispatch_defs)
  show "dalways (tidy L) s (DWrite ?r (\<lambda>written.
        if \<not> written then DRet (persistence_result ?i SE_None) else governed_part config ?i effective ?r))"
  proof (rule tidy_write [OF assms(1)])
    fix b s'
    assume s': "s' \<in> {s, s\<lparr>ds_store := hm_insert (dp_dispatch_id ?r) ?r (ds_store s)\<rparr>}"
      and written: "b \<Longrightarrow> hm_get (ds_store s') (dp_dispatch_id ?r) = Some ?r" and tr: "L \<subseteq> tracked s'"
    have "L \<subseteq> elsewhere ?i s'"
      using s' L by (auto simp: id)
    with written tr show "dalways (tidy L) s' (if \<not> b then DRet (persistence_result ?i SE_None)
        else governed_part config ?i effective ?r)"
      using tidy_governed [of s' ?i ?r L digest config effective] by (auto simp: id tidy_simps)
  qed (use L in \<open>auto simp: tracked_with_def id\<close>)
qed (use assms(1) in \<open>simp_all add: tidy_now\<close>)

lemma tidy_reconcile_records:
  assumes "L \<subseteq> tracked s" and "\<And>r. r \<in> set rs \<Longrightarrow> hm_get (ds_store s) (dp_dispatch_id r) = Some r"
    and "distinct (map dp_dispatch_id rs)" and "\<And>L s report. L \<subseteq> tracked s \<Longrightarrow> dalways (tidy L) s (f report)"
  shows "dalways (tidy L) s (dbind (reconcile_records config report rs) f)"
  using assms(1-3)
proof (induction rs arbitrary: report L s)
  case Nil
  then show ?case
    by (simp add: assms(4))
next
  case (Cons r rs)
  show ?case
  proof (cases "dp_cleanup_state r = GC_PendingReconciliation")
    case True
    have "dalways (tidy L') s' (dbind (reconcile_records config report' rs) f)"
      if "L' \<subseteq> tracked s'" and same: "\<And>j. j \<noteq> dp_dispatch_id r \<Longrightarrow> hm_get (ds_store s') j = hm_get (ds_store s) j"
      for L' s' report'
    proof (rule Cons.IH [OF that(1)])
      show "hm_get (ds_store s') (dp_dispatch_id r') = Some r'" if "r' \<in> set rs" for r'
        using that Cons.prems(2) [of r'] Cons.prems(3) same [of "dp_dispatch_id r'"] by (force simp: image_iff)
    qed (use Cons.prems(3) in simp)
    then have "dalways (tidy L) s (dbind (reconcile_record config r) (\<lambda>r1. dbind (reconcile_records config (g r1) rs) f))" for g
      using Cons.prems(1) Cons.prems(2) [of r] by (intro tidy_reconcile) auto
    with True show ?thesis
      by (simp add: dbind_assoc)
  next
    case False
    with Cons show ?thesis by simp
  qed
qed

lemma tidy_reconcile_all:
  assumes "L \<subseteq> tracked s" and "dtable_invar (ds_store s)"
  shows "dalways (tidy L) s (reconcile_all config)"
proof -
  let ?rs = "sort_key dp_dispatch_id (map snd (ds_store s))"
  have "dtable_load_all True (ds_store s) = Ok ?rs"
    by (simp add: dtable_load_all_def)
  from dispatch_table.load_Ok [OF assms(2) this]
  have rs: "distinct (map dp_dispatch_id ?rs)" "\<And>r. r \<in> set ?rs \<Longrightarrow> hm_get (ds_store s) (dp_dispatch_id r) = Some r"
    by (simp_all add: strict_sorted_iff)
  have "dalways (tidy L) s (dbind (reconcile_records config \<lparr>drr_confirmed_absent = 0, drr_pending = 0\<rparr> ?rs)
      (\<lambda>report. DRet (Ok report :: GovernedError + DispatchReconciliationReport)))"
    by (rule tidy_reconcile_records [OF assms(1) rs(2,1)]) (simp_all add: tidy_simps)
  with assms(1) show ?thesis
    by (simp add: reconcile_all_def tidy_simps)
qed

section \<open>Histories\<close>

lemma dstep_dtable_invar: "dstep p a s = Some (ev, s1, p1) \<Longrightarrow> dtable_invar (ds_store s) \<Longrightarrow> dtable_invar (ds_store s1)"
  by (cases p) (auto simp: dtable_write_def is_ok_def dtable_invar_insert
      split: danswer.splits sum.splits write_outcome.splits option.splits if_splits)

lemma dreach_dtable_invar: "dreach s p evs s' p' \<Longrightarrow> dtable_invar (ds_store s) \<Longrightarrow> dtable_invar (ds_store s')"
  by (induction rule: reaches.induct) (auto dest: dstep_dtable_invar)

lemma dtable_invar_Nil [simp]: "dtable_invar []"
  by (simp add: dtable_invar_def)

lemma history_dtable_invar: "history sha256 t C tr \<Longrightarrow> dtable_invar t"
  by (induction rule: history.induct) (auto dest: dreach_dtable_invar)

lemma honest_observed: "list_all honest_observation (observed evs p) \<longleftrightarrow> list_all honest_event evs"
proof -
  have "list_all honest_observation (pending_call p)"
    by (cases p) simp_all
  then show ?thesis
    by (simp add: observed_def list_all_iff ball_Un)
qed

lemma tidy_observed:
  assumes "dalways (tidy L) s p" and "dreach s p evs s' p'" and "list_all honest_observation (observed evs p')"
  shows "existing (observed evs p') L \<subseteq> tracked s'"
  using holdsD [OF assms(1,2)] assms(3) by (simp add: tidy_def honest_observed)

lemma history_tracked:
  assumes "history sha256 t C tr" and "list_all honest_observation (map snd tr)"
  shows "existing (map snd tr) {} \<subseteq> tracked \<lparr>ds_store = t, ds_cache = cache\<rparr>"
  using assms
proof (induction arbitrary: cache rule: history.induct)
  case (history_execute t C tr n config command evs s p)
  then have hon: "list_all honest_observation (map snd tr)" "list_all honest_observation (observed evs p)"
    by (simp_all add: list_all_iff image_iff)
  from tidy_observed [OF tidy_execute [OF history_execute.IH [OF hon(1)]] history_execute.hyps(2) hon(2)]
    history_dtable_invar [OF history_execute.hyps(1)]
  show ?case
    by (simp add: tracked_def pending_at_def comp_def)
next
  case (history_reconcile t C tr n config evs s p)
  then have hon: "list_all honest_observation (map snd tr)" "list_all honest_observation (observed evs p)"
    by (simp_all add: list_all_iff image_iff)
  from tidy_observed [OF tidy_reconcile_all [OF history_reconcile.IH [OF hon(1)]] history_reconcile.hyps(2) hon(2)]
    history_dtable_invar [OF history_reconcile.hyps(1)]
  show ?case
    by (simp add: tracked_def pending_at_def comp_def)
qed simp_all

end
