(* ===== verification/Dispatch_Props.thy ===== *)
theory Dispatch_Props
  imports Dispatch_Cleanup
begin

text \<open>
  The properties of the governed dispatcher and the concrete dispatches their witnesses run.
\<close>

section \<open>Concrete values\<close>

text \<open>A stand-in for SHA-256 with outputs of the right length.\<close>

definition sample_sha :: "bytes \<Rightarrow> bytes" where
  "sample_sha body = replicate 31 0 @ [of_nat (length body)]"

definition sample_did :: DispatchId where
  "sample_did = DispatchId ''6f2d''"

definition sample_command :: Command where
  "sample_command = Command_new sample_did [''ls''] (Some 30)"

definition sample_assets :: SandboxAssetBundle where
  "sample_assets = \<lparr>sab_template = TemplateIdentity ''base'', sab_template_digest = Sha256Digest ''00'',
     sab_policy = \<lparr>policy_id = ''deny'', policy_version = 1, policy_sha256 = Sha256Digest ''00''\<rparr>,
     sab_policy_document = \<lparr>doc_media_type = ''text/yaml'', doc_bytes = [1]\<rparr>,
     sab_provider_compatibility = ''native''\<rparr>"

definition sample_config :: DispatcherConfig where
  "sample_config = \<lparr>dc_state_directory = ''/state'', dc_command_limits = CommandSizeLimits_default,
     dc_output_limits = \<lparr>ol_stdout_bytes = 10, ol_stderr_bytes = 10, ol_combined_bytes = 20, ol_chunk_bytes = 5\<rparr>,
     dc_assets = sample_assets, dc_create_deadline = 1, dc_readiness_deadline = 1,
     dc_dispatch_deadline_slack = 1, dc_cleanup_deadline = 1\<rparr>"

definition sample_response :: "string \<Rightarrow> json" where
  "sample_response verdict = J_Object [(''activity_id'', J_String ''6f2d''), (''authoritative'', J_Bool True),
     (''guardrails_passed'', J_Bool True), (''verdict'', J_String verdict)]"

definition sample_completed :: ExecCompleted where
  "sample_completed = ExecCompleted_new (ObservedExitCode 0) [7] [] OT_NotObserved"

definition host_answers :: "danswer list" where
  "host_answers = [DA_lock True, DA_load True, DA_write WriteOk, DA_evaluate (Ok (sample_response ''ALLOW'')),
     DA_write WriteOk, DA_host (Ok sample_completed), DA_write WriteOk, DA_tick]"

definition empty_dispatcher :: dispatcher where
  "empty_dispatcher = \<lparr>ds_store = [], ds_cache = []\<rparr>"

definition host_run :: "devent list \<times> dispatcher \<times> GovernedCommandResult dprog" where
  "host_run = drun host_answers empty_dispatcher (execute_owned sample_sha sample_config sample_command)"

lemmas dispatch_eval =
  sample_did_def sample_command_def sample_assets_def sample_config_def sample_response_def
  sample_completed_def empty_dispatcher_def execute_owned_def execute_locked_def governed_part_def
  route_verdict_def execute_host_def dispatch_finish_def dtable_write_def dtable_load_def
  DispatchRecord_validate_def record_terminal_def normalize_exit_124_def
  EffectiveCommand_validate_def CommandSizeLimits_default_def CommandTimeout_new_def
  CommandTimeout_MIN_SECONDS_def CommandTimeout_MAX_SECONDS_def checked_add_usize_def
  ExecCompleted_new_def Let_def hm_insert_def hm_get_def

definition sample_digest :: Sha256Digest where
  "sample_digest = Sha256Digest (hex_string (sample_sha (canonical_encoding \<lparr>ecm_argv = [''ls''], ecm_timeout_seconds = 30\<rparr>)))"

lemma sample_digest: "EffectiveCommand_digest sample_sha \<lparr>ecm_argv = [''ls''], ecm_timeout_seconds = 30\<rparr> = Some sample_digest"
  by (simp add: EffectiveCommand_digest_Some sample_digest_def sample_sha_def)

lemma sample_accepted:
  "validate_governance_response (DispatchId ''6f2d'') (sample_response ''ALLOW'') =
     Ok (GV_Allow, GO_Authoritative GV_Allow (sample_response ''ALLOW''))"
  by (simp add: validate_governance_response_def sample_response_def GOVERNANCE_FIELDS_def REMEDIATION_FIELDS_def
      object_str_def object_bool_def flag_raised_def verdict_of_text_def)

definition host_result :: GovernedCommandResult where
  "host_result = GovernedCommandResult_new sample_did (GO_Authoritative GV_Allow (sample_response ''ALLOW'')) SE_Host
     GD_Completed (EO_Completed sample_completed) TS_NotObserved GC_NotNeeded None"

lemma host_run_end:
  "\<exists>evs s. host_run = (evs, s, DRet host_result)
     \<and> executions sample_did (map (Pair (Some sample_did)) (observed evs (DRet host_result :: GovernedCommandResult dprog))) = 1"
  using sample_digest sample_accepted
  by (simp add: host_run_def host_answers_def dispatch_eval dispatch_defs host_result_def observed_def sample_response_def
      executions_def)

lemma run_history:
  assumes "drun answers empty_dispatcher (execute_owned sha256 config command) = (evs, s, p)"
  shows "history sha256 (ds_store s) ((\<lambda>_. [])(0 := ds_cache s))
    (map (Pair (Some (cmd_dispatch_id command))) (observed evs p))"
  using history_execute [OF history_start, where n = 0] runs_reaches [OF assms]
  by (fastforce simp: empty_dispatcher_def)

section \<open>At most once\<close>

text \<open>
  C12. Whatever processes share the state directory, and wherever each of them is killed, a command
  is handed to an executor, the host or a sandbox, at most once, the calls in progress included.
\<close>

theorem command_executed_at_most_once:
  assumes "history sha256 t C tr"
  shows "executions i tr \<le> 1"
  using history_executions [OF assms] by blast

theorem command_executed_at_most_once_witness:
  "\<exists>t C tr. history sample_sha t C tr \<and> executions sample_did tr = 1 \<and> executions sample_did tr \<le> 1"
proof -
  obtain evs s where run: "host_run = (evs, s, DRet host_result)"
    and one: "executions sample_did (map (Pair (Some sample_did)) (observed evs (DRet host_result :: GovernedCommandResult dprog))) = 1"
    using host_run_end by blast
  have "history sample_sha (ds_store s) ((\<lambda>_. [])(0 := ds_cache s))
      (map (Pair (Some sample_did)) (observed evs (DRet host_result :: GovernedCommandResult dprog)))"
    using run_history [OF run [unfolded host_run_def]] by (simp add: sample_command_def Command_new_def)
  from this one command_executed_at_most_once [OF this, of sample_did] show ?thesis
    by blast
qed

section \<open>Behind the fence\<close>

text \<open>
  C13. When an executor is about to receive the command, the command is a new one (not a resumed one,
  and its identifier had no record), governance has accepted it in this run for this executor, and the
  durable record already holds the digest, the response and the possible dispatch; a sandbox was
  created and attested in this run with the pinned policy, and the record names it for cleanup.
\<close>

theorem execution_is_fenced:
  assumes "dreach s (execute_owned sha256 config command) evs s' p" and "list_ex executes (pending_call p)"
  shows "\<not> cmd_resume_only command \<and> hm_get (ds_store s) (cmd_dispatch_id command) = None
    \<and> (\<exists>c. EffectiveCommand_validate (cmd_argv command) (cmd_timeout_seconds command) (dc_command_limits config) = Ok c
         \<and> authorized sha256 config (cmd_dispatch_id command) c evs s' p)"
  using holdsD [OF authorized_execute assms(1)] assms(2) by blast

definition constrain_answers :: "danswer list" where
  "constrain_answers = [DA_lock True, DA_load True, DA_write WriteOk, DA_evaluate (Ok (sample_response ''CONSTRAIN'')),
     DA_uuid ''0123456789abcdef'', DA_write WriteOk,
     DA_create (Ok \<lparr>cs_request_id = probe_id, cs_provider_handle = OpaqueProviderHandle [1],
       cs_expected_policy = sab_policy sample_assets\<rparr>),
     DA_ready (Ok \<lparr>rs_request_id = probe_id, rs_provider_handle = OpaqueProviderHandle [1],
       rs_active_policy = sab_policy sample_assets\<rparr>), DA_write WriteOk, DA_write WriteOk]"

definition constrain_run :: "devent list \<times> dispatcher \<times> GovernedCommandResult dprog" where
  "constrain_run = drun constrain_answers empty_dispatcher (execute_owned sample_sha sample_config sample_command)"

lemma sample_constrained:
  "validate_governance_response (DispatchId ''6f2d'') (sample_response ''CONSTRAIN'') =
     Ok (GV_Constrain, GO_Authoritative GV_Constrain (sample_response ''CONSTRAIN''))"
  by (simp add: validate_governance_response_def sample_response_def GOVERNANCE_FIELDS_def REMEDIATION_FIELDS_def
      object_str_def object_bool_def flag_raised_def verdict_of_text_def)

lemmas sandbox_eval = dispatch_eval constrain_answers_def execute_sandbox_def await_ready_def execute_ready_def
  with_context_def dispatch_operation_context_def OperationDeadline_new_def RequestOwnedId_generate_def Argv_new_def
  duration_saturating_add_def secs_def duration_max_def probe_id_def CreateRequest_new_def

lemma constrain_run_end:
  "case constrain_run of (evs, s, p) \<Rightarrow> list_ex executes (pending_call p)
     \<and> list_all honest_observation (observed evs p) \<and> probe_id \<in> existing (observed evs p) {}"
  using sample_digest sample_constrained
  by (simp add: constrain_run_def sandbox_eval dispatch_defs observed_def sample_response_def)

theorem execution_is_fenced_witness:
  "case constrain_run of (evs, s, p) \<Rightarrow>
     \<exists>c. authorized sample_sha sample_config sample_did c evs s p \<and> list_ex executes (pending_call p)"
proof -
  obtain evs s p where run: "constrain_run = (evs, s, p)"
    by (cases constrain_run)
  have exec: "list_ex executes (pending_call p)"
    using constrain_run_end unfolding run by simp
  from execution_is_fenced [OF runs_reaches [OF run [unfolded constrain_run_def]] exec] exec
  show ?thesis
    unfolding run by (auto simp: sample_command_def Command_new_def)
qed

section \<open>No orphaned sandbox\<close>

text \<open>
  C14. In every history, a sandbox that the runtime may have created, a call in progress included,
  and whose absence it has not confirmed since, is named by a durable dispatch record that still asks
  for reconciliation; the runtime is trusted to answer about the sandbox it was asked about.
\<close>

theorem no_orphaned_sandbox:
  assumes "history sha256 t C tr" and "list_all honest_observation (map snd tr)"
    and "c \<in> existing (map snd tr) {}"
  shows "\<exists>i r. hm_get t i = Some r \<and> dp_cleanup_id r = Some c \<and> dp_cleanup_state r = GC_PendingReconciliation"
  using history_tracked [OF assms(1,2)] assms(3) by (auto simp: tracked_def pending_at_def)

theorem no_orphaned_sandbox_witness:
  "case constrain_run of (evs, s, p) \<Rightarrow> \<exists>i r. hm_get (ds_store s) i = Some r
     \<and> dp_cleanup_id r = Some probe_id \<and> dp_cleanup_state r = GC_PendingReconciliation"
proof -
  obtain evs s p where run: "constrain_run = (evs, s, p)"
    by (cases constrain_run)
  have facts: "list_all honest_observation (observed evs p)" "probe_id \<in> existing (observed evs p) {}"
    using constrain_run_end unfolding run by simp_all
  have "map snd (map (Pair (Some (cmd_dispatch_id sample_command))) (observed evs p)) = observed evs p"
    by (simp add: comp_def)
  then show ?thesis
    using no_orphaned_sandbox [OF run_history [OF run [unfolded constrain_run_def]], of probe_id] facts
    unfolding run by (simp add: comp_def)
qed

end
