(* ===== verification/Dispatch_Truth.thy ===== *)
theory Dispatch_Truth
  imports Dispatch_Props
begin

text \<open>
  Whether \<open>NotDispatched\<close> is true. What the durable record and the cached result of a dispatch say
  about its execution is right over the whole history, so a result that says \<open>NotDispatched\<close> is
  right too, unless it only reports that the request or the store could not be used.
\<close>

section \<open>What a program writes and returns\<close>

text \<open>Every record written satisfies \<open>W\<close>, every cache key \<open>I\<close>, every value returned \<open>R\<close>.\<close>

primrec every :: "(DispatchRecord \<Rightarrow> bool) \<Rightarrow> (DispatchId \<Rightarrow> bool) \<Rightarrow> ('a \<Rightarrow> bool) \<Rightarrow> 'a dprog \<Rightarrow> bool" where
  "every W I R (DRet x) = R x"
| "every W I R DPanic = True"
| "every W I R (DLock k) = (\<forall>x. every W I R (k x))"
| "every W I R (DLoad i k) = (\<forall>x. every W I R (k x))"
| "every W I R (DLoadAll k) = (\<forall>x. every W I R (k x))"
| "every W I R (DWrite r k) = (W r \<and> (\<forall>x. every W I R (k x)))"
| "every W I R (DCacheGet i k) = (\<forall>x. every W I R (k x))"
| "every W I R (DCacheInsert i r p) = (I i \<and> every W I R p)"
| "every W I R (DCacheCleanup i c p) = (I i \<and> every W I R p)"
| "every W I R (DUuid k) = (\<forall>x. every W I R (k x))"
| "every W I R (DEvaluate a k) = (\<forall>x. every W I R (k x))"
| "every W I R (DHost c k) = (\<forall>x. every W I R (k x))"
| "every W I R (DCreate q c k) = (\<forall>x. every W I R (k x))"
| "every W I R (DWaitReady q p c k) = (\<forall>x. every W I R (k x))"
| "every W I R (DExec r q c k) = (\<forall>x. every W I R (k x))"
| "every W I R (DDelete t c k) = (\<forall>x. every W I R (k x))"
| "every W I R (DWaitDeleted t c k) = (\<forall>x. every W I R (k x))"

lemma every_dbind: "every W I R p \<Longrightarrow> (\<And>x. R x \<Longrightarrow> every W I R' (f x)) \<Longrightarrow> every W I R' (dbind p f)"
  by (induction p) simp_all

lemma every_with_context: "(\<And>ctx. every W I R (k ctx)) \<Longrightarrow> every W I R (with_context d k)"
  by (simp add: with_context_def split: option.splits)

lemma every_cleanup: "(\<And>state. every W I R (f state)) \<Longrightarrow> every W I R (dbind (dispatch_cleanup config target) f)"
  by (simp add: dispatch_cleanup_def dbind_with_context every_with_context)

lemma dstep_every:
  "dstep p a s = Some (ev, s1, p1) \<Longrightarrow> every W I R p \<Longrightarrow> every W I R p1
     \<and> (\<forall>i. (\<forall>r. W r \<longrightarrow> dp_dispatch_id r \<noteq> i) \<longrightarrow> hm_get (ds_store s1) i = hm_get (ds_store s) i)
     \<and> (\<forall>i. \<not> I i \<longrightarrow> hm_get (ds_cache s1) i = hm_get (ds_cache s) i)"
  by (cases p) (auto simp: dtable_write_def split: danswer.splits sum.splits write_outcome.splits option.splits if_splits)

lemma dreach_every:
  assumes "dreach s p evs s' p'" and "every W I R p" and "\<And>r. W r \<Longrightarrow> dp_dispatch_id r \<noteq> i" and "\<not> I i"
  shows "hm_get (ds_store s') i = hm_get (ds_store s) i" and "hm_get (ds_cache s') i = hm_get (ds_cache s) i"
proof -
  from assms have "hm_get (ds_store s') i = hm_get (ds_store s) i \<and> hm_get (ds_cache s') i = hm_get (ds_cache s) i"
  proof (induction rule: reaches.induct)
    case (reaches_step p a s ev s1 p1 evs s2 p2)
    from dstep_every [OF reaches_step.hyps(1) reaches_step.prems(1)] reaches_step.prems(2,3) reaches_step.IH
    show ?case by metis
  qed simp
  then show "hm_get (ds_store s') i = hm_get (ds_store s) i" "hm_get (ds_cache s') i = hm_get (ds_cache s) i"
    by simp_all
qed

text \<open>The operations on dispatch \<open>i\<close>: their records and cache keys, and what their results are like.\<close>

definition result_for :: "DispatchId \<Rightarrow> GovernedCommandResult \<Rightarrow> bool" where
  "result_for i result \<longleftrightarrow> gr_dispatch_id result = i \<and> consistent_result result"

definition of_command :: "DispatchId \<Rightarrow> Sha256Digest \<Rightarrow> DispatchRecord \<Rightarrow> bool" where
  "of_command i digest r \<longleftrightarrow> dp_dispatch_id r = i \<and> dp_command_digest r = digest"

abbreviation confined :: "DispatchId \<Rightarrow> Sha256Digest \<Rightarrow> ('a \<Rightarrow> bool) \<Rightarrow> 'a dprog \<Rightarrow> bool" where
  "confined i digest R \<equiv> every (of_command i digest) (\<lambda>j. j = i) R"

text \<open>The part of a dispatch before it is finished writes no terminal record.\<close>

abbreviation underway :: "DispatchId \<Rightarrow> Sha256Digest \<Rightarrow> ('a \<Rightarrow> bool) \<Rightarrow> 'a dprog \<Rightarrow> bool" where
  "underway i digest R \<equiv> every (\<lambda>r. of_command i digest r \<and> dp_stage r \<noteq> RS_Terminal) (\<lambda>j. j = i) R"

lemma underway_confined: "underway i digest R p \<Longrightarrow> confined i digest R p"
  by (induction p) simp_all

lemma confined_any: "confined i digest R p \<Longrightarrow> confined i digest (\<lambda>_. True) p"
  by (induction p) simp_all

lemma result_for_simps [simp]:
  "result_for i (no_executor i governance err)"
  "result_for i (not_executed i governance state code phase)"
  "result_for i (set_cleanup_state state result) = result_for i result"
  "result_for i (set_error_if_none e result) = result_for i result"
  "result_for i (sandbox_result i governance attempt state)"
  "result_for i (persistence_result i executor)"
  "result_for i (GovernedCommandResult_validation i code)"
  by (auto simp: result_for_def consistent_result_def no_executor_def not_executed_def sandbox_result_def
      set_cleanup_state_def set_error_if_none_def persistence_result_def GovernedCommandResult_validation_def
      GovernedCommandResult_new_def ExecutionOutcome_indeterminate_def Let_def
      split: sum.splits DispatchState.splits ExecutionOutcome.splits)

lemma record_id_simps [simp]:
  "dp_dispatch_id (DispatchRecord_new i digest) = i"
  "dp_dispatch_id (select_host governance r) = dp_dispatch_id r"
  "dp_dispatch_id (select_sandbox governance c r) = dp_dispatch_id r"
  "dp_dispatch_id (sandbox_ready r) = dp_dispatch_id r"
  "dp_dispatch_id (sandbox_dispatch_possible r) = dp_dispatch_id r"
  "dp_dispatch_id (cleanup_confirmed r) = dp_dispatch_id r"
  "dp_dispatch_id (confirm_if_absent state r) = dp_dispatch_id r"
  "dp_dispatch_id (record_terminal result r) = dp_dispatch_id r"
  by (simp_all add: dispatch_defs confirm_if_absent_def record_terminal_def Let_def split: ExecutionOutcome.splits)

lemma of_command_simps [simp]:
  "of_command i digest (DispatchRecord_new i digest)"
  "of_command i digest (select_host governance r) = of_command i digest r"
  "of_command i digest (select_sandbox governance c r) = of_command i digest r"
  "of_command i digest (sandbox_ready r) = of_command i digest r"
  "of_command i digest (sandbox_dispatch_possible r) = of_command i digest r"
  "of_command i digest (cleanup_confirmed r) = of_command i digest r"
  "of_command i digest (confirm_if_absent state r) = of_command i digest r"
  "of_command i digest (record_terminal result r) = of_command i digest r"
  by (simp_all add: of_command_def dispatch_defs confirm_if_absent_def record_terminal_def Let_def
      split: ExecutionOutcome.splits)

lemma stage_simps [simp]:
  "dp_stage (sandbox_ready r) \<noteq> RS_Terminal" "dp_stage (sandbox_dispatch_possible r) \<noteq> RS_Terminal"
  "dp_stage (record_terminal result r) = RS_Terminal" "dp_stage (DispatchRecord_new i digest) \<noteq> RS_Terminal"
  "dp_stage (select_host governance r) \<noteq> RS_Terminal" "dp_stage (select_sandbox governance c r) \<noteq> RS_Terminal"
  by (simp_all add: dispatch_defs record_terminal_def Let_def split: ExecutionOutcome.splits)

lemma confined_finish:
  "of_command i digest r \<Longrightarrow> result_for i result \<Longrightarrow> confined i digest (result_for i) (dispatch_finish r result)"
  by (simp add: dispatch_finish_def Let_def) (simp add: result_for_def set_error_if_none_def)

lemma underway_host: "underway i digest (result_for i) (execute_host i governance command)"
  by (auto simp: execute_host_def result_for_def consistent_result_def GovernedCommandResult_new_def
      ExecutionOutcome_indeterminate_def Let_def split: sum.splits DispatchState.splits)

abbreviation outcome_for :: "DispatchId \<Rightarrow> Sha256Digest \<Rightarrow> GovernedCommandResult \<times> DispatchRecord \<Rightarrow> bool" where
  "outcome_for i digest x \<equiv> result_for i (fst x) \<and> of_command i digest (snd x)"

lemma underway_ready:
  "of_command i digest r \<Longrightarrow>
     underway i digest (outcome_for i digest) (execute_ready config i governance command target ready r)"
  by (auto simp: execute_ready_def Let_def intro!: every_cleanup every_with_context split: sum.splits)

lemma underway_sandbox:
  "of_command i digest r \<Longrightarrow>
     underway i digest (outcome_for i digest) (execute_sandbox config i governance command c r)"
  by (auto simp: execute_sandbox_def await_ready_def Let_def intro!: every_cleanup every_with_context underway_ready
      split: sum.splits option.splits)

lemma confined_route:
  assumes "of_command i digest r"
  shows "confined i digest (result_for i) (route_verdict config i effective r verdict governance)"
proof -
  have "confined i digest (result_for i)
      (finishing (execute_sandbox config i governance effective c (select_sandbox governance c r)))" for c
    by (rule every_dbind [OF underway_confined [OF underway_sandbox]]) (auto simp: assms intro!: confined_finish)
  moreover have "confined i digest (result_for i)
      (dbind (execute_host i governance effective) (dispatch_finish (select_host governance r)))"
    by (rule every_dbind [OF underway_confined [OF underway_host]]) (simp add: assms confined_finish)
  ultimately show ?thesis
    using assms by (cases verdict) (auto simp: route_verdict_def Let_def confined_finish split: option.splits)
qed

lemma confined_governed:
  "of_command i digest r \<Longrightarrow> confined i digest (result_for i) (governed_part config i effective r)"
  by (auto simp: governed_part_def confined_finish confined_route split: sum.splits prod.splits)

lemma confined_replay:
  assumes "of_command i digest r"
  shows "confined i digest (\<lambda>_. True) (replay_existing config i digest' r)"
proof -
  have "dp_dispatch_id r = i"
    using assms by (simp add: of_command_def)
  with assms show ?thesis
    by (auto simp: replay_existing_def reconcile_record_def dbind_assoc every_cleanup split: option.splits)
qed

section \<open>What a reconciliation changes\<close>

text \<open>Records and cached results stay, but for cleanups that are now confirmed.\<close>

definition reconciled :: "dispatcher \<Rightarrow> dispatcher \<Rightarrow> bool" where
  "reconciled s s' \<longleftrightarrow>
     (\<forall>i. hm_get (ds_store s') i \<in> {hm_get (ds_store s) i, map_option cleanup_confirmed (hm_get (ds_store s) i)})
     \<and> (\<forall>i. hm_get (ds_cache s') i \<in>
          {hm_get (ds_cache s) i, map_option (set_cleanup_state GC_ConfirmedAbsent) (hm_get (ds_cache s) i)})"

lemma reconciled_refl [simp]: "reconciled s s"
  by (simp add: reconciled_def)

lemma confirmed_twice [simp]:
  "cleanup_confirmed (cleanup_confirmed r) = cleanup_confirmed r"
  "set_cleanup_state state (set_cleanup_state state' x) = set_cleanup_state state x"
  by (simp_all add: cleanup_confirmed_def set_cleanup_state_def)

lemma option_once_or_twice:
  "y \<in> {x, map_option f x} \<Longrightarrow> z \<in> {y, map_option f y} \<Longrightarrow> (\<And>v. f (f v) = f v) \<Longrightarrow> z \<in> {x, map_option f x}"
  by (cases x) auto

lemma reconciled_trans:
  assumes "reconciled s s'" and "reconciled s' s''"
  shows "reconciled s s''"
  unfolding reconciled_def
proof (intro conjI allI)
  fix i
  show "hm_get (ds_store s'') i \<in> {hm_get (ds_store s) i, map_option cleanup_confirmed (hm_get (ds_store s) i)}"
    by (rule option_once_or_twice [of "hm_get (ds_store s') i"])
      (use assms in \<open>simp_all only: reconciled_def confirmed_twice\<close>)
  show "hm_get (ds_cache s'') i
      \<in> {hm_get (ds_cache s) i, map_option (set_cleanup_state GC_ConfirmedAbsent) (hm_get (ds_cache s) i)}"
    by (rule option_once_or_twice [of "hm_get (ds_cache s') i"])
      (use assms in \<open>simp_all only: reconciled_def confirmed_twice\<close>)
qed

lemma dalways_write_cases:
  assumes "Q [] s (DWrite r k)"
    and "\<And>b s'. s' \<in> {s, s\<lparr>ds_store := hm_insert (dp_dispatch_id r) r (ds_store s)\<rparr>} \<Longrightarrow>
      (b \<Longrightarrow> hm_get (ds_store s') (dp_dispatch_id r) = Some r) \<Longrightarrow> dalways (\<lambda>evs. Q (DE_write r b # evs)) s' (k b)"
  shows "dalways Q s (DWrite r k)"
proof -
  have "dalways (\<lambda>evs. Q (DE_write r (is_ok (fst (dtable_write w r (ds_store s)))) # evs))
      (s\<lparr>ds_store := snd (dtable_write w r (ds_store s))\<rparr>) (k (is_ok (fst (dtable_write w r (ds_store s)))))" for w
    by (rule assms(2)) (auto simp: dtable_write_def split: sum.splits write_outcome.splits)
  with assms(1) show ?thesis
    by (simp add: dalways_DWrite)
qed

text \<open>
  A reconciliation of a stored record, and what follows it, under a predicate on the state alone and
  one on the value returned.
\<close>

lemma reconcile_record_then:
  assumes r: "hm_get (ds_store s) (dp_dispatch_id r) = Some r"
    and now: "\<And>s' p. reconciled s s' \<Longrightarrow> (\<And>x. p \<noteq> DRet x) \<Longrightarrow> P s' p"
    and "then": "\<And>s' r'. reconciled s s' \<Longrightarrow> r' \<in> {r, cleanup_confirmed r} \<Longrightarrow>
      (\<And>j. j \<noteq> dp_dispatch_id r \<Longrightarrow> hm_get (ds_store s') j = hm_get (ds_store s) j) \<Longrightarrow> dalways (\<lambda>_. P) s' (f r')"
  shows "dalways (\<lambda>_. P) s (dbind (reconcile_record config r) f)"
proof (cases "dp_cleanup_id r")
  case None
  with "then" [of s r] show ?thesis
    by (simp add: reconcile_record_def)
next
  case (Some c)
  let ?w = "DWrite (cleanup_confirmed r) (\<lambda>_. DCacheCleanup (dp_dispatch_id r) GC_ConfirmedAbsent (f (cleanup_confirmed r)))"
  have "dalways (\<lambda>_. P) s ?w"
  proof (rule dalways_write_cases)
    fix b s'
    assume "s' \<in> {s, s\<lparr>ds_store := hm_insert (dp_dispatch_id (cleanup_confirmed r)) (cleanup_confirmed r) (ds_store s)\<rparr>}"
    then have rec: "reconciled s s'" and same: "\<And>j. j \<noteq> dp_dispatch_id r \<Longrightarrow> hm_get (ds_store s') j = hm_get (ds_store s) j"
      and cache: "ds_cache s' = ds_cache s"
      using r by (auto simp: reconciled_def)
    let ?s = "case hm_get (ds_cache s') (dp_dispatch_id r) of None \<Rightarrow> s'
      | Some x \<Rightarrow> s'\<lparr>ds_cache := hm_insert (dp_dispatch_id r) (set_cleanup_state GC_ConfirmedAbsent x) (ds_cache s')\<rparr>"
    have "reconciled s ?s"
      using rec cache by (auto simp: reconciled_def split: option.splits)
    then have "dalways (\<lambda>_. P) ?s (f (cleanup_confirmed r))"
      by (rule "then") (auto simp: same split: option.splits)
    with rec show "dalways (\<lambda>_. P) s' (DCacheCleanup (dp_dispatch_id r) GC_ConfirmedAbsent (f (cleanup_confirmed r)))"
      by (simp add: dalways_DCacheCleanup now)
  qed (simp add: now)
  moreover have "dalways (\<lambda>_. P) s (f r)"
    using "then" [of s r] by simp
  ultimately show ?thesis
    using Some by (simp add: reconcile_record_def dispatch_cleanup_def dbind_with_context dalways_with_context
        dalways_simps now split: option.splits)
qed

lemma reconcile_records_then:
  assumes "\<And>r. r \<in> set rs \<Longrightarrow> hm_get (ds_store s) (dp_dispatch_id r) = Some r" and "distinct (map dp_dispatch_id rs)"
    and now: "\<And>s' p. reconciled s s' \<Longrightarrow> (\<And>x. p \<noteq> DRet x) \<Longrightarrow> P s' p"
    and "then": "\<And>s' report. reconciled s s' \<Longrightarrow> dalways (\<lambda>_. P) s' (f report)"
  shows "dalways (\<lambda>_. P) s (dbind (reconcile_records config report rs) f)"
  using assms
proof (induction rs arbitrary: report s)
  case Nil
  then show ?case by simp
next
  case (Cons r rs)
  show ?case
  proof (cases "dp_cleanup_state r = GC_PendingReconciliation")
    case True
    have "dalways (\<lambda>_. P) s (dbind (reconcile_record config r) (\<lambda>r1. dbind (reconcile_records config (g r1) rs) f))" for g
    proof (rule reconcile_record_then)
      fix s' r'
      assume s': "reconciled s s'" and same: "\<And>j. j \<noteq> dp_dispatch_id r \<Longrightarrow> hm_get (ds_store s') j = hm_get (ds_store s) j"
      show "dalways (\<lambda>_. P) s' (dbind (reconcile_records config (g r') rs) f)"
      proof (rule Cons.IH)
        show "hm_get (ds_store s') (dp_dispatch_id q) = Some q" if "q \<in> set rs" for q
          using that Cons.prems(1) [of q] Cons.prems(2) same [of "dp_dispatch_id q"] by (force simp: image_iff)
      qed (use Cons.prems reconciled_trans [OF s'] in auto)
    qed (use Cons.prems in auto)
    with True show ?thesis
      by (simp add: dbind_assoc)
  next
    case False
    with Cons show ?thesis by simp
  qed
qed

lemma stored_records:
  assumes "dtable_invar t"
  shows "distinct (map dp_dispatch_id (sort_key dp_dispatch_id (map snd t)))"
    and "r \<in> set (sort_key dp_dispatch_id (map snd t)) \<Longrightarrow> hm_get t (dp_dispatch_id r) = Some r"
proof -
  have "dtable_load_all True t = Ok (sort_key dp_dispatch_id (map snd t))"
    by (simp add: dtable_load_all_def)
  from dispatch_table.load_Ok [OF assms this]
  show "distinct (map dp_dispatch_id (sort_key dp_dispatch_id (map snd t)))"
    and "r \<in> set (sort_key dp_dispatch_id (map snd t)) \<Longrightarrow> hm_get t (dp_dispatch_id r) = Some r"
    by (simp_all add: strict_sorted_iff)
qed

lemma reconcile_all_reconciles:
  assumes "dtable_invar (ds_store s)"
  shows "dalways (\<lambda>_ s' _. reconciled s s') s (reconcile_all config)"
proof -
  have "dalways (\<lambda>_ s' _. reconciled s s') s
      (dbind (reconcile_records config \<lparr>drr_confirmed_absent = 0, drr_pending = 0\<rparr>
         (sort_key dp_dispatch_id (map snd (ds_store s))))
      (\<lambda>report. DRet (Ok report :: GovernedError + DispatchReconciliationReport)))"
    by (rule reconcile_records_then) (use stored_records [OF assms] in \<open>simp_all add: dalways_simps\<close>)
  then show ?thesis
    by (simp add: reconcile_all_def dalways_simps)
qed

section \<open>Runs that may have happened\<close>

fun possibly_ran :: "devent \<Rightarrow> bool" where
  "possibly_ran (DE_host _ x) = (case x of Inr _ \<Rightarrow> True | Inl f \<Rightarrow> hf_dispatch_state f = PossiblyDispatched)"
| "possibly_ran (DE_exec _ _ x) = (case x of Inr _ \<Rightarrow> True | Inl f \<Rightarrow> ef_dispatch_state f = PossiblyDispatched)"
| "possibly_ran _ = False"

fun may_have_run :: "observation \<Rightarrow> bool" where
  "may_have_run (Seen e) = possibly_ran e"
| "may_have_run (HostInterrupted _) = True"
| "may_have_run (ExecInterrupted _ _) = True"
| "may_have_run (CreateInterrupted _) = False"

lemma may_have_run_executes: "may_have_run e \<Longrightarrow> executes e"
  by (cases e rule: may_have_run.cases) (auto elim!: possibly_ran.elims)

text \<open>What the durable record and the cache of the process say about dispatch \<open>i\<close>.\<close>

definition sincere :: "DispatchId \<Rightarrow> bool \<Rightarrow> dispatcher \<Rightarrow> bool" where
  "sincere i happened s \<longleftrightarrow> (happened \<longrightarrow>
     (\<forall>r. hm_get (ds_store s) i = Some r \<longrightarrow> dp_dispatch_state r \<noteq> GD_NotDispatched)
     \<and> (\<forall>x. hm_get (ds_cache s) i = Some x \<longrightarrow> gr_dispatch_state x \<noteq> GD_NotDispatched))"

definition sincere_at :: "DispatchId \<Rightarrow> bool \<Rightarrow> devent list \<Rightarrow> dispatcher \<Rightarrow> GovernedCommandResult dprog \<Rightarrow> bool" where
  "sincere_at i happened evs s p \<longleftrightarrow>
     (let h = happened \<or> list_ex may_have_run (observed evs p) in
      sincere i h s \<and> (\<forall>result. p = DRet result \<longrightarrow>
        h \<longrightarrow> gr_dispatch_state result \<noteq> GD_NotDispatched \<or> result \<in> refusals i))"

lemma dalways_sincere_Cons:
  "dalways (\<lambda>evs. sincere_at i happened (e # evs)) s p \<longleftrightarrow> dalways (sincere_at i (happened \<or> possibly_ran e)) s p"
  by (simp add: holds_def sincere_at_def observed_def disj_assoc)

lemma sincere_now:
  "sincere_at i happened [] s (DRet result) \<longleftrightarrow> sincere i happened s \<and>
     (happened \<longrightarrow> gr_dispatch_state result \<noteq> GD_NotDispatched \<or> result \<in> refusals i)"
  "list_ex executes (pending_call p) \<Longrightarrow> sincere_at i happened [] s p \<longleftrightarrow> sincere i True s"
  "(\<And>x. p \<noteq> DRet x) \<Longrightarrow> \<not> list_ex executes (pending_call p) \<Longrightarrow> sincere_at i happened [] s p \<longleftrightarrow> sincere i happened s"
  by (simp add: sincere_at_def observed_def, (cases p; auto simp: sincere_at_def observed_def)+)

lemmas sincere_simps = dalways_sincere_Cons sincere_now dalways_simps

lemma budget_no_run: "dreach s p evs s' p' \<Longrightarrow> budget p 0 \<Longrightarrow> \<not> list_ex may_have_run (observed evs p')"
  using budget_run [of s p evs s' p' 0] may_have_run_executes by (auto simp: list_ex_iff filter_empty_conv)

lemma sincere_idle: "budget p 0 \<Longrightarrow> dalways (sincere_at i False) s p"
  by (simp add: holds_def sincere_at_def sincere_def Let_def budget_no_run)

text \<open>From the point where an executor has answered: the record says that it may have run.\<close>

definition recorded :: "DispatchId \<Rightarrow> dispatcher \<Rightarrow> bool" where
  "recorded i s \<longleftrightarrow> (\<exists>r. hm_get (ds_store s) i = Some r \<and> dp_dispatch_state r \<noteq> GD_NotDispatched)
     \<and> hm_get (ds_cache s) i = None"

lemma recorded_sincere: "recorded i s \<Longrightarrow> sincere i h s"
  by (auto simp: recorded_def sincere_def)

lemma sincere_finish:
  assumes "recorded i s" and "dp_dispatch_id r = i" and "result_for i result"
    and "h \<Longrightarrow> gr_dispatch_state result \<noteq> GD_NotDispatched"
  shows "dalways (sincere_at i h) s (dispatch_finish r result)"
  unfolding dispatch_finish_def Let_def
proof (rule dalways_write_cases)
  let ?r = "record_terminal result r"
  have st: "dp_dispatch_state ?r = gr_dispatch_state result"
    by (simp add: record_terminal_def Let_def split: ExecutionOutcome.splits)
  fix b s'
  assume "s' \<in> {s, s\<lparr>ds_store := hm_insert (dp_dispatch_id ?r) ?r (ds_store s)\<rparr>}"
  then have "sincere i h s'"
    using recorded_sincere [OF assms(1)] assms(2,4) st by (auto simp: sincere_def)
  moreover have "gr_dispatch_state (set_error_if_none e result) = gr_dispatch_state result"
      "gr_dispatch_id (set_error_if_none e result) = i" for e
    using assms(3) by (simp_all add: set_error_if_none_def result_for_def)
  moreover have "gr_dispatch_id result = i"
    using assms(3) by (simp add: result_for_def)
  ultimately show "dalways (\<lambda>evs. sincere_at i h (DE_write ?r b # evs)) s'
      (DCacheInsert (gr_dispatch_id (if b then result else
          set_error_if_none (GovernedError_new GE_PersistenceFailed EP_DispatchPersistence) result))
        (if b then result else set_error_if_none (GovernedError_new GE_PersistenceFailed EP_DispatchPersistence) result)
        (DRet (if b then result else set_error_if_none (GovernedError_new GE_PersistenceFailed EP_DispatchPersistence) result)))"
    using assms(4) by (auto simp: sincere_simps sincere_def)
qed (use recorded_sincere [OF assms(1)] in \<open>simp add: sincere_now\<close>)

lemma sincere_host:
  assumes "recorded i s" and "dp_dispatch_id r = i"
  shows "dalways (sincere_at i False) s (dbind (execute_host i governance command) (dispatch_finish r))"
  using recorded_sincere [OF assms(1)]
  by (auto simp: execute_host_def sincere_simps Let_def GovernedCommandResult_new_def result_for_def
      consistent_result_def ExecutionOutcome_indeterminate_def
      intro!: sincere_finish [OF assms] split: sum.splits prod.splits DispatchState.splits)

lemma recorded_insert:
  "dp_dispatch_state r \<noteq> GD_NotDispatched \<Longrightarrow> hm_get (ds_cache s) i = None \<Longrightarrow>
     hm_get (ds_store s) i = Some r \<Longrightarrow> recorded i s"
  by (simp add: recorded_def)

lemma sincere_after_exec:
  assumes "recorded i s" and "dp_dispatch_id r = i"
  shows "dalways (sincere_at i (possibly_ran (DE_exec ready request attempt))) s
    (dbind (dispatch_cleanup config target) (\<lambda>state. dispatch_finish (confirm_if_absent state r)
       (sandbox_result i governance attempt state)))"
proof -
  have "gr_dispatch_state (sandbox_result i governance attempt state) \<noteq> GD_NotDispatched"
    if "possibly_ran (DE_exec ready request attempt)" for state
    using that by (auto simp: sandbox_result_def GovernedCommandResult_new_def set_error_if_none_def Let_def
        split: sum.splits)
  then have fin: "dalways (sincere_at i (possibly_ran (DE_exec ready request attempt))) s
      (dispatch_finish (confirm_if_absent state r) (sandbox_result i governance attempt state))" for state
    using assms by (intro sincere_finish) simp_all
  show ?thesis
    using recorded_sincere [OF assms(1)] fin
    by (simp add: dispatch_cleanup_def dbind_with_context dalways_with_context sincere_simps split: option.splits)
qed

lemma sincere_ready:
  assumes "hm_get (ds_cache s) i = None" and "dp_dispatch_id r = i"
  shows "dalways (sincere_at i False) s (finishing (execute_ready config i governance command target ready r))"
proof -
  let ?r1 = "sandbox_ready r" and ?r2 = "sandbox_dispatch_possible (sandbox_ready r)"
  have abandon: "dalways (sincere_at i False) s'
      (finishing (dbind (dispatch_cleanup config target) (\<lambda>state. DRet (f state, r'))))" for s' f r'
    by (rule sincere_idle) (simp add: dbind_assoc budget_dbind_0 budget_cleanup budget_finish)
  have exec: "dalways (sincere_at i False) s' (with_context d (\<lambda>ctx. DExec ready request ctx (\<lambda>attempt.
      dbind (dispatch_cleanup config target) (\<lambda>state.
        dispatch_finish (confirm_if_absent state ?r2) (sandbox_result i governance attempt state)))))"
    if "recorded i s'" for s' d request
    using that assms(2) sincere_after_exec [OF that, of ?r2] recorded_sincere [OF that]
    by (simp add: dalways_with_context sincere_simps split: option.splits)
  have second: "dalways (sincere_at i False) s' (finishing (DWrite ?r2 (\<lambda>written.
      if \<not> written then dbind (dispatch_cleanup config target) (\<lambda>state. DRet (f state, ?r2))
      else with_context d (\<lambda>ctx. DExec ready request ctx (\<lambda>attempt.
        dbind (dispatch_cleanup config target) (\<lambda>state.
          DRet (sandbox_result i governance attempt state, confirm_if_absent state ?r2)))))))"
    if "hm_get (ds_cache s') i = None" for s' d request f
    unfolding dbind.simps
  proof (rule dalways_write_cases)
    fix b s''
    assume "s'' \<in> {s', s'\<lparr>ds_store := hm_insert (dp_dispatch_id ?r2) ?r2 (ds_store s')\<rparr>}"
      and "b \<Longrightarrow> hm_get (ds_store s'') (dp_dispatch_id ?r2) = Some ?r2"
    then have "b \<Longrightarrow> recorded i s''"
      using that assms(2) by (auto simp: recorded_def dispatch_defs)
    then show "dalways (\<lambda>evs. sincere_at i False (DE_write ?r2 b # evs)) s'' (finishing (
        if \<not> b then dbind (dispatch_cleanup config target) (\<lambda>state. DRet (f state, ?r2))
        else with_context d (\<lambda>ctx. DExec ready request ctx (\<lambda>attempt.
          dbind (dispatch_cleanup config target) (\<lambda>state.
            DRet (sandbox_result i governance attempt state, confirm_if_absent state ?r2))))))"
      using abandon exec by (simp add: dalways_sincere_Cons dbind_with_context dbind_assoc)
  qed (simp add: sincere_now sincere_def)
  show ?thesis
    unfolding execute_ready_def Let_def dbind.simps
  proof (rule dalways_write_cases)
    fix b s'
    assume "s' \<in> {s, s\<lparr>ds_store := hm_insert (dp_dispatch_id ?r1) ?r1 (ds_store s)\<rparr>}"
    then have "hm_get (ds_cache s') i = None"
      using assms(1) by auto
    from second [OF this] abandon show "dalways (\<lambda>evs. sincere_at i False (DE_write ?r1 b # evs)) s' (finishing (
        if \<not> b then dbind (dispatch_cleanup config target) (\<lambda>state.
          DRet (not_executed i governance state GE_PersistenceFailed EP_DispatchPersistence, ?r1))
        else case Argv_new (ecm_argv command) of Inl _ \<Rightarrow> DPanic
          | Inr argv \<Rightarrow> (case CommandTimeout_new (ecm_timeout_seconds command) of Inl _ \<Rightarrow> DPanic
             | Inr timeout \<Rightarrow> DWrite ?r2 (\<lambda>written.
                 if \<not> written then dbind (dispatch_cleanup config target) (\<lambda>state.
                   DRet (not_executed i governance state GE_PersistenceFailed EP_DispatchPersistence, ?r2))
                 else with_context (duration_saturating_add (secs (ucast (ecm_timeout_seconds command)))
                   (dc_dispatch_deadline_slack config)) (\<lambda>ctx.
                     DExec ready (ExecRequest_new argv timeout (dc_output_limits config)) ctx (\<lambda>attempt.
                       dbind (dispatch_cleanup config target) (\<lambda>state.
                         DRet (sandbox_result i governance attempt state, confirm_if_absent state ?r2))))))))"
      by (auto simp: dalways_sincere_Cons sincere_simps sincere_def split: sum.splits)
  qed (simp add: sincere_now sincere_def)
qed

lemma sincere_sandbox:
  assumes "hm_get (ds_cache s) i = None" and "dp_dispatch_id r = i"
  shows "dalways (sincere_at i False) s (finishing (execute_sandbox config i governance command c r))"
proof -
  have end_idle: "dalways (sincere_at i False) s (finishing (dbind (dispatch_cleanup config target) (\<lambda>state. DRet (f state, g state))))"
      "dalways (sincere_at i False) s (dispatch_finish r' result)" for target f g r' result
    by (intro sincere_idle; simp add: dbind_assoc budget_dbind_0 budget_cleanup budget_finish)+
  have idle: "sincere_at i False [] s p" if "\<not> list_ex executes (pending_call p)" "\<And>x. p \<noteq> DRet x" for p
    using that by (simp add: sincere_now sincere_def)
  show ?thesis
    using sincere_ready [OF assms] end_idle
    by (auto simp: execute_sandbox_def await_ready_def Let_def dbind_with_context dalways_with_context
        dalways_DCreate dalways_DWaitReady dalways_sincere_Cons idle split: sum.splits option.splits)
qed

lemma sincere_route:
  assumes "hm_get (ds_cache s) i = None" and "dp_dispatch_id r = i"
  shows "dalways (sincere_at i False) s (route_verdict config i effective r verdict governance)"
proof -
  have fence: "dalways (sincere_at i False) s (DWrite q (\<lambda>b. if \<not> b then DRet x else k))"
    if "dp_dispatch_id q = i" and "\<And>s'. hm_get (ds_cache s') i = None \<Longrightarrow> hm_get (ds_store s') i = Some q \<Longrightarrow>
      dalways (sincere_at i False) s' k" for q x k
  proof (rule dalways_write_cases)
    fix b s'
    assume "s' \<in> {s, s\<lparr>ds_store := hm_insert (dp_dispatch_id q) q (ds_store s)\<rparr>}"
      and "b \<Longrightarrow> hm_get (ds_store s') (dp_dispatch_id q) = Some q"
    then show "dalways (\<lambda>evs. sincere_at i False (DE_write q b # evs)) s' (if \<not> b then DRet x else k)"
      using that assms(1) by (auto simp: sincere_simps sincere_def)
  qed (simp add: sincere_now sincere_def)
  show ?thesis
  proof (cases verdict)
    case GV_Allow
    have "recorded i s'" if "hm_get (ds_cache s') i = None" "hm_get (ds_store s') i = Some (select_host governance r)" for s'
      using that by (simp add: recorded_def select_host_def)
    then show ?thesis
      unfolding GV_Allow route_verdict_def Let_def GovernanceVerdict.case
      by (intro fence sincere_host) (simp_all add: assms(2))
  next
    case GV_Constrain
    have "dalways (sincere_at i False) s (DWrite (select_sandbox governance c r) (\<lambda>written.
        if \<not> written then DRet (persistence_result i SE_Sandbox)
        else finishing (execute_sandbox config i governance effective c (select_sandbox governance c r))))" for c
      by (intro fence sincere_sandbox) (simp_all add: assms(2))
    with GV_Constrain show ?thesis
      by (simp add: route_verdict_def Let_def sincere_simps sincere_def split: option.splits)
  qed (simp_all add: route_verdict_def sincere_idle budget_finish)
qed

lemma sincere_governed:
  assumes "hm_get (ds_cache s) i = None" and "dp_dispatch_id r = i"
  shows "dalways (sincere_at i False) s (governed_part config i effective r)"
  using sincere_route [OF assms]
  by (auto simp: governed_part_def dalways_DEvaluate dalways_sincere_Cons sincere_now sincere_def sincere_idle budget_finish
      split: sum.splits prod.splits)

lemma reconciledD:
  "reconciled s s' \<Longrightarrow> hm_get (ds_store s') i = Some r' \<Longrightarrow>
     \<exists>r. hm_get (ds_store s) i = Some r \<and> dp_dispatch_state r' = dp_dispatch_state r"
  "reconciled s s' \<Longrightarrow> hm_get (ds_cache s') i = Some x' \<Longrightarrow>
     \<exists>x. hm_get (ds_cache s) i = Some x \<and> gr_dispatch_state x' = gr_dispatch_state x"
proof -
  assume rec: "reconciled s s'"
  show "\<exists>r. hm_get (ds_store s) i = Some r \<and> dp_dispatch_state r' = dp_dispatch_state r"
    if "hm_get (ds_store s') i = Some r'"
  proof -
    have "Some r' \<in> {hm_get (ds_store s) i, map_option cleanup_confirmed (hm_get (ds_store s) i)}"
      using rec that unfolding reconciled_def by metis
    then show ?thesis
      by (cases "hm_get (ds_store s) i") (auto simp: cleanup_confirmed_def)
  qed
  show "\<exists>x. hm_get (ds_cache s) i = Some x \<and> gr_dispatch_state x' = gr_dispatch_state x"
    if "hm_get (ds_cache s') i = Some x'"
  proof -
    have "Some x' \<in> {hm_get (ds_cache s) i, map_option (set_cleanup_state GC_ConfirmedAbsent) (hm_get (ds_cache s) i)}"
      using rec that unfolding reconciled_def by metis
    then show ?thesis
      by (cases "hm_get (ds_cache s) i") (auto simp: set_cleanup_state_def)
  qed
qed

lemma reconciled_sincere: "reconciled s s' \<Longrightarrow> sincere i h s \<Longrightarrow> sincere i h s'"
  by (fastforce simp: sincere_def dest: reconciledD)

lemma replay_dispatch_state: "gr_dispatch_state (replay_result r) = dp_dispatch_state r"
  by (simp add: replay_result_def GovernedCommandResult_new_def Let_def split: prod.splits)

lemma sincere_replay:
  assumes "sincere i h s" and "hm_get (ds_store s) i = Some r" and "dp_dispatch_id r = i"
  shows "dalways (sincere_at i h) s (replay_existing config i digest r)"
proof -
  let ?P = "\<lambda>s' p. sincere i h s' \<and> (\<forall>result. p = DRet result \<longrightarrow> h \<longrightarrow> gr_dispatch_state result \<noteq> GD_NotDispatched)"
  have "dalways (\<lambda>_. ?P) s (dbind (reconcile_record config r) (\<lambda>r1. DRet (replay_result r1)))"
    by (rule reconcile_record_then)
      (use assms reconciled_sincere [OF _ assms(1)] in
        \<open>auto simp: dalways_simps sincere_def replay_dispatch_state cleanup_confirmed_def\<close>)
  moreover have "budget (dbind (reconcile_record config r) (\<lambda>r1. DRet (replay_result r1))) 0"
    by (simp add: budget_dbind_0 budget_reconcile_record)
  ultimately have "dalways (sincere_at i h) s (dbind (reconcile_record config r) (\<lambda>r1. DRet (replay_result r1)))"
    by (auto simp: holds_def sincere_at_def Let_def budget_no_run)
  with assms show ?thesis
    by (auto simp: replay_existing_def sincere_simps sincere_def replay_dispatch_state refusals_def split: option.splits)
qed

lemma sincere_execute:
  assumes "sincere i h s" and "dtable_invar (ds_store s)" and i: "i = cmd_dispatch_id command"
    and fresh: "hm_get (ds_store s) i = None \<Longrightarrow> \<not> h \<and> hm_get (ds_cache s) i = None"
  shows "dalways (sincere_at i h) s (execute_owned sha256 config command)"
proof (rule execute_owned_cases)
  fix r digest
  assume "hm_get (ds_store s) (cmd_dispatch_id command) = Some r"
  moreover from this have "dp_dispatch_id r = i"
    using assms(2) by (simp add: dtable_invar_iff i)
  ultimately show "dalways (sincere_at i h) s (replay_existing config (cmd_dispatch_id command) digest r)"
    using sincere_replay [OF assms(1)] by (simp add: i)
next
  fix effective digest
  let ?r = "DispatchRecord_new (cmd_dispatch_id command) digest"
  assume "hm_get (ds_store s) (cmd_dispatch_id command) = None"
  with fresh have h: "h = False" and none: "hm_get (ds_cache s) i = None"
    by (simp_all add: i)
  show "dalways (sincere_at i h) s (DWrite ?r (\<lambda>written.
      if \<not> written then DRet (persistence_result (cmd_dispatch_id command) SE_None)
      else governed_part config (cmd_dispatch_id command) effective ?r))"
    unfolding h
  proof (rule dalways_write_cases)
    fix b s'
    assume "s' \<in> {s, s\<lparr>ds_store := hm_insert (dp_dispatch_id ?r) ?r (ds_store s)\<rparr>}"
    then have "hm_get (ds_cache s') i = None"
      using none by auto
    from sincere_governed [OF this] show "dalways (\<lambda>evs. sincere_at i False (DE_write ?r b # evs)) s'
        (if \<not> b then DRet (persistence_result (cmd_dispatch_id command) SE_None)
         else governed_part config (cmd_dispatch_id command) effective ?r)"
      by (simp add: sincere_simps sincere_def i)
  qed (simp add: sincere_now sincere_def)
qed (use assms(1) i in \<open>simp_all add: sincere_now\<close>)

lemma cached_recorded:
  assumes "hm_get (ds_store s) i = None \<longrightarrow> hm_get (ds_cache s) i = None" and "i = cmd_dispatch_id command"
  shows "dalways (\<lambda>_ s' _. hm_get (ds_store s') i = None \<longrightarrow> hm_get (ds_cache s') i = None) s
    (execute_owned sha256 config command)"
proof (rule execute_owned_cases)
  have stays: "dalways (\<lambda>_ s' _. hm_get (ds_store s') i = None \<longrightarrow> hm_get (ds_cache s') i = None) s' p"
    if "hm_get (ds_store s') i \<noteq> None" for s' and p :: "'z dprog"
    unfolding holds_def using dreach_keeps [OF _ that] by blast
  show "dalways (\<lambda>_ s' _. hm_get (ds_store s') i = None \<longrightarrow> hm_get (ds_cache s') i = None) s
      (replay_existing config (cmd_dispatch_id command) digest r)"
    if "hm_get (ds_store s) (cmd_dispatch_id command) = Some r" for r digest
    by (rule stays) (simp add: that assms(2))
  show "dalways (\<lambda>_ s' _. hm_get (ds_store s') i = None \<longrightarrow> hm_get (ds_cache s') i = None) s
      (DWrite (DispatchRecord_new (cmd_dispatch_id command) digest) (\<lambda>written.
        if \<not> written then DRet (persistence_result (cmd_dispatch_id command) SE_None)
        else governed_part config (cmd_dispatch_id command) effective
               (DispatchRecord_new (cmd_dispatch_id command) digest)))" for effective digest
    by (rule dalways_write_cases) (use assms stays in \<open>auto simp: dalways_simps\<close>)
qed (use assms(1) in simp_all)

section \<open>Histories\<close>

definition may_have_run_in :: "DispatchId \<Rightarrow> (DispatchId option \<times> observation) list \<Rightarrow> bool" where
  "may_have_run_in i tr \<longleftrightarrow> list_ex (\<lambda>(j, e). j = Some i \<and> may_have_run e) tr"

lemma may_have_run_in_simps [simp]:
  "may_have_run_in i (tr @ tr') \<longleftrightarrow> may_have_run_in i tr \<or> may_have_run_in i tr'"
  "may_have_run_in i (map (Pair (Some j)) es) \<longleftrightarrow> i = j \<and> list_ex may_have_run es"
  "\<not> may_have_run_in i (map (Pair None) es)"
  by (auto simp: may_have_run_in_def list_ex_iff)

lemma may_have_run_in_executions: "may_have_run_in i tr \<Longrightarrow> executions i tr \<noteq> 0"
  using may_have_run_executes by (fastforce simp: may_have_run_in_def executions_def list_ex_iff filter_empty_conv)

text \<open>The invariant of a history, for the cache of each process.\<close>

definition candid :: "DispatchId \<Rightarrow> bool \<Rightarrow> dispatcher \<Rightarrow> bool" where
  "candid i h s \<longleftrightarrow> sincere i h s \<and> (hm_get (ds_store s) i = None \<longrightarrow> \<not> h \<and> hm_get (ds_cache s) i = None)"

lemma candid_other_cache:
  assumes "candid i h \<lparr>ds_store = t, ds_cache = cache\<rparr>" and "candid i h' \<lparr>ds_store = t', ds_cache = cache'\<rparr>"
    and "h' \<Longrightarrow> h \<or> hm_get cache i = None" and "hm_get t' i = None \<Longrightarrow> hm_get t i = None"
  shows "candid i h' \<lparr>ds_store = t', ds_cache = cache\<rparr>"
  using assms by (auto simp: candid_def sincere_def)

text \<open>One operation of process \<open>n\<close>, seen by every process.\<close>

lemma candid_processes:
  assumes "\<And>m. candid i h \<lparr>ds_store = t, ds_cache = C m\<rparr>" and "candid i h' s"
    and "h' \<Longrightarrow> h \<or> hm_get t i = None" and "hm_get t i \<noteq> None \<Longrightarrow> hm_get (ds_store s) i \<noteq> None"
  shows "candid i h' \<lparr>ds_store = ds_store s, ds_cache = (C(n := ds_cache s)) m\<rparr>"
proof (cases "m = n")
  case False
  have "candid i h' \<lparr>ds_store = ds_store s, ds_cache = C m\<rparr>"
  proof (rule candid_other_cache [OF assms(1) [of m]])
    show "candid i h' \<lparr>ds_store = ds_store s, ds_cache = ds_cache s\<rparr>"
      using assms(2) by (simp add: candid_def sincere_def)
    show "h \<or> hm_get (C m) i = None" if h'
      using assms(3) [OF that] assms(1) [of m] by (auto simp: candid_def)
  qed (use assms(4) in blast)
  with False show ?thesis by simp
qed (use assms(2) in \<open>simp add: candid_def sincere_def\<close>)

lemma candid_execute:
  assumes "candid i h s" and "dtable_invar (ds_store s)" and "dreach s (execute_owned sha256 config command) evs s' p"
    and "i = cmd_dispatch_id command"
  shows "candid i (h \<or> list_ex may_have_run (observed evs p)) s'"
    and "list_ex may_have_run (observed evs p) \<Longrightarrow> hm_get (ds_store s) i = None"
proof -
  have sp: "spends i (if hm_get (ds_store s) i = None then Suc 0 else 0) evs s' p"
    using holdsD [OF execute_spends assms(3)] assms(4) by simp
  moreover have ex: "list_ex may_have_run (observed evs p) \<Longrightarrow> list_ex executes (observed evs p)"
    using may_have_run_executes by (auto simp: list_ex_iff)
  ultimately show "list_ex may_have_run (observed evs p) \<Longrightarrow> hm_get (ds_store s) i = None"
    by (auto simp: spends_def list_ex_iff filter_empty_conv split: if_splits)
  have "sincere_at i h evs s' p"
    using holdsD [OF sincere_execute [OF _ assms(2,4)] assms(3)] assms(1) by (simp add: candid_def)
  moreover have "hm_get (ds_store s') i = None \<Longrightarrow> hm_get (ds_cache s') i = None"
    using holdsD [OF cached_recorded [OF _ assms(4)] assms(3)] assms(1) by (simp add: candid_def)
  moreover have "hm_get (ds_store s') i = None \<Longrightarrow> \<not> h"
    using dreach_keeps [OF assms(3), of i] assms(1) by (auto simp: candid_def)
  ultimately show "candid i (h \<or> list_ex may_have_run (observed evs p)) s'"
    using sp ex by (auto simp: candid_def sincere_at_def spends_def Let_def)
qed

lemma candid_other_execute:
  assumes "candid i h s" and "dtable_invar (ds_store s)" and "dreach s (execute_owned sha256 config command) evs s' p"
    and "i \<noteq> cmd_dispatch_id command"
  shows "candid i h s'"
proof -
  let ?j = "cmd_dispatch_id command"
  let ?same = "\<lambda>_ s' _. hm_get (ds_store s') i = hm_get (ds_store s) i \<and> hm_get (ds_cache s') i = hm_get (ds_cache s) i"
  have untouched: "dalways ?same s p" if "confined ?j dg R p" for dg R and p :: "GovernedCommandResult dprog"
    unfolding holds_def using dreach_every [OF _ that, where i = i] assms(4) by (auto simp: of_command_def)
  have "dalways ?same s (execute_owned sha256 config command)"
  proof (rule execute_owned_cases)
    show "dalways ?same s (replay_existing config ?j digest r)" if "hm_get (ds_store s) ?j = Some r" for r digest
      by (rule untouched [OF confined_replay [where digest = "dp_command_digest r"]])
        (use that assms(2) in \<open>auto simp: dtable_invar_iff of_command_def\<close>)
    show "dalways ?same s (DWrite (DispatchRecord_new ?j digest) (\<lambda>written.
        if \<not> written then DRet (persistence_result ?j SE_None)
        else governed_part config ?j effective (DispatchRecord_new ?j digest)))" for effective digest
      by (rule untouched [of digest "\<lambda>_. True"]) (simp add: confined_any [OF confined_governed])
  qed simp_all
  from holdsD [OF this assms(3)] assms(1) show ?thesis
    by (simp add: candid_def sincere_def)
qed

lemma history_candid:
  assumes "history sha256 t C tr"
  shows "candid i (may_have_run_in i tr) \<lparr>ds_store = t, ds_cache = C m\<rparr>"
  using assms
proof (induction arbitrary: m rule: history.induct)
  case history_start
  then show ?case
    by (simp add: candid_def sincere_def may_have_run_in_def)
next
  case (history_restart t C tr n)
  from history_restart.IH [of m] show ?case
    by (auto simp: candid_def sincere_def)
next
  case (history_execute t C tr n config command evs s p)
  let ?s = "\<lparr>ds_store = t, ds_cache = C n\<rparr>"
  have inv: "dtable_invar (ds_store ?s)"
    using history_dtable_invar [OF history_execute.hyps(1)] by simp
  have keep: "hm_get t i \<noteq> None \<Longrightarrow> hm_get (ds_store s) i \<noteq> None"
    using dreach_keeps [OF history_execute.hyps(2)] by simp
  show ?case
  proof (cases "i = cmd_dispatch_id command")
    case True
    from candid_execute [OF history_execute.IH inv history_execute.hyps(2) this] True keep
    show ?thesis
      by (intro candid_processes [OF history_execute.IH]) auto
  next
    case False
    from candid_other_execute [OF history_execute.IH inv history_execute.hyps(2) this] False keep
    show ?thesis
      by (intro candid_processes [OF history_execute.IH]) auto
  qed
next
  case (history_reconcile t C tr n config evs s p)
  let ?s = "\<lparr>ds_store = t, ds_cache = C n\<rparr>"
  have inv: "dtable_invar (ds_store ?s)"
    using history_dtable_invar [OF history_reconcile.hyps(1)] by simp
  have rec: "reconciled ?s s"
    using holdsD [OF reconcile_all_reconciles [OF inv] history_reconcile.hyps(2)] .
  have keep: "hm_get t i \<noteq> None \<Longrightarrow> hm_get (ds_store s) i \<noteq> None"
    using dreach_keeps [OF history_reconcile.hyps(2)] by simp
  have "hm_get (C n) i \<noteq> None" if "hm_get (ds_cache s) i = Some x" for x
    using reconciledD(2) [OF rec that] by auto
  then have "hm_get (C n) i = None \<Longrightarrow> hm_get (ds_cache s) i = None"
    by (cases "hm_get (ds_cache s) i") blast+
  then have "candid i (may_have_run_in i tr) s"
    using history_reconcile.IH [of n] reconciled_sincere [OF rec] keep unfolding candid_def by (metis dispatcher.select_convs)
  with keep show ?case
    by (intro candid_processes [OF history_reconcile.IH]) auto
qed

text \<open>
  C15. A result that says \<open>NotDispatched\<close>, and is not one of the refusals for an unusable request or
  store, is true of the whole life of the command: in no earlier run, by any process on the state
  directory, and not in this one, has an executor received the command without having said that it
  did not dispatch it; a call in progress when a process was killed counts as a possible run.
\<close>

theorem not_dispatched_is_true:
  assumes "history sha256 t C tr"
    and "dreach \<lparr>ds_store = t, ds_cache = C n\<rparr> (execute_owned sha256 config command) evs s (DRet result)"
    and "gr_dispatch_state result = GD_NotDispatched" and "result \<notin> refusals (cmd_dispatch_id command)"
  shows "\<not> may_have_run_in (cmd_dispatch_id command) tr \<and> \<not> list_ex possibly_ran evs"
proof -
  let ?i = "cmd_dispatch_id command" and ?s = "\<lparr>ds_store = t, ds_cache = C n\<rparr>"
  have candid: "candid ?i (may_have_run_in ?i tr) ?s"
    by (rule history_candid [OF assms(1)])
  have "dalways (sincere_at ?i (may_have_run_in ?i tr)) ?s (execute_owned sha256 config command)"
    by (rule sincere_execute) (use candid history_dtable_invar [OF assms(1)] in \<open>auto simp: candid_def\<close>)
  from holdsD [OF this assms(2)] assms(3,4) show ?thesis
    by (auto simp: sincere_at_def observed_def list_ex_iff Let_def)
qed

definition blocked_run :: "devent list \<times> dispatcher \<times> GovernedCommandResult dprog" where
  "blocked_run = drun [DA_lock True, DA_load True, DA_write WriteOk, DA_evaluate (Err GCE_Deadline), DA_write WriteOk, DA_tick]
     empty_dispatcher (execute_owned sample_sha sample_config sample_command)"

definition blocked_result :: GovernedCommandResult where
  "blocked_result = no_executor sample_did GO_Unavailable (Some (GovernedError_new GE_GovernanceUnavailable EP_Governance))"

lemma blocked_run_end: "\<exists>evs s. blocked_run = (evs, s, DRet blocked_result)"
  using sample_digest
  by (simp add: blocked_run_def blocked_result_def dispatch_eval dispatch_defs no_executor_def)

theorem not_dispatched_is_true_witness:
  "\<exists>evs s. blocked_run = (evs, s, DRet blocked_result) \<and> gr_dispatch_state blocked_result = GD_NotDispatched
     \<and> blocked_result \<notin> refusals sample_did \<and> \<not> may_have_run_in sample_did [] \<and> \<not> list_ex possibly_ran evs"
proof -
  obtain evs s where run: "blocked_run = (evs, s, DRet blocked_result)"
    using blocked_run_end by blast
  have facts: "gr_dispatch_state blocked_result = GD_NotDispatched" "blocked_result \<notin> refusals sample_did"
    by (auto simp: blocked_result_def no_executor_def refusals_def GovernedCommandResult_new_def GovernedError_new_def
        persistence_result_def GovernedCommandResult_validation_def)
  have "cmd_dispatch_id sample_command = sample_did"
    by (simp add: sample_command_def Command_new_def)
  then show ?thesis
    using not_dispatched_is_true [OF history_start [of sample_sha] runs_reaches [OF run [unfolded blocked_run_def empty_dispatcher_def]]]
      run facts by (auto simp: empty_dispatcher_def)
qed

section \<open>A refusal is not a verdict\<close>

text \<open>
  The exception is real: after the host has executed a command and its result is durable, a
  second request for the same command, in which the store cannot be locked, is answered with
  \<open>NotDispatched\<close>.
\<close>

theorem lock_failure_denies_execution:
  "case host_run of (evs, s, p) \<Rightarrow>
     p = DRet host_result \<and> list_ex possibly_ran evs
     \<and> (\<exists>result. drun [DA_lock False] s (execute_owned sample_sha sample_config sample_command) = ([], s, DRet result)
          \<and> gr_dispatch_id result = sample_did \<and> gr_dispatch_state result = GD_NotDispatched)"
  using sample_digest sample_accepted
  by (simp add: host_run_def host_answers_def dispatch_eval dispatch_defs host_result_def sample_response_def
      persistence_result_def GovernedCommandResult_new_def)

end
