(* ===== verification/Dispatch_Replay.thy ===== *)
theory Dispatch_Replay
  imports Dispatch_Truth
begin

text \<open>
  What is durable can be read back: a finished dispatch is replayed by its process and by its
  successors, a reconciliation reports what it has confirmed, the directory of record files implements
  the table of records, and the digest in a record identifies its command.
\<close>

section \<open>The end of a dispatch\<close>

lemma every_mono:
  "every W I R p \<Longrightarrow> (\<And>r. W r \<Longrightarrow> W' r) \<Longrightarrow> (\<And>x. R x \<Longrightarrow> R' x) \<Longrightarrow> every W' I R' p"
  by (induction p) simp_all

lemma dreach_writes:
  assumes "dreach s p evs s' p'" and "every W I R p"
  shows "every W I R p' \<and> (\<forall>r b. DE_write r b \<in> set evs \<longrightarrow> W r)"
  using assms
proof (induction rule: reaches.induct)
  case (reaches_step p a s ev s1 p1 evs s2 p2)
  have "every W I R p1"
    using dstep_every [OF reaches_step.hyps(1) reaches_step.prems] by blast
  moreover have "\<forall>r b. DE_write r b \<in> set ev \<longrightarrow> W r"
    using reaches_step.hyps(1) reaches_step.prems
    by (cases p) (auto split: danswer.splits prod.splits)
  ultimately show ?case
    using reaches_step.IH by auto
qed simp

text \<open>
  A dispatch whose terminal record was written and which has returned: the record is the stored one,
  and the result is the cached one.
\<close>

definition settled :: "DispatchId \<Rightarrow> Sha256Digest \<Rightarrow> devent list \<Rightarrow> dispatcher \<Rightarrow> GovernedCommandResult dprog \<Rightarrow> bool" where
  "settled i digest evs s p \<longleftrightarrow>
     (\<forall>r result. DE_write r True \<in> set evs \<and> dp_stage r = RS_Terminal \<and> p = DRet result \<longrightarrow>
        result_for i result \<and> hm_get (ds_cache s) i = Some result
        \<and> (\<exists>r0. of_command i digest r0 \<and> hm_get (ds_store s) i = Some (record_terminal result r0)))"

lemma settled_open: "(\<And>x. p \<noteq> DRet x) \<Longrightarrow> settled i digest evs s p"
  by (simp add: settled_def)

lemma settled_skip:
  "(\<And>r. e = DE_write r True \<Longrightarrow> dp_stage r \<noteq> RS_Terminal) \<Longrightarrow> settled i digest (e # evs) = settled i digest evs"
  unfolding settled_def fun_eq_iff list.set by (metis insert_iff)

lemma settled_skip_write:
  "dp_stage q \<noteq> RS_Terminal \<Longrightarrow> settled i digest (DE_write q b # evs) = settled i digest evs"
  by (rule settled_skip) simp

lemma settled_skip_simps [simp]:
  "settled i digest (DE_evaluate a x # evs) = settled i digest evs"
  by (rule settled_skip) simp

lemma settled_finish:
  assumes "of_command i digest r" and "result_for i result" and "\<And>q b. DE_write q b \<in> set pre \<Longrightarrow> dp_stage q \<noteq> RS_Terminal"
  shows "dalways (\<lambda>evs. settled i digest (pre @ evs)) s (dispatch_finish r result)"
  unfolding dispatch_finish_def Let_def
proof (rule dalways_write_cases)
  fix b and s' :: dispatcher
  let ?r = "record_terminal result r"
    and ?x = "if b then result else set_error_if_none (GovernedError_new GE_PersistenceFailed EP_DispatchPersistence) result"
  assume "b \<Longrightarrow> hm_get (ds_store s') (dp_dispatch_id ?r) = Some ?r"
  then have "b \<Longrightarrow> hm_get (ds_store s') i = Some ?r"
    using assms(1) by (simp add: of_command_def)
  then show "dalways (\<lambda>evs. settled i digest (pre @ DE_write ?r b # evs)) s' (DCacheInsert (gr_dispatch_id ?x) ?x (DRet ?x))"
    using assms by (auto simp: dalways_simps settled_def result_for_def)
qed (simp add: settled_open)

lemma settled_finishing:
  assumes "underway i digest (\<lambda>x. outcome_for i digest (g x)) p"
  shows "dalways (settled i digest) s (dbind p (\<lambda>x. dispatch_finish (snd (g x)) (fst (g x))))"
proof (rule operation.holds_seq, unfold holds_def, intro allI impI conjI)
  fix evs s' p'
  assume run: "dreach s p evs s' p'"
  have und: "underway i digest (\<lambda>x. outcome_for i digest (g x)) p'"
    and pre: "DE_write q b \<in> set evs \<Longrightarrow> dp_stage q \<noteq> RS_Terminal" for q b
    using dreach_writes [OF run assms] by auto
  have "dbind p' (\<lambda>x. dispatch_finish (snd (g x)) (fst (g x))) \<noteq> DRet y" for y
    by (cases p') (simp_all add: dispatch_finish_def)
  then show "settled i digest evs s' (dbind p' (\<lambda>x. dispatch_finish (snd (g x)) (fst (g x))))"
    by (simp add: settled_def)
  fix x evs' s'' q
  assume "p' = DRet x" "dreach s' (dispatch_finish (snd (g x)) (fst (g x))) evs' s'' q"
  with und holdsD [OF settled_finish [of i digest "snd (g x)" "fst (g x)" evs s']] pre
  show "settled i digest (evs @ evs') s'' q"
    by auto
qed

lemma settled_route:
  assumes "of_command i digest r"
  shows "dalways (settled i digest) s (route_verdict config i effective r verdict governance)"
proof -
  have fence: "dalways (settled i digest) s (DWrite q (\<lambda>written. if \<not> written then DRet x else k))"
    if "dp_stage q \<noteq> RS_Terminal" and "\<And>s'. dalways (settled i digest) s' k" for q x k
    by (rule dalways_write_cases)
      (use that in \<open>auto simp: settled_open settled_skip_write dalways_simps settled_def\<close>)
  have host: "dalways (settled i digest) s' (dbind (execute_host i governance effective) (dispatch_finish (select_host governance r)))" for s'
  proof -
    have "underway i digest (\<lambda>x. outcome_for i digest (x, select_host governance r)) (execute_host i governance effective)"
      using underway_host by (rule every_mono) (use assms in simp_all)
    from settled_finishing [OF this] show ?thesis by simp
  qed
  have sandbox: "dalways (settled i digest) s'
      (finishing (execute_sandbox config i governance effective c (select_sandbox governance c r)))" for s' c
  proof -
    have "underway i digest (outcome_for i digest) (execute_sandbox config i governance effective c (select_sandbox governance c r))"
      by (rule underway_sandbox) (simp add: assms)
    from settled_finishing [where g = "\<lambda>x. x", OF this] show ?thesis
      by (simp add: case_prod_beta')
  qed
  show ?thesis
    using assms host sandbox settled_finish [where pre = "[]" and s = s and i = i and digest = digest]
    by (cases verdict)
      (auto simp: route_verdict_def Let_def dalways_DUuid dalways_simps settled_open settled_def
        intro!: fence split: option.splits)
qed

lemma settled_governed:
  assumes "of_command i digest r"
  shows "dalways (settled i digest) s (governed_part config i effective r)"
  using settled_route [OF assms] settled_finish [OF assms, where pre = "[]"]
  by (auto simp: governed_part_def dalways_DEvaluate settled_open split: sum.splits prod.splits)

lemma settled_execute:
  assumes "hm_get (ds_store s) (cmd_dispatch_id command) = None"
    and "dreach s (execute_owned sha256 config command) evs s' (DRet result)"
    and "DE_write r True \<in> set evs" and "dp_stage r = RS_Terminal"
  shows "\<exists>effective digest r0.
      EffectiveCommand_validate (cmd_argv command) (cmd_timeout_seconds command) (dc_command_limits config) = Ok effective
      \<and> EffectiveCommand_digest sha256 effective = Some digest
      \<and> result_for (cmd_dispatch_id command) result
      \<and> hm_get (ds_cache s') (cmd_dispatch_id command) = Some result \<and> of_command (cmd_dispatch_id command) digest r0
      \<and> hm_get (ds_store s') (cmd_dispatch_id command) = Some (record_terminal result r0)"
proof -
  let ?i = "cmd_dispatch_id command"
  let ?Q = "\<lambda>evs s' p. (\<exists>r. DE_write r True \<in> set evs \<and> dp_stage r = RS_Terminal) \<longrightarrow> (\<exists>effective digest.
    EffectiveCommand_validate (cmd_argv command) (cmd_timeout_seconds command) (dc_command_limits config) = Ok effective
    \<and> EffectiveCommand_digest sha256 effective = Some digest \<and> settled ?i digest evs s' p)"
  have "dalways ?Q s (execute_owned sha256 config command)"
  proof (rule execute_owned_cases)
    fix effective digest
    assume *: "EffectiveCommand_validate (cmd_argv command) (cmd_timeout_seconds command) (dc_command_limits config) = Ok effective"
      "EffectiveCommand_digest sha256 effective = Some digest"
    let ?r = "DispatchRecord_new ?i digest"
    have "dalways (settled ?i digest) s (DWrite ?r (\<lambda>written.
        if \<not> written then DRet (persistence_result ?i SE_None) else governed_part config ?i effective ?r))"
      by (rule dalways_write_cases)
        (auto simp: settled_open settled_skip_write settled_governed dalways_simps settled_def)
    then show "dalways ?Q s (DWrite ?r (\<lambda>written.
        if \<not> written then DRet (persistence_result ?i SE_None) else governed_part config ?i effective ?r))"
      by (rule holds_mono) (use * in blast)
  qed (use assms(1) in simp_all)
  from holdsD [OF this assms(2)] assms(3,4) show ?thesis
    unfolding settled_def by blast
qed

section \<open>Replay\<close>

abbreviation replay_answers :: "danswer list" where
  "replay_answers \<equiv> [DA_lock True, DA_load True, DA_tick]"

lemma replay_run:
  assumes "EffectiveCommand_validate (cmd_argv command) (cmd_timeout_seconds command) (dc_command_limits config) = Ok effective"
    and "EffectiveCommand_digest sha256 effective = Some (dp_command_digest r)"
    and "hm_get (ds_store s) (cmd_dispatch_id command) = Some r"
    and "hm_get (ds_cache s) (cmd_dispatch_id command) = None \<Longrightarrow> dp_cleanup_state r \<noteq> GC_PendingReconciliation"
  shows "drun replay_answers s (execute_owned sha256 config command) =
    ([], s, DRet (case hm_get (ds_cache s) (cmd_dispatch_id command) of None \<Rightarrow> replay_result r | Some x \<Rightarrow> x))"
  using assms
  by (simp add: execute_owned_def execute_locked_def Command_into_parts_def dtable_load_def replay_existing_def
      split: option.splits)



section \<open>Reconciliation\<close>

fun reconciling :: "devent \<Rightarrow> bool" where
  "reconciling (DE_write _ _) = True"
| "reconciling (DE_delete _ _) = True"
| "reconciling (DE_absent _ _) = True"
| "reconciling _ = False"

definition awaits_cleanup :: "DispatchRecord \<Rightarrow> bool" where
  "awaits_cleanup r \<longleftrightarrow> dp_cleanup_state r = GC_PendingReconciliation"

definition confirmed_in :: "devent list \<Rightarrow> DispatchRecord \<Rightarrow> bool" where
  "confirmed_in evs r \<longleftrightarrow> (\<exists>c. dp_cleanup_id r = Some c \<and> DE_absent (CleanupTarget_new c) (Ok ()) \<in> set evs)"

lemma confirmed_in_mono: "confirmed_in evs r \<Longrightarrow> set evs \<subseteq> set evs' \<Longrightarrow> confirmed_in evs' r"
  by (auto simp: confirmed_in_def)

lemma reconcile_record_confirms:
  assumes "awaits_cleanup r"
  shows "dalways (\<lambda>evs s' p. list_all reconciling evs
    \<and> (\<forall>r'. p = DRet r' \<longrightarrow> dp_cleanup_state r' = GC_ConfirmedAbsent \<longrightarrow> confirmed_in evs r)) s (reconcile_record config r)"
proof (cases "dp_cleanup_id r")
  case None
  with assms show ?thesis
    by (simp add: reconcile_record_def dalways_simps awaits_cleanup_def)
next
  case (Some c)
  have unit: "(x :: CleanupFailure + unit) = Ok ()" if "is_ok x" for x
    using that by (simp add: is_ok_iff)
  show ?thesis
    using assms Some
    by (auto simp: reconcile_record_def dispatch_cleanup_def dbind_with_context dalways_with_context dalways_simps
        dalways_DWrite awaits_cleanup_def confirmed_in_def dest: unit split: option.splits)
qed

text \<open>The account of a reconciliation: the counters, and what a report without pending records means.\<close>

definition accounts ::
  "DispatchReconciliationReport \<Rightarrow> DispatchRecord list \<Rightarrow> devent list \<Rightarrow> DispatchReconciliationReport \<Rightarrow> bool" where
  "accounts report0 rs evs report \<longleftrightarrow>
     unat (drr_confirmed_absent report) + unat (drr_pending report) =
       unat (drr_confirmed_absent report0) + unat (drr_pending report0) + length (filter awaits_cleanup rs)
     \<and> unat (drr_pending report0) \<le> unat (drr_pending report)
     \<and> (unat (drr_pending report) = unat (drr_pending report0) \<longrightarrow>
          (\<forall>r \<in> set rs. awaits_cleanup r \<longrightarrow> confirmed_in evs r))"

definition count_record :: "DispatchRecord \<Rightarrow> DispatchReconciliationReport \<Rightarrow> DispatchReconciliationReport" where
  "count_record r report =
     (if dp_cleanup_state r = GC_ConfirmedAbsent
      then report\<lparr>drr_confirmed_absent := saturating_add_u64 (drr_confirmed_absent report) 1\<rparr>
      else report\<lparr>drr_pending := saturating_add_u64 (drr_pending report) 1\<rparr>)"

lemma accounts_Cons:
  assumes "accounts (count_record r' report0) rs evs' report" and "awaits_cleanup r"
    and "dp_cleanup_state r' = GC_ConfirmedAbsent \<Longrightarrow> confirmed_in evs r"
    and "unat (drr_confirmed_absent report0) + unat (drr_pending report0) < 2 ^ 64 - 1"
  shows "accounts report0 (r # rs) (evs @ evs') report"
  using assms confirmed_in_mono [of evs r "evs @ evs'"] confirmed_in_mono [of evs' _ "evs @ evs'"]
  by (auto simp: accounts_def count_record_def unat_saturating_add_u64 min_def split: if_splits)

lemma reconcile_records_accounts:
  assumes "unat (drr_confirmed_absent report0) + unat (drr_pending report0) + length (filter awaits_cleanup rs) < 2 ^ 64"
  shows "dalways (\<lambda>evs s' p. list_all reconciling evs \<and> (\<forall>report. p = DRet report \<longrightarrow> accounts report0 rs evs report))
    s (reconcile_records config report0 rs)"
  using assms
proof (induction rs arbitrary: s report0)
  case Nil
  then show ?case
    by (simp add: dalways_simps accounts_def)
next
  case (Cons r rs)
  show ?case
  proof (cases "awaits_cleanup r")
    case True
    let ?f = "\<lambda>r1. reconcile_records config (count_record r1 report0) rs"
    have step: "reconcile_records config report0 (r # rs) = dbind (reconcile_record config r) ?f"
      using True by (simp add: awaits_cleanup_def count_record_def if_distrib cong: if_cong)
    have bound: "unat (drr_confirmed_absent (count_record r1 report0)) + unat (drr_pending (count_record r1 report0))
        + length (filter awaits_cleanup rs) < 2 ^ 64" for r1
      using Cons.prems True by (simp add: count_record_def unat_saturating_add_u64)
    show ?thesis
      unfolding step
    proof (rule operation.holds_seq, rule holds_mono [OF reconcile_record_confirms [OF True]], intro conjI allI impI)
      fix evs s' and p' :: "DispatchRecord dprog"
      assume p': "list_all reconciling evs
        \<and> (\<forall>r'. p' = DRet r' \<longrightarrow> dp_cleanup_state r' = GC_ConfirmedAbsent \<longrightarrow> confirmed_in evs r)"
      then show "list_all reconciling evs" by simp
      show "accounts report0 (r # rs) evs report" if ret: "dbind p' ?f = DRet report" for report
      proof -
        obtain r1 where r1: "p' = DRet r1" "?f r1 = DRet report"
          using ret by (cases p') auto
        from holdsD [OF Cons.IH [OF bound] reaches_refl] r1(2) have "accounts (count_record r1 report0) rs [] report"
          by simp
        from accounts_Cons [OF this True] p' r1 Cons.prems True show ?thesis by auto
      qed
      show "dalways (\<lambda>evs' s'' q. list_all reconciling (evs @ evs')
          \<and> (\<forall>report. q = DRet report \<longrightarrow> accounts report0 (r # rs) (evs @ evs') report)) s' (?f r1)"
        if "p' = DRet r1" for r1
        using Cons.IH [OF bound] by (rule holds_mono)
          (use p' that Cons.prems True in \<open>auto intro!: accounts_Cons\<close>)
    qed
  next
    case False
    with Cons show ?thesis
      by (auto simp: awaits_cleanup_def accounts_def)
  qed
qed

text \<open>
  Reconciliation only cleans up: it calls neither governance nor an executor nor the creation of a
  sandbox, changes nothing in records and cached results but that a cleanup is confirmed, and its
  report counts every record that waited for cleanup; when it reports none pending, the runtime has
  confirmed, during it, the absence of every sandbox that was waiting.
\<close>

theorem reconciliation_report:
  assumes "dtable_invar (ds_store s)" and "length (ds_store s) < 2 ^ 64"
    and "dreach s (reconcile_all config) evs s' (DRet (Ok report))"
  shows "list_all reconciling evs \<and> reconciled s s'
    \<and> unat (drr_confirmed_absent report) + unat (drr_pending report) = length (filter (awaits_cleanup \<circ> snd) (ds_store s))
    \<and> (drr_pending report = 0 \<longrightarrow> (\<forall>i r. hm_get (ds_store s) i = Some r \<and> awaits_cleanup r \<longrightarrow> confirmed_in evs r))"
proof -
  let ?rs = "sort_key dp_dispatch_id (map snd (ds_store s))" and ?zero = "\<lparr>drr_confirmed_absent = 0, drr_pending = 0\<rparr>"
  let ?Q = "\<lambda>evs s' p. list_all reconciling evs \<and> (\<forall>report. p = DRet (Ok report :: GovernedError + _) \<longrightarrow> accounts ?zero ?rs evs report)"
  have len: "length (filter awaits_cleanup ?rs) = length (filter (awaits_cleanup \<circ> snd) (ds_store s))"
    by (simp add: filter_sort filter_map)
  have small: "unat (drr_confirmed_absent ?zero) + unat (drr_pending ?zero) + length (filter awaits_cleanup ?rs) < 2 ^ 64"
    using le_less_trans [OF length_filter_le [of "awaits_cleanup \<circ> snd"] assms(2)] len by simp
  have "dalways ?Q s (dbind (reconcile_records config ?zero ?rs) (\<lambda>report. DRet (Ok report)))"
  proof (rule operation.holds_seq, rule holds_mono [OF reconcile_records_accounts [OF small]], intro conjI allI impI)
    fix evs s' and p' :: "DispatchReconciliationReport dprog"
    assume *: "list_all reconciling evs \<and> (\<forall>report. p' = DRet report \<longrightarrow> accounts ?zero ?rs evs report)"
    then show "list_all reconciling evs" by simp
    show "accounts ?zero ?rs evs report" if "dbind p' (\<lambda>report. DRet (Ok report)) = DRet (Ok report :: GovernedError + _)" for report
      using * that by (cases p') auto
    show "dalways (\<lambda>evs'. ?Q (evs @ evs')) s' (DRet (Ok report))" if "p' = DRet report" for report
      using * that by (simp add: dalways_simps)
  qed
  then have "dalways ?Q s (reconcile_all config)"
    by (simp add: reconcile_all_def dalways_simps)
  from holdsD [OF this assms(3)] have acc: "list_all reconciling evs" "accounts ?zero ?rs evs report"
    by simp_all
  have "r \<in> set ?rs" if "hm_get (ds_store s) i = Some r" for i r
    using that by (auto simp: hm_get_def dest!: map_of_SomeD intro: rev_image_eqI)
  with acc have "drr_pending report = 0 \<longrightarrow> (\<forall>i r. hm_get (ds_store s) i = Some r \<and> awaits_cleanup r \<longrightarrow> confirmed_in evs r)"
    unfolding accounts_def by (metis unsigned_0 DispatchReconciliationReport.select_convs(2))
  moreover have "reconciled s s'"
    using holdsD [OF reconcile_all_reconciles [OF assms(1)] assms(3)] .
  ultimately show ?thesis
    using acc len by (simp add: accounts_def)
qed

definition sweep_answers :: "danswer list" where
  "sweep_answers = [DA_lock True, DA_load True, DA_delete (Err (CleanupFailure_new (CleanupTarget_new probe_id) CU_Deadline
     (OperatorDetail_redacted ''late''))), DA_absent (Ok ()), DA_write WriteOk, DA_tick]"

definition left_record :: DispatchRecord where
  "left_record = select_sandbox (GO_Authoritative GV_Constrain (sample_response ''CONSTRAIN'')) probe_id
     (DispatchRecord_new sample_did sample_digest)"

definition left_behind :: dispatcher where
  "left_behind = \<lparr>ds_store = [(sample_did, left_record)], ds_cache = []\<rparr>"

definition sweep_run :: "devent list \<times> dispatcher \<times> (GovernedError + DispatchReconciliationReport) dprog" where
  "sweep_run = drun sweep_answers left_behind (reconcile_all sample_config)"

lemma sweep_run_end: "\<exists>evs s. sweep_run = (evs, s, DRet (Ok \<lparr>drr_confirmed_absent = 1, drr_pending = 0\<rparr>))"
  by (simp add: sweep_run_def sweep_answers_def left_behind_def left_record_def reconcile_all_def reconcile_record_def
      dispatch_cleanup_def dtable_load_all_def dispatch_defs sandbox_eval is_ok_def saturating_add_u64_def)

theorem reconciliation_report_witness:
  "\<exists>evs s report. sweep_run = (evs, s, DRet (Ok report)) \<and> drr_pending report = 0 \<and> awaits_cleanup left_record
     \<and> confirmed_in evs left_record \<and> reconciled left_behind s"
proof -
  let ?report = "\<lparr>drr_confirmed_absent = 1, drr_pending = 0\<rparr> :: DispatchReconciliationReport"
  obtain evs s where run: "sweep_run = (evs, s, DRet (Ok ?report))"
    using sweep_run_end by blast
  have waits: "awaits_cleanup left_record"
    by (simp add: awaits_cleanup_def left_record_def dispatch_defs)
  have inv: "dtable_invar (ds_store left_behind)"
    by (simp add: left_behind_def dtable_invar_def hm_invar_def left_record_def dispatch_defs DispatchRecord_validate_def is_ok_def)
  have stored: "hm_get (ds_store left_behind) sample_did = Some left_record" "length (ds_store left_behind) < 2 ^ 64"
    by (simp_all add: left_behind_def hm_get_def)
  from reconciliation_report [OF inv stored(2) runs_reaches [OF run [unfolded sweep_run_def]]] waits stored(1) run
  show ?thesis
    by (intro exI [of _ evs] exI [of _ s] exI [of _ ?report]) auto
qed

section \<open>The digest of a command\<close>

text \<open>
  C17. An identifier stands for one command: when a record holds the digest of a command, a request
  with the same identifier and any other command is refused without an effect, unless the two
  commands are a collision of the hash function.
\<close>

theorem other_command_refused:
  assumes "hm_get (ds_store s) (cmd_dispatch_id command) = Some r"
    and "valid_EffectiveCommand limits c" and "EffectiveCommand_digest sha256 c = Some (dp_command_digest r)"
    and "EffectiveCommand_validate (cmd_argv command) (cmd_timeout_seconds command) (dc_command_limits config) = Ok c'"
    and "c \<noteq> c'" and "\<And>body. length (sha256 body) = 32"
    and "\<And>l. l \<in> {limits, dc_command_limits config} \<Longrightarrow> csl_max_argv_elements l < 2 ^ 64 \<and> csl_max_argv_bytes l < 2 ^ 64"
  shows "drun [DA_lock True, DA_load True] s (execute_owned sha256 config command) =
      ([], s, DRet (GovernedCommandResult_validation (cmd_dispatch_id command) GE_DigestMismatch))
    \<or> canonical_encoding c \<noteq> canonical_encoding c' \<and> sha256 (canonical_encoding c) = sha256 (canonical_encoding c')"
proof -
  have valid: "valid_EffectiveCommand (dc_command_limits config) c'"
    using assms(4,7) by (simp add: EffectiveCommand_validate_Ok_iff)
  have diff: "canonical_encoding c \<noteq> canonical_encoding c'"
    using canonical_encoding_inject [OF valid_encodable [OF assms(2)] valid_encodable [OF valid]] assms(5,7) by auto
  obtain digest where digest: "EffectiveCommand_digest sha256 c' = Some digest"
    "digest = Sha256Digest (hex_string (sha256 (canonical_encoding c')))"
    using assms(6) by (simp add: EffectiveCommand_digest_Some)
  have "dp_command_digest r = digest \<longleftrightarrow> sha256 (canonical_encoding c) = sha256 (canonical_encoding c')"
    using assms(3) by (simp add: digest EffectiveCommand_digest_Some hex_string_inject)
  then show ?thesis
    using diff digest(1) assms(1,4)
    by (auto simp: execute_owned_def execute_locked_def Command_into_parts_def dtable_load_def replay_existing_def)
qed

theorem other_command_refused_witness:
  "drun [DA_lock True, DA_load True] left_behind
     (execute_owned sample_sha sample_config (Command_resume sample_did [''rm'', ''x''] (Some 30))) =
     ([], left_behind, DRet (GovernedCommandResult_validation sample_did GE_DigestMismatch))"
proof -
  let ?c = "\<lparr>ecm_argv = [''ls''], ecm_timeout_seconds = 30\<rparr>" and ?c' = "\<lparr>ecm_argv = [''rm'', ''x''], ecm_timeout_seconds = 30\<rparr>"
    and ?command = "Command_resume sample_did [''rm'', ''x''] (Some 30)"
  have id: "cmd_dispatch_id ?command = sample_did" "cmd_argv ?command = [''rm'', ''x'']" "cmd_timeout_seconds ?command = Some 30"
    by (simp_all add: Command_resume_def)
  have limits: "dc_command_limits sample_config = CommandSizeLimits_default"
    by (simp add: sample_config_def)
  have v: "EffectiveCommand_validate [''ls''] (Some 30) CommandSizeLimits_default = Ok ?c"
      "EffectiveCommand_validate [''rm'', ''x''] (Some 30) CommandSizeLimits_default = Ok ?c'"
    by (simp_all add: dispatch_eval)
  have valid: "valid_EffectiveCommand CommandSizeLimits_default ?c"
    using v(1) EffectiveCommand_validate_Ok_iff [of CommandSizeLimits_default] by (simp add: CommandSizeLimits_default_def)
  have stored: "hm_get (ds_store left_behind) sample_did = Some left_record" "dp_command_digest left_record = sample_digest"
    by (simp_all add: left_behind_def hm_get_def left_record_def dispatch_defs)
  have len: "length (canonical_encoding ?c) = 39" "length (canonical_encoding ?c') = 48"
    by (simp_all add: canonical_encoding_def encode_argument_def to_be_bytes_def as_bytes_def)
  then have "sample_sha (canonical_encoding ?c) \<noteq> sample_sha (canonical_encoding ?c')"
    by (simp add: sample_sha_def)
  then show ?thesis
    using other_command_refused [of left_behind ?command left_record CommandSizeLimits_default ?c sample_sha sample_config ?c']
      valid v stored sample_digest by (simp add: id limits CommandSizeLimits_default_def sample_sha_def)
qed

section \<open>The directory of records\<close>

text \<open>
  The directory of dispatch records implements the table of records that the dispatcher works
  on: whatever system calls fail, a write has one of the outcomes of the table, with the same result
  and related states, and a load gives what the table holds or fails.
\<close>

theorem dispatch_directory_refines_table:
  assumes "ddir_refines U J d t" and "dstorable U J r" and "\<not> starts_with ''.'' (did_str i)" and "did_str i \<noteq> []"
  shows "(\<exists>outcome. fst (dtable_write outcome r t) = fst (dispatch_write J F r d)
        \<and> ddir_refines U J (snd (dispatch_write J F r d)) (snd (dtable_write outcome r t)))
    \<and> (\<exists>ok. dispatch_load J readable i d = dtable_load ok i t)
    \<and> (\<forall>listed rs. dispatch_load_all U J listed readable d = Ok rs \<longrightarrow> dtable_load_all True t = Ok rs)"
  using dispatch_write_refines [OF assms(1,2)] dispatch_load_refines [OF assms(1,3,4)]
    dispatch_load_all_refines [OF assms(1)] by blast

definition text_uuids :: "string uuid_lib" where
  "text_uuids = \<lparr>uuid_parse_str = Some, uuid_get_version_num = (\<lambda>_. 4), uuid_is_rfc4122 = (\<lambda>_. True), uuid_to_string = id\<rparr>"

definition stored_record :: DispatchRecord where
  "stored_record = DispatchRecord_new (DispatchId ''6f2d0000-0000-4000-8000-000000000000'') sample_digest"

theorem dispatch_directory_refines_table_witness:
  "\<exists>outcome. fst (dtable_write outcome stored_record []) =
       fst (dispatch_write (one_value_codec stored_record [1, 2, 3]) sync_fails stored_record [])
     \<and> ddir_refines text_uuids (one_value_codec stored_record [1, 2, 3])
         (snd (dispatch_write (one_value_codec stored_record [1, 2, 3]) sync_fails stored_record []))
         (snd (dtable_write outcome stored_record []))"
proof -
  let ?J = "one_value_codec stored_record [1, 2, 3]"
  have empty: "ddir_refines text_uuids ?J [] []"
    by (simp add: ddir_refines_def ddir_invar_def ddir_lookup_def hm_get_def fun_eq_iff)
  have storable: "dstorable text_uuids ?J stored_record"
    by (simp add: dstorable_def valid_uuid_text_def uuid_value_parse_def text_uuids_def one_value_codec_def
        stored_record_def DispatchRecord_new_def is_uuid_char_def is_lower_hex_def is_ascii_digit_def is_ok_def)
  show ?thesis
    using dispatch_directory_refines_table [OF empty storable, of "DispatchId ''6f''" sync_fails "\<lambda>_. True"]
    by (simp add: starts_with_def)
qed

section \<open>Normalised timeouts\<close>

text \<open>
  A completed sandbox run is returned as the runtime reported it, except that an exit code 124
  without an observed timeout is turned into a possible timeout; in that case the sandbox evidence is
  replaced by an empty one.
\<close>

theorem normalized_timeout_loses_evidence:
  "gr_execution_outcome (sandbox_result i governance (Ok c) state) =
     EO_Completed (if exit_get (ec_exit_code c) = 124 \<and> ec_timeout c = OT_NotObserved
       then c\<lparr>ec_timeout := OT_Possible, ec_sandbox_evidence := SandboxEvidence_default\<rparr> else c)"
  by (cases c) (auto simp: sandbox_result_def normalize_exit_124_def ExecCompleted_new_def SandboxEvidence_default_def
      GovernedCommandResult_new_def set_error_if_none_def Let_def)

end
