(* ===== verification/OpenShell_Policy.thy ===== *)
theory OpenShell_Policy
  imports Dispatch_Types Rust_Text "HOL-Library.Finite_Map" "HOL-Library.List_Lexorder"
begin

text \<open>
  The policy checks of the OpenShell provider (\<^verbatim>\<open>src/src/openshell/policy.rs\<close>). The protobuf messages
  come from the \<open>openshell_core\<close> crate: a record has the fields the code reads, and a component of
  type \<open>'x\<close> for the rest of the message. Reading YAML, normalising a path, the encoding of messages
  and SHA-256 are parameters.
\<close>

section \<open>Messages\<close>

record FilesystemPolicy =
  fsp_include_workdir :: bool
  fsp_read_only :: "string list"
  fsp_read_write :: "string list"

record 'x LandlockPolicy =
  llp_compatibility :: string
  llp_rest :: 'x

record 'x ProcessPolicy =
  prp_run_as_user :: string
  prp_run_as_group :: string
  prp_rest :: 'x

record 'x NetworkEndpoint =
  nep_host :: string
  nep_port :: u32
  nep_ports :: "u32 list"
  nep_rest :: 'x

record 'x NetworkBinary =
  nbn_path :: string
  nbn_harness :: bool
  nbn_rest :: 'x

record 'x NetworkPolicyRule =
  npr_endpoints :: "'x NetworkEndpoint list"
  npr_binaries :: "'x NetworkBinary list"
  npr_rest :: 'x

record 'x SandboxPolicy =
  sp_version :: u32
  sp_filesystem :: "FilesystemPolicy option"
  sp_landlock :: "'x LandlockPolicy option"
  sp_process :: "'x ProcessPolicy option"
  sp_network_policies :: "(string, 'x NetworkPolicyRule) fmap"
  sp_network_middlewares :: "(string, 'x) fmap"

text \<open>What the code uses of \<open>openshell_policy\<close>, \<open>prost\<close> and \<open>sha2\<close>.\<close>

record 'x policy_lib =
  pl_parse_sandbox_policy :: "string \<Rightarrow> 'x SandboxPolicy option"
  pl_normalize_path :: "string \<Rightarrow> string"
  pl_sha256 :: "bytes \<Rightarrow> bytes"
  pl_encode_filesystem :: "FilesystemPolicy \<Rightarrow> bytes"
  pl_encode_landlock :: "'x LandlockPolicy \<Rightarrow> bytes"
  pl_encode_process :: "'x ProcessPolicy \<Rightarrow> bytes"
  pl_encode_rule :: "'x NetworkPolicyRule \<Rightarrow> bytes"
  pl_encode_middleware :: "'x \<Rightarrow> bytes"

section \<open>Checks\<close>

definition SANDBOX_WRITABLE_PATH :: string where "SANDBOX_WRITABLE_PATH = ''/sandbox''"
definition PROXY_TEMP_PATH :: string where "PROXY_TEMP_PATH = ''/tmp''"

definition PROXY_BASELINE_READ_ONLY :: "string list" where
  "PROXY_BASELINE_READ_ONLY = [''/usr'', ''/lib'', ''/etc'', ''/var/log'', ''/proc'', ''/dev/urandom'']"

definition PROXY_BASELINE_READ_WRITE :: "string list" where
  "PROXY_BASELINE_READ_WRITE = [''/sandbox'', ''/tmp'']"

text \<open>\<open>str::rsplit_once\<close> at a string: the parts before and after its last occurrence.\<close>

definition rsplit_once_str :: "string \<Rightarrow> string \<Rightarrow> (string \<times> string) option" where
  "rsplit_once_str pat s =
     map_option (\<lambda>(a, b). (rev b, rev a)) (split_at_first (rev pat) (rev s))"

definition validate_image :: "TemplateIdentity \<Rightarrow> unit + string" where
  "validate_image template =
     (let img = template_str template in
      case rsplit_once_str ''@sha256:'' img of
        None \<Rightarrow> Err ()
      | Some (repository, digest) \<Rightarrow>
          if repository = [] \<or> has_whitespace img \<or> length digest \<noteq> 64 \<or> \<not> list_all is_lower_hex digest
          then Err () else Ok img)"

text \<open>\<open>HashSet::insert\<close> in \<open>all\<close>: the first path that was seen before stops the iteration.\<close>

fun all_fresh :: "string set \<Rightarrow> string list \<Rightarrow> bool" where
  "all_fresh seen [] = True"
| "all_fresh seen (path # paths) = (path \<notin> seen \<and> all_fresh (insert path seen) paths)"

definition filesystem_paths_are_unambiguous :: "'x policy_lib \<Rightarrow> FilesystemPolicy \<Rightarrow> bool" where
  "filesystem_paths_are_unambiguous P filesystem =
     all_fresh {} (map (pl_normalize_path P) (fsp_read_only filesystem @ fsp_read_write filesystem))"

definition proxy_temp_path_is_pinned_read_only :: "'x SandboxPolicy \<Rightarrow> FilesystemPolicy \<Rightarrow> bool" where
  "proxy_temp_path_is_pinned_read_only policy filesystem \<longleftrightarrow>
     sp_network_policies policy = fmempty \<or> list_ex (\<lambda>path. path = PROXY_TEMP_PATH) (fsp_read_only filesystem)"

definition meets_security_floor :: "'x policy_lib \<Rightarrow> 'x SandboxPolicy \<Rightarrow> bool \<Rightarrow> bool" where
  "meets_security_floor P policy allow_degraded_landlock =
     (case sp_filesystem policy of
        None \<Rightarrow> False
      | Some filesystem \<Rightarrow>
          (case sp_landlock policy of
             None \<Rightarrow> False
           | Some landlock \<Rightarrow>
               (case sp_process policy of
                  None \<Rightarrow> False
                | Some process \<Rightarrow>
                    \<not> fsp_include_workdir filesystem
                    \<and> fsp_read_write filesystem = [SANDBOX_WRITABLE_PATH]
                    \<and> filesystem_paths_are_unambiguous P filesystem
                    \<and> proxy_temp_path_is_pinned_read_only policy filesystem
                    \<and> (llp_compatibility landlock = ''hard_requirement''
                       \<or> allow_degraded_landlock \<and> llp_compatibility landlock = ''best_effort'')
                    \<and> prp_run_as_user process = ''sandbox''
                    \<and> prp_run_as_group process = ''sandbox''
                    \<and> sp_network_middlewares policy = fmempty)))"

definition add_read_only :: "string \<Rightarrow> FilesystemPolicy \<Rightarrow> FilesystemPolicy" where
  "add_read_only path fs =
     (if path \<notin> set (fsp_read_only fs) \<and> path \<notin> set (fsp_read_write fs)
      then fs\<lparr>fsp_read_only := fsp_read_only fs @ [path]\<rparr> else fs)"

definition add_read_write :: "string \<Rightarrow> FilesystemPolicy \<Rightarrow> FilesystemPolicy" where
  "add_read_write path fs =
     (if path \<notin> set (fsp_read_only fs) \<and> path \<notin> set (fsp_read_write fs)
      then fs\<lparr>fsp_read_write := fsp_read_write fs @ [path]\<rparr> else fs)"

definition apply_proxy_baseline_enrichment :: "'x SandboxPolicy \<Rightarrow> 'x SandboxPolicy" where
  "apply_proxy_baseline_enrichment policy =
     (if sp_network_policies policy = fmempty then policy
      else case sp_filesystem policy of
             None \<Rightarrow> policy
           | Some filesystem \<Rightarrow>
               policy\<lparr>sp_filesystem := Some
                 (fold add_read_write PROXY_BASELINE_READ_WRITE
                   (fold add_read_only PROXY_BASELINE_READ_ONLY filesystem))\<rparr>)"

text \<open>The bytes of a text as a string, when they are well-formed UTF-8 (\<open>str::from_utf8\<close>).\<close>

definition from_utf8 :: "bytes \<Rightarrow> string option" where
  "from_utf8 bs = (if utf8_ok (map unat bs) then Some (map (char_of \<circ> unat) bs) else None)"

definition parse_and_validate_policy ::
  "'x policy_lib \<Rightarrow> PolicyDocument \<Rightarrow> PolicyIdentity \<Rightarrow> bool \<Rightarrow> unit + 'x SandboxPolicy" where
  "parse_and_validate_policy P document identity allow_degraded_landlock =
     (if doc_media_type document \<noteq> ''application/yaml'' then Err ()
      else if hex_string (pl_sha256 P (doc_bytes document)) \<noteq> sha_str (policy_sha256 identity) then Err ()
      else case from_utf8 (doc_bytes document) of
             None \<Rightarrow> Err ()
           | Some yaml \<Rightarrow>
               (case pl_parse_sandbox_policy P yaml of
                  None \<Rightarrow> Err ()
                | Some policy \<Rightarrow>
                    if (ucast (sp_version policy) :: u64) \<noteq> policy_version identity then Err ()
                    else if \<not> meets_security_floor P policy allow_degraded_landlock then Err ()
                    else Ok (apply_proxy_baseline_enrichment policy)))"

text \<open>The entries of a map in the order of their names.\<close>

definition sorted_entries :: "(string, 'v) fmap \<Rightarrow> (string \<times> 'v) list" where
  "sorted_entries m = map (\<lambda>k. (k, the (fmlookup m k))) (sorted_list_of_fset (fmdom m))"

definition to_le_bytes :: "nat \<Rightarrow> 'a :: len word \<Rightarrow> bytes" where
  "to_le_bytes n w = rev (to_be_bytes n w)"

definition deterministic_policy_hash :: "'x policy_lib \<Rightarrow> 'x SandboxPolicy \<Rightarrow> string" where
  "deterministic_policy_hash P policy =
     hex_string (pl_sha256 P
       (to_le_bytes 4 (sp_version policy)
        @ (case sp_filesystem policy of None \<Rightarrow> [] | Some fs \<Rightarrow> pl_encode_filesystem P fs)
        @ (case sp_landlock policy of None \<Rightarrow> [] | Some l \<Rightarrow> pl_encode_landlock P l)
        @ (case sp_process policy of None \<Rightarrow> [] | Some p \<Rightarrow> pl_encode_process P p)
        @ concat (map (\<lambda>(name, rule). as_bytes name @ pl_encode_rule P rule) (sorted_entries (sp_network_policies policy)))
        @ (if sp_network_middlewares policy = fmempty then []
           else as_bytes ''network_middlewares''
             @ concat (map (\<lambda>(name, middleware).
                 as_bytes name
                 @ to_le_bytes 8 (u64_of_len (length (pl_encode_middleware P middleware)))
                 @ pl_encode_middleware P middleware) (sorted_entries (sp_network_middlewares policy))))))"

section \<open>Image references\<close>

lemma split_at_first_minimal:
  "split_at_first pat s = Some (a, b) \<Longrightarrow> s = a' @ pat @ b' \<Longrightarrow> length a \<le> length a'"
proof (induction pat s arbitrary: a b a' rule: split_at_first.induct)
  case (2 pat x xs)
  show ?case
  proof (cases "strip_prefix pat (x # xs)")
    case None
    then obtain a1 where a1: "a = x # a1" "split_at_first pat xs = Some (a1, b)"
      using 2(2) by auto
    have "a' \<noteq> []"
      using None 2(3) by auto
    then obtain y a2 where "a' = y # a2"
      by (cases a') auto
    with 2(1) [OF None a1(2), of a2] 2(3) a1(1) show ?thesis
      by simp
  qed (use 2(2) in auto)
qed (auto split: if_splits)

lemma rsplit_once_str_Some:
  assumes "rsplit_once_str pat s = Some (a, b)"
  shows "s = a @ pat @ b" and "s = a' @ pat @ b' \<Longrightarrow> length b \<le> length b'"
proof -
  obtain x y where xy: "split_at_first (rev pat) (rev s) = Some (x, y)" "a = rev y" "b = rev x"
    using assms by (auto simp: rsplit_once_str_def)
  have "rev s = x @ rev pat @ y"
    by (rule split_at_first_Some [OF xy(1)])
  then show "s = a @ pat @ b"
    using xy(2,3) by (metis append.assoc rev_append rev_rev_ident)
  show "length b \<le> length b'" if "s = a' @ pat @ b'"
    using split_at_first_minimal [OF xy(1), of "rev b'" "rev a'"] that xy(3) by simp
qed

lemma rsplit_once_str_occurs: "rsplit_once_str pat (a @ pat @ b) \<noteq> None"
  using split_at_first_occurs [of "rev pat" "rev b" "rev a"] by (simp add: rsplit_once_str_def)

text \<open>A last part without the first character of the pattern is found.\<close>

lemma rsplit_once_str_unique:
  assumes "c \<notin> set pat" and "c \<notin> set b"
  shows "rsplit_once_str (c # pat) (a @ (c # pat) @ b) = Some (a, b)"
proof -
  obtain a' b' where split: "rsplit_once_str (c # pat) (a @ (c # pat) @ b) = Some (a', b')"
    using rsplit_once_str_occurs [of "c # pat" a b] by auto
  have eq: "a @ (c # pat @ b) = a' @ (c # pat @ b')"
    using rsplit_once_str_Some(1) [OF split] by simp
  have len: "length b' \<le> length b"
    by (rule rsplit_once_str_Some(2) [OF split refl])
  from eq consider us where "a = a' @ us" "us @ c # pat @ b = c # pat @ b'"
    | us where "a @ us = a'" "c # pat @ b = us @ c # pat @ b'"
    by (auto simp: append_eq_append_conv2)
  then have "a = a' \<and> b = b'"
  proof cases
    case (1 us)
    have "length us + length b = length b'"
      using arg_cong [OF 1(2), of length] by simp
    with len have "length us = 0"
      by linarith
    with 1 show ?thesis
      by simp
  next
    case (2 us)
    then have "us = []"
      using assms by (cases us) (auto simp: append_eq_append_conv2 append_eq_Cons_conv Cons_eq_append_conv
          dest: arg_cong [where f = set])
    with 2 show ?thesis
      by simp
  qed
  with split show ?thesis
    by simp
qed

text \<open>
  A template is accepted as an image exactly when it pins the image by content: a nonempty
  repository, \<open>@sha256:\<close> and sixty-four lower-case hexadecimal digits, with no white space anywhere;
  the accepted image is the template's text.
\<close>

theorem image_pinned_iff:
  "validate_image template = Ok img \<longleftrightarrow>
     img = template_str template \<and> \<not> has_whitespace img
     \<and> (\<exists>repository digest. img = repository @ ''@sha256:'' @ digest \<and> repository \<noteq> []
          \<and> length digest = 64 \<and> list_all is_lower_hex digest)"
  (is "?lhs \<longleftrightarrow> ?rhs")
proof
  assume ?lhs
  then obtain repository digest where "rsplit_once_str ''@sha256:'' img = Some (repository, digest)"
      "img = template_str template" "\<not> has_whitespace img" "repository \<noteq> []" "length digest = 64" "list_all is_lower_hex digest"
    by (auto simp: validate_image_def Let_def split: option.splits if_splits)
  then show ?rhs
    using rsplit_once_str_Some(1) by blast
next
  assume ?rhs
  then obtain repository digest where img: "img = template_str template" "\<not> has_whitespace img"
      "img = repository @ ''@sha256:'' @ digest" "repository \<noteq> []" "length digest = 64" "list_all is_lower_hex digest"
    by blast
  have "CHR ''@'' \<notin> set digest"
    using img(6) by (auto simp: list_all_iff is_lower_hex_def is_ascii_digit_def)
  then have "rsplit_once_str ''@sha256:'' img = Some (repository, digest)"
    using rsplit_once_str_unique [of "CHR ''@''" "''sha256:''" digest repository] img(3) by simp
  with img show ?lhs
    by (simp add: validate_image_def Let_def)
qed

section \<open>Accepted policies\<close>

lemma unat_ucast_u32: "unat (ucast (v :: u32) :: u64) = unat v"
proof -
  have "unat v < 2 ^ 64"
    using unsigned_less [of v, where ?'a = nat] by simp
  then show ?thesis
    by (simp add: unsigned_ucast_eq take_bit_nat_eq_self)
qed

lemma all_fresh_iff: "all_fresh seen paths \<longleftrightarrow> distinct paths \<and> set paths \<inter> seen = {}"
  by (induction paths arbitrary: seen) auto

lemma unambiguous_iff:
  "filesystem_paths_are_unambiguous P fs \<longleftrightarrow>
     distinct (map (pl_normalize_path P) (fsp_read_only fs @ fsp_read_write fs))"
  by (simp add: filesystem_paths_are_unambiguous_def all_fresh_iff del: map_append)

lemma add_read_write_present: "path \<in> set (fsp_read_write fs) \<or> path \<in> set (fsp_read_only fs) \<Longrightarrow> add_read_write path fs = fs"
  by (auto simp: add_read_write_def)

lemma fold_add_read_only:
  "distinct paths \<Longrightarrow> fold add_read_only paths fs =
     fs\<lparr>fsp_read_only := fsp_read_only fs @
          filter (\<lambda>p. p \<notin> set (fsp_read_only fs) \<and> p \<notin> set (fsp_read_write fs)) paths\<rparr>"
proof (induction paths arbitrary: fs)
  case (Cons p paths)
  have "filter (\<lambda>q. q \<notin> set (fsp_read_only (add_read_only p fs)) \<and> q \<notin> set (fsp_read_write (add_read_only p fs))) paths
      = filter (\<lambda>q. q \<notin> set (fsp_read_only fs) \<and> q \<notin> set (fsp_read_write fs)) paths"
    using Cons.prems by (intro filter_cong) (auto simp: add_read_only_def)
  with Cons show ?case
    by (simp add: add_read_only_def)
qed simp

text \<open>What the service asks of a policy document's content.\<close>

definition confined :: "'x policy_lib \<Rightarrow> 'x SandboxPolicy \<Rightarrow> bool \<Rightarrow> FilesystemPolicy \<Rightarrow> bool" where
  "confined P policy allow_degraded fs \<longleftrightarrow>
     \<not> fsp_include_workdir fs \<and> fsp_read_write fs = [''/sandbox'']
     \<and> distinct (map (pl_normalize_path P) (fsp_read_only fs @ fsp_read_write fs))
     \<and> (sp_network_policies policy = fmempty \<or> ''/tmp'' \<in> set (fsp_read_only fs))
     \<and> (\<exists>landlock. sp_landlock policy = Some landlock
          \<and> (llp_compatibility landlock = ''hard_requirement''
             \<or> allow_degraded \<and> llp_compatibility landlock = ''best_effort''))
     \<and> (\<exists>process. sp_process policy = Some process
          \<and> prp_run_as_user process = ''sandbox'' \<and> prp_run_as_group process = ''sandbox'')
     \<and> sp_network_middlewares policy = fmempty"

lemma meets_security_floor_iff:
  "meets_security_floor P policy d \<longleftrightarrow> (\<exists>fs. sp_filesystem policy = Some fs \<and> confined P policy d fs)"
  by (auto simp: meets_security_floor_def confined_def unambiguous_iff proxy_temp_path_is_pinned_read_only_def
      SANDBOX_WRITABLE_PATH_def PROXY_TEMP_PATH_def list_ex_iff simp del: map_append split: option.splits)

lemma enrichment_of_confined:
  assumes "sp_filesystem policy = Some fs" and "confined P policy d fs"
  shows "apply_proxy_baseline_enrichment policy =
    (if sp_network_policies policy = fmempty then policy
     else policy\<lparr>sp_filesystem := Some (fs\<lparr>fsp_read_only := fsp_read_only fs @
            filter (\<lambda>p. p \<notin> set (fsp_read_only fs)) PROXY_BASELINE_READ_ONLY\<rparr>)\<rparr>)"
proof (cases "sp_network_policies policy = fmempty")
  case False
  let ?fs = "fs\<lparr>fsp_read_only := fsp_read_only fs @ filter (\<lambda>p. p \<notin> set (fsp_read_only fs)) PROXY_BASELINE_READ_ONLY\<rparr>"
  have fs: "fsp_read_write fs = [''/sandbox'']" "''/tmp'' \<in> set (fsp_read_only fs)"
    using assms(2) False by (simp_all add: confined_def)
  have "distinct PROXY_BASELINE_READ_ONLY" "''/sandbox'' \<notin> set PROXY_BASELINE_READ_ONLY"
    by (simp_all add: PROXY_BASELINE_READ_ONLY_def)
  then have "fold add_read_only PROXY_BASELINE_READ_ONLY fs = ?fs"
    unfolding fold_add_read_only [OF \<open>distinct PROXY_BASELINE_READ_ONLY\<close>]
    by (intro arg_cong [where f = "\<lambda>x. fs\<lparr>fsp_read_only := fsp_read_only fs @ x\<rparr>"] filter_cong) (auto simp: fs)
  moreover have "fold add_read_write PROXY_BASELINE_READ_WRITE ?fs = ?fs"
    using fs by (simp add: PROXY_BASELINE_READ_WRITE_def add_read_write_present)
  ultimately show ?thesis
    using False assms(1) by (simp add: apply_proxy_baseline_enrichment_def)
qed (simp add: apply_proxy_baseline_enrichment_def)

text \<open>
  C19. A policy document is accepted exactly when it is YAML whose SHA-256 and version are the pinned
  ones and whose content is confined: only \<open>/sandbox\<close> writable, no two paths that normalise alike, a
  read-only \<open>/tmp\<close> when there is network access, the sandbox user and group, Landlock required unless
  the degraded tier is allowed, no middlewares. The policy that is then used differs from the document
  only when it has network policies, by the missing baseline paths, and all of them are read-only.
\<close>

theorem accepted_policy_confined:
  "parse_and_validate_policy P document identity d = Ok policy \<longleftrightarrow>
     doc_media_type document = ''application/yaml''
     \<and> hex_string (pl_sha256 P (doc_bytes document)) = sha_str (policy_sha256 identity)
     \<and> (\<exists>yaml declared fs. from_utf8 (doc_bytes document) = Some yaml
          \<and> pl_parse_sandbox_policy P yaml = Some declared
          \<and> unat (sp_version declared) = unat (policy_version identity)
          \<and> sp_filesystem declared = Some fs \<and> confined P declared d fs
          \<and> policy = (if sp_network_policies declared = fmempty then declared
              else declared\<lparr>sp_filesystem := Some (fs\<lparr>fsp_read_only := fsp_read_only fs @
                     filter (\<lambda>p. p \<notin> set (fsp_read_only fs)) PROXY_BASELINE_READ_ONLY\<rparr>)\<rparr>))"
proof -
  have version: "(ucast v :: u64) = w \<longleftrightarrow> unat v = unat w" for v :: u32 and w :: u64
    by (simp add: word_unat_eq_iff unat_ucast_u32)
  show ?thesis
    by (auto simp: parse_and_validate_policy_def meets_security_floor_iff version enrichment_of_confined
        split: option.splits)
qed

end
