(* ===== verification/Output_Collector.thy ===== *)
theory Output_Collector
  imports Contract_Outcomes
begin

text \<open>
  The collector of a command's output in the OpenShell provider (\<^verbatim>\<open>src/src/openshell/exec.rs\<close>): it
  takes the chunks of the two streams as they arrive, checks the limits after every chunk and ends at
  the exit event. It is compared with a description of the whole event list at once.
\<close>

section \<open>Operations\<close>

datatype ExecTransportEvent =
    EV_Stdout bytes
  | EV_Stderr bytes
  | EV_Exit i32 ObservedTimeout

definition MAX_STDOUT_BYTES :: u64 where "MAX_STDOUT_BYTES = 1024 * 1024"
definition MAX_STDERR_BYTES :: u64 where "MAX_STDERR_BYTES = 1024 * 1024"
definition MAX_COMBINED_BYTES :: u64 where "MAX_COMBINED_BYTES = 2 * 1024 * 1024"
definition MAX_CHUNK_BYTES :: u64 where "MAX_CHUNK_BYTES = 4 * 1024 * 1024"

datatype CollectionFailure =
    CFail_MissingTerminalExit OutputByteCounts
  | CFail_Overflow OutputByteCounts OutputLimitKind
  | CFail_Protocol OutputByteCounts

record CollectedOutput =
  co_exit_code :: ObservedExitCode
  co_stdout :: bytes
  co_stderr :: bytes
  co_timeout :: ObservedTimeout

record OutputCollector =
  oc_limits :: OutputLimits
  oc_stdout :: bytes
  oc_stderr :: bytes
  oc_counts :: OutputByteCounts
  oc_terminal :: "(ObservedExitCode \<times> ObservedTimeout) option"

definition OutputCollector_new :: "OutputLimits \<Rightarrow> OutputCollector" where
  "OutputCollector_new limits =
     \<lparr>oc_limits = limits, oc_stdout = [], oc_stderr = [], oc_counts = OutputByteCounts_default, oc_terminal = None\<rparr>"

definition collector_overflow :: "OutputLimitKind \<Rightarrow> OutputCollector \<Rightarrow> CollectionFailure" where
  "collector_overflow kind c = CFail_Overflow (oc_counts c) kind"

definition check_limits :: "u64 \<Rightarrow> OutputLimitKind \<Rightarrow> OutputCollector \<Rightarrow> CollectionFailure + unit" where
  "check_limits chunk_bytes stream c =
     (if chunk_bytes > ol_chunk_bytes (oc_limits c) then Err (collector_overflow LimitChunk c)
      else
        let stream_overflow =
              (case stream of
                 LimitStdout \<Rightarrow> obc_stdout (oc_counts c) > ol_stdout_bytes (oc_limits c)
               | LimitStderr \<Rightarrow> obc_stderr (oc_counts c) > ol_stderr_bytes (oc_limits c)
               | _ \<Rightarrow> False)
        in if stream_overflow then Err (collector_overflow stream c)
           else if (case OutputByteCounts_combined (oc_counts c) of
                      None \<Rightarrow> True
                    | Some both \<Rightarrow> both > ol_combined_bytes (oc_limits c))
           then Err (collector_overflow LimitCombined c)
           else Ok ())"

text \<open>The counters are advanced before the check, also when it fails.\<close>

definition push_stdout :: "bytes \<Rightarrow> OutputCollector \<Rightarrow> (CollectionFailure + unit) \<times> OutputCollector" where
  "push_stdout chunk c =
     (let chunk_bytes = u64_of_len (length chunk);
          c1 = c\<lparr>oc_counts := OutputByteCounts_new (saturating_add_u64 (obc_stdout (oc_counts c)) chunk_bytes)
                                (obc_stderr (oc_counts c))\<rparr>
      in case check_limits chunk_bytes LimitStdout c1 of
           Inl f \<Rightarrow> (Err f, c1)
         | Inr _ \<Rightarrow> (Ok (), c1\<lparr>oc_stdout := oc_stdout c1 @ chunk\<rparr>))"

definition push_stderr :: "bytes \<Rightarrow> OutputCollector \<Rightarrow> (CollectionFailure + unit) \<times> OutputCollector" where
  "push_stderr chunk c =
     (let chunk_bytes = u64_of_len (length chunk);
          c1 = c\<lparr>oc_counts := OutputByteCounts_new (obc_stdout (oc_counts c))
                                (saturating_add_u64 (obc_stderr (oc_counts c)) chunk_bytes)\<rparr>
      in case check_limits chunk_bytes LimitStderr c1 of
           Inl f \<Rightarrow> (Err f, c1)
         | Inr _ \<Rightarrow> (Ok (), c1\<lparr>oc_stderr := oc_stderr c1 @ chunk\<rparr>))"

definition collector_push ::
  "ExecTransportEvent \<Rightarrow> OutputCollector \<Rightarrow> (CollectionFailure + unit) \<times> OutputCollector" where
  "collector_push payload c =
     (if oc_terminal c \<noteq> None then (Err (CFail_Protocol (oc_counts c)), c)
      else case payload of
             EV_Stdout data \<Rightarrow> push_stdout data c
           | EV_Stderr data \<Rightarrow> push_stderr data c
           | EV_Exit code timeout \<Rightarrow>
               (case ObservedExitCode_new code of
                  Inl _ \<Rightarrow> (Err (CFail_Protocol (oc_counts c)), c)
                | Inr exit_code \<Rightarrow> (Ok (), c\<lparr>oc_terminal := Some (exit_code, timeout)\<rparr>)))"

definition collector_finish :: "OutputCollector \<Rightarrow> CollectionFailure + CollectedOutput" where
  "collector_finish c =
     (case oc_terminal c of
        None \<Rightarrow> Err (CFail_MissingTerminalExit (oc_counts c))
      | Some (exit_code, timeout) \<Rightarrow>
          Ok \<lparr>co_exit_code = exit_code, co_stdout = oc_stdout c, co_stderr = oc_stderr c, co_timeout = timeout\<rparr>)"

definition limits_within_process_ceiling :: "OutputLimits \<Rightarrow> bool" where
  "limits_within_process_ceiling limits \<longleftrightarrow>
     ol_stdout_bytes limits \<le> MAX_STDOUT_BYTES \<and> ol_stderr_bytes limits \<le> MAX_STDERR_BYTES
     \<and> ol_combined_bytes limits \<le> MAX_COMBINED_BYTES \<and> ol_chunk_bytes limits \<le> MAX_CHUNK_BYTES"

text \<open>The loop of \<open>exec\<close> over the events of a stream that ends.\<close>

fun collect :: "OutputCollector \<Rightarrow> ExecTransportEvent list \<Rightarrow> CollectionFailure + CollectedOutput" where
  "collect c [] = collector_finish c"
| "collect c (event # events) =
     (case collector_push event c of
        (Inl failure, _) \<Rightarrow> Err failure
      | (Inr _, c1) \<Rightarrow> collect c1 events)"

section \<open>The whole stream at once\<close>

fun stdout_of :: "ExecTransportEvent list \<Rightarrow> bytes" where
  "stdout_of [] = []"
| "stdout_of (EV_Stdout data # events) = data @ stdout_of events"
| "stdout_of (_ # events) = stdout_of events"

fun stderr_of :: "ExecTransportEvent list \<Rightarrow> bytes" where
  "stderr_of [] = []"
| "stderr_of (EV_Stderr data # events) = data @ stderr_of events"
| "stderr_of (_ # events) = stderr_of events"

fun is_output :: "ExecTransportEvent \<Rightarrow> bool" where
  "is_output (EV_Exit _ _) = False"
| "is_output _ = True"

fun chunk_size :: "ExecTransportEvent \<Rightarrow> nat" where
  "chunk_size (EV_Stdout data) = length data"
| "chunk_size (EV_Stderr data) = length data"
| "chunk_size (EV_Exit _ _) = 0"

definition output_fits :: "OutputLimits \<Rightarrow> bytes \<Rightarrow> bytes \<Rightarrow> bool" where
  "output_fits L out err \<longleftrightarrow> length out \<le> unat (ol_stdout_bytes L) \<and> length err \<le> unat (ol_stderr_bytes L)
     \<and> length out + length err \<le> unat (ol_combined_bytes L)"

definition acceptable :: "OutputLimits \<Rightarrow> ExecTransportEvent list \<Rightarrow> bool" where
  "acceptable L outs \<longleftrightarrow> list_all is_output outs \<and> list_all (\<lambda>e. chunk_size e \<le> unat (ol_chunk_bytes L)) outs
     \<and> output_fits L (stdout_of outs) (stderr_of outs)"

section \<open>Invariant\<close>

text \<open>The counters are the lengths of what is retained, which the limits bound.\<close>

definition collector_invar :: "OutputLimits \<Rightarrow> OutputCollector \<Rightarrow> bool" where
  "collector_invar L c \<longleftrightarrow> oc_limits c = L
     \<and> unat (obc_stdout (oc_counts c)) = length (oc_stdout c) \<and> unat (obc_stderr (oc_counts c)) = length (oc_stderr c)
     \<and> output_fits L (oc_stdout c) (oc_stderr c)"

lemma ceilings:
  assumes "limits_within_process_ceiling L"
  shows "unat (ol_stdout_bytes L) < 2 ^ 64 - 1" "unat (ol_stderr_bytes L) < 2 ^ 64 - 1"
    "unat (ol_combined_bytes L) < 2 ^ 64 - 1" "unat (ol_chunk_bytes L) < 2 ^ 64 - 1"
  using assms
  by (simp_all add: limits_within_process_ceiling_def MAX_STDOUT_BYTES_def MAX_STDERR_BYTES_def
      MAX_COMBINED_BYTES_def MAX_CHUNK_BYTES_def word_le_nat_alt)

lemma collector_new_invar: "collector_invar L (OutputCollector_new L)"
  by (simp add: collector_invar_def OutputCollector_new_def OutputByteCounts_default_def OutputByteCounts_new_def
      output_fits_def)

lemma check_limits_Ok:
  "is_ok (check_limits n stream c) \<longleftrightarrow> unat n \<le> unat (ol_chunk_bytes (oc_limits c))
     \<and> (stream = LimitStdout \<longrightarrow> unat (obc_stdout (oc_counts c)) \<le> unat (ol_stdout_bytes (oc_limits c)))
     \<and> (stream = LimitStderr \<longrightarrow> unat (obc_stderr (oc_counts c)) \<le> unat (ol_stderr_bytes (oc_limits c)))
     \<and> unat (obc_stdout (oc_counts c)) + unat (obc_stderr (oc_counts c)) \<le> unat (ol_combined_bytes (oc_limits c))"
proof -
  have total: "(case OutputByteCounts_combined (oc_counts c) of None \<Rightarrow> True | Some t \<Rightarrow> t > ol_combined_bytes (oc_limits c))
      \<longleftrightarrow> \<not> unat (obc_stdout (oc_counts c)) + unat (obc_stderr (oc_counts c)) \<le> unat (ol_combined_bytes (oc_limits c))"
  proof (cases "OutputByteCounts_combined (oc_counts c)")
    case None
    then have "2 ^ 64 \<le> unat (obc_stdout (oc_counts c)) + unat (obc_stderr (oc_counts c))"
      by (simp add: OutputByteCounts_combined_def checked_add_u64_def split: if_splits)
    with None show ?thesis
      using unat_u64_less [of "ol_combined_bytes (oc_limits c)"] by auto
  next
    case (Some t)
    then have "unat t = unat (obc_stdout (oc_counts c)) + unat (obc_stderr (oc_counts c))"
      by (simp only: OutputByteCounts_combined_def checked_add_u64_Some)
    with Some show ?thesis
      by (auto simp: word_less_nat_alt)
  qed
  show ?thesis
    unfolding check_limits_def total
    by (cases stream) (auto simp: word_less_nat_alt Let_def not_less)
qed

lemma push_stdout_cases:
  assumes "collector_invar L c" and "limits_within_process_ceiling L"
  shows "if length data \<le> unat (ol_chunk_bytes L) \<and> output_fits L (oc_stdout c @ data) (oc_stderr c)
    then fst (push_stdout data c) = Ok () \<and> collector_invar L (snd (push_stdout data c))
      \<and> oc_stdout (snd (push_stdout data c)) = oc_stdout c @ data \<and> oc_stderr (snd (push_stdout data c)) = oc_stderr c
      \<and> oc_terminal (snd (push_stdout data c)) = oc_terminal c
    else \<not> is_ok (fst (push_stdout data c)) \<and> oc_stdout (snd (push_stdout data c)) = oc_stdout c
      \<and> oc_stderr (snd (push_stdout data c)) = oc_stderr c"
proof -
  let ?n = "u64_of_len (length data)"
  let ?c = "c\<lparr>oc_counts := OutputByteCounts_new (saturating_add_u64 (obc_stdout (oc_counts c)) ?n) (obc_stderr (oc_counts c))\<rparr>"
  have inv: "oc_limits c = L" "unat (obc_stdout (oc_counts c)) = length (oc_stdout c)"
      "unat (obc_stderr (oc_counts c)) = length (oc_stderr c)" "output_fits L (oc_stdout c) (oc_stderr c)"
    using assms(1) by (simp_all add: collector_invar_def)
  have ok: "is_ok (check_limits ?n LimitStdout ?c) \<longleftrightarrow>
      length data \<le> unat (ol_chunk_bytes L) \<and> output_fits L (oc_stdout c @ data) (oc_stderr c)"
    using inv ceilings [OF assms(2)]
    by (auto simp: check_limits_Ok OutputByteCounts_new_def unat_saturating_add_u64 unat_u64_of_len output_fits_def min_def)
  have "collector_invar L (?c\<lparr>oc_stdout := oc_stdout c @ data\<rparr>)" if "output_fits L (oc_stdout c @ data) (oc_stderr c)"
    using that inv ceilings [OF assms(2)]
    by (auto simp: collector_invar_def OutputByteCounts_new_def unat_saturating_add_u64 unat_u64_of_len output_fits_def min_def)
  with ok show ?thesis
    by (cases "check_limits ?n LimitStdout ?c") (auto simp: push_stdout_def Let_def)
qed

lemma push_stderr_cases:
  assumes "collector_invar L c" and "limits_within_process_ceiling L"
  shows "if length data \<le> unat (ol_chunk_bytes L) \<and> output_fits L (oc_stdout c) (oc_stderr c @ data)
    then fst (push_stderr data c) = Ok () \<and> collector_invar L (snd (push_stderr data c))
      \<and> oc_stdout (snd (push_stderr data c)) = oc_stdout c \<and> oc_stderr (snd (push_stderr data c)) = oc_stderr c @ data
      \<and> oc_terminal (snd (push_stderr data c)) = oc_terminal c
    else \<not> is_ok (fst (push_stderr data c)) \<and> oc_stdout (snd (push_stderr data c)) = oc_stdout c
      \<and> oc_stderr (snd (push_stderr data c)) = oc_stderr c"
proof -
  let ?n = "u64_of_len (length data)"
  let ?c = "c\<lparr>oc_counts := OutputByteCounts_new (obc_stdout (oc_counts c)) (saturating_add_u64 (obc_stderr (oc_counts c)) ?n)\<rparr>"
  have inv: "oc_limits c = L" "unat (obc_stdout (oc_counts c)) = length (oc_stdout c)"
      "unat (obc_stderr (oc_counts c)) = length (oc_stderr c)" "output_fits L (oc_stdout c) (oc_stderr c)"
    using assms(1) by (simp_all add: collector_invar_def)
  have ok: "is_ok (check_limits ?n LimitStderr ?c) \<longleftrightarrow>
      length data \<le> unat (ol_chunk_bytes L) \<and> output_fits L (oc_stdout c) (oc_stderr c @ data)"
    using inv ceilings [OF assms(2)]
    by (auto simp: check_limits_Ok OutputByteCounts_new_def unat_saturating_add_u64 unat_u64_of_len output_fits_def min_def)
  have "collector_invar L (?c\<lparr>oc_stderr := oc_stderr c @ data\<rparr>)" if "output_fits L (oc_stdout c) (oc_stderr c @ data)"
    using that inv ceilings [OF assms(2)]
    by (auto simp: collector_invar_def OutputByteCounts_new_def unat_saturating_add_u64 unat_u64_of_len output_fits_def min_def)
  with ok show ?thesis
    by (cases "check_limits ?n LimitStderr ?c") (auto simp: push_stderr_def Let_def)
qed

text \<open>An event that fits is retained, any other stops the collection.\<close>

definition takes :: "OutputLimits \<Rightarrow> ExecTransportEvent \<Rightarrow> OutputCollector \<Rightarrow> bool" where
  "takes L e c \<longleftrightarrow> is_output e \<and> chunk_size e \<le> unat (ol_chunk_bytes L)
     \<and> output_fits L (oc_stdout c @ stdout_of [e]) (oc_stderr c @ stderr_of [e])"

lemma push_output:
  assumes "collector_invar L c" and "limits_within_process_ceiling L" and "oc_terminal c = None" and "is_output e"
  shows "takes L e c \<Longrightarrow> \<exists>c1. collector_push e c = (Ok (), c1) \<and> collector_invar L c1 \<and> oc_terminal c1 = None
      \<and> oc_stdout c1 = oc_stdout c @ stdout_of [e] \<and> oc_stderr c1 = oc_stderr c @ stderr_of [e]"
    and "\<not> takes L e c \<Longrightarrow> \<exists>f c1. collector_push e c = (Err f, c1)
      \<and> oc_stdout c1 = oc_stdout c \<and> oc_stderr c1 = oc_stderr c"
proof -
  have *: "if takes L e c then fst (collector_push e c) = Ok () \<and> collector_invar L (snd (collector_push e c))
        \<and> oc_terminal (snd (collector_push e c)) = None
        \<and> oc_stdout (snd (collector_push e c)) = oc_stdout c @ stdout_of [e]
        \<and> oc_stderr (snd (collector_push e c)) = oc_stderr c @ stderr_of [e]
      else \<not> is_ok (fst (collector_push e c)) \<and> oc_stdout (snd (collector_push e c)) = oc_stdout c
        \<and> oc_stderr (snd (collector_push e c)) = oc_stderr c"
    using push_stdout_cases [OF assms(1,2)] push_stderr_cases [OF assms(1,2)] assms(3,4)
    by (cases e) (auto simp: collector_push_def takes_def split: if_splits)
  show "takes L e c \<Longrightarrow> \<exists>c1. collector_push e c = (Ok (), c1) \<and> collector_invar L c1 \<and> oc_terminal c1 = None
      \<and> oc_stdout c1 = oc_stdout c @ stdout_of [e] \<and> oc_stderr c1 = oc_stderr c @ stderr_of [e]"
    using * by (cases "collector_push e c") auto
  show "\<not> takes L e c \<Longrightarrow> \<exists>f c1. collector_push e c = (Err f, c1) \<and> oc_stdout c1 = oc_stdout c \<and> oc_stderr c1 = oc_stderr c"
    using * by (cases "collector_push e c"; cases "fst (collector_push e c)") auto
qed

section \<open>Equivalence\<close>

lemma output_of_append [simp]:
  "stdout_of (a @ b) = stdout_of a @ stdout_of b" "stderr_of (a @ b) = stderr_of a @ stderr_of b"
  by (induction a rule: stdout_of.induct) simp_all

lemma output_of_Cons:
  "stdout_of (e # es) = stdout_of [e] @ stdout_of es" "stderr_of (e # es) = stderr_of [e] @ stderr_of es"
  by (cases e; simp)+

definition collected :: "OutputCollector \<Rightarrow> ExecTransportEvent list \<Rightarrow> i32 \<Rightarrow> ObservedTimeout \<Rightarrow> CollectedOutput" where
  "collected c outs code timeout =
     \<lparr>co_exit_code = ObservedExitCode code, co_stdout = oc_stdout c @ stdout_of outs,
      co_stderr = oc_stderr c @ stderr_of outs, co_timeout = timeout\<rparr>"

definition continues :: "OutputLimits \<Rightarrow> OutputCollector \<Rightarrow> ExecTransportEvent list \<Rightarrow> bool" where
  "continues L c outs \<longleftrightarrow> list_all is_output outs \<and> list_all (\<lambda>e. chunk_size e \<le> unat (ol_chunk_bytes L)) outs
     \<and> output_fits L (oc_stdout c @ stdout_of outs) (oc_stderr c @ stderr_of outs)"

lemma output_fits_mono: "output_fits L (a @ b) (c @ d) \<Longrightarrow> output_fits L a c"
  by (simp add: output_fits_def)

lemma continues_Cons:
  assumes "is_output e" and "oc_stdout c1 = oc_stdout c @ stdout_of [e]" and "oc_stderr c1 = oc_stderr c @ stderr_of [e]"
  shows "continues L c (e # outs) \<longleftrightarrow> takes L e c \<and> continues L c1 outs"
  using assms output_fits_mono [of L "oc_stdout c1" "stdout_of outs" "oc_stderr c1" "stderr_of outs"]
  by (auto simp: continues_def takes_def output_of_Cons [of e outs])

lemma collect_terminated: "oc_terminal c \<noteq> None \<Longrightarrow> is_ok (collect c es) \<longleftrightarrow> es = []"
  by (cases es) (auto simp: collector_push_def collector_finish_def)

lemma collect_iff:
  assumes "collector_invar L c" and "limits_within_process_ceiling L" and "oc_terminal c = None"
  shows "collect c es = Ok out \<longleftrightarrow>
    (\<exists>outs code timeout. es = outs @ [EV_Exit code timeout] \<and> continues L c outs \<and> 0 \<le> sint code
       \<and> out = collected c outs code timeout)"
  using assms
proof (induction es arbitrary: c)
  case Nil
  then show ?case
    by (simp add: collector_finish_def)
next
  case (Cons e es)
  show ?case
  proof (cases "is_output e")
    case True
    have exit: "(\<exists>outs code timeout. e # es = outs @ [EV_Exit code timeout] \<and> P outs code timeout) \<longleftrightarrow>
        (\<exists>outs code timeout. es = outs @ [EV_Exit code timeout] \<and> P (e # outs) code timeout)" for P
      using True by (auto simp: Cons_eq_append_conv)
    show ?thesis
    proof (cases "takes L e c")
      case takes: True
      obtain c1 where c1: "collector_push e c = (Ok (), c1)" "collector_invar L c1" "oc_terminal c1 = None"
          "oc_stdout c1 = oc_stdout c @ stdout_of [e]" "oc_stderr c1 = oc_stderr c @ stderr_of [e]"
        using push_output(1) [OF Cons.prems True takes] by blast
      have "collected c1 outs = collected c (e # outs)" for outs
        using c1(4,5) by (simp add: fun_eq_iff collected_def output_of_Cons [of e outs])
      with c1 takes show ?thesis
        by (simp add: exit Cons.IH [OF c1(2) Cons.prems(2) c1(3)] continues_Cons [OF True c1(4,5)])
    next
      case False
      then obtain f c1 where f: "collector_push e c = (Err f, c1)"
        using push_output(2) [OF Cons.prems True] by blast
      have "\<not> continues L c (e # outs)" for outs
        using False True output_fits_mono [of L "oc_stdout c @ stdout_of [e]" "stdout_of outs" "oc_stderr c @ stderr_of [e]" "stderr_of outs"]
        by (auto simp: continues_def takes_def output_of_Cons [of e outs])
      with f show ?thesis
        by (simp add: exit)
    qed
  next
    case False
    then obtain code timeout where e: "e = EV_Exit code timeout"
      by (cases e) auto
    have fits: "continues L c []"
      using Cons.prems(1) by (simp add: continues_def collector_invar_def)
    have only: "(\<exists>outs code' timeout'. e # es = outs @ [EV_Exit code' timeout'] \<and> continues L c outs \<and> P outs code' timeout')
        \<longleftrightarrow> es = [] \<and> P [] code timeout" for P
      using e fits by (auto simp: Cons_eq_append_conv continues_def)
    show ?thesis
      unfolding only using Cons.prems(3) e collect_terminated [of "c\<lparr>oc_terminal := Some (ObservedExitCode code, timeout)\<rparr>" es]
      by (auto simp: collector_push_def ObservedExitCode_new_def collector_finish_def collected_def is_ok_iff)
  qed
qed

text \<open>
  C18. Under the ceilings that \<open>exec\<close> enforces, collecting a stream chunk by chunk gives exactly what
  a look at the whole stream gives: it succeeds if and only if the stream is a sequence of output
  chunks, none above the chunk limit and together within the limits of each stream and of both,
  followed by one exit event with a code that is not negative; the result then has that code and the
  concatenated streams.
\<close>

theorem collector_equals_whole_stream:
  assumes "limits_within_process_ceiling L"
  shows "collect (OutputCollector_new L) es = Ok out \<longleftrightarrow>
    (\<exists>outs code timeout. es = outs @ [EV_Exit code timeout] \<and> acceptable L outs \<and> 0 \<le> sint code
       \<and> out = \<lparr>co_exit_code = ObservedExitCode code, co_stdout = stdout_of outs, co_stderr = stderr_of outs,
                co_timeout = timeout\<rparr>)"
proof -
  have "oc_terminal (OutputCollector_new L) = None" "oc_stdout (OutputCollector_new L) = []" "oc_stderr (OutputCollector_new L) = []"
    by (simp_all add: OutputCollector_new_def)
  with collect_iff [OF collector_new_invar assms] show ?thesis
    by (simp add: continues_def acceptable_def collected_def)
qed

definition sample_limits :: OutputLimits where
  "sample_limits = \<lparr>ol_stdout_bytes = 3, ol_stderr_bytes = 3, ol_combined_bytes = 5, ol_chunk_bytes = 2\<rparr>"

lemma sample_ceiling: "limits_within_process_ceiling sample_limits"
  by (simp add: limits_within_process_ceiling_def sample_limits_def MAX_STDOUT_BYTES_def MAX_STDERR_BYTES_def
      MAX_COMBINED_BYTES_def MAX_CHUNK_BYTES_def)

theorem collector_equals_whole_stream_witness:
  "collect (OutputCollector_new sample_limits) [EV_Stdout [0, 255], EV_Stderr [254], EV_Stdout [1], EV_Exit 7 OT_NotObserved] =
     Ok \<lparr>co_exit_code = ObservedExitCode 7, co_stdout = [0, 255, 1], co_stderr = [254], co_timeout = OT_NotObserved\<rparr>"
proof -
  have ok: "acceptable sample_limits [EV_Stdout [0, 255], EV_Stderr [254], EV_Stdout [1]]" "0 \<le> sint (7 :: i32)"
    by (simp_all add: acceptable_def output_fits_def sample_limits_def)
  show ?thesis
    unfolding collector_equals_whole_stream [OF sample_ceiling] using ok
    by (intro exI [of _ "[EV_Stdout [0, 255], EV_Stderr [254], EV_Stdout [1]]"] exI [of _ 7] exI [of _ OT_NotObserved]) simp
qed

section \<open>Bounded memory\<close>

text \<open>After a failed push the counters can be ahead of what is retained, never behind.\<close>

definition collector_bounded :: "OutputLimits \<Rightarrow> OutputCollector \<Rightarrow> bool" where
  "collector_bounded L c \<longleftrightarrow> oc_limits c = L
     \<and> length (oc_stdout c) \<le> unat (obc_stdout (oc_counts c)) \<and> length (oc_stderr c) \<le> unat (obc_stderr (oc_counts c))
     \<and> output_fits L (oc_stdout c) (oc_stderr c)"

lemma collector_bounded_push:
  assumes "collector_bounded L c" and "limits_within_process_ceiling L"
  shows "collector_bounded L (snd (collector_push e c))"
proof -
  note defs = collector_bounded_def OutputByteCounts_new_def unat_saturating_add_u64 unat_u64_of_len output_fits_def
  have "collector_bounded L (snd (push_stdout data c))" for data
  proof -
    let ?n = "u64_of_len (length data)"
    let ?c = "c\<lparr>oc_counts := OutputByteCounts_new (saturating_add_u64 (obc_stdout (oc_counts c)) ?n) (obc_stderr (oc_counts c))\<rparr>"
    have "collector_bounded L ?c"
      using assms(1) unat_u64_less [of "obc_stdout (oc_counts c)"] by (auto simp: defs min_def)
    moreover have "collector_bounded L (?c\<lparr>oc_stdout := oc_stdout c @ data\<rparr>)" if "is_ok (check_limits ?n LimitStdout ?c)"
      using that assms(1) ceilings [OF assms(2)] by (auto simp: check_limits_Ok defs min_def split: if_splits)
    ultimately show ?thesis
      by (cases "check_limits ?n LimitStdout ?c") (simp_all add: push_stdout_def Let_def)
  qed
  moreover have "collector_bounded L (snd (push_stderr data c))" for data
  proof -
    let ?n = "u64_of_len (length data)"
    let ?c = "c\<lparr>oc_counts := OutputByteCounts_new (obc_stdout (oc_counts c)) (saturating_add_u64 (obc_stderr (oc_counts c)) ?n)\<rparr>"
    have "collector_bounded L ?c"
      using assms(1) unat_u64_less [of "obc_stderr (oc_counts c)"] by (auto simp: defs min_def)
    moreover have "collector_bounded L (?c\<lparr>oc_stderr := oc_stderr c @ data\<rparr>)" if "is_ok (check_limits ?n LimitStderr ?c)"
      using that assms(1) ceilings [OF assms(2)] by (auto simp: check_limits_Ok defs min_def split: if_splits)
    ultimately show ?thesis
      by (cases "check_limits ?n LimitStderr ?c") (simp_all add: push_stderr_def Let_def)
  qed
  moreover have "collector_bounded L (c\<lparr>oc_terminal := t\<rparr>)" for t
    using assms(1) by (simp add: collector_bounded_def)
  ultimately show ?thesis
    using assms(1) by (cases e) (auto simp: collector_push_def split: sum.splits)
qed

text \<open>
  Whatever events arrive, also after a failure, the bytes a collector retains stay within the
  limits of each stream and of both together.
\<close>

theorem collector_stays_bounded:
  assumes "limits_within_process_ceiling L"
  shows "output_fits L (oc_stdout (fold (\<lambda>e c. snd (collector_push e c)) es (OutputCollector_new L)))
    (oc_stderr (fold (\<lambda>e c. snd (collector_push e c)) es (OutputCollector_new L)))"
proof -
  have "collector_bounded L (fold (\<lambda>e c. snd (collector_push e c)) es c)" if "collector_bounded L c" for c
    using that by (induction es arbitrary: c) (simp_all add: collector_bounded_push [OF _ assms])
  from this [of "OutputCollector_new L"] show ?thesis
    by (simp add: collector_bounded_def OutputCollector_new_def output_fits_def)
qed

theorem collector_stays_bounded_witness:
  "output_fits sample_limits
     (oc_stdout (fold (\<lambda>e c. snd (collector_push e c)) [EV_Stdout [1, 2, 3], EV_Stdout [4]] (OutputCollector_new sample_limits)))
     (oc_stderr (fold (\<lambda>e c. snd (collector_push e c)) [EV_Stdout [1, 2, 3], EV_Stdout [4]] (OutputCollector_new sample_limits)))"
  by (rule collector_stays_bounded [OF sample_ceiling])

end
