(* ===== verification/OpenShell_Runtime.thy ===== *)
theory OpenShell_Runtime
  imports OpenShell_Policy Output_Collector Program_Logic
begin

text \<open>
  The operations of the OpenShell provider (\<^verbatim>\<open>src/src/openshell/operations.rs\<close>, \<^verbatim>\<open>budget.rs\<close>,
  \<^verbatim>\<open>provider.rs\<close>, \<^verbatim>\<open>transport.rs\<close>) as programs of the calls to the gateway. A call runs under the
  budget of the operation: it ends with the gateway's answer, with the cancellation of the operation or
  at its deadline. Time passes and the operation may be cancelled at every action. The polling loops
  have a bound on their iterations as fuel.
\<close>

section \<open>Gateway messages\<close>

datatype Code =
    Code_Ok | Code_Cancelled | Code_Unknown | Code_InvalidArgument | Code_DeadlineExceeded | Code_NotFound
  | Code_AlreadyExists | Code_PermissionDenied | Code_ResourceExhausted | Code_FailedPrecondition
  | Code_Aborted | Code_OutOfRange | Code_Unimplemented | Code_Internal | Code_Unavailable
  | Code_DataLoss | Code_Unauthenticated

record Status =
  status_code :: Code

text \<open>The messages of \<open>openshell_core::proto\<close>: what the code reads and sets, and the rest.\<close>

record 'x SandboxTemplate =
  stp_image :: string
  stp_rest :: 'x

record 'x SandboxSpec =
  ssp_template :: "'x SandboxTemplate option"
  ssp_policy :: "'x SandboxPolicy option"
  ssp_rest :: 'x

record 'x CreateSandboxRequest =
  csr_spec :: "'x SandboxSpec option"
  csr_name :: string
  csr_rest :: 'x

record GetSandboxRequest =
  gsr_name :: string
  gsr_workspace :: string

record GetSandboxPolicyStatusRequest =
  gps_name :: string
  gps_version :: u32
  gps_global :: bool
  gps_workspace :: string

record DeleteSandboxRequest =
  dsr_name :: string
  dsr_workspace :: string

record 'x ExecSandboxRequest =
  esr_sandbox_id :: string
  esr_command :: "string list"
  esr_workdir :: string
  esr_timeout_seconds :: u32
  esr_rest :: 'x

record SandboxStatus =
  sst_phase :: i32
  sst_current_policy_version :: u32

text \<open>\<open>sbx_name\<close> and \<open>sbx_id\<close> are what \<open>object_name()\<close> and \<open>object_id()\<close> return.\<close>

record 'x Sandbox =
  sbx_name :: string
  sbx_id :: string
  sbx_spec :: "'x SandboxSpec option"
  sbx_status :: "SandboxStatus option"

record 'x SandboxResponse =
  srs_sandbox :: "'x Sandbox option"

record 'x PolicyRevision =
  rev_version :: u32
  rev_status :: i32
  rev_loaded_at_ms :: "64 word"
  rev_policy :: "'x SandboxPolicy option"
  rev_policy_hash :: string

record 'x GetSandboxPolicyStatusResponse =
  psr_revision :: "'x PolicyRevision option"
  psr_active_version :: u32

record DeleteSandboxResponse =
  dsr_deleted :: bool

datatype SandboxPhase =
    SP_Unspecified | SP_Provisioning | SP_Ready | SP_Error | SP_Deleting | SP_Unknown

datatype PolicyStatus = PS_Unspecified | PS_Pending | PS_Loaded | PS_Failed | PS_Superseded

datatype CreateTransportError = CTE_Conflict | CTE_NotSubmitted Status | CTE_PossiblySubmitted Status

datatype ExecTransportError = ETE_NotSubmitted Status | ETE_PossiblySubmitted Status

text \<open>
  What the operations use of the generated code and of \<open>prost\<close>: the numbers of the enumerations, the
  default of the fields that are not set, and the encoding of the provider state and of policies.
\<close>

record EncodedProviderState =
  eps_sandbox_id :: string
  eps_normalized_policy :: bytes

record 'x openshell_lib =
  lib_policy :: "'x policy_lib"
  lib_default :: 'x
  lib_phase :: "i32 \<Rightarrow> SandboxPhase option"
  lib_policy_status :: "i32 \<Rightarrow> PolicyStatus option"
  lib_encode_policy :: "'x SandboxPolicy \<Rightarrow> bytes"
  lib_decode_policy :: "bytes \<Rightarrow> 'x SandboxPolicy option"
  lib_encode_state :: "EncodedProviderState \<Rightarrow> bytes"
  lib_decode_state :: "bytes \<Rightarrow> EncodedProviderState option"

section \<open>Transport\<close>

text \<open>The event of a stream message; \<open>None\<close> is a message without payload.\<close>

datatype Payload = PL_Stdout bytes | PL_Stderr bytes | PL_Exit i32

definition transport_event :: "Payload option \<Rightarrow> Status + ExecTransportEvent option" where
  "transport_event payload =
     (case payload of
        None \<Rightarrow> Err \<lparr>status_code = Code_DataLoss\<rparr>
      | Some (PL_Stdout data) \<Rightarrow> Ok (Some (EV_Stdout data))
      | Some (PL_Stderr data) \<Rightarrow> Ok (Some (EV_Stderr data))
      | Some (PL_Exit exit_code) \<Rightarrow>
          Ok (Some (EV_Exit exit_code (if exit_code = 124 then OT_Possible else OT_NotObserved))))"

definition stream_message :: "Status + Payload option option \<Rightarrow> Status + ExecTransportEvent option" where
  "stream_message received =
     (case received of
        Inl status \<Rightarrow> Err status
      | Inr None \<Rightarrow> Ok None
      | Inr (Some payload) \<Rightarrow> transport_event payload)"

definition create_sandbox_result :: "Status + 'x SandboxResponse \<Rightarrow> CreateTransportError + 'x SandboxResponse" where
  "create_sandbox_result answer =
     (case answer of
        Inr response \<Rightarrow> Ok response
      | Inl status \<Rightarrow> if status_code status = Code_AlreadyExists then Err CTE_Conflict
          else Err (CTE_PossiblySubmitted status))"

definition exec_sandbox_result :: "Status + unit \<Rightarrow> ExecTransportError + unit" where
  "exec_sandbox_result answer =
     (case answer of
        Inr _ \<Rightarrow> Ok ()
      | Inl status \<Rightarrow> Err (ETE_PossiblySubmitted status))"

section \<open>Programs\<close>

datatype BudgetFailure = BF_Cancelled | BF_Deadline

record OperationBudget =
  bg_deadline :: instant

text \<open>
  The transport is a trait: its answers are what the trait admits. \<open>TonicOpenShellTransport\<close> gives those
  of the definitions above.
\<close>

datatype ('x, 'r) oprog =
    O_Return 'r
  | O_Panic
  | O_Exhausted
  | O_Now "instant \<Rightarrow> ('x, 'r) oprog"
  | O_Check OperationBudget "BudgetFailure + unit \<Rightarrow> ('x, 'r) oprog"
  | O_Sleep OperationBudget duration "BudgetFailure + unit \<Rightarrow> ('x, 'r) oprog"
  | O_Create OperationBudget "'x CreateSandboxRequest"
      "BudgetFailure + (CreateTransportError + 'x SandboxResponse) \<Rightarrow> ('x, 'r) oprog"
  | O_Get OperationBudget GetSandboxRequest
      "BudgetFailure + (Status + 'x SandboxResponse) \<Rightarrow> ('x, 'r) oprog"
  | O_PolicyStatus OperationBudget GetSandboxPolicyStatusRequest
      "BudgetFailure + (Status + 'x GetSandboxPolicyStatusResponse) \<Rightarrow> ('x, 'r) oprog"
  | O_Exec OperationBudget "'x ExecSandboxRequest" "BudgetFailure + (ExecTransportError + unit) \<Rightarrow> ('x, 'r) oprog"
  | O_Message OperationBudget "BudgetFailure + (Status + ExecTransportEvent option) \<Rightarrow> ('x, 'r) oprog"
  | O_Delete OperationBudget DeleteSandboxRequest
      "BudgetFailure + (Status + DeleteSandboxResponse) \<Rightarrow> ('x, 'r) oprog"

text \<open>The clock, and whether the operation has been cancelled.\<close>

record clock =
  ck_now :: instant
  ck_cancelled :: bool

text \<open>
  The environment's part in an action: how long it takes, whether the operation is cancelled meanwhile,
  and the answer of the gateway, \<open>None\<close> when there is none before the action ends.
\<close>

datatype 'x reply =
    Rep_Create "CreateTransportError + 'x SandboxResponse"
  | Rep_Get "Status + 'x SandboxResponse"
  | Rep_PolicyStatus "Status + 'x GetSandboxPolicyStatusResponse"
  | Rep_Exec "ExecTransportError + unit"
  | Rep_Message "Status + ExecTransportEvent option"
  | Rep_Delete "Status + DeleteSandboxResponse"

record 'x oanswer =
  oa_elapsed :: duration
  oa_cancel :: bool
  oa_reply :: "'x reply option"

datatype 'x oevent =
    OE_Create "'x CreateSandboxRequest" "BudgetFailure + (CreateTransportError + 'x SandboxResponse)"
  | OE_Get GetSandboxRequest "BudgetFailure + (Status + 'x SandboxResponse)"
  | OE_PolicyStatus GetSandboxPolicyStatusRequest "BudgetFailure + (Status + 'x GetSandboxPolicyStatusResponse)"
  | OE_Exec "'x ExecSandboxRequest" "BudgetFailure + (ExecTransportError + unit)"
  | OE_Message "BudgetFailure + (Status + ExecTransportEvent option)"
  | OE_Delete DeleteSandboxRequest "BudgetFailure + (Status + DeleteSandboxResponse)"

definition advance :: "'x oanswer \<Rightarrow> clock \<Rightarrow> clock" where
  "advance a s = \<lparr>ck_now = ck_now s + oa_elapsed a, ck_cancelled = (ck_cancelled s \<or> oa_cancel a)\<rparr>"

definition budget_check :: "OperationBudget \<Rightarrow> clock \<Rightarrow> BudgetFailure + unit" where
  "budget_check b s =
     (if ck_cancelled s then Err BF_Cancelled
      else if bg_deadline b \<le> ck_now s then Err BF_Deadline
      else Ok ())"

text \<open>
  The \<open>select!\<close> of \<open>OperationBudget::run\<close>, after the action: a cancellation is seen first, then the
  result, then the deadline. An action that none of them ends is still going on.
\<close>

definition settle :: "OperationBudget \<Rightarrow> clock \<Rightarrow> 'r option \<Rightarrow> (BudgetFailure + 'r) option" where
  "settle b s result =
     (if ck_cancelled s then Some (Err BF_Cancelled)
      else case result of
             Some r \<Rightarrow> Some (Ok r)
           | None \<Rightarrow> if bg_deadline b \<le> ck_now s then Some (Err BF_Deadline) else None)"

definition call :: "OperationBudget \<Rightarrow> clock \<Rightarrow> 'r option \<Rightarrow> (BudgetFailure + 'r \<Rightarrow> 'e list) \<Rightarrow>
    (BudgetFailure + 'r \<Rightarrow> 'p) \<Rightarrow> ('e list \<times> clock \<times> 'p) option" where
  "call b s result ev k = map_option (\<lambda>r. (ev r, s, k r)) (settle b s result)"

fun as_create where "as_create (Rep_Create r) = Some r" | "as_create _ = None"
fun as_get where "as_get (Rep_Get r) = Some r" | "as_get _ = None"
fun as_policy_status where "as_policy_status (Rep_PolicyStatus r) = Some r" | "as_policy_status _ = None"
fun as_exec where "as_exec (Rep_Exec r) = Some r" | "as_exec _ = None"
fun as_message where "as_message (Rep_Message r) = Some r" | "as_message _ = None"
fun as_delete where "as_delete (Rep_Delete r) = Some r" | "as_delete _ = None"

fun ostep :: "(('x, 'r) oprog, 'x oanswer, clock, 'x oevent) stepper" where
  "ostep (O_Return r) a s = None"
| "ostep O_Panic a s = None"
| "ostep O_Exhausted a s = None"
| "ostep (O_Now k) a s = (let s1 = advance a s in Some ([], s1, k (ck_now s1)))"
| "ostep (O_Check b k) a s = (let s1 = advance a s in Some ([], s1, k (budget_check b s1)))"
| "ostep (O_Sleep b d k) a s =
     (let s1 = advance a s in call b s1 (if d \<le> oa_elapsed a then Some () else None) (\<lambda>r. []) k)"
| "ostep (O_Create b q k) a s = call b (advance a s) (Option.bind (oa_reply a) as_create) (\<lambda>r. [OE_Create q r]) k"
| "ostep (O_Get b q k) a s = call b (advance a s) (Option.bind (oa_reply a) as_get) (\<lambda>r. [OE_Get q r]) k"
| "ostep (O_PolicyStatus b q k) a s =
     call b (advance a s) (Option.bind (oa_reply a) as_policy_status) (\<lambda>r. [OE_PolicyStatus q r]) k"
| "ostep (O_Exec b q k) a s = call b (advance a s) (Option.bind (oa_reply a) as_exec) (\<lambda>r. [OE_Exec q r]) k"
| "ostep (O_Message b k) a s = call b (advance a s) (Option.bind (oa_reply a) as_message) (\<lambda>r. [OE_Message r]) k"
| "ostep (O_Delete b q k) a s = call b (advance a s) (Option.bind (oa_reply a) as_delete) (\<lambda>r. [OE_Delete q r]) k"

end
