(* ===== verification/OpenShell_Operations.thy ===== *)
theory OpenShell_Operations
  imports OpenShell_Runtime
begin

text \<open>The operations of \<^verbatim>\<open>src/src/openshell/operations.rs\<close>.\<close>

section \<open>Budget\<close>

definition OperationBudget_new :: "'tok OperationContext \<Rightarrow> (OperationBudget \<Rightarrow> ('x, 'r) oprog) \<Rightarrow> ('x, 'r) oprog" where
  "OperationBudget_new context k =
     O_Now (\<lambda>now. k \<lparr>bg_deadline = now + od_duration (oc_deadline context)\<rparr>)"

text \<open>\<open>run\<close> checks the budget before the future is polled.\<close>

definition budget_run ::
  "OperationBudget \<Rightarrow> ((BudgetFailure + 'a \<Rightarrow> ('x, 'r) oprog) \<Rightarrow> ('x, 'r) oprog) \<Rightarrow>
   (BudgetFailure + 'a \<Rightarrow> ('x, 'r) oprog) \<Rightarrow> ('x, 'r) oprog" where
  "budget_run b future k =
     O_Check b (\<lambda>r. case r of Inl f \<Rightarrow> k (Err f) | Inr _ \<Rightarrow> future k)"

definition budget_pause ::
  "OperationBudget \<Rightarrow> duration \<Rightarrow> (BudgetFailure + unit \<Rightarrow> ('x, 'r) oprog) \<Rightarrow> ('x, 'r) oprog" where
  "budget_pause b d k = budget_run b (O_Sleep b d) k"

section \<open>Requests\<close>

definition detail :: "string \<Rightarrow> OperatorDetail" where
  "detail message = OperatorDetail_redacted message"

definition build_create_request ::
  "'x openshell_lib \<Rightarrow> string \<Rightarrow> string \<Rightarrow> 'x SandboxPolicy \<Rightarrow> 'x CreateSandboxRequest" where
  "build_create_request L name img policy =
     \<lparr>csr_spec = Some \<lparr>ssp_template = Some \<lparr>stp_image = img, stp_rest = lib_default L\<rparr>,
        ssp_policy = Some policy, ssp_rest = lib_default L\<rparr>,
      csr_name = name, csr_rest = lib_default L\<rparr>"

definition build_get_request :: "string \<Rightarrow> GetSandboxRequest" where
  "build_get_request name = \<lparr>gsr_name = name, gsr_workspace = []\<rparr>"

definition build_policy_status_request :: "string \<Rightarrow> u32 \<Rightarrow> GetSandboxPolicyStatusRequest" where
  "build_policy_status_request name version =
     \<lparr>gps_name = name, gps_version = version, gps_global = False, gps_workspace = []\<rparr>"

definition build_delete_request :: "string \<Rightarrow> DeleteSandboxRequest" where
  "build_delete_request name = \<lparr>dsr_name = name, dsr_workspace = []\<rparr>"

definition build_exec_request :: "'x openshell_lib \<Rightarrow> string \<Rightarrow> ExecRequest \<Rightarrow> 'x ExecSandboxRequest" where
  "build_exec_request L sandbox_id request =
     \<lparr>esr_sandbox_id = sandbox_id, esr_command = argv_slice (er_argv request),
      esr_workdir = ExecRequest_workdir request,
      esr_timeout_seconds = ucast (ct_seconds (er_timeout request)), esr_rest = lib_default L\<rparr>"

section \<open>Failures\<close>

definition create_pre_submission_budget :: "BudgetFailure \<Rightarrow> CreateFailure" where
  "create_pre_submission_budget failure =
     (case failure of
        BF_Cancelled \<Rightarrow> NotCreated CF_Cancelled (OperatorDetail_redacted ''create cancelled before submission'')
      | BF_Deadline \<Rightarrow> NotCreated CF_Deadline (OperatorDetail_redacted ''create deadline before submission''))"

definition create_possibly_created_budget :: "CleanupTarget \<Rightarrow> BudgetFailure \<Rightarrow> CreateFailure" where
  "create_possibly_created_budget target failure =
     PossiblyCreated target (case failure of BF_Cancelled \<Rightarrow> CF_Cancelled | BF_Deadline \<Rightarrow> CF_Deadline)
       (detail ''create stopped after possible submission'')"

definition create_status_code :: "Status \<Rightarrow> CreateFailureCode" where
  "create_status_code status =
     (case status_code status of
        Code_Unauthenticated \<Rightarrow> CF_Auth | Code_PermissionDenied \<Rightarrow> CF_Auth
      | Code_Cancelled \<Rightarrow> CF_Cancelled
      | Code_DeadlineExceeded \<Rightarrow> CF_Deadline
      | Code_InvalidArgument \<Rightarrow> CF_Protocol | Code_FailedPrecondition \<Rightarrow> CF_Protocol
      | Code_OutOfRange \<Rightarrow> CF_Protocol | Code_Unimplemented \<Rightarrow> CF_Protocol | Code_DataLoss \<Rightarrow> CF_Protocol
      | _ \<Rightarrow> CF_Transport)"

definition readiness_budget :: "CleanupTarget \<Rightarrow> BudgetFailure \<Rightarrow> ReadinessFailure" where
  "readiness_budget target failure =
     ReadinessFailure_new target (case failure of BF_Cancelled \<Rightarrow> RF_Cancelled | BF_Deadline \<Rightarrow> RF_Deadline)
       (detail ''readiness operation stopped'')"

definition readiness_status :: "CleanupTarget \<Rightarrow> Status \<Rightarrow> ReadinessFailure" where
  "readiness_status target status =
     ReadinessFailure_new target
       (case status_code status of
          Code_Cancelled \<Rightarrow> RF_Cancelled
        | Code_DeadlineExceeded \<Rightarrow> RF_Deadline
        | Code_InvalidArgument \<Rightarrow> RF_Protocol | Code_FailedPrecondition \<Rightarrow> RF_Protocol
        | Code_OutOfRange \<Rightarrow> RF_Protocol | Code_Unimplemented \<Rightarrow> RF_Protocol | Code_DataLoss \<Rightarrow> RF_Protocol
        | _ \<Rightarrow> RF_Transport)
       (detail ''readiness RPC failed'')"

definition exec_budget_code :: "BudgetFailure \<Rightarrow> ExecFailureCode" where
  "exec_budget_code failure = (case failure of BF_Cancelled \<Rightarrow> EF_Cancelled | BF_Deadline \<Rightarrow> EF_Deadline)"

definition exec_status_code :: "Status \<Rightarrow> ExecFailureCode" where
  "exec_status_code status =
     (case status_code status of
        Code_Cancelled \<Rightarrow> EF_Cancelled
      | Code_DeadlineExceeded \<Rightarrow> EF_Deadline
      | Code_InvalidArgument \<Rightarrow> EF_Protocol | Code_FailedPrecondition \<Rightarrow> EF_Protocol
      | Code_OutOfRange \<Rightarrow> EF_Protocol | Code_Unimplemented \<Rightarrow> EF_Protocol | Code_DataLoss \<Rightarrow> EF_Protocol
      | _ \<Rightarrow> EF_Transport)"

definition cleanup_budget :: "CleanupTarget \<Rightarrow> BudgetFailure \<Rightarrow> CleanupFailure" where
  "cleanup_budget target failure =
     CleanupFailure_new target (case failure of BF_Cancelled \<Rightarrow> CU_Cancelled | BF_Deadline \<Rightarrow> CU_Deadline)
       (detail ''cleanup operation stopped'')"

definition cleanup_status :: "CleanupTarget \<Rightarrow> Status \<Rightarrow> CleanupFailure" where
  "cleanup_status target status =
     CleanupFailure_new target
       (case status_code status of
          Code_Cancelled \<Rightarrow> CU_Cancelled
        | Code_DeadlineExceeded \<Rightarrow> CU_Deadline
        | Code_InvalidArgument \<Rightarrow> CU_Protocol | Code_FailedPrecondition \<Rightarrow> CU_Protocol
        | Code_OutOfRange \<Rightarrow> CU_Protocol | Code_Unimplemented \<Rightarrow> CU_Protocol | Code_DataLoss \<Rightarrow> CU_Protocol
        | _ \<Rightarrow> CU_Transport)
       (detail ''cleanup RPC failed'')"

text \<open>\<open>expect\<close> on the constructor of a failure: an inconsistent one is a panic.\<close>

definition fail_expect :: "ValidationError + ExecFailure \<Rightarrow> ('x, ExecFailure + 'r) oprog" where
  "fail_expect constructed = (case constructed of Inl _ \<Rightarrow> O_Panic | Inr f \<Rightarrow> O_Return (Err f))"

definition exec_possible :: "CleanupTarget \<Rightarrow> ExecFailureCode \<Rightarrow> OutputByteCounts \<Rightarrow> ValidationError + ExecFailure" where
  "exec_possible target code counts =
     ExecFailure_possibly_dispatched target code FT_Unknown counts (detail ''execution failed after possible dispatch'')"

definition collection_failure :: "CleanupTarget \<Rightarrow> CollectionFailure \<Rightarrow> ValidationError + ExecFailure" where
  "collection_failure target failure =
     (case failure of
        CFail_MissingTerminalExit counts \<Rightarrow>
          ExecFailure_missing_terminal_exit target FT_Unknown counts (detail ''execution stream omitted terminal exit'')
      | CFail_Overflow counts kind \<Rightarrow>
          ExecFailure_output_limit_exceeded target FT_Unknown counts kind (detail ''execution output limit exceeded'')
      | CFail_Protocol counts \<Rightarrow> exec_possible target EF_Protocol counts)"

section \<open>Provider state\<close>

record 'x ProviderState =
  pvs_sandbox_id :: string
  pvs_normalized_policy :: "'x SandboxPolicy"

definition ProviderState_encode :: "'x openshell_lib \<Rightarrow> 'x ProviderState \<Rightarrow> ValidationError + OpaqueProviderHandle" where
  "ProviderState_encode L state =
     OpaqueProviderHandle_new (lib_encode_state L
       \<lparr>eps_sandbox_id = pvs_sandbox_id state,
        eps_normalized_policy = lib_encode_policy L (pvs_normalized_policy state)\<rparr>)"

definition ProviderState_decode :: "'x openshell_lib \<Rightarrow> OpaqueProviderHandle \<Rightarrow> unit + 'x ProviderState" where
  "ProviderState_decode L handle =
     (case lib_decode_state L (handle_bytes handle) of
        None \<Rightarrow> Err ()
      | Some state \<Rightarrow>
          if eps_sandbox_id state = [] \<or> eps_normalized_policy state = [] then Err ()
          else case lib_decode_policy L (eps_normalized_policy state) of
                 None \<Rightarrow> Err ()
               | Some policy \<Rightarrow>
                   Ok \<lparr>pvs_sandbox_id = eps_sandbox_id state, pvs_normalized_policy = policy\<rparr>)"

record 'x OpenShellRuntime =
  osr_lib :: "'x openshell_lib"
  osr_poll_interval :: duration
  osr_allow_degraded_landlock :: bool

section \<open>Create\<close>

text \<open>The response of a submitted create, checked against the request.\<close>

definition check_created ::
  "'x OpenShellRuntime \<Rightarrow> CreateRequest \<Rightarrow> 'x SandboxPolicy \<Rightarrow> 'x SandboxSpec option \<Rightarrow> 'x SandboxResponse \<Rightarrow>
   CreateFailure + CreatedSandbox" where
  "check_created R request normalized_policy expected_spec response =
     (let request_id = cr_request_id request;
          possibly = \<lambda>message. Err (PossiblyCreated (CleanupTarget_new request_id) CF_Protocol (detail message))
      in case srs_sandbox response of
           None \<Rightarrow> possibly ''create response omitted sandbox''
         | Some created \<Rightarrow>
             if sbx_name created \<noteq> roid_str request_id \<or> sbx_id created = []
             then possibly ''create response identity mismatch''
             else case sbx_spec created of
                    None \<Rightarrow> possibly ''create response omitted spec''
                  | Some returned_spec \<Rightarrow>
                      if Some returned_spec \<noteq> expected_spec
                      then possibly ''create response spec differed from request''
                      else case ProviderState_encode (osr_lib R)
                                  \<lparr>pvs_sandbox_id = sbx_id created, pvs_normalized_policy = normalized_policy\<rparr> of
                             Inl _ \<Rightarrow> possibly ''provider state could not be retained''
                           | Inr provider_handle \<Rightarrow>
                               Ok (CreatedSandbox_from_runtime request_id provider_handle (cr_expected_policy request)))"

definition submit_create ::
  "'x OpenShellRuntime \<Rightarrow> OperationBudget \<Rightarrow> CreateRequest \<Rightarrow> string \<Rightarrow> 'x SandboxPolicy \<Rightarrow>
   ('x, CreateFailure + CreatedSandbox) oprog" where
  "submit_create R budget request img normalized_policy =
     (let cleanup_target = CleanupTarget_new (cr_request_id request);
          grpc_request = build_create_request (osr_lib R) (roid_str (cr_request_id request)) img normalized_policy
      in budget_run budget (O_Create budget grpc_request) (\<lambda>result. O_Return
           (case result of
              Inl failure \<Rightarrow> Err (create_possibly_created_budget cleanup_target failure)
            | Inr (Inl CTE_Conflict) \<Rightarrow> Err (Conflict CF_Provider (detail ''gateway reported an ownership conflict''))
            | Inr (Inl (CTE_NotSubmitted status)) \<Rightarrow>
                Err (NotCreated (create_status_code status) (detail ''create transport failed before submission''))
            | Inr (Inl (CTE_PossiblySubmitted status)) \<Rightarrow>
                Err (PossiblyCreated cleanup_target (create_status_code status)
                  (detail ''create failed after possible submission''))
            | Inr (Inr response) \<Rightarrow> check_created R request normalized_policy (csr_spec grpc_request) response)))"

definition openshell_create ::
  "'x OpenShellRuntime \<Rightarrow> CreateRequest \<Rightarrow> 'tok OperationContext \<Rightarrow> ('x, CreateFailure + CreatedSandbox) oprog" where
  "openshell_create R request context =
     (case validate_image (cr_template request) of
        Inl _ \<Rightarrow> O_Return (Err (NotCreated CF_Validation (detail ''immutable image validation failed'')))
      | Inr img \<Rightarrow>
          (case parse_and_validate_policy (lib_policy (osr_lib R)) (cr_policy_document request)
                  (cr_expected_policy request) (osr_allow_degraded_landlock R) of
             Inl _ \<Rightarrow> O_Return (Err (NotCreated CF_Validation (detail ''policy validation failed'')))
           | Inr normalized_policy \<Rightarrow>
               OperationBudget_new context (\<lambda>budget.
               O_Check budget (\<lambda>checked. case checked of
                 Inl failure \<Rightarrow> O_Return (Err (create_pre_submission_budget failure))
               | Inr _ \<Rightarrow>
                   budget_run budget (O_Get budget (build_get_request (roid_str (cr_request_id request)))) (\<lambda>preflight.
                   case preflight of
                     Inl failure \<Rightarrow> O_Return (Err (create_pre_submission_budget failure))
                   | Inr (Inr _) \<Rightarrow>
                       O_Return (Err (Conflict CF_Provider (detail ''request-owned name already exists'')))
                   | Inr (Inl status) \<Rightarrow>
                       if status_code status \<noteq> Code_NotFound
                       then O_Return (Err (NotCreated (create_status_code status) (detail ''request-name preflight failed'')))
                       else O_Check budget (\<lambda>checked. case checked of
                              Inl failure \<Rightarrow> O_Return (Err (create_pre_submission_budget failure))
                            | Inr _ \<Rightarrow> submit_create R budget request img normalized_policy))))))"

section \<open>Readiness\<close>

definition pause ::
  "'x OpenShellRuntime \<Rightarrow> OperationBudget \<Rightarrow> CleanupTarget \<Rightarrow> ('x, ReadinessFailure + 'r) oprog \<Rightarrow>
   ('x, ReadinessFailure + 'r) oprog" where
  "pause R budget target k =
     budget_pause budget (osr_poll_interval R) (\<lambda>r. case r of
       Inl failure \<Rightarrow> O_Return (Err (readiness_budget target failure))
     | Inr _ \<Rightarrow> k)"

definition readiness_error :: "CleanupTarget \<Rightarrow> ReadinessFailureCode \<Rightarrow> string \<Rightarrow> ('x, ReadinessFailure + 'r) oprog" where
  "readiness_error target code message = O_Return (Err (ReadinessFailure_new target code (detail message)))"

definition policy_is_loaded ::
  "'x OpenShellRuntime \<Rightarrow> OperationBudget \<Rightarrow> string \<Rightarrow> 'x ProviderState \<Rightarrow> u32 \<Rightarrow> CleanupTarget \<Rightarrow>
   (bool \<Rightarrow> ('x, ReadinessFailure + 'r) oprog) \<Rightarrow> ('x, ReadinessFailure + 'r) oprog" where
  "policy_is_loaded R budget name provider version cleanup_target k =
     budget_run budget (O_PolicyStatus budget (build_policy_status_request name version)) (\<lambda>result. case result of
       Inl failure \<Rightarrow> O_Return (Err (readiness_budget cleanup_target failure))
     | Inr (Inl status) \<Rightarrow>
         if status_code status = Code_NotFound then pause R budget cleanup_target (k False)
         else O_Return (Err (readiness_status cleanup_target status))
     | Inr (Inr response) \<Rightarrow>
         (case psr_revision response of
            None \<Rightarrow> readiness_error cleanup_target RF_Protocol ''policy status omitted revision''
          | Some revision \<Rightarrow>
              if rev_version revision \<noteq> version \<or> psr_active_version response \<noteq> version
              then readiness_error cleanup_target RF_PolicyMismatch ''policy status version mismatch''
              else case lib_policy_status (osr_lib R) (rev_status revision) of
                     None \<Rightarrow> readiness_error cleanup_target RF_Protocol ''policy status used unknown state''
                   | Some PS_Pending \<Rightarrow> k False
                   | Some PS_Loaded \<Rightarrow>
                       if sint (rev_loaded_at_ms revision) \<le> 0
                          \<or> rev_policy revision \<noteq> Some (pvs_normalized_policy provider)
                          \<or> rev_policy_hash revision
                              \<noteq> deterministic_policy_hash (lib_policy (osr_lib R)) (pvs_normalized_policy provider)
                       then readiness_error cleanup_target RF_PolicyMismatch ''loaded policy content mismatch''
                       else k True
                   | Some _ \<Rightarrow> readiness_error cleanup_target RF_PolicyMismatch ''expected policy was not loaded''))"

text \<open>
  One pass of the loop: the gateway's view of the sandbox is asked for, and \<open>again\<close> is the next pass.
\<close>

definition ready_pass ::
  "'x OpenShellRuntime \<Rightarrow> OperationBudget \<Rightarrow> CreatedSandbox \<Rightarrow> PolicyIdentity \<Rightarrow> 'x ProviderState \<Rightarrow>
   ('x, ReadinessFailure + ReadySandbox) oprog \<Rightarrow> ('x, ReadinessFailure + ReadySandbox) oprog" where
  "ready_pass R budget created expected_policy provider again =
     (let cleanup_target = CreatedSandbox_cleanup_target created; name = roid_str (cs_request_id created)
      in budget_run budget (O_Get budget (build_get_request name)) (\<lambda>result. case result of
           Inl failure \<Rightarrow> O_Return (Err (readiness_budget cleanup_target failure))
         | Inr (Inl status) \<Rightarrow> O_Return (Err (readiness_status cleanup_target status))
         | Inr (Inr response) \<Rightarrow>
             (case srs_sandbox response of
                None \<Rightarrow> readiness_error cleanup_target RF_Protocol ''readiness response omitted sandbox''
              | Some sandbox \<Rightarrow>
                  if sbx_name sandbox \<noteq> name \<or> sbx_id sandbox \<noteq> pvs_sandbox_id provider
                  then readiness_error cleanup_target RF_Protocol ''readiness response identity mismatch''
                  else case sbx_status sandbox of
                         None \<Rightarrow> pause R budget cleanup_target again
                       | Some status \<Rightarrow>
                           (case lib_phase (osr_lib R) (sst_phase status) of
                              None \<Rightarrow> readiness_error cleanup_target RF_Protocol ''readiness response used unknown phase''
                            | Some SP_Error \<Rightarrow>
                                readiness_error cleanup_target RF_WorkloadError ''sandbox entered workload error''
                            | Some SP_Ready \<Rightarrow>
                                let version = sst_current_policy_version status
                                in if version = 0 then pause R budget cleanup_target again
                                   else if (ucast version :: u64) \<noteq> policy_version expected_policy
                                           \<or> version \<noteq> sp_version (pvs_normalized_policy provider)
                                   then readiness_error cleanup_target RF_PolicyMismatch ''active policy version mismatch''
                                   else policy_is_loaded R budget name provider version cleanup_target (\<lambda>loaded.
                                     if loaded then
                                       (case ReadySandbox_attest created expected_policy expected_policy of
                                          Inl _ \<Rightarrow> readiness_error cleanup_target RF_PolicyMismatch
                                                     ''policy attestation transition failed''
                                        | Inr ready \<Rightarrow> O_Return (Ok ready))
                                     else pause R budget cleanup_target again)
                            | Some _ \<Rightarrow> pause R budget cleanup_target again))))"

primrec ready_loop ::
  "nat \<Rightarrow> 'x OpenShellRuntime \<Rightarrow> OperationBudget \<Rightarrow> CreatedSandbox \<Rightarrow> PolicyIdentity \<Rightarrow> 'x ProviderState \<Rightarrow>
   ('x, ReadinessFailure + ReadySandbox) oprog" where
  "ready_loop 0 R budget created expected_policy provider = O_Exhausted"
| "ready_loop (Suc fuel) R budget created expected_policy provider =
     ready_pass R budget created expected_policy provider
       (ready_loop fuel R budget created expected_policy provider)"

definition openshell_wait_ready ::
  "nat \<Rightarrow> 'x OpenShellRuntime \<Rightarrow> CreatedSandbox \<Rightarrow> PolicyIdentity \<Rightarrow> 'tok OperationContext \<Rightarrow>
   ('x, ReadinessFailure + ReadySandbox) oprog" where
  "openshell_wait_ready fuel R created expected_policy context =
     (let cleanup_target = CreatedSandbox_cleanup_target created
      in if cs_expected_policy created \<noteq> expected_policy
         then readiness_error cleanup_target RF_PolicyMismatch ''caller policy differs from creation policy''
         else case ProviderState_decode (osr_lib R) (cs_provider_handle created) of
                Inl _ \<Rightarrow> readiness_error cleanup_target RF_Protocol ''provider state was malformed''
              | Inr provider \<Rightarrow> OperationBudget_new context (\<lambda>budget.
                  ready_loop fuel R budget created expected_policy provider))"

section \<open>Execution\<close>

primrec message_loop ::
  "nat \<Rightarrow> OperationBudget \<Rightarrow> CleanupTarget \<Rightarrow> OutputCollector \<Rightarrow> ('x, ExecFailure + ExecCompleted) oprog" where
  "message_loop 0 budget cleanup_target collector = O_Exhausted"
| "message_loop (Suc fuel) budget cleanup_target collector =
     budget_run budget (O_Message budget) (\<lambda>result. case result of
       Inl failure \<Rightarrow> fail_expect (exec_possible cleanup_target (exec_budget_code failure) (oc_counts collector))
     | Inr (Inl status) \<Rightarrow> fail_expect (exec_possible cleanup_target (exec_status_code status) (oc_counts collector))
     | Inr (Inr None) \<Rightarrow>
         (case collector_finish collector of
            Inl failure \<Rightarrow> fail_expect (collection_failure cleanup_target failure)
          | Inr out \<Rightarrow> O_Return (Ok (ExecCompleted_new (co_exit_code out) (co_stdout out)
                          (co_stderr out) (co_timeout out))))
     | Inr (Inr (Some event)) \<Rightarrow>
         (case collector_push event collector of
            (Inl failure, _) \<Rightarrow> fail_expect (collection_failure cleanup_target failure)
          | (Inr _, collector1) \<Rightarrow> message_loop fuel budget cleanup_target collector1))"

definition openshell_exec ::
  "nat \<Rightarrow> 'x OpenShellRuntime \<Rightarrow> ReadySandbox \<Rightarrow> ExecRequest \<Rightarrow> 'tok OperationContext \<Rightarrow>
   ('x, ExecFailure + ExecCompleted) oprog" where
  "openshell_exec fuel R ready request context =
     (let cleanup_target = ReadySandbox_cleanup_target ready
      in case ProviderState_decode (osr_lib R) (rs_provider_handle ready) of
           Inl _ \<Rightarrow> fail_expect (ExecFailure_not_dispatched cleanup_target EF_Protocol
                      (detail ''provider state was malformed''))
         | Inr provider \<Rightarrow>
             if \<not> limits_within_process_ceiling (er_output_limits request)
             then fail_expect (ExecFailure_not_dispatched cleanup_target EF_Protocol
                    (detail ''output limits exceed process ceilings''))
             else OperationBudget_new context (\<lambda>budget.
               O_Check budget (\<lambda>checked. case checked of
                 Inl failure \<Rightarrow> fail_expect (ExecFailure_not_dispatched cleanup_target (exec_budget_code failure)
                                  (detail ''execution stopped before dispatch''))
               | Inr _ \<Rightarrow>
                   budget_run budget
                     (O_Exec budget (build_exec_request (osr_lib R) (pvs_sandbox_id provider) request)) (\<lambda>result.
                   case result of
                     Inl failure \<Rightarrow> fail_expect (exec_possible cleanup_target (exec_budget_code failure)
                                      OutputByteCounts_default)
                   | Inr (Inl (ETE_NotSubmitted status)) \<Rightarrow>
                       fail_expect (ExecFailure_not_dispatched cleanup_target (exec_status_code status)
                         (detail ''execution transport failed before submission''))
                   | Inr (Inl (ETE_PossiblySubmitted status)) \<Rightarrow>
                       fail_expect (exec_possible cleanup_target (exec_status_code status) OutputByteCounts_default)
                   | Inr (Inr _) \<Rightarrow>
                       message_loop fuel budget cleanup_target (OutputCollector_new (er_output_limits request))))))"

section \<open>Deletion\<close>

definition openshell_delete ::
  "CleanupTarget \<Rightarrow> 'tok OperationContext \<Rightarrow> ('x, CleanupFailure + DeleteOutcome) oprog" where
  "openshell_delete target context =
     OperationBudget_new context (\<lambda>budget.
     O_Check budget (\<lambda>checked. case checked of
       Inl failure \<Rightarrow> O_Return (Err (cleanup_budget target failure))
     | Inr _ \<Rightarrow>
         budget_run budget (O_Delete budget (build_delete_request (roid_str (target_request_id target)))) (\<lambda>result.
         O_Return (case result of
           Inl failure \<Rightarrow> Err (cleanup_budget target failure)
         | Inr (Inl status) \<Rightarrow>
             if status_code status = Code_NotFound then Ok AlreadyAbsent else Err (cleanup_status target status)
         | Inr (Inr response) \<Rightarrow>
             if dsr_deleted response then Ok Deleted
             else Err (CleanupFailure_new target CU_Protocol (detail ''delete response did not acknowledge deletion''))))))"

primrec deleted_loop ::
  "nat \<Rightarrow> 'x OpenShellRuntime \<Rightarrow> OperationBudget \<Rightarrow> CleanupTarget \<Rightarrow> ('x, CleanupFailure + unit) oprog" where
  "deleted_loop 0 R budget target = O_Exhausted"
| "deleted_loop (Suc fuel) R budget target =
     budget_run budget (O_Get budget (build_get_request (roid_str (target_request_id target)))) (\<lambda>result. case result of
       Inl failure \<Rightarrow> O_Return (Err (cleanup_budget target failure))
     | Inr (Inl status) \<Rightarrow>
         if status_code status = Code_NotFound then O_Return (Ok ()) else O_Return (Err (cleanup_status target status))
     | Inr (Inr _) \<Rightarrow>
         budget_pause budget (osr_poll_interval R) (\<lambda>paused. case paused of
           Inl failure \<Rightarrow> O_Return (Err (cleanup_budget target failure))
         | Inr _ \<Rightarrow> deleted_loop fuel R budget target))"

definition openshell_wait_deleted ::
  "nat \<Rightarrow> 'x OpenShellRuntime \<Rightarrow> CleanupTarget \<Rightarrow> 'tok OperationContext \<Rightarrow> ('x, CleanupFailure + unit) oprog" where
  "openshell_wait_deleted fuel R target context =
     OperationBudget_new context (\<lambda>budget. deleted_loop fuel R budget target)"

end
