(* ===== verification/Outcome_Logic.thy ===== *)
theory Outcome_Logic
  imports Program_Logic
begin

text \<open>
  What a program of actions ends with: it never panics, and what it returns is related to the events and
  to the state at its end. \<open>returning\<close> is the interface of a language of programs that return and panic;
  the providers of sandboxes are two of them.
\<close>

definition concludes ::
  "('p, 'a, 's, 'e) stepper \<Rightarrow> ('r \<Rightarrow> 'p) \<Rightarrow> 'p \<Rightarrow> ('e list \<Rightarrow> 's \<Rightarrow> 'r \<Rightarrow> bool) \<Rightarrow> 's \<Rightarrow> 'p \<Rightarrow> bool" where
  "concludes step ret panic G s p \<longleftrightarrow> (\<forall>evs s' p'. reaches step s p evs s' p' \<longrightarrow>
     p' \<noteq> panic \<and> (\<forall>r. p' = ret r \<longrightarrow> G evs s' r))"

locale returning =
  fixes step :: "('p, 'a, 's, 'e) stepper"
    and ret :: "'r \<Rightarrow> 'p"
    and panic :: 'p
  assumes ret_ends: "step (ret r) a s = None"
    and panic_ends: "step panic a s = None"
    and ret_inject: "ret r = ret r' \<longleftrightarrow> r = r'"
    and ret_not_panic: "ret r \<noteq> panic"
begin

lemma reaches_ret: "reaches step s (ret r) evs s' p' \<longleftrightarrow> evs = [] \<and> s' = s \<and> p' = ret r"
  by (auto simp: ret_ends elim: reaches.cases intro: reaches_refl)

lemma outcome_ret: "concludes step ret panic G s (ret r) \<longleftrightarrow> G [] s r"
  by (auto simp: concludes_def reaches_ret ret_inject ret_not_panic)

lemma outcome_panic: "\<not> concludes step ret panic G s panic"
  by (auto simp: concludes_def intro: reaches_refl)

lemma outcome_stepI:
  assumes "\<And>r. p \<noteq> ret r" and "p \<noteq> panic"
    and "\<And>a ev s1 p1. step p a s = Some (ev, s1, p1) \<Longrightarrow> concludes step ret panic (\<lambda>evs. G (ev @ evs)) s1 p1"
  shows "concludes step ret panic G s p"
  unfolding concludes_def
proof (intro allI impI)
  fix evs s' p'
  assume "reaches step s p evs s' p'"
  then show "p' \<noteq> panic \<and> (\<forall>r. p' = ret r \<longrightarrow> G evs s' r)"
  proof cases
    case (reaches_step a ev s1 p1 evs')
    from assms(3) [OF reaches_step(2)] reaches_step show ?thesis
      by (fastforce simp: concludes_def)
  qed (use assms in auto)
qed

lemma outcome_mono:
  "concludes step ret panic G s p \<Longrightarrow> (\<And>evs s' r. G evs s' r \<Longrightarrow> H evs s' r) \<Longrightarrow> concludes step ret panic H s p"
  by (simp add: concludes_def)

lemma outcome_returned: "concludes step ret panic G s p \<Longrightarrow> reaches step s p evs s' (ret r) \<Longrightarrow> G evs s' r"
  by (simp add: concludes_def)

lemma outcome_reached: "concludes step ret panic G s p \<Longrightarrow> reaches step s p evs s' p' \<Longrightarrow> p' \<noteq> panic"
  by (simp add: concludes_def)

end

end
