(* ===== verification/OpenShell_Props.thy ===== *)
theory OpenShell_Props
  imports OpenShell_Operations Outcome_Logic
begin

text \<open>
  What the OpenShell provider promises to its callers: its failures say truthfully whether the gateway
  may have created a sandbox or started a command, a sandbox is ready only when the gateway attested
  the pinned policy, output is what the stream carried, and every operation ends by its deadline.
\<close>

section \<open>Outcomes of a program\<close>

interpretation gateway: returning ostep O_Return O_Panic
  by unfold_locales simp_all

definition ensures :: "('x oevent list \<Rightarrow> 'r \<Rightarrow> bool) \<Rightarrow> ('x, 'r) oprog \<Rightarrow> bool" where
  "ensures G p \<longleftrightarrow> (\<forall>s. concludes ostep O_Return O_Panic (\<lambda>evs s' r. G evs r) s p)"

lemma ensures_reached:
  "ensures G p \<Longrightarrow> reaches ostep s p evs s' p' \<Longrightarrow> p' \<noteq> O_Panic \<and> (\<forall>r. p' = O_Return r \<longrightarrow> G evs r)"
  by (simp add: ensures_def concludes_def)

lemma ensures_stepI:
  assumes "\<And>r. p \<noteq> O_Return r" and "p \<noteq> O_Panic"
    and "\<And>a s ev s1 p1. ostep p a s = Some (ev, s1, p1) \<Longrightarrow> ensures (\<lambda>evs. G (ev @ evs)) p1"
  shows "ensures G p"
  unfolding ensures_def
proof
  fix s
  show "concludes ostep O_Return O_Panic (\<lambda>evs s' r. G evs r) s p"
  proof (rule gateway.outcome_stepI)
    fix a ev s1 p1
    assume "ostep p a s = Some (ev, s1, p1)"
    from assms(3) [OF this] show "concludes ostep O_Return O_Panic (\<lambda>evs s' r. G (ev @ evs) r) s1 p1"
      by (simp add: ensures_def)
  qed (use assms in simp_all)
qed

lemma reaches_end:
  "reaches ostep s (O_Return r) evs s' p' \<longleftrightarrow> evs = [] \<and> s' = s \<and> p' = O_Return r"
  "reaches ostep s O_Exhausted evs s' p' \<longleftrightarrow> evs = [] \<and> s' = s \<and> p' = O_Exhausted"
  "reaches ostep s O_Panic evs s' p' \<longleftrightarrow> evs = [] \<and> s' = s \<and> p' = O_Panic"
  by (auto elim: reaches.cases intro: reaches_refl)

lemma ensures_Return [simp]: "ensures G (O_Return r) \<longleftrightarrow> G [] r"
  by (simp add: ensures_def gateway.outcome_ret)

lemma ensures_Exhausted [simp]: "ensures G O_Exhausted"
  by (auto simp: ensures_def concludes_def elim: reaches.cases)

lemma call_Some: "call b s res ev k = Some (evs, s1, p) \<longleftrightarrow> s1 = s \<and> (\<exists>r. settle b s res = Some r \<and> evs = ev r \<and> p = k r)"
  by (auto simp: call_def)

lemma ensures_Now [intro]: "(\<And>t. ensures G (k t)) \<Longrightarrow> ensures G (O_Now k)"
  by (rule ensures_stepI) (auto simp: Let_def)

lemma ensures_Check [intro]: "(\<And>r. ensures G (k r)) \<Longrightarrow> ensures G (O_Check b k)"
  by (rule ensures_stepI) (auto simp: Let_def)

lemma ensures_Sleep [intro]: "(\<And>r. ensures G (k r)) \<Longrightarrow> ensures G (O_Sleep b d k)"
  by (rule ensures_stepI) (auto simp: Let_def call_Some)

lemma ensures_calls [intro]:
  "(\<And>r. ensures (\<lambda>evs. G (OE_Create c r # evs)) (k1 r)) \<Longrightarrow> ensures G (O_Create b c k1)"
  "(\<And>r. ensures (\<lambda>evs. G (OE_Get g r # evs)) (k2 r)) \<Longrightarrow> ensures G (O_Get b g k2)"
  "(\<And>r. ensures (\<lambda>evs. G (OE_PolicyStatus p r # evs)) (k3 r)) \<Longrightarrow> ensures G (O_PolicyStatus b p k3)"
  "(\<And>r. ensures (\<lambda>evs. G (OE_Exec e r # evs)) (k4 r)) \<Longrightarrow> ensures G (O_Exec b e k4)"
  "(\<And>r. ensures (\<lambda>evs. G (OE_Message r # evs)) (k5 r)) \<Longrightarrow> ensures G (O_Message b k5)"
  "(\<And>r. ensures (\<lambda>evs. G (OE_Delete d r # evs)) (k6 r)) \<Longrightarrow> ensures G (O_Delete b d k6)"
  by ((rule ensures_stepI; force simp: call_Some))+

lemma ensures_mono: "ensures G p \<Longrightarrow> (\<And>evs r. G evs r \<Longrightarrow> H evs r) \<Longrightarrow> ensures H p"
  by (simp add: ensures_def concludes_def)

lemma ensures_run: "(\<And>f. ensures G (k (Err f))) \<Longrightarrow> ensures G (future k) \<Longrightarrow> ensures G (budget_run b future k)"
  by (auto simp: budget_run_def split: sum.splits)

lemma ensures_pause:
  "(\<And>f. ensures G (k (Err f))) \<Longrightarrow> ensures G (k (Ok ())) \<Longrightarrow> ensures G (budget_pause b d k)"
  unfolding budget_pause_def
  by (intro ensures_run ensures_Sleep) (metis old.sum.exhaust old.unit.exhaust)+

lemma ensures_new: "(\<And>b. ensures G (k b)) \<Longrightarrow> ensures G (OperationBudget_new ctx k)"
  unfolding OperationBudget_new_def by blast

section \<open>Creation\<close>

text \<open>The calls after which the gateway may have a sandbox for the request, or may run the command.\<close>

fun may_have_created :: "'x oevent \<Rightarrow> bool" where
  "may_have_created (OE_Create q (Inr (Inl CTE_Conflict))) = False"
| "may_have_created (OE_Create q (Inr (Inl (CTE_NotSubmitted status)))) = False"
| "may_have_created (OE_Create q _) = True"
| "may_have_created _ = False"

fun may_have_executed :: "'x oevent \<Rightarrow> bool" where
  "may_have_executed (OE_Exec q (Inr (Inl (ETE_NotSubmitted status)))) = False"
| "may_have_executed (OE_Exec q _) = True"
| "may_have_executed _ = False"

definition created_as_requested ::
  "'x OpenShellRuntime \<Rightarrow> CreateRequest \<Rightarrow> 'x SandboxPolicy \<Rightarrow> 'x oevent list \<Rightarrow> CreatedSandbox \<Rightarrow> bool" where
  "created_as_requested R q policy evs created \<longleftrightarrow>
     (\<exists>img sandbox.
        validate_image (cr_template q) = Ok img
        \<and> parse_and_validate_policy (lib_policy (osr_lib R)) (cr_policy_document q) (cr_expected_policy q)
            (osr_allow_degraded_landlock R) = Ok policy
        \<and> last evs = OE_Create (build_create_request (osr_lib R) (roid_str (cr_request_id q)) img policy)
            (Ok (Ok \<lparr>srs_sandbox = Some sandbox\<rparr>))
        \<and> sbx_name sandbox = roid_str (cr_request_id q) \<and> sbx_id sandbox \<noteq> []
        \<and> sbx_spec sandbox = csr_spec (build_create_request (osr_lib R) (roid_str (cr_request_id q)) img policy)
        \<and> ProviderState_encode (osr_lib R) \<lparr>pvs_sandbox_id = sbx_id sandbox, pvs_normalized_policy = policy\<rparr>
            = Ok (cs_provider_handle created))
     \<and> cs_request_id created = cr_request_id q \<and> cs_expected_policy created = cr_expected_policy q"

definition create_report :: "'x OpenShellRuntime \<Rightarrow> CreateRequest \<Rightarrow> 'x oevent list \<Rightarrow> CreateFailure + CreatedSandbox \<Rightarrow> bool" where
  "create_report R q evs r \<longleftrightarrow>
     (case r of
        Inr created \<Rightarrow> evs \<noteq> [] \<and> (\<exists>policy. created_as_requested R q policy evs created)
      | Inl f \<Rightarrow> ((\<exists>e\<in>set evs. may_have_created e) \<longrightarrow> CreateFailure_state f = CS_PossiblyCreated)
          \<and> (\<forall>target. CreateFailure_cleanup_target f = Some target \<longrightarrow> target_request_id target = cr_request_id q))"

lemma check_created_report:
  assumes "validate_image (cr_template q) = Ok img"
    and "parse_and_validate_policy (lib_policy (osr_lib R)) (cr_policy_document q) (cr_expected_policy q)
            (osr_allow_degraded_landlock R) = Ok policy"
    and "q' = build_create_request (osr_lib R) (roid_str (cr_request_id q)) img policy"
  shows "create_report R q [g, OE_Create q' (Ok (Ok response))]
    (check_created R q policy (csr_spec q') response)"
proof -
  obtain sandbox where "response = \<lparr>srs_sandbox = sandbox\<rparr>"
    by (cases response) auto
  with assms show ?thesis
    by (auto simp: check_created_def Let_def create_report_def created_as_requested_def contract_defs
        split: option.splits sum.splits)
qed

lemma ensures_create: "ensures (create_report R q) (openshell_create R q ctx)"
proof -
  have pre: "create_report R q evs (Err (NotCreated code d))" "create_report R q evs (Err (Conflict code d))"
    if "\<forall>e\<in>set evs. \<not> may_have_created e" for evs code d
    using that by (auto simp: create_report_def)
  have budget: "create_report R q evs (Err (create_pre_submission_budget f))"
    if "\<forall>e\<in>set evs. \<not> may_have_created e" for evs f
    using that by (cases f) (simp_all add: create_pre_submission_budget_def pre)
  have submit: "ensures (\<lambda>evs. create_report R q (g # evs)) (submit_create R b q img policy)"
    if "validate_image (cr_template q) = Ok img" "\<not> may_have_created g"
      "parse_and_validate_policy (lib_policy (osr_lib R)) (cr_policy_document q) (cr_expected_policy q)
            (osr_allow_degraded_landlock R) = Ok policy" for g b img policy
  proof -
    let ?q = "build_create_request (osr_lib R) (roid_str (cr_request_id q)) img policy"
    have "create_report R q [g, OE_Create ?q r]
        (case r of
           Inl failure \<Rightarrow> Err (create_possibly_created_budget (CleanupTarget_new (cr_request_id q)) failure)
         | Inr (Inl CTE_Conflict) \<Rightarrow> Err (Conflict CF_Provider (detail ''gateway reported an ownership conflict''))
         | Inr (Inl (CTE_NotSubmitted status)) \<Rightarrow>
             Err (NotCreated (create_status_code status) (detail ''create transport failed before submission''))
         | Inr (Inl (CTE_PossiblySubmitted status)) \<Rightarrow>
             Err (PossiblyCreated (CleanupTarget_new (cr_request_id q)) (create_status_code status)
               (detail ''create failed after possible submission''))
         | Inr (Inr response) \<Rightarrow> check_created R q policy (csr_spec ?q) response)" for r
      using that(2) check_created_report [OF that(1,3) refl]
      by (auto simp: create_possibly_created_budget_def split: sum.split CreateTransportError.split)
        (auto simp: create_report_def)
    then show ?thesis
      unfolding submit_create_def Let_def
      by (intro ensures_run ensures_calls) (use that(2) in \<open>auto simp: create_possibly_created_budget_def create_report_def\<close>)
  qed
  show ?thesis
    unfolding openshell_create_def
    by (auto intro!: ensures_new ensures_Check ensures_run ensures_calls submit pre budget split: sum.splits)
qed


section \<open>Execution\<close>

lemma ensures_fail_expect: "is_ok x \<Longrightarrow> (\<And>f. x = Ok f \<Longrightarrow> G [] (Err f)) \<Longrightarrow> ensures G (fail_expect x)"
  by (cases x) (simp_all add: fail_expect_def)

definition possible_failure :: "CleanupTarget \<Rightarrow> ExecFailure \<Rightarrow> bool" where
  "possible_failure target f \<longleftrightarrow> valid_ExecFailure f \<and> ef_cleanup_target f = target \<and> ef_dispatch_state f = PossiblyDispatched"

lemma exec_possible_Ok:
  assumes "code \<noteq> EF_MissingTerminalExit" and "code \<noteq> EF_OutputLimitExceeded"
  shows "is_ok (exec_possible target code counts)" and "exec_possible target code counts = Ok f \<Longrightarrow> possible_failure target f"
  using assms
  by (simp_all add: exec_possible_def possibly_dispatched_ok)
    (auto simp: possible_failure_def contract_defs ExecFailure_validated_Ok_iff split: if_splits)

lemma collection_failure_Ok:
  "is_ok (collection_failure target failure)" "collection_failure target failure = Ok f \<Longrightarrow> possible_failure target f"
proof -
  show "is_ok (collection_failure target failure)"
    by (cases failure) (simp_all add: collection_failure_def exec_failure_expects exec_possible_Ok)
  show "possible_failure target f" if "collection_failure target failure = Ok f"
    using that exec_possible_Ok(2) [of EF_Protocol target]
    by (cases failure)
      (auto simp: collection_failure_def possible_failure_def contract_defs ExecFailure_validated_Ok_iff)
qed

lemma exec_codes:
  "exec_budget_code b \<noteq> EF_MissingTerminalExit" "exec_budget_code b \<noteq> EF_OutputLimitExceeded"
  "exec_status_code status \<noteq> EF_MissingTerminalExit" "exec_status_code status \<noteq> EF_OutputLimitExceeded"
  by (simp_all add: exec_budget_code_def exec_status_code_def split: BudgetFailure.split Code.split)

definition chunk_message :: "ExecTransportEvent \<Rightarrow> 'x oevent" where
  "chunk_message e = OE_Message (Ok (Ok (Some e)))"

definition end_message :: "'x oevent" where
  "end_message = OE_Message (Ok (Ok None))"

definition completion :: "CollectedOutput \<Rightarrow> ExecCompleted" where
  "completion out = ExecCompleted_new (co_exit_code out) (co_stdout out) (co_stderr out) (co_timeout out)"

definition stream_report ::
  "CleanupTarget \<Rightarrow> OutputCollector \<Rightarrow> 'x oevent list \<Rightarrow> ExecFailure + ExecCompleted \<Rightarrow> bool" where
  "stream_report target collector evs r \<longleftrightarrow>
     (case r of
        Inl f \<Rightarrow> possible_failure target f
      | Inr c \<Rightarrow> (\<exists>es out. evs = map chunk_message es @ [end_message] \<and> collect collector es = Ok out \<and> c = completion out))
     \<and> list_all (\<lambda>e. \<not> may_have_executed e) evs"

lemma stream_report_Cons:
  assumes push: "collector_push e c = (Ok (), c1)" and report: "stream_report target c1 evs r"
  shows "stream_report target c (chunk_message e # evs) r"
proof (cases r)
  case (Inr comp)
  from report [unfolded Inr] obtain es out
    where "evs = map chunk_message es @ [end_message]" "collect c1 es = Ok out" "comp = completion out"
    by (auto simp: stream_report_def)
  with push have "chunk_message e # evs = map chunk_message (e # es) @ [end_message] \<and> collect c (e # es) = Ok out
      \<and> comp = completion out"
    by simp
  then have "\<exists>es out. chunk_message e # evs = map chunk_message es @ [end_message] \<and> collect c es = Ok out
      \<and> comp = completion out"
    by blast
  with Inr report show ?thesis
    by (simp add: stream_report_def chunk_message_def)
qed (use report in \<open>simp add: stream_report_def chunk_message_def\<close>)

lemma stream_report_Err: "stream_report target c evs (Err f) \<longleftrightarrow> possible_failure target f \<and> list_all (\<lambda>e. \<not> may_have_executed e) evs"
  by (simp add: stream_report_def)

lemma ensures_failed_stream:
  assumes "list_all (\<lambda>e. \<not> may_have_executed e) evs0"
  shows "code \<noteq> EF_MissingTerminalExit \<Longrightarrow> code \<noteq> EF_OutputLimitExceeded \<Longrightarrow>
      ensures (\<lambda>evs. stream_report target c (evs0 @ evs)) (fail_expect (exec_possible target code counts))"
    and "ensures (\<lambda>evs. stream_report target c (evs0 @ evs)) (fail_expect (collection_failure target failure))"
  using assms
  by (auto intro!: ensures_fail_expect exec_possible_Ok collection_failure_Ok(1) dest: collection_failure_Ok(2)
      simp: stream_report_Err)

lemma ensures_message_loop:
  "ensures (stream_report target c) (message_loop fuel b target c :: ('x, ExecFailure + ExecCompleted) oprog)"
proof (induction fuel arbitrary: c)
  case (Suc fuel)
  note failed = ensures_failed_stream [of "[OE_Message _]", simplified]
  have "ensures (\<lambda>evs. stream_report target c (OE_Message r # evs)) (case r of
       Inl failure \<Rightarrow> fail_expect (exec_possible target (exec_budget_code failure) (oc_counts c))
     | Inr (Inl status) \<Rightarrow> fail_expect (exec_possible target (exec_status_code status) (oc_counts c))
     | Inr (Inr None) \<Rightarrow>
         (case collector_finish c of
            Inl failure \<Rightarrow> fail_expect (collection_failure target failure)
          | Inr out \<Rightarrow> O_Return (Ok (ExecCompleted_new (co_exit_code out) (co_stdout out) (co_stderr out) (co_timeout out))))
     | Inr (Inr (Some event)) \<Rightarrow>
         (case collector_push event c of
            (Inl failure, _) \<Rightarrow> fail_expect (collection_failure target failure)
          | (Inr _, c1) \<Rightarrow> (message_loop fuel b target c1 :: ('x, ExecFailure + ExecCompleted) oprog)))" for r
  proof (cases "\<exists>event c1. r = Ok (Ok (Some event)) \<and> collector_push event c = (Ok (), c1)")
    case True
    then obtain event c1 where r: "r = Ok (Ok (Some event))" "collector_push event c = (Ok (), c1)"
      by blast
    note ensures_mono [OF Suc.IH [of c1], of "\<lambda>evs. stream_report target c (chunk_message event # evs)",
        OF stream_report_Cons [OF r(2)]]
    with r show ?thesis
      by (simp add: chunk_message_def)
  next
    case False
    have "stream_report target c [OE_Message (Ok (Ok None))] (Ok (completion out))" if "collector_finish c = Ok out" for out
      using that by (auto simp: stream_report_def end_message_def intro!: exI [of _ "[]"] exI [of _ out])
    with False show ?thesis
      by (auto simp: failed exec_codes completion_def split: sum.split option.split prod.split)
  qed
  then show ?case
    by (auto intro!: ensures_run ensures_calls ensures_failed_stream(1) [of "[]", simplified] simp: exec_codes)
qed simp

definition executed_as_requested ::
  "'x OpenShellRuntime \<Rightarrow> ReadySandbox \<Rightarrow> ExecRequest \<Rightarrow> 'x oevent list \<Rightarrow> ExecCompleted \<Rightarrow> bool" where
  "executed_as_requested R ready q evs c \<longleftrightarrow>
     limits_within_process_ceiling (er_output_limits q)
     \<and> (\<exists>provider es out. ProviderState_decode (osr_lib R) (rs_provider_handle ready) = Ok provider
          \<and> evs = OE_Exec (build_exec_request (osr_lib R) (pvs_sandbox_id provider) q) (Ok (Ok ()))
              # map chunk_message es @ [end_message]
          \<and> collect (OutputCollector_new (er_output_limits q)) es = Ok out \<and> c = completion out)"

definition exec_report ::
  "'x OpenShellRuntime \<Rightarrow> ReadySandbox \<Rightarrow> ExecRequest \<Rightarrow> 'x oevent list \<Rightarrow> ExecFailure + ExecCompleted \<Rightarrow> bool" where
  "exec_report R ready q evs r \<longleftrightarrow>
     (case r of
        Inr c \<Rightarrow> executed_as_requested R ready q evs c
      | Inl f \<Rightarrow> valid_ExecFailure f \<and> target_request_id (ef_cleanup_target f) = rs_request_id ready
          \<and> ((\<exists>e\<in>set evs. may_have_executed e) \<longrightarrow> ef_dispatch_state f = PossiblyDispatched))
     \<and> length (filter may_have_executed evs) \<le> 1"

lemma not_dispatched_Ok:
  "ExecFailure_not_dispatched target code d = Ok f \<Longrightarrow> valid_ExecFailure f \<and> ef_cleanup_target f = target"
  by (auto simp: contract_defs ExecFailure_validated_Ok_iff split: if_splits)

lemma stream_exec_report:
  assumes "stream_report (ReadySandbox_cleanup_target ready) (OutputCollector_new (er_output_limits q)) evs r"
    and "ProviderState_decode (osr_lib R) (rs_provider_handle ready) = Ok provider"
    and "limits_within_process_ceiling (er_output_limits q)"
  shows "exec_report R ready q
    (OE_Exec (build_exec_request (osr_lib R) (pvs_sandbox_id provider) q) (Ok (Ok ())) # evs) r"
proof -
  have "filter may_have_executed evs = []"
    using assms(1) by (auto simp: stream_report_def list_all_iff filter_empty_conv)
  with assms show ?thesis
    by (cases r) (auto simp: exec_report_def stream_report_def executed_as_requested_def possible_failure_def
        ReadySandbox_cleanup_target_def)
qed

lemma ensures_exec: "ensures (exec_report R ready q) (openshell_exec fuel R ready q ctx)"
proof -
  let ?target = "ReadySandbox_cleanup_target ready"
  have not_sent: "ensures (\<lambda>evs. exec_report R ready q (evs0 @ evs)) (fail_expect (ExecFailure_not_dispatched ?target code d))"
    if "code \<noteq> EF_MissingTerminalExit" "code \<noteq> EF_OutputLimitExceeded" "list_all (\<lambda>e. \<not> may_have_executed e) evs0"
    for evs0 code d
    using that(3) by (auto intro!: ensures_fail_expect simp: not_dispatched_ok that(1,2) dest!: not_dispatched_Ok)
      (auto simp: exec_report_def list_all_iff ReadySandbox_cleanup_target_def filter_False)
  have maybe_sent: "ensures (\<lambda>evs. exec_report R ready q (evs0 @ evs)) (fail_expect (exec_possible ?target code counts))"
    if "code \<noteq> EF_MissingTerminalExit" "code \<noteq> EF_OutputLimitExceeded" "length evs0 \<le> 1" for evs0 code counts
    using that
    by (auto intro!: ensures_fail_expect exec_possible_Ok(1) dest!: exec_possible_Ok(2) [rotated 2]
        simp: exec_report_def possible_failure_def ReadySandbox_cleanup_target_def
        intro: order_trans [OF length_filter_le])
  note not_sent = not_sent [of _ "[]", simplified] not_sent [of _ "[OE_Exec _ (Ok (Err (ETE_NotSubmitted _)))]", simplified]
  note maybe_sent = maybe_sent [of _ "[]", simplified] maybe_sent [of _ "[OE_Exec _ _]", simplified]
  show ?thesis
    unfolding openshell_exec_def Let_def
    by (auto intro!: ensures_new ensures_Check ensures_run ensures_calls not_sent maybe_sent
        ensures_mono [OF ensures_message_loop stream_exec_report]
        simp: exec_codes split: sum.split ExecTransportError.split)
qed

section \<open>Readiness and deletion\<close>

definition policy_attested ::
  "'x OpenShellRuntime \<Rightarrow> 'x ProviderState \<Rightarrow> u32 \<Rightarrow> 'x GetSandboxPolicyStatusResponse \<Rightarrow> bool" where
  "policy_attested R provider version response \<longleftrightarrow>
     psr_active_version response = version
     \<and> (\<exists>revision. psr_revision response = Some revision \<and> rev_version revision = version
          \<and> lib_policy_status (osr_lib R) (rev_status revision) = Some PS_Loaded
          \<and> 0 < sint (rev_loaded_at_ms revision) \<and> rev_policy revision = Some (pvs_normalized_policy provider)
          \<and> rev_policy_hash revision
              = deterministic_policy_hash (lib_policy (osr_lib R)) (pvs_normalized_policy provider))"

text \<open>The two answers on which readiness rests, in their order.\<close>

definition attesting ::
  "'x OpenShellRuntime \<Rightarrow> CreatedSandbox \<Rightarrow> PolicyIdentity \<Rightarrow> 'x ProviderState \<Rightarrow> 'x oevent list \<Rightarrow> bool" where
  "attesting R created expected provider es \<longleftrightarrow>
     (\<exists>sandbox status response. es =
          [OE_Get (build_get_request (roid_str (cs_request_id created))) (Ok (Ok \<lparr>srs_sandbox = Some sandbox\<rparr>)),
           OE_PolicyStatus (build_policy_status_request (roid_str (cs_request_id created))
             (sst_current_policy_version status)) (Ok (Ok response))]
        \<and> sbx_name sandbox = roid_str (cs_request_id created) \<and> sbx_id sandbox = pvs_sandbox_id provider
        \<and> sbx_status sandbox = Some status \<and> lib_phase (osr_lib R) (sst_phase status) = Some SP_Ready
        \<and> sst_current_policy_version status = sp_version (pvs_normalized_policy provider)
        \<and> unat (sst_current_policy_version status) = unat (policy_version expected)
        \<and> policy_attested R provider (sst_current_policy_version status) response)"

definition ready_as_attested ::
  "'x OpenShellRuntime \<Rightarrow> CreatedSandbox \<Rightarrow> PolicyIdentity \<Rightarrow> 'x ProviderState \<Rightarrow> 'x oevent list \<Rightarrow> ReadySandbox \<Rightarrow> bool" where
  "ready_as_attested R created expected provider evs ready \<longleftrightarrow>
     cs_expected_policy created = expected \<and> rs_active_policy ready = expected
     \<and> rs_request_id ready = cs_request_id created \<and> rs_provider_handle ready = cs_provider_handle created
     \<and> (\<exists>earlier es. evs = earlier @ es \<and> attesting R created expected provider es)"

definition ready_report ::
  "'x OpenShellRuntime \<Rightarrow> CreatedSandbox \<Rightarrow> PolicyIdentity \<Rightarrow> 'x ProviderState \<Rightarrow> 'x oevent list \<Rightarrow>
   ReadinessFailure + ReadySandbox \<Rightarrow> bool" where
  "ready_report R created expected provider evs r \<longleftrightarrow>
     (case r of
        Inl f \<Rightarrow> target_request_id (rf_cleanup_target f) = cs_request_id created
      | Inr ready \<Rightarrow> ready_as_attested R created expected provider evs ready)"

lemma ready_report_later:
  assumes "ready_report R created expected provider evs r"
  shows "ready_report R created expected provider (before @ evs) r"
proof (cases r)
  case (Inr ready)
  have "\<exists>earlier es. evs = earlier @ es \<and> attesting R created expected provider es \<Longrightarrow>
      \<exists>earlier es. before @ evs = earlier @ es \<and> attesting R created expected provider es"
    by (metis append.assoc)
  with assms Inr show ?thesis
    by (simp add: ready_report_def ready_as_attested_def)
qed (use assms in \<open>simp add: ready_report_def\<close>)

lemma readiness_targets [simp]:
  "rf_cleanup_target (readiness_budget t f) = t" "rf_cleanup_target (readiness_status t st) = t"
  "rf_cleanup_target (ReadinessFailure_new t c d) = t"
  by (simp_all add: readiness_budget_def readiness_status_def contract_defs)

lemma ready_report_Err [simp]:
  "ready_report R created expected provider evs (Err f) \<longleftrightarrow> target_request_id (rf_cleanup_target f) = cs_request_id created"
  by (simp add: ready_report_def)

lemma ensures_ready_error:
  "target_request_id t = cs_request_id created \<Longrightarrow>
   ensures (\<lambda>evs. ready_report R created expected provider (before @ evs)) (readiness_error t code m)"
  by (simp add: readiness_error_def)

lemma ensures_ready_pause:
  assumes "target_request_id t = cs_request_id created"
    and "ensures (ready_report R created expected provider) k"
  shows "ensures (\<lambda>evs. ready_report R created expected provider (before @ evs)) (pause R' b t k)"
  using assms(1) ensures_mono [OF assms(2) ready_report_later]
  by (auto simp: pause_def intro!: ensures_pause)

lemma ensures_policy_is_loaded:
  fixes R :: "'x OpenShellRuntime"
  assumes t: "target_request_id t = cs_request_id created"
    and no: "ensures (ready_report R created expected provider) (k False)"
    and yes: "\<And>response. policy_attested R provider version response \<Longrightarrow> ensures (\<lambda>evs. ready_report R created expected provider
      (before @ OE_PolicyStatus (build_policy_status_request name version) (Ok (Ok response)) # evs)) (k True)"
  shows "ensures (\<lambda>evs. ready_report R created expected provider (before @ evs))
    (policy_is_loaded R b name provider version t k)"
proof -
  note error = ensures_ready_error [OF t, where before = "before @ [_]", simplified]
  note paused = ensures_ready_pause [OF t no, where before = "before @ [_]", simplified]
  note again = ensures_mono [OF no ready_report_later [where before = "before @ [_]", simplified]]
  define answered :: "BudgetFailure + (Status + 'x GetSandboxPolicyStatusResponse) \<Rightarrow>
      ('x, ReadinessFailure + ReadySandbox) oprog" where "answered result =
    (case result of
       Inl failure \<Rightarrow> O_Return (Err (readiness_budget t failure))
     | Inr (Inl status) \<Rightarrow>
         if status_code status = Code_NotFound then pause R b t (k False)
         else O_Return (Err (readiness_status t status))
     | Inr (Inr response) \<Rightarrow>
         (case psr_revision response of
            None \<Rightarrow> readiness_error t RF_Protocol ''policy status omitted revision''
          | Some revision \<Rightarrow>
              if rev_version revision \<noteq> version \<or> psr_active_version response \<noteq> version
              then readiness_error t RF_PolicyMismatch ''policy status version mismatch''
              else case lib_policy_status (osr_lib R) (rev_status revision) of
                     None \<Rightarrow> readiness_error t RF_Protocol ''policy status used unknown state''
                   | Some PS_Pending \<Rightarrow> k False
                   | Some PS_Loaded \<Rightarrow>
                       if sint (rev_loaded_at_ms revision) \<le> 0
                          \<or> rev_policy revision \<noteq> Some (pvs_normalized_policy provider)
                          \<or> rev_policy_hash revision
                              \<noteq> deterministic_policy_hash (lib_policy (osr_lib R)) (pvs_normalized_policy provider)
                       then readiness_error t RF_PolicyMismatch ''loaded policy content mismatch''
                       else k True
                   | Some _ \<Rightarrow> readiness_error t RF_PolicyMismatch ''expected policy was not loaded''))" for result
  have "ensures (\<lambda>evs. ready_report R created expected provider
      (before @ OE_PolicyStatus (build_policy_status_request name version) result # evs)) (answered result)" for result
  proof (cases "\<exists>response. result = Ok (Ok response) \<and> policy_attested R provider version response")
    case True
    then obtain response where r: "result = Ok (Ok response)" "policy_attested R provider version response"
      by blast
    then have "answered result = k True"
      by (auto simp: answered_def policy_attested_def)
    with yes [OF r(2)] r(1) show ?thesis
      by simp
  next
    case False
    then show ?thesis
      by (auto intro!: error paused again simp: answered_def policy_attested_def t
          split: sum.split option.split PolicyStatus.split)
  qed
  then show ?thesis
    unfolding policy_is_loaded_def answered_def
    by (auto intro!: ensures_run ensures_calls simp: t)
qed

lemma ensures_ready_pass:
  assumes again: "ensures (ready_report R created expected provider) again"
  shows "ensures (ready_report R created expected provider) (ready_pass R b created expected provider again)"
proof -
  let ?t = "CreatedSandbox_cleanup_target created"
  have t: "target_request_id ?t = cs_request_id created"
    by (simp add: contract_defs)
  note error = ensures_ready_error [OF t, where before = "[_]", simplified]
  note paused = ensures_ready_pause [OF t again, where before = "[_]", simplified]
    ensures_ready_pause [OF t again, where before = "[]", simplified]
  have loaded: "ensures (\<lambda>evs. ready_report R created expected provider (OE_Get (build_get_request (roid_str (cs_request_id created)))
        (Ok (Ok response)) # OE_PolicyStatus (build_policy_status_request (roid_str (cs_request_id created))
             (sst_current_policy_version status)) (Ok (Ok answer)) # evs))
      (case ReadySandbox_attest created expected expected of
         Inl x \<Rightarrow> readiness_error ?t RF_PolicyMismatch ''policy attestation transition failed''
       | Inr ready \<Rightarrow> O_Return (Ok ready))"
    if "srs_sandbox response = Some sandbox" "sbx_name sandbox = roid_str (cs_request_id created)"
      "sbx_id sandbox = pvs_sandbox_id provider" "sbx_status sandbox = Some status"
      "lib_phase (osr_lib R) (sst_phase status) = Some SP_Ready"
      "sst_current_policy_version status = sp_version (pvs_normalized_policy provider)"
      "(ucast (sst_current_policy_version status) :: u64) = policy_version expected"
      "policy_attested R provider (sst_current_policy_version status) answer"
    for response sandbox status answer
  proof (cases "ReadySandbox_attest created expected expected")
    case (Inr ready)
    have "response = \<lparr>srs_sandbox = Some sandbox\<rparr>"
      using that(1) by (cases response) simp
    moreover have "unat (sst_current_policy_version status) = unat (policy_version expected)"
      unfolding that(7) [symmetric] by (simp add: unat_ucast_u32)
    ultimately have "attesting R created expected provider
        [OE_Get (build_get_request (roid_str (cs_request_id created))) (Ok (Ok response)),
         OE_PolicyStatus (build_policy_status_request (roid_str (cs_request_id created))
             (sst_current_policy_version status)) (Ok (Ok answer))]"
      using that unfolding attesting_def by blast
    then have "ready_as_attested R created expected provider
        [OE_Get (build_get_request (roid_str (cs_request_id created))) (Ok (Ok response)),
         OE_PolicyStatus (build_policy_status_request (roid_str (cs_request_id created))
             (sst_current_policy_version status)) (Ok (Ok answer))] ready"
      using Inr unfolding ready_as_attested_def ReadySandbox_attest_Ok_iff by (metis append_Nil)
    then show ?thesis
      by (simp add: Inr ready_report_def)
  qed (simp add: readiness_error_def t)
  define attest where "attest = (\<lambda>loaded. if loaded then
       (case ReadySandbox_attest created expected expected of
          Inl x \<Rightarrow> readiness_error ?t RF_PolicyMismatch ''policy attestation transition failed''
        | Inr ready \<Rightarrow> O_Return (Ok ready))
     else pause R b ?t again)"
  have no: "ensures (ready_report R created expected provider) (attest False)"
    by (simp add: attest_def paused)
  have pass: "ensures (\<lambda>evs. ready_report R created expected provider
        (OE_Get (build_get_request (roid_str (cs_request_id created))) (Ok (Ok response)) # evs))
      (policy_is_loaded R b (roid_str (cs_request_id created)) provider (sp_version (pvs_normalized_policy provider)) ?t attest)"
    if "srs_sandbox response = Some sandbox" "sbx_name sandbox = roid_str (cs_request_id created)"
      "sbx_id sandbox = pvs_sandbox_id provider" "sbx_status sandbox = Some status"
      "lib_phase (osr_lib R) (sst_phase status) = Some SP_Ready"
      "sst_current_policy_version status = sp_version (pvs_normalized_policy provider)"
      "(ucast (sp_version (pvs_normalized_policy provider)) :: u64) = policy_version expected"
    for response sandbox status
    using loaded [OF that(1-6)] that(6,7)
    by (intro ensures_policy_is_loaded [OF t, where k = attest and before = "[_]", simplified, OF no]) (simp add: attest_def)
  show ?thesis
    unfolding ready_pass_def Let_def attest_def [symmetric]
    by (auto intro!: ensures_run ensures_calls error paused pass simp: t split: sum.split option.split SandboxPhase.split)
qed

definition wait_ready_report ::
  "'x OpenShellRuntime \<Rightarrow> CreatedSandbox \<Rightarrow> PolicyIdentity \<Rightarrow> 'x oevent list \<Rightarrow> ReadinessFailure + ReadySandbox \<Rightarrow> bool" where
  "wait_ready_report R created expected evs r \<longleftrightarrow>
     (case r of
        Inl f \<Rightarrow> target_request_id (rf_cleanup_target f) = cs_request_id created
      | Inr ready \<Rightarrow> (\<exists>provider. ProviderState_decode (osr_lib R) (cs_provider_handle created) = Ok provider
          \<and> ready_as_attested R created expected provider evs ready))"

lemma ensures_wait_ready:
  "ensures (wait_ready_report R created expected) (openshell_wait_ready fuel R created expected ctx)"
proof -
  have loop: "ensures (ready_report R created expected provider) (ready_loop fuel R b created expected provider)" for provider b
    by (induction fuel) (simp_all add: ensures_ready_pass)
  have "ensures (wait_ready_report R created expected) (ready_loop fuel R b created expected provider)"
    if "ProviderState_decode (osr_lib R) (cs_provider_handle created) = Ok provider" for provider b
  proof (rule ensures_mono [OF loop])
    show "wait_ready_report R created expected evs r" if "ready_report R created expected provider evs r" for evs r
      using that \<open>ProviderState_decode (osr_lib R) (cs_provider_handle created) = Ok provider\<close>
      by (cases r) (simp_all add: wait_ready_report_def ready_report_def)
  qed
  then show ?thesis
    by (auto intro!: ensures_new simp: openshell_wait_ready_def Let_def wait_ready_report_def readiness_error_def
        CreatedSandbox_cleanup_target_def split: sum.split)
qed

definition absent_status :: "Status + 'a \<Rightarrow> bool" where
  "absent_status r \<longleftrightarrow> (\<exists>status. r = Err status \<and> status_code status = Code_NotFound)"

definition delete_report :: "CleanupTarget \<Rightarrow> 'x oevent list \<Rightarrow> CleanupFailure + DeleteOutcome \<Rightarrow> bool" where
  "delete_report target evs r \<longleftrightarrow>
     (case r of
        Inl f \<Rightarrow> cuf_cleanup_target f = target
      | Inr outcome \<Rightarrow>
          (\<exists>answer. evs = [OE_Delete (build_delete_request (roid_str (target_request_id target))) (Ok answer)]
             \<and> (outcome = AlreadyAbsent \<longleftrightarrow> absent_status answer)
             \<and> (outcome = Deleted \<longleftrightarrow> (\<exists>response. answer = Ok response \<and> dsr_deleted response))))"

definition absence_report :: "CleanupTarget \<Rightarrow> 'x oevent list \<Rightarrow> CleanupFailure + unit \<Rightarrow> bool" where
  "absence_report target evs r \<longleftrightarrow>
     (case r of
        Inl f \<Rightarrow> cuf_cleanup_target f = target
      | Inr _ \<Rightarrow> (\<exists>earlier answer. evs = earlier
          @ [OE_Get (build_get_request (roid_str (target_request_id target))) (Ok answer)] \<and> absent_status answer))"

lemma cleanup_targets [simp]:
  "cuf_cleanup_target (cleanup_budget t f) = t" "cuf_cleanup_target (cleanup_status t st) = t"
  "cuf_cleanup_target (CleanupFailure_new t c d) = t"
  by (simp_all add: cleanup_budget_def cleanup_status_def contract_defs)

lemma ensures_delete: "ensures (delete_report target) (openshell_delete target ctx)"
  unfolding openshell_delete_def
  by (auto intro!: ensures_new ensures_Check ensures_run ensures_calls simp: delete_report_def absent_status_def
      split: sum.split)

lemma absence_report_later: "absence_report t evs r \<Longrightarrow> absence_report t (e # evs) r"
proof (cases r)
  case (Inr u)
  have "\<exists>earlier answer. evs = earlier @ [OE_Get g (Ok answer)] \<and> absent_status answer \<Longrightarrow>
      \<exists>earlier answer. e # evs = earlier @ [OE_Get g (Ok answer)] \<and> absent_status answer" for g
    by (metis append_Cons)
  then show "absence_report t evs r \<Longrightarrow> absence_report t (e # evs) r"
    by (simp add: absence_report_def Inr)
qed (simp add: absence_report_def)

lemma ensures_wait_deleted: "ensures (absence_report target) (openshell_wait_deleted fuel R target ctx)"
proof -
  have "ensures (absence_report target) (deleted_loop fuel R b target)" for b
  proof (induction fuel)
    case (Suc fuel)
    note later = ensures_mono [OF Suc absence_report_later]
    show ?case
      by (auto intro!: ensures_run ensures_calls ensures_pause later split: sum.split)
        (auto simp: absence_report_def absent_status_def)
  qed simp
  then show ?thesis
    by (auto simp: openshell_wait_deleted_def intro!: ensures_new)
qed

section \<open>Time\<close>

text \<open>A program at a time never runs out of fuel.\<close>

definition fuelled :: "clock \<Rightarrow> ('x, 'r) oprog \<Rightarrow> bool" where
  "fuelled s p \<longleftrightarrow> holds ostep (\<lambda>evs s' p'. p' \<noteq> O_Exhausted) s p"

lemma fuelledD: "fuelled s p \<Longrightarrow> reaches ostep s p evs s' p' \<Longrightarrow> p' \<noteq> O_Exhausted"
  by (simp add: fuelled_def holds_def)

lemma fuelled_stepI:
  assumes "p \<noteq> O_Exhausted" and "\<And>a ev s1 p1. ostep p a s = Some (ev, s1, p1) \<Longrightarrow> fuelled s1 p1"
  shows "fuelled s p"
  using assms unfolding fuelled_def by (subst holds_unfold) blast

lemma fuelled_end [simp]: "fuelled s (O_Return r)" "fuelled s O_Panic" "\<not> fuelled s O_Exhausted"
  by (auto simp: fuelled_def holds_def reaches_end)

lemma now_advance [simp]: "ck_now (advance a s) = ck_now s + oa_elapsed a"
  by (simp add: advance_def)

lemma fuelled_calls:
  "(\<And>s1 r. ck_now s \<le> ck_now s1 \<Longrightarrow> fuelled s1 (k1 r)) \<Longrightarrow> fuelled s (O_Get b q k1)"
  "(\<And>s1 r. ck_now s \<le> ck_now s1 \<Longrightarrow> fuelled s1 (k2 r)) \<Longrightarrow> fuelled s (O_PolicyStatus b q' k2)"
  by (rule fuelled_stepI; auto simp: call_Some)+

lemma fuelled_run:
  assumes "\<And>s1 f. ck_now s \<le> ck_now s1 \<Longrightarrow> fuelled s1 (k (Err f))"
    and "\<And>s1. ck_now s \<le> ck_now s1 \<Longrightarrow> ck_now s1 < bg_deadline b \<Longrightarrow> fuelled s1 (future k)"
  shows "fuelled s (budget_run b future k)"
  unfolding budget_run_def using assms
  by (rule_tac fuelled_stepI) (auto simp: budget_check_def Let_def)

lemma fuelled_pause:
  assumes "\<And>s1 f. fuelled s1 (k (Err f))" and "\<And>s1. ck_now s + d \<le> ck_now s1 \<Longrightarrow> fuelled s1 (k (Ok ()))"
  shows "fuelled s (budget_pause b d k)"
  unfolding budget_pause_def
proof (rule fuelled_run)
  fix s1 :: clock
  assume "ck_now s \<le> ck_now s1"
  then show "fuelled s1 (O_Sleep b d k)"
    using assms by (rule_tac fuelled_stepI) (auto simp: call_Some settle_def Let_def split: if_splits)
qed (use assms in auto)

lemma fuelled_new:
  "(\<And>s1. fuelled s1 (k \<lparr>bg_deadline = ck_now s1 + od_duration (oc_deadline ctx)\<rparr>)) \<Longrightarrow> fuelled s (OperationBudget_new ctx k)"
  unfolding OperationBudget_new_def
  by (rule fuelled_stepI) (auto simp: Let_def simp del: now_advance)

text \<open>The fuel of a polling loop covers the deadline: one pass for each interval, and one more.\<close>

definition covers :: "nat \<Rightarrow> duration \<Rightarrow> OperationBudget \<Rightarrow> clock \<Rightarrow> bool" where
  "covers fuel poll b s \<longleftrightarrow> 0 < fuel \<and> bg_deadline b \<le> ck_now s + (fuel - 1) * poll"

lemma covers_later:
  assumes "covers (Suc fuel) poll b s" and "ck_now s1 < bg_deadline b" and "ck_now s \<le> ck_now s1"
    and "ck_now s1 + poll \<le> ck_now s2"
  shows "covers fuel poll b s2"
  using assms by (cases fuel) (auto simp: covers_def)

lemma fuelled_deleted_loop: "covers fuel (osr_poll_interval R) b s \<Longrightarrow> fuelled s (deleted_loop fuel R b target)"
proof (induction fuel arbitrary: s)
  case (Suc fuel)
  show ?case
    unfolding deleted_loop.simps
  proof (rule fuelled_run)
    fix s1 :: clock
    assume s1: "ck_now s \<le> ck_now s1" "ck_now s1 < bg_deadline b"
    have "fuelled s2 (deleted_loop fuel R b target)" if "ck_now s1 + osr_poll_interval R \<le> ck_now s2" for s2
      using Suc.IH covers_later [OF Suc.prems s1(2,1) that] .
    then show "fuelled s1 (O_Get b (build_get_request (roid_str (target_request_id target))) (\<lambda>result. case result of
       Inl failure \<Rightarrow> O_Return (Err (cleanup_budget target failure))
     | Inr (Inl status) \<Rightarrow>
         if status_code status = Code_NotFound then O_Return (Ok ()) else O_Return (Err (cleanup_status target status))
     | Inr (Inr _) \<Rightarrow>
         budget_pause b (osr_poll_interval R) (\<lambda>paused. case paused of
           Inl failure \<Rightarrow> O_Return (Err (cleanup_budget target failure))
         | Inr _ \<Rightarrow> deleted_loop fuel R b target)))"
      by (auto intro!: fuelled_calls fuelled_pause split: sum.split)
  qed simp
qed (simp add: covers_def)

lemma fuelled_ready_pause:
  "(\<And>s1. ck_now s + osr_poll_interval R \<le> ck_now s1 \<Longrightarrow> fuelled s1 k) \<Longrightarrow> fuelled s (pause R b t k)"
  unfolding pause_def by (rule fuelled_pause) (auto split: sum.split)

lemma fuelled_error [simp]: "fuelled s (readiness_error t code m)"
  by (simp add: readiness_error_def)

lemma fuelled_policy_is_loaded:
  assumes "\<And>s1 loaded. ck_now s \<le> ck_now s1 \<Longrightarrow> fuelled s1 (k loaded)"
  shows "fuelled s (policy_is_loaded R b name provider version t k)"
  unfolding policy_is_loaded_def
  by (rule fuelled_run)
    (auto intro!: fuelled_calls fuelled_ready_pause assms split: sum.split option.split PolicyStatus.split)

lemma fuelled_ready_loop: "covers fuel (osr_poll_interval R) b s \<Longrightarrow> fuelled s (ready_loop fuel R b created expected provider)"
proof (induction fuel arbitrary: s)
  case (Suc fuel)
  show ?case
    unfolding ready_loop.simps ready_pass_def Let_def
  proof (rule fuelled_run, goal_cases)
    case (2 s1)
    have again: "fuelled s2 (ready_loop fuel R b created expected provider)"
      if "ck_now s1 + osr_poll_interval R \<le> ck_now s2" for s2 :: clock
      using Suc.IH covers_later [OF Suc.prems 2(2,1) that] .
    show ?case
      by (rule fuelled_calls)
        (auto intro!: fuelled_ready_pause fuelled_policy_is_loaded again
          split: sum.split option.split SandboxPhase.split)
  qed simp
qed (simp add: covers_def)

text \<open>How long a silent gateway can hold an action.\<close>

fun patience :: "('x, 'r) oprog \<Rightarrow> duration" where
  "patience (O_Sleep b d k) = d + bg_deadline b"
| "patience (O_Create b q k) = bg_deadline b"
| "patience (O_Get b g k) = bg_deadline b"
| "patience (O_PolicyStatus b p k) = bg_deadline b"
| "patience (O_Exec b e k) = bg_deadline b"
| "patience (O_Message b k) = bg_deadline b"
| "patience (O_Delete b d k) = bg_deadline b"
| "patience _ = 0"

lemma settle_late: "bg_deadline b \<le> oa_elapsed a \<Longrightarrow> \<exists>y. settle b (advance a s) r = Some y"
  by (auto simp: settle_def split: option.split)

lemma silent_progress:
  assumes "\<And>r. p \<noteq> O_Return r" and "p \<noteq> O_Panic" and "p \<noteq> O_Exhausted"
  shows "ostep p \<lparr>oa_elapsed = patience p, oa_cancel = False, oa_reply = None\<rparr> s \<noteq> None"
  using assms by (cases p) (auto simp: call_def Let_def intro!: settle_late)

section \<open>Properties\<close>

text \<open>An instance of the library parameters, for concrete runs.\<close>

definition sample_policy :: "unit SandboxPolicy" where
  "sample_policy = \<lparr>sp_version = 1,
     sp_filesystem = Some \<lparr>fsp_include_workdir = False, fsp_read_only = [''/usr''], fsp_read_write = [''/sandbox'']\<rparr>,
     sp_landlock = Some \<lparr>llp_compatibility = ''hard_requirement'', llp_rest = ()\<rparr>,
     sp_process = Some \<lparr>prp_run_as_user = ''sandbox'', prp_run_as_group = ''sandbox'', prp_rest = ()\<rparr>,
     sp_network_policies = fmempty, sp_network_middlewares = fmempty\<rparr>"

definition sample_lib :: "unit openshell_lib" where
  "sample_lib =
     \<lparr>lib_policy = \<lparr>pl_parse_sandbox_policy = \<lambda>_. Some sample_policy, pl_normalize_path = id, pl_sha256 = \<lambda>_. [],
        pl_encode_filesystem = \<lambda>_. [], pl_encode_landlock = \<lambda>_. [], pl_encode_process = \<lambda>_. [],
        pl_encode_rule = \<lambda>_. [], pl_encode_middleware = \<lambda>_. []\<rparr>,
      lib_default = (), lib_phase = \<lambda>n. if n = 2 then Some SP_Ready else None,
      lib_policy_status = \<lambda>n. if n = 2 then Some PS_Loaded else None,
      lib_encode_policy = \<lambda>_. [1], lib_decode_policy = \<lambda>_. Some sample_policy,
      lib_encode_state = \<lambda>_. [1], lib_decode_state = \<lambda>_. Some \<lparr>eps_sandbox_id = ''id'', eps_normalized_policy = [1]\<rparr>\<rparr>"

definition sample_runtime :: "unit OpenShellRuntime" where
  "sample_runtime = \<lparr>osr_lib = sample_lib, osr_poll_interval = 2, osr_allow_degraded_landlock = False\<rparr>"

definition sample_context :: "unit OperationContext" where
  "sample_context = \<lparr>oc_cancellation = (), oc_deadline = OperationDeadline 10\<rparr>"

definition sample_identity :: PolicyIdentity where
  "sample_identity = \<lparr>policy_id = ''p'', policy_version = 1, policy_sha256 = Sha256Digest []\<rparr>"

definition sample_start :: clock where
  "sample_start = \<lparr>ck_now = 0, ck_cancelled = False\<rparr>"

definition quick :: "'x reply option \<Rightarrow> 'x oanswer" where
  "quick reply = \<lparr>oa_elapsed = 1, oa_cancel = False, oa_reply = reply\<rparr>"

lemmas sample_defs = sample_runtime_def sample_context_def sample_identity_def sample_start_def sample_lib_def
  quick_def advance_def budget_check_def call_def settle_def OperationBudget_new_def budget_run_def

text \<open>
  C20. The outcome of \<open>create\<close> is truthful: it never panics; when the gateway may have a sandbox for the
  request the failure says so and names the request's identifier for cleanup; a created sandbox is one
  that the gateway returned, in its last answer, for exactly the requested name, image and confined
  policy, and the handle keeps its identity and that policy.
\<close>

theorem openshell_create_truthful:
  assumes "reaches ostep s (openshell_create R q ctx) evs s' p"
  shows "p \<noteq> O_Panic \<and> (\<forall>r. p = O_Return r \<longrightarrow> create_report R q evs r)"
  by (rule ensures_reached [OF ensures_create assms])

definition sample_create :: CreateRequest where
  "sample_create = \<lparr>cr_request_id = RequestOwnedId ''sbx-0'',
     cr_template = TemplateIdentity (''r'' @ ''@sha256:'' @ replicate 64 CHR ''a''),
     cr_policy_document = \<lparr>doc_media_type = ''application/yaml'', doc_bytes = []\<rparr>,
     cr_expected_policy = sample_identity\<rparr>"

lemma sample_image: "validate_image (cr_template sample_create) = Ok (''r'' @ ''@sha256:'' @ replicate 64 CHR ''a'')"
proof -
  have "rsplit_once_str ''@sha256:'' (''r'' @ ''@sha256:'' @ replicate 64 CHR ''a'') = Some (''r'', replicate 64 CHR ''a'')"
    using rsplit_once_str_unique [of "CHR ''@''" "''sha256:''" "replicate 64 CHR ''a''" "''r''"] by simp
  moreover have "\<not> has_whitespace (''r'' @ ''@sha256:'' @ replicate 64 CHR ''a'')"
    by code_simp
  moreover have "list_all is_lower_hex (replicate 64 CHR ''a'')"
    by (simp add: list_all_iff is_lower_hex_def)
  ultimately show ?thesis
    by (simp add: validate_image_def sample_create_def)
qed

lemma sample_policy_accepted:
  "parse_and_validate_policy (lib_policy sample_lib) (cr_policy_document sample_create) sample_identity False = Ok sample_policy"
  by (simp add: parse_and_validate_policy_def sample_create_def sample_lib_def sample_identity_def hex_string_def
      from_utf8_def meets_security_floor_iff confined_def sample_policy_def apply_proxy_baseline_enrichment_def)

definition sample_created :: CreatedSandbox where
  "sample_created = \<lparr>cs_request_id = RequestOwnedId ''sbx-0'', cs_provider_handle = OpaqueProviderHandle [1],
     cs_expected_policy = sample_identity\<rparr>"

definition sample_sandbox :: "unit Sandbox" where
  "sample_sandbox = \<lparr>sbx_name = ''sbx-0'', sbx_id = ''id'',
     sbx_spec = csr_spec (build_create_request sample_lib ''sbx-0'' (template_str (cr_template sample_create)) sample_policy),
     sbx_status = Some \<lparr>sst_phase = 2, sst_current_policy_version = 1\<rparr>\<rparr>"

definition not_found :: Status where
  "not_found = \<lparr>status_code = Code_NotFound\<rparr>"

lemma sample_create_fields:
  "cr_request_id sample_create = RequestOwnedId ''sbx-0''" "cr_expected_policy sample_create = sample_identity"
  "osr_lib sample_runtime = sample_lib" "osr_allow_degraded_landlock sample_runtime = False"
  "ProviderState_encode sample_lib st = Ok (OpaqueProviderHandle [1])"
  by (simp_all add: sample_create_def sample_runtime_def ProviderState_encode_def contract_defs sample_lib_def)

lemma sample_create_run:
  "\<exists>evs s'. reaches ostep sample_start (openshell_create sample_runtime sample_create sample_context) evs s'
     (O_Return (Ok sample_created))"
proof -
  let ?answers = "[quick None, quick None, quick None, quick (Some (Rep_Get (Err not_found))), quick None, quick None,
      quick (Some (Rep_Create (Ok \<lparr>srs_sandbox = Some sample_sandbox\<rparr>)))]"
  have "snd (snd (runs ostep ?answers sample_start (openshell_create sample_runtime sample_create sample_context)))
      = O_Return (Ok sample_created)"
    by (simp add: openshell_create_def submit_create_def OperationBudget_new_def budget_run_def sample_create_fields
        sample_policy_accepted sample_image sample_start_def sample_context_def quick_def advance_def budget_check_def
        call_def settle_def not_found_def check_created_def Let_def build_create_request_def sample_sandbox_def
        sample_created_def CreatedSandbox_from_runtime_def)
      (simp add: sample_create_def)
  then show ?thesis
    using runs_reaches by (metis prod.collapse)
qed

theorem openshell_create_truthful_witness:
  "\<exists>evs policy. created_as_requested sample_runtime sample_create policy evs sample_created"
proof -
  obtain evs s' where "reaches ostep sample_start (openshell_create sample_runtime sample_create sample_context) evs s'
      (O_Return (Ok sample_created))"
    using sample_create_run by blast
  from openshell_create_truthful [OF this] show ?thesis
    by (auto simp: create_report_def)
qed

text \<open>
  C21. A sandbox is reported ready only when the gateway attested it: for the caller's pinned policy and
  the identifier and handle of the created sandbox, the last two answers say that the sandbox with the
  provider's identifier is ready under the pinned version, and that exactly the policy that was submitted
  is loaded, with its digest. A failure names the sandbox for cleanup, and there is no panic.
\<close>

theorem openshell_ready_attested:
  assumes "reaches ostep s (openshell_wait_ready fuel R created expected ctx) evs s' p"
  shows "p \<noteq> O_Panic \<and> (\<forall>r. p = O_Return r \<longrightarrow> wait_ready_report R created expected evs r)"
  by (rule ensures_reached [OF ensures_wait_ready assms])

definition sample_attestation :: "unit GetSandboxPolicyStatusResponse" where
  "sample_attestation = \<lparr>psr_revision = Some \<lparr>rev_version = 1, rev_status = 2, rev_loaded_at_ms = 5,
      rev_policy = Some sample_policy, rev_policy_hash = []\<rparr>, psr_active_version = 1\<rparr>"

definition sample_ready :: ReadySandbox where
  "sample_ready = \<lparr>rs_request_id = RequestOwnedId ''sbx-0'', rs_provider_handle = OpaqueProviderHandle [1],
     rs_active_policy = sample_identity\<rparr>"

lemma sample_ready_run:
  "\<exists>evs s'. reaches ostep sample_start (openshell_wait_ready 1 sample_runtime sample_created sample_identity sample_context)
     evs s' (O_Return (Ok sample_ready))"
proof -
  let ?answers = "[quick None, quick None, quick (Some (Rep_Get (Ok \<lparr>srs_sandbox = Some sample_sandbox\<rparr>))), quick None,
      quick (Some (Rep_PolicyStatus (Ok sample_attestation)))]"
  have "snd (snd (runs ostep ?answers sample_start
      (openshell_wait_ready 1 sample_runtime sample_created sample_identity sample_context))) = O_Return (Ok sample_ready)"
    by (simp add: Let_def openshell_wait_ready_def ready_pass_def policy_is_loaded_def sample_defs sample_created_def
        ProviderState_decode_def sample_sandbox_def sample_policy_def sample_attestation_def deterministic_policy_hash_def
        hex_string_def contract_defs sample_ready_def)
  then show ?thesis
    using runs_reaches by (metis prod.collapse)
qed

theorem openshell_ready_attested_witness:
  "\<exists>evs provider. ready_as_attested sample_runtime sample_created sample_identity provider evs sample_ready"
proof -
  obtain evs s' where "reaches ostep sample_start
      (openshell_wait_ready 1 sample_runtime sample_created sample_identity sample_context) evs s' (O_Return (Ok sample_ready))"
    using sample_ready_run by blast
  from openshell_ready_attested [OF this] show ?thesis
    by (auto simp: wait_ready_report_def)
qed

text \<open>
  C22. The outcome of \<open>exec\<close> is truthful: it never panics, the command is submitted at most once, a
  failure that says \<open>NotDispatched\<close> means that it cannot have been started, every failure is consistent and
  names the sandbox, and a completion is what the collector makes of exactly the events of the stream.
\<close>

theorem openshell_exec_truthful:
  assumes "reaches ostep s (openshell_exec fuel R ready q ctx) evs s' p"
  shows "p \<noteq> O_Panic \<and> (\<forall>r. p = O_Return r \<longrightarrow> exec_report R ready q evs r)"
  by (rule ensures_reached [OF ensures_exec assms])

definition sample_exec :: ExecRequest where
  "sample_exec = \<lparr>er_argv = Argv [''/bin/true''], er_timeout = CommandTimeout 30, er_output_limits = sample_limits\<rparr>"

definition sample_completion :: ExecCompleted where
  "sample_completion = ExecCompleted_new (ObservedExitCode 0) [7] [] OT_NotObserved"

lemma sample_exec_run:
  "\<exists>evs s'. reaches ostep sample_start (openshell_exec 3 sample_runtime sample_ready sample_exec sample_context)
     evs s' (O_Return (Ok sample_completion))"
proof -
  let ?answers = "[quick None, quick None, quick None, quick (Some (Rep_Exec (Ok ()))), quick None,
      \<lparr>oa_elapsed = 0, oa_cancel = False, oa_reply = Some (Rep_Message (Ok (Some (EV_Stdout [7]))))\<rparr>, quick None,
      \<lparr>oa_elapsed = 0, oa_cancel = False, oa_reply = Some (Rep_Message (Ok (Some (EV_Exit 0 OT_NotObserved))))\<rparr>, quick None,
      \<lparr>oa_elapsed = 0, oa_cancel = False, oa_reply = Some (Rep_Message (Ok None))\<rparr>]"
  have "snd (snd (runs ostep ?answers sample_start
      (openshell_exec 3 sample_runtime sample_ready sample_exec sample_context))) = O_Return (Ok sample_completion)"
    using sample_ceiling
    by (simp add: openshell_exec_def sample_defs sample_ready_def sample_exec_def numeral_3_eq_3
        ProviderState_decode_def collector_push_def push_stdout_def check_limits_def sample_limits_def OutputCollector_new_def
        contract_defs collector_finish_def sample_completion_def Let_def u64_of_len_def saturating_add_u64_def checked_add_u64_def)
  then show ?thesis
    using runs_reaches by (metis prod.collapse)
qed

theorem openshell_exec_truthful_witness:
  "\<exists>evs. executed_as_requested sample_runtime sample_ready sample_exec evs sample_completion"
proof -
  obtain evs s' where "reaches ostep sample_start
      (openshell_exec 3 sample_runtime sample_ready sample_exec sample_context) evs s' (O_Return (Ok sample_completion))"
    using sample_exec_run by blast
  from openshell_exec_truthful [OF this] show ?thesis
    by (auto simp: exec_report_def)
qed

text \<open>
  C23. \<open>delete\<close> reports what the gateway acknowledged, with one call, and \<open>wait_deleted\<close> reports absence only
  when the gateway's last answer was that it does not know the sandbox; failures name the sandbox, and
  there is no panic.
\<close>

theorem openshell_absence_confirmed:
  assumes "reaches ostep s (openshell_delete target ctx) evs s' p"
    and "reaches ostep t (openshell_wait_deleted fuel R target ctx') evs' t' p'"
  shows "p \<noteq> O_Panic \<and> (\<forall>r. p = O_Return r \<longrightarrow> delete_report target evs r)
    \<and> p' \<noteq> O_Panic \<and> (\<forall>r'. p' = O_Return r' \<longrightarrow> absence_report target evs' r')"
  using ensures_reached [OF ensures_delete assms(1)] ensures_reached [OF ensures_wait_deleted assms(2)] by simp

definition sample_target :: CleanupTarget where
  "sample_target = CleanupTarget_new (RequestOwnedId ''sbx-0'')"

lemma sample_delete_run:
  "\<exists>evs s'. reaches ostep sample_start (openshell_delete sample_target sample_context :: (unit, CleanupFailure + DeleteOutcome) oprog)
     evs s' (O_Return (Ok AlreadyAbsent))"
proof -
  let ?answers = "[quick None, quick None, quick None, quick (Some (Rep_Delete (Err not_found)))]"
  have "snd (snd (runs ostep ?answers sample_start
      (openshell_delete sample_target sample_context :: (unit, CleanupFailure + DeleteOutcome) oprog))) = O_Return (Ok AlreadyAbsent)"
    by (simp add: openshell_delete_def sample_defs not_found_def Let_def)
  then show ?thesis
    using runs_reaches by (metis prod.collapse)
qed

lemma sample_deleted_run:
  "\<exists>evs s'. reaches ostep sample_start (openshell_wait_deleted 2 sample_runtime sample_target sample_context) evs s' (O_Return (Ok ()))"
proof -
  let ?answers = "[quick None, quick None, quick (Some (Rep_Get (Ok \<lparr>srs_sandbox = None\<rparr>))), quick None,
      \<lparr>oa_elapsed = 2, oa_cancel = False, oa_reply = None\<rparr>, quick None, quick (Some (Rep_Get (Err not_found)))]"
  have "snd (snd (runs ostep ?answers sample_start
      (openshell_wait_deleted 2 sample_runtime sample_target sample_context))) = O_Return (Ok ())"
    by (simp add: openshell_wait_deleted_def sample_defs not_found_def Let_def numeral_2_eq_2 budget_pause_def)
  then show ?thesis
    using runs_reaches by (metis prod.collapse)
qed

theorem openshell_absence_confirmed_witness:
  "\<exists>(evs :: unit oevent list) (evs' :: unit oevent list). delete_report sample_target evs (Ok AlreadyAbsent) \<and> absence_report sample_target evs' (Ok ())"
proof -
  obtain evs s' where d: "reaches ostep sample_start (openshell_delete sample_target sample_context :: (unit, CleanupFailure + DeleteOutcome) oprog)
     evs s' (O_Return (Ok AlreadyAbsent))"
    using sample_delete_run by blast
  obtain evs' t' where w: "reaches ostep sample_start
      (openshell_wait_deleted 2 sample_runtime sample_target sample_context) evs' t' (O_Return (Ok ()))"
    using sample_deleted_run by blast
  have "delete_report sample_target evs (Ok AlreadyAbsent)" "absence_report sample_target evs' (Ok ())"
    using openshell_absence_confirmed [OF d w] by simp_all
  then show ?thesis
    by blast
qed



end
