(* ===== verification/Native_Readers.thy ===== *)
theory Native_Readers
  imports Contract_Outcomes "HOL-Library.Sublist"
begin

text \<open>
  The two tasks that read the output of a native sandbox (\<open>read_bounded\<close> of \<^verbatim>\<open>src/src/native/mod.rs\<close>).
  They share two atomic counters. A task that got a chunk first adds its size to its own counter and
  then loads the other one to decide whether it keeps the chunk; the tasks interleave at these two
  steps. The order of the steps is one order for both tasks.
\<close>

section \<open>Steps\<close>

record ReadResult =
  rr_bytes :: bytes
  rr_overflow :: "OutputLimitKind option"

definition ReadResult_default :: ReadResult where
  "ReadResult_default = \<lparr>rr_bytes = [], rr_overflow = None\<rparr>"

text \<open>
  A task: its arguments, its counter, what it returns, and the chunk it has added but not decided on, with
  the value \<open>own\<close> it computed.
\<close>

record read_task =
  rt_stream_kind :: OutputLimitKind
  rt_stream_limit :: u64
  rt_own_count :: u64
  rt_result :: ReadResult
  rt_pending :: "(bytes \<times> u64) option"

record readers =
  rs_combined_limit :: u64
  rs_chunk_limit :: u64
  rs_stdout :: read_task
  rs_stderr :: read_task
  rs_channel :: "OutputLimitKind list"

definition read_task_new :: "OutputLimitKind \<Rightarrow> u64 \<Rightarrow> read_task" where
  "read_task_new kind limit =
     \<lparr>rt_stream_kind = kind, rt_stream_limit = limit, rt_own_count = 0, rt_result = ReadResult_default, rt_pending = None\<rparr>"

definition readers_new :: "OutputLimits \<Rightarrow> readers" where
  "readers_new limits =
     \<lparr>rs_combined_limit = ol_combined_bytes limits, rs_chunk_limit = ol_chunk_bytes limits,
      rs_stdout = read_task_new LimitStdout (ol_stdout_bytes limits),
      rs_stderr = read_task_new LimitStderr (ol_stderr_bytes limits), rs_channel = []\<rparr>"

definition read_add :: "bytes \<Rightarrow> read_task \<Rightarrow> read_task" where
  "read_add chunk t =
     (let read_u64 = u64_of_len (length chunk)
      in t\<lparr>rt_own_count := rt_own_count t + read_u64,
           rt_pending := Some (chunk, saturating_add_u64 (rt_own_count t) read_u64)\<rparr>)"

definition chunk_overflow :: "readers \<Rightarrow> read_task \<Rightarrow> u64 \<Rightarrow> bytes \<Rightarrow> u64 \<Rightarrow> OutputLimitKind option" where
  "chunk_overflow S t other chunk own =
     (let read_u64 = u64_of_len (length chunk); combined = saturating_add_u64 own other
      in if rs_chunk_limit S < read_u64 then Some LimitChunk
         else if rt_stream_limit t < own then Some (rt_stream_kind t)
         else if rs_combined_limit S < combined then Some LimitCombined
         else None)"

text \<open>The decision; \<open>try_send\<close> on the channel of two places never finds it full, and its result is ignored.\<close>

definition read_decide :: "readers \<Rightarrow> u64 \<Rightarrow> read_task \<Rightarrow> read_task \<times> OutputLimitKind list" where
  "read_decide S other t =
     (case rt_pending t of
        None \<Rightarrow> (t, [])
      | Some (chunk, own) \<Rightarrow>
          let t1 = t\<lparr>rt_pending := None\<rparr>; result = rt_result t
          in case chunk_overflow S t other chunk own of
               Some kind \<Rightarrow>
                 if rr_overflow result = None
                 then (t1\<lparr>rt_result := result\<lparr>rr_overflow := Some kind\<rparr>\<rparr>, [kind])
                 else (t1, [])
             | None \<Rightarrow>
                 if rr_overflow result = None
                 then (t1\<lparr>rt_result := result\<lparr>rr_bytes := rr_bytes result @ chunk\<rparr>\<rparr>, [])
                 else (t1, []))"

text \<open>A step of one of the tasks: \<open>True\<close> is the reader of the standard output.\<close>

datatype reader_step =
    RS_Add bool bytes
  | RS_Decide bool

definition reader_step :: "reader_step \<Rightarrow> readers \<Rightarrow> readers option" where
  "reader_step step S =
     (case step of
        RS_Add True chunk \<Rightarrow>
          if rt_pending (rs_stdout S) = None then Some (S\<lparr>rs_stdout := read_add chunk (rs_stdout S)\<rparr>) else None
      | RS_Add False chunk \<Rightarrow>
          if rt_pending (rs_stderr S) = None then Some (S\<lparr>rs_stderr := read_add chunk (rs_stderr S)\<rparr>) else None
      | RS_Decide True \<Rightarrow>
          if rt_pending (rs_stdout S) = None then None
          else (case read_decide S (rt_own_count (rs_stderr S)) (rs_stdout S) of
                  (t, sent) \<Rightarrow> Some (S\<lparr>rs_stdout := t, rs_channel := rs_channel S @ sent\<rparr>))
      | RS_Decide False \<Rightarrow>
          if rt_pending (rs_stderr S) = None then None
          else (case read_decide S (rt_own_count (rs_stdout S)) (rs_stderr S) of
                  (t, sent) \<Rightarrow> Some (S\<lparr>rs_stderr := t, rs_channel := rs_channel S @ sent\<rparr>)))"

fun reader_steps :: "reader_step list \<Rightarrow> readers \<Rightarrow> readers option" where
  "reader_steps [] S = Some S"
| "reader_steps (step # steps) S = Option.bind (reader_step step S) (reader_steps steps)"

text \<open>What a stream carried in a sequence of steps.\<close>

fun carried :: "bool \<Rightarrow> reader_step list \<Rightarrow> bytes" where
  "carried out [] = []"
| "carried out (RS_Add o' chunk # steps) = (if o' = out then chunk else []) @ carried out steps"
| "carried out (RS_Decide _ # steps) = carried out steps"

section \<open>Invariant\<close>

text \<open>
  A task that has read \<open>c\<close>: its counter is exact; it keeps a part of what it decided on, all of it as
  long as nothing overflowed, and never more than its limit.
\<close>

definition pending_bytes :: "read_task \<Rightarrow> bytes" where
  "pending_bytes t = (case rt_pending t of None \<Rightarrow> [] | Some (chunk, _) \<Rightarrow> chunk)"

definition task_ok :: "bytes \<Rightarrow> read_task \<Rightarrow> bool" where
  "task_ok c t \<longleftrightarrow> unat (rt_own_count t) = length c
     \<and> (case rt_pending t of None \<Rightarrow> True | Some (chunk, own) \<Rightarrow> unat own = length c)
     \<and> length (rr_bytes (rt_result t)) \<le> unat (rt_stream_limit t)
     \<and> length (rr_bytes (rt_result t)) + length (pending_bytes t) \<le> length c
     \<and> prefix (rr_bytes (rt_result t)) c
     \<and> (rr_overflow (rt_result t) = None \<longrightarrow> rr_bytes (rt_result t) @ pending_bytes t = c)"

definition readers_ok :: "OutputLimits \<Rightarrow> bytes \<Rightarrow> bytes \<Rightarrow> readers \<Rightarrow> bool" where
  "readers_ok L out err S \<longleftrightarrow> task_ok out (rs_stdout S) \<and> task_ok err (rs_stderr S)
     \<and> rs_combined_limit S = ol_combined_bytes L \<and> rs_chunk_limit S = ol_chunk_bytes L
     \<and> rt_stream_limit (rs_stdout S) = ol_stdout_bytes L \<and> rt_stream_limit (rs_stderr S) = ol_stderr_bytes L
     \<and> length (rr_bytes (rt_result (rs_stdout S))) + length (rr_bytes (rt_result (rs_stderr S)))
         \<le> unat (ol_combined_bytes L)"

lemma readers_new_ok: "readers_ok L [] [] (readers_new L)"
  by (simp add: readers_ok_def readers_new_def read_task_new_def task_ok_def pending_bytes_def ReadResult_default_def)

lemma read_add_ok:
  assumes "task_ok c t" and "rt_pending t = None" and "length (c @ chunk) < 2 ^ 64"
  shows "task_ok (c @ chunk) (read_add chunk t)"
  using assms
  by (auto simp: task_ok_def read_add_def Let_def pending_bytes_def unat_saturating_add_u64 unat_u64_of_len
      unat_word_ariths)

lemma read_decide_ok:
  assumes "task_ok c t" and "rt_pending t \<noteq> None" and "read_decide S other t = (t1, sent)"
    and small: "length c + unat other < 2 ^ 64"
  shows "task_ok c t1" and "rt_stream_limit t1 = rt_stream_limit t"
    and "length (rr_bytes (rt_result t1)) \<le> max (length (rr_bytes (rt_result t)))
      (if length c + unat other \<le> unat (rs_combined_limit S) then length c else 0)"
proof -
  obtain chunk own where p: "rt_pending t = Some (chunk, own)"
    using assms(2) by auto
  have c: "unat own = length c" "length (rr_bytes (rt_result t)) + length chunk \<le> length c"
    using assms(1) p by (simp_all add: task_ok_def pending_bytes_def)
  have fits: "unat own \<le> unat (rt_stream_limit t) \<and> length c + unat other \<le> unat (rs_combined_limit S)"
    if "chunk_overflow S t other chunk own = None"
    using that c(1) small
    by (auto simp: chunk_overflow_def Let_def word_less_nat_alt unat_saturating_add_u64 min_def split: if_splits)
  show "task_ok c t1"
    using assms(1,3) p fits c
    by (auto simp: read_decide_def task_ok_def pending_bytes_def Let_def split: option.splits if_splits)
  show "rt_stream_limit t1 = rt_stream_limit t"
    using assms(3) p by (auto simp: read_decide_def Let_def split: option.splits if_splits)
  show "length (rr_bytes (rt_result t1)) \<le> max (length (rr_bytes (rt_result t)))
      (if length c + unat other \<le> unat (rs_combined_limit S) then length c else 0)"
    using assms(3) p fits c(2) by (auto simp: read_decide_def Let_def split: option.splits if_splits)
qed

lemma reader_step_ok:
  assumes "readers_ok L out err S" and "reader_step step S = Some S1"
    and small: "length (out @ carried True [step]) + length (err @ carried False [step]) < 2 ^ 64"
  shows "readers_ok L (out @ carried True [step]) (err @ carried False [step]) S1"
proof (cases step)
  case (RS_Add o' chunk)
  show ?thesis
  proof (cases o')
    case True
    have "rt_pending (rs_stdout S) = None" "S1 = S\<lparr>rs_stdout := read_add chunk (rs_stdout S)\<rparr>"
      using assms(2) RS_Add True by (auto simp: reader_step_def split: if_splits)
    then show ?thesis
      using assms(1) small RS_Add True
      by (auto simp: readers_ok_def intro!: read_add_ok) (simp_all add: read_add_def Let_def)
  next
    case False
    have "rt_pending (rs_stderr S) = None" "S1 = S\<lparr>rs_stderr := read_add chunk (rs_stderr S)\<rparr>"
      using assms(2) RS_Add False by (auto simp: reader_step_def split: if_splits)
    then show ?thesis
      using assms(1) small RS_Add False
      by (auto simp: readers_ok_def intro!: read_add_ok) (simp_all add: read_add_def Let_def)
  qed
next
  case (RS_Decide o')
  have t: "task_ok out (rs_stdout S)" "task_ok err (rs_stderr S)"
    and c: "unat (rt_own_count (rs_stdout S)) = length out" "unat (rt_own_count (rs_stderr S)) = length err"
    and l: "length (rr_bytes (rt_result (rs_stdout S))) \<le> length out"
      "length (rr_bytes (rt_result (rs_stderr S))) \<le> length err"
    using assms(1) by (auto simp: readers_ok_def task_ok_def)
  have sm: "length out + length err < 2 ^ 64"
    using small RS_Decide by simp
  show ?thesis
  proof (cases o')
    case True
    obtain t1 sent where d: "rt_pending (rs_stdout S) \<noteq> None"
      "read_decide S (rt_own_count (rs_stderr S)) (rs_stdout S) = (t1, sent)"
      "S1 = S\<lparr>rs_stdout := t1, rs_channel := rs_channel S @ sent\<rparr>"
      using assms(2) RS_Decide True by (auto simp: reader_step_def split: if_splits prod.splits)
    have ok: "task_ok out t1" "rt_stream_limit t1 = rt_stream_limit (rs_stdout S)"
      and len: "length (rr_bytes (rt_result t1)) \<le> max (length (rr_bytes (rt_result (rs_stdout S))))
        (if length out + length err \<le> unat (rs_combined_limit S) then length out else 0)"
      using read_decide_ok [OF t(1) d(1,2)] c sm by auto
    show ?thesis
      using assms(1) ok len l RS_Decide d(3) by (auto simp: readers_ok_def split: if_splits)
  next
    case False
    obtain t1 sent where d: "rt_pending (rs_stderr S) \<noteq> None"
      "read_decide S (rt_own_count (rs_stdout S)) (rs_stderr S) = (t1, sent)"
      "S1 = S\<lparr>rs_stderr := t1, rs_channel := rs_channel S @ sent\<rparr>"
      using assms(2) RS_Decide False by (auto simp: reader_step_def split: if_splits prod.splits)
    have ok: "task_ok err t1" "rt_stream_limit t1 = rt_stream_limit (rs_stderr S)"
      and len: "length (rr_bytes (rt_result t1)) \<le> max (length (rr_bytes (rt_result (rs_stderr S))))
        (if length err + length out \<le> unat (rs_combined_limit S) then length err else 0)"
      using read_decide_ok [OF t(2) d(1,2)] c sm by auto
    show ?thesis
      using assms(1) ok len l RS_Decide d(3) by (auto simp: readers_ok_def split: if_splits)
  qed
qed

lemma reader_steps_ok:
  assumes "readers_ok L out err S" and "reader_steps steps S = Some S1"
    and "length (out @ carried True steps) + length (err @ carried False steps) < 2 ^ 64"
  shows "readers_ok L (out @ carried True steps) (err @ carried False steps) S1"
  using assms
proof (induction steps arbitrary: S out err)
  case Nil
  then show ?case
    by simp
next
  case (Cons step steps)
  obtain S2 where step: "reader_step step S = Some S2" and rest: "reader_steps steps S2 = Some S1"
    using Cons.prems(2) by (auto simp: bind_eq_Some_conv)
  have split: "carried o' (step # steps) = carried o' [step] @ carried o' steps" for o'
    by (cases step) auto
  have "readers_ok L (out @ carried True [step]) (err @ carried False [step]) S2"
    by (rule reader_step_ok [OF Cons.prems(1) step]) (use Cons.prems(3) split in auto)
  from Cons.IH [OF this rest] show ?case
    using Cons.prems(3) by (simp add: split [of True] split [of False])
qed


definition sample_output_limits :: OutputLimits where
  "sample_output_limits =
     \<lparr>ol_stdout_bytes = 5, ol_stderr_bytes = 4, ol_combined_bytes = 6, ol_chunk_bytes = 4\<rparr>"

text \<open>Both streams add before either decides: both decisions see both chunks, and both are dropped.\<close>

definition sample_reader_steps :: "reader_step list" where
  "sample_reader_steps =
     [RS_Add True [1, 2], RS_Decide True, RS_Add False [7, 8, 9], RS_Add True [3, 4],
      RS_Decide True, RS_Decide False]"


end
