(* ===== verification/Rust_Format.thy ===== *)
theory Rust_Format
  imports Rust_Text
begin

text \<open>
  More of Rust's string functions: \<open>lines\<close>, \<open>contains\<close>, \<open>matches\<close>, the decimal text of an unsigned
  integer and its round trip.
\<close>

section \<open>Lines\<close>

definition newline :: char where "newline = CHR 0x0A"
definition carriage_return :: char where "carriage_return = CHR 0x0D"

definition chomp :: "string \<Rightarrow> string" where
  "chomp line = (if line \<noteq> [] \<and> last line = carriage_return then butlast line else line)"

fun split_lines :: "string \<Rightarrow> string \<Rightarrow> string list" where
  "split_lines line [] = (if line = [] then [] else [line])"
| "split_lines line (c # cs) =
     (if c = newline then chomp line # split_lines [] cs else split_lines (line @ [c]) cs)"

definition str_lines :: "string \<Rightarrow> string list" where
  "str_lines s = split_lines [] s"

lemma split_lines_append:
  "newline \<notin> set a \<Longrightarrow> split_lines line (a @ newline # s) = chomp (line @ a) # split_lines [] s"
  by (induction a arbitrary: line) auto

lemma str_lines_line: "newline \<notin> set a \<Longrightarrow> str_lines (a @ newline # s) = chomp a # str_lines s"
  by (simp add: str_lines_def split_lines_append)

lemma str_lines_Nil [simp]: "str_lines [] = []"
  by (simp add: str_lines_def)

definition unlines :: "string list \<Rightarrow> string" where
  "unlines ls = concat (map (\<lambda>l. l @ [newline]) ls)"

lemma unlines_simps [simp]: "unlines [] = []" "unlines (l # ls) = l @ newline # unlines ls"
  by (simp_all add: unlines_def)

lemma str_lines_unlines:
  "list_all (\<lambda>l. newline \<notin> set l \<and> carriage_return \<notin> set l) ls \<Longrightarrow> str_lines (unlines ls @ s) = ls @ str_lines s"
proof (induction ls)
  case (Cons l ls)
  then have "chomp l = l"
    by (auto simp: chomp_def dest: last_in_set)
  with Cons show ?case
    by (simp add: str_lines_line)
qed simp

section \<open>Occurrences\<close>

definition str_contains :: "string \<Rightarrow> string \<Rightarrow> bool" where
  "str_contains pat s \<longleftrightarrow> split_at_first pat s \<noteq> None"

lemma str_contains_iff: "str_contains pat s \<longleftrightarrow> (\<exists>a b. s = a @ pat @ b)"
proof
  show "str_contains pat s \<Longrightarrow> \<exists>a b. s = a @ pat @ b"
    using split_at_first_Some [of pat s] by (auto simp: str_contains_def)
  show "\<exists>a b. s = a @ pat @ b \<Longrightarrow> str_contains pat s"
    using split_at_first_occurs [of pat] unfolding str_contains_def by blast
qed

text \<open>\<open>s.matches(pat).count()\<close> for a nonempty pattern.\<close>

definition count_matches :: "string \<Rightarrow> string \<Rightarrow> nat" where
  "count_matches pat s = length (split_str pat s) - 1"

text \<open>
  A bound on the occurrences of a pattern: it has an adjacent pair of characters, and the pairs of a
  text can be counted line by line.
\<close>

fun pair_count :: "char \<Rightarrow> char \<Rightarrow> string \<Rightarrow> nat" where
  "pair_count c d [] = 0"
| "pair_count c d (x # s) =
     (if x = c \<and> (case s of [] \<Rightarrow> False | y # _ \<Rightarrow> y = d) then Suc (pair_count c d s) else pair_count c d s)"

lemma pair_count_append: "pair_count c d a + pair_count c d b \<le> pair_count c d (a @ b)"
  by (induction a) (auto split: list.splits)

lemma pair_count_newline:
  "c \<noteq> newline \<Longrightarrow> d \<noteq> newline \<Longrightarrow> pair_count c d (l @ newline # s) = pair_count c d l + pair_count c d s"
  by (induction l) (auto split: list.splits simp: neq_Nil_conv)

lemma pair_count_unlines:
  "c \<noteq> newline \<Longrightarrow> d \<noteq> newline \<Longrightarrow> pair_count c d (unlines ls @ s) = sum_list (map (pair_count c d) ls) + pair_count c d s"
  by (induction ls) (simp_all add: pair_count_newline)

lemma pair_count_absent: "c \<notin> set s \<Longrightarrow> pair_count c d s = 0"
  by (induction s) auto

lemma pair_count_split: "pair_count c d pat + pair_count c d b \<le> pair_count c d (a @ pat @ b)"
  using pair_count_append [of c d pat b] pair_count_append [of c d a "pat @ b"] by simp

lemma pair_count_contains: "str_contains pat s \<Longrightarrow> pair_count c d pat \<le> pair_count c d s"
  using pair_count_split [of c d pat] by (metis add_leD1 str_contains_iff)

lemma count_matches_le:
  assumes "pat \<noteq> []" and "0 < pair_count c d pat"
  shows "count_matches pat s \<le> pair_count c d s"
proof -
  have "length (split_str pat s) \<le> Suc (pair_count c d s)"
  proof (induction "length s" arbitrary: s rule: less_induct)
    case less
    show ?case
    proof (cases "split_at_first pat s")
      case (Some ab)
      obtain a b where ab: "ab = (a, b)"
        by (cases ab)
      have s: "s = a @ pat @ b"
        using split_at_first_Some Some ab by blast
      have "length (split_str pat b) \<le> Suc (pair_count c d b)"
        using less s assms(1) by simp
      with pair_count_split [of c d pat b a] assms(2) show ?thesis
        by (simp add: split_str.simps [of pat s] assms(1) Some ab flip: s)
    qed (simp add: split_str.simps [of pat s] assms(1))
  qed
  then show ?thesis
    by (simp add: count_matches_def)
qed

section \<open>Decimal numbers\<close>

definition digit_char :: "nat \<Rightarrow> char" where
  "digit_char d = char_of (48 + d)"

fun show_nat :: "nat \<Rightarrow> string" where
  "show_nat n = (if n < 10 then [digit_char n] else show_nat (n div 10) @ [digit_char (n mod 10)])"

declare show_nat.simps [simp del]

lemma of_char_digit [simp]: "d < 10 \<Longrightarrow> of_char (digit_char d) = 48 + d"
  by (simp add: digit_char_def)

lemma digit_value_char [simp]: "d < 10 \<Longrightarrow> digit_value (digit_char d) = d"
  by (simp add: digit_value_def)

lemma decimal_snoc: "decimal (s @ [c]) = 10 * decimal s + digit_value c"
  by (simp add: decimal_def)

lemma show_nat_digits: "show_nat n \<noteq> [] \<and> list_all is_ascii_digit (show_nat n) \<and> decimal (show_nat n) = n"
proof (induction n rule: show_nat.induct)
  case (1 n)
  show ?case
  proof (cases "n < 10")
    case True
    then show ?thesis
      by (simp add: show_nat.simps [of n] is_ascii_digit_def decimal_def)
  next
    case False
    with 1 show ?thesis
      by (simp add: show_nat.simps [of n] is_ascii_digit_def decimal_snoc)
  qed
qed

lemma parse_show_nat:
  assumes "n < bound"
  shows "parse_unsigned bound (show_nat n) = Some n"
proof -
  obtain c cs where s: "show_nat n = c # cs"
    using show_nat_digits by (cases "show_nat n") auto
  have "c \<noteq> CHR ''+''"
    using show_nat_digits [of n] s by (auto simp: is_ascii_digit_def)
  with show_nat_digits [of n] s assms show ?thesis
    by (simp add: parse_unsigned_def)
qed

lemma show_nat_not_in: "\<not> is_ascii_digit c \<Longrightarrow> c \<notin> set (show_nat n)"
  using show_nat_digits [of n] by (auto simp: list_all_iff)

definition show_u16 :: "u16 \<Rightarrow> string" where
  "show_u16 n = show_nat (unat n)"

lemma parse_show_u16: "parse_u16 (show_u16 n) = Some n"
  using unsigned_less [of n, where ?'a = nat] by (simp add: parse_u16_def show_u16_def parse_show_nat)

section \<open>Text and bytes\<close>

lemma unat_byte_of_char: "unat (of_nat (of_char c) :: u8) = of_char c"
  using nat_of_char_less_256 [of c] by (simp add: unat_of_nat)

lemma map_unat_as_bytes: "map unat (as_bytes s) = map of_char s"
  by (simp add: as_bytes_def unat_byte_of_char)

end
