(* ===== verification/Native_Policy.thy ===== *)
theory Native_Policy
  imports OpenShell_Policy Rust_Format
begin

text \<open>
  The deployment policy of the native provider (\<^verbatim>\<open>src/src/native/policy.rs\<close>): the floor a policy has to
  meet, its compilation into a Seatbelt profile or a bubblewrap description, the verification of a
  compiled profile, and the network access it is read back to. Every read of the profile file is an
  argument, because the code reads it several times; printing and parsing JSON are parameters.
\<close>

section \<open>Platform and errors\<close>

text \<open>\<open>cfg!(target_os = ...)\<close> of the build.\<close>

datatype Platform = MacOS | Linux | OtherPlatform

datatype NativeConfigError =
    NE_InvalidConfiguration | NE_UnsupportedPlatform | NE_PolicyRead | NE_PolicyWrite | NE_InvalidPolicy
  | NE_PolicyMismatch

record 'x native_lib =
  nl_policy :: "'x policy_lib"
  nl_default :: 'x
  nl_json_pretty :: "json \<Rightarrow> string"
  nl_json_parse :: "bytes \<Rightarrow> json option"

definition DEV_NETWORK_HOST :: string where "DEV_NETWORK_HOST = ''example.com''"
definition DEV_NETWORK_PORT :: u16 where "DEV_NETWORK_PORT = 443"
definition DEV_NETWORK_BINARY :: string where "DEV_NETWORK_BINARY = ''/usr/bin/curl''"

datatype NetworkAccess =
    NA_Deny
  | NA_Allowlist "(string \<times> u16) list"

section \<open>Policy floor\<close>

definition dev_endpoint :: "'x native_lib \<Rightarrow> 'x NetworkEndpoint" where
  "dev_endpoint N = \<lparr>nep_host = DEV_NETWORK_HOST, nep_port = ucast DEV_NETWORK_PORT,
     nep_ports = [ucast DEV_NETWORK_PORT], nep_rest = nl_default N\<rparr>"

definition dev_binary :: "'x native_lib \<Rightarrow> 'x NetworkBinary" where
  "dev_binary N = \<lparr>nbn_path = DEV_NETWORK_BINARY, nbn_harness = False, nbn_rest = nl_default N\<rparr>"

definition validate_policy_floor :: "'x native_lib \<Rightarrow> 'x SandboxPolicy \<Rightarrow> NativeConfigError + NetworkAccess" where
  "validate_policy_floor N policy =
     (case sp_filesystem policy of
        None \<Rightarrow> Err NE_InvalidPolicy
      | Some filesystem \<Rightarrow>
          (case sp_process policy of
             None \<Rightarrow> Err NE_InvalidPolicy
           | Some process \<Rightarrow>
               if sp_version policy = 0 \<or> fsp_include_workdir filesystem \<or> fsp_read_write filesystem \<noteq> [''/sandbox'']
                  \<or> prp_run_as_user process \<noteq> ''sandbox'' \<or> prp_run_as_group process \<noteq> ''sandbox''
                  \<or> sp_network_middlewares policy \<noteq> fmempty
               then Err NE_InvalidPolicy
               else (case map snd (sorted_entries (sp_network_policies policy)) of
                       [] \<Rightarrow> Ok NA_Deny
                     | [rule] \<Rightarrow>
                         (case (npr_endpoints rule, npr_binaries rule) of
                            ([endpoint], [binary]) \<Rightarrow>
                              if nep_host endpoint \<noteq> DEV_NETWORK_HOST \<or> nep_port endpoint \<noteq> ucast DEV_NETWORK_PORT
                                 \<or> endpoint \<noteq> dev_endpoint N \<or> nbn_path binary \<noteq> DEV_NETWORK_BINARY
                                 \<or> binary \<noteq> dev_binary N
                              then Err NE_InvalidPolicy
                              else Ok (NA_Allowlist [(DEV_NETWORK_HOST, DEV_NETWORK_PORT)])
                          | _ \<Rightarrow> Err NE_InvalidPolicy)
                     | _ \<Rightarrow> Err NE_InvalidPolicy)))"

section \<open>Compilation\<close>

definition EGRESS_ALLOW :: string where
  "EGRESS_ALLOW = '';; OPENBOX_EGRESS_ALLOW ''"

definition OUTBOUND_RULE :: string where
  "OUTBOUND_RULE = ''(allow network-outbound (remote tcp (param \"PROXY_ENDPOINT\")))''"

definition PROFILE_LINES :: "string list" where
  "PROFILE_LINES =
    ['';; OpenBox native profile v2 (deployment compiled; never request generated)'',
     ''(version 1)'',
     ''(define workspace-root (param \"WORKSPACE_ROOT\"))'',
     ''(define workspace (param \"WORKSPACE\"))'',
     ''(deny default)'',
     ''(allow process*)'',
     ''(allow file-read*)'',
     ''(deny file-read* (subpath \"/Users\"))'',
     ''(deny file-read* (subpath \"/home\"))'',
     ''(deny file-read* (subpath \"/Volumes\"))'',
     ''(deny file-read* (subpath workspace-root))'',
     ''(allow file-read* (subpath workspace))'',
     ''(allow file-write* (subpath workspace))'',
     ''(allow file-read* file-write* (literal \"/dev/null\"))'',
     ''(allow file-read* (literal \"/dev/random\") (literal \"/dev/urandom\"))'',
     ''(allow file-ioctl (literal \"/dev/null\") (literal \"/dev/random\") (literal \"/dev/urandom\"))'',
     ''(allow sysctl-read)'']"

definition allow_line :: "string \<times> u16 \<Rightarrow> string" where
  "allow_line endpoint = EGRESS_ALLOW @ fst endpoint @ '':'' @ show_u16 (snd endpoint)"

definition compile_seatbelt :: "NetworkAccess \<Rightarrow> string" where
  "compile_seatbelt network =
     unlines PROFILE_LINES @
     (case network of
        NA_Deny \<Rightarrow> []
      | NA_Allowlist endpoints \<Rightarrow> unlines (map allow_line endpoints) @ OUTBOUND_RULE @ [newline])"

text \<open>An object lists its entries in the order of their keys, as the map of \<open>serde_json\<close> does.\<close>

definition compile_bwrap :: "'x native_lib \<Rightarrow> string \<Rightarrow> NetworkAccess \<Rightarrow> string" where
  "compile_bwrap N workspace_root network =
     nl_json_pretty N (J_Object
       [(''clear_environment'', J_Bool True),
        (''format'', J_String ''openbox-native-bwrap-v1''),
        (''network'',
          (case network of
             NA_Deny \<Rightarrow> J_Object [(''mode'', J_String ''deny'')]
           | NA_Allowlist endpoints \<Rightarrow> J_Object
               [(''binaries'', J_Array [J_String DEV_NETWORK_BINARY]),
                (''endpoints'', J_Array (map (\<lambda>(host, port). J_Object
                   [(''host'', J_String host), (''port'', J_Number (show_u16 port))]) endpoints)),
                (''mode'', J_String ''allowlist'')])),
        (''workdir'', J_String ''/sandbox''),
        (''workspace_root'', J_String workspace_root)])
     @ [newline]"

section \<open>Reading a profile back\<close>

text \<open>\<open>Iterator::collect\<close> into a \<open>Result\<close>: the first error, or all values.\<close>

fun collect_results :: "('e + 'a) list \<Rightarrow> 'e + 'a list" where
  "collect_results [] = Ok []"
| "collect_results (r # rs) =
     (case r of
        Inl e \<Rightarrow> Err e
      | Inr x \<Rightarrow> (case collect_results rs of Inl e \<Rightarrow> Err e | Inr xs \<Rightarrow> Ok (x # xs)))"

definition parse_allow_target :: "string \<Rightarrow> NativeConfigError + (string \<times> u16)" where
  "parse_allow_target target =
     (case rsplit_once (CHR '':'') target of
        None \<Rightarrow> Err NE_InvalidPolicy
      | Some (host, port) \<Rightarrow>
          (case parse_u16 port of
             None \<Rightarrow> Err NE_InvalidPolicy
           | Some p \<Rightarrow> if host = [] then Err NE_InvalidPolicy else Ok (host, p)))"

definition parse_seatbelt_network :: "string \<Rightarrow> NativeConfigError + NetworkAccess" where
  "parse_seatbelt_network body =
     (case collect_results (map parse_allow_target (List.map_filter (strip_prefix EGRESS_ALLOW) (str_lines body))) of
        Inl e \<Rightarrow> Err e
      | Inr endpoints \<Rightarrow>
          if endpoints = [] then Ok NA_Deny
          else if str_contains OUTBOUND_RULE body then Ok (NA_Allowlist endpoints)
          else Err NE_InvalidPolicy)"

text \<open>
  \<open>value[key]\<close> of a JSON value: \<open>Null\<close> for anything that is not an object or has no such key. An object
  holds each key once, and its equality does not depend on the order of the keys.
\<close>

fun json_at :: "json \<Rightarrow> string \<Rightarrow> json" where
  "json_at (J_Object members) key = (case map_of members key of None \<Rightarrow> J_Null | Some v \<Rightarrow> v)"
| "json_at _ key = J_Null"

fun json_as_array :: "json \<Rightarrow> json list option" where
  "json_as_array (J_Array vs) = Some vs"
| "json_as_array _ = None"

text \<open>\<open>as_u64\<close>: the integer numbers are the texts of decimal digits.\<close>

fun json_as_u64 :: "json \<Rightarrow> nat option" where
  "json_as_u64 (J_Number text) = (if list_all is_ascii_digit text then parse_unsigned (2 ^ 64) text else None)"
| "json_as_u64 _ = None"

fun is_dev_endpoint :: "json \<Rightarrow> bool" where
  "is_dev_endpoint (J_Object members) \<longleftrightarrow>
     set (map fst members) = {''host'', ''port''}
     \<and> json_at (J_Object members) ''host'' = J_String DEV_NETWORK_HOST
     \<and> json_at (J_Object members) ''port'' = J_Number (show_u16 DEV_NETWORK_PORT)"
| "is_dev_endpoint _ \<longleftrightarrow> False"

definition sha256_file :: "'x native_lib \<Rightarrow> bytes option \<Rightarrow> NativeConfigError + string" where
  "sha256_file N file_read =
     (case file_read of
        None \<Rightarrow> Err NE_PolicyRead
      | Some content \<Rightarrow> Ok (hex_string (pl_sha256 (nl_policy N) content)))"

definition verify_seatbelt :: "bytes \<Rightarrow> NativeConfigError + unit" where
  "verify_seatbelt content =
     (case from_utf8 content of
        None \<Rightarrow> Err NE_InvalidPolicy
      | Some body \<Rightarrow>
          (case parse_seatbelt_network body of
             Inl e \<Rightarrow> Err e
           | Inr access \<Rightarrow>
               if \<not> starts_with '';; OpenBox native profile v2 '' body
                  \<or> access = NA_Deny \<and> str_contains ''network-outbound'' body
                  \<or> 1 < count_matches ''network-outbound'' body
               then Err NE_InvalidPolicy else Ok ()))"

definition verify_bwrap :: "'x native_lib \<Rightarrow> string \<Rightarrow> bytes \<Rightarrow> NativeConfigError + unit" where
  "verify_bwrap N workspace_root content =
     (case nl_json_parse N content of
        None \<Rightarrow> Err NE_InvalidPolicy
      | Some value \<Rightarrow>
          let network = json_at value ''network'';
              valid_network = json_at network ''mode'' = J_String ''deny''
                \<or> json_at network ''mode'' = J_String ''allowlist''
                  \<and> (case json_at network ''endpoints'' of J_Array [endpoint] \<Rightarrow> is_dev_endpoint endpoint | _ \<Rightarrow> False)
                  \<and> json_at network ''binaries'' = J_Array [J_String DEV_NETWORK_BINARY]
          in if json_at value ''format'' \<noteq> J_String ''openbox-native-bwrap-v1'' \<or> \<not> valid_network
                \<or> json_at value ''workdir'' \<noteq> J_String ''/sandbox''
                \<or> json_at value ''clear_environment'' \<noteq> J_Bool True
                \<or> json_at value ''workspace_root'' \<noteq> J_String workspace_root
             then Err NE_InvalidPolicy else Ok ())"

text \<open>The two reads of the file: the first for the digest, the second for the content.\<close>

definition verify_compiled_profile ::
  "Platform \<Rightarrow> 'x native_lib \<Rightarrow> bytes option \<Rightarrow> bytes option \<Rightarrow> string \<Rightarrow> string \<Rightarrow> NativeConfigError + unit" where
  "verify_compiled_profile platform N first_read second_read expected_sha256 workspace_root =
     (case sha256_file N first_read of
        Inl e \<Rightarrow> Err e
      | Inr sha \<Rightarrow>
          if sha \<noteq> expected_sha256 then Err NE_PolicyMismatch
          else case second_read of
                 None \<Rightarrow> Err NE_PolicyRead
               | Some content \<Rightarrow>
                   (case platform of
                      MacOS \<Rightarrow> verify_seatbelt content
                    | Linux \<Rightarrow> verify_bwrap N workspace_root content
                    | OtherPlatform \<Rightarrow> Ok ()))"

definition bwrap_endpoint :: "json \<Rightarrow> NativeConfigError + (string \<times> u16)" where
  "bwrap_endpoint endpoint =
     (case json_as_str (json_at endpoint ''host'') of
        None \<Rightarrow> Err NE_InvalidPolicy
      | Some host \<Rightarrow>
          (case json_as_u64 (json_at endpoint ''port'') of
             None \<Rightarrow> Err NE_InvalidPolicy
           | Some port \<Rightarrow> if port < 2 ^ 16 then Ok (host, of_nat port) else Err NE_InvalidPolicy))"

definition compiled_network_access ::
  "Platform \<Rightarrow> 'x native_lib \<Rightarrow> bytes option \<Rightarrow> NativeConfigError + NetworkAccess" where
  "compiled_network_access platform N file_read =
     (case file_read of
        None \<Rightarrow> Err NE_PolicyRead
      | Some content \<Rightarrow>
          (case platform of
             MacOS \<Rightarrow>
               (case from_utf8 content of None \<Rightarrow> Err NE_InvalidPolicy | Some body \<Rightarrow> parse_seatbelt_network body)
           | Linux \<Rightarrow>
               (case nl_json_parse N content of
                  None \<Rightarrow> Err NE_InvalidPolicy
                | Some value \<Rightarrow>
                    let network = json_at value ''network''; mode = json_at network ''mode''
                    in if mode = J_String ''deny'' then Ok NA_Deny
                       else if mode = J_String ''allowlist'' then
                         (case json_as_array (json_at network ''endpoints'') of
                            None \<Rightarrow> Err NE_InvalidPolicy
                          | Some endpoints \<Rightarrow>
                              (case collect_results (map bwrap_endpoint endpoints) of
                                 Inl e \<Rightarrow> Err e
                               | Inr es \<Rightarrow> Ok (NA_Allowlist es)))
                       else Err NE_UnsupportedPlatform)
           | OtherPlatform \<Rightarrow> Err NE_UnsupportedPlatform))"

section \<open>Provisioning\<close>

text \<open>
  What the system calls of \<open>compile_native_policy\<close> answer: reading the document, creating and
  restricting the workspace root, its canonical path, creating the parent of the output (\<open>True\<close> also when
  it has none), writing the temporary file, renaming it, and reading the output again.
\<close>

record provision_calls =
  pc_document :: "string option"
  pc_create_root :: bool
  pc_restrict_root :: bool
  pc_canonical_root :: "string option"
  pc_create_parent :: bool
  pc_write :: bool
  pc_rename :: bool
  pc_output :: "bytes option"

definition is_absolute :: "string \<Rightarrow> bool" where
  "is_absolute path \<longleftrightarrow> starts_with ''/'' path"

text \<open>The result, and the content that the output file was given, if it was.\<close>

definition compile_native_policy ::
  "Platform \<Rightarrow> 'x native_lib \<Rightarrow> provision_calls \<Rightarrow> string \<Rightarrow> string \<Rightarrow> string \<Rightarrow>
   (NativeConfigError + string) \<times> string option" where
  "compile_native_policy platform N calls policy_document output workspace_root =
     (if \<not> is_absolute policy_document \<or> \<not> is_absolute output \<or> \<not> is_absolute workspace_root
      then (Err NE_InvalidConfiguration, None)
      else case pc_document calls of
        None \<Rightarrow> (Err NE_PolicyRead, None)
      | Some yaml \<Rightarrow>
      (case pl_parse_sandbox_policy (nl_policy N) yaml of
        None \<Rightarrow> (Err NE_InvalidPolicy, None)
      | Some policy \<Rightarrow>
      (case validate_policy_floor N policy of
        Inl e \<Rightarrow> (Err e, None)
      | Inr network \<Rightarrow>
          if \<not> pc_create_root calls \<or> \<not> pc_restrict_root calls then (Err NE_PolicyWrite, None)
          else case pc_canonical_root calls of
            None \<Rightarrow> (Err NE_PolicyWrite, None)
          | Some root \<Rightarrow>
              (case (case platform of
                       MacOS \<Rightarrow> Some (compile_seatbelt network)
                     | Linux \<Rightarrow> Some (compile_bwrap N root network)
                     | OtherPlatform \<Rightarrow> None) of
                 None \<Rightarrow> (Err NE_UnsupportedPlatform, None)
               | Some compiled \<Rightarrow>
                   if \<not> pc_create_parent calls \<or> \<not> pc_write calls \<or> \<not> pc_rename calls
                   then (Err NE_PolicyWrite, None)
                   else (sha256_file N (pc_output calls), Some compiled)))))"

section \<open>Round trip of a profile\<close>

lemma from_utf8_as_bytes:
  assumes "list_all is_ascii s"
  shows "from_utf8 (as_bytes s) = Some s"
proof -
  have "utf8_ok (map unat (as_bytes s))"
    using is_utf8_ascii [OF assms] by (simp add: map_unat_as_bytes is_utf8_def)
  moreover have "map (char_of \<circ> unat) (as_bytes s) = s"
    by (induction s) (simp_all add: as_bytes_def unat_byte_of_char)
  ultimately show ?thesis
    by (simp add: from_utf8_def)
qed

lemma map_filter_append: "List.map_filter f (xs @ ys) = List.map_filter f xs @ List.map_filter f ys"
  by (simp add: List.map_filter_def)

lemma PROFILE_LINES_plain:
  "list_all (\<lambda>l. newline \<notin> set l \<and> carriage_return \<notin> set l) PROFILE_LINES"
  "List.map_filter (strip_prefix EGRESS_ALLOW) PROFILE_LINES = []"
  "list_all is_ascii (unlines PROFILE_LINES)"
  by (simp_all add: PROFILE_LINES_def EGRESS_ALLOW_def newline_def carriage_return_def is_ascii_def List.map_filter_def)

definition valid_endpoint :: "string \<times> u16 \<Rightarrow> bool" where
  "valid_endpoint endpoint \<longleftrightarrow> fst endpoint \<noteq> [] \<and> newline \<notin> set (fst endpoint) \<and> carriage_return \<notin> set (fst endpoint)"

lemma allow_line_plain:
  "valid_endpoint e \<Longrightarrow> newline \<notin> set (allow_line e) \<and> carriage_return \<notin> set (allow_line e)"
  by (auto simp: valid_endpoint_def allow_line_def EGRESS_ALLOW_def newline_def carriage_return_def show_u16_def
      dest: show_nat_not_in [THEN notE, rotated] simp: is_ascii_digit_def)

lemma parse_allow_line:
  assumes "valid_endpoint e"
  shows "strip_prefix EGRESS_ALLOW (allow_line e) = Some (fst e @ '':'' @ show_u16 (snd e))"
    and "parse_allow_target (fst e @ '':'' @ show_u16 (snd e)) = Ok e"
proof -
  have "CHR '':'' \<notin> set (show_u16 (snd e))"
    by (simp add: show_u16_def show_nat_not_in is_ascii_digit_def)
  then show "parse_allow_target (fst e @ '':'' @ show_u16 (snd e)) = Ok e"
    using assms by (simp add: parse_allow_target_def rsplit_once_append parse_show_u16 valid_endpoint_def)
qed (simp add: allow_line_def)

lemma collect_results_Ok: "collect_results (map Ok xs) = Ok xs"
  by (induction xs) simp_all

lemma parse_allow_lines:
  assumes "list_all valid_endpoint endpoints"
  shows "map parse_allow_target (List.map_filter (strip_prefix EGRESS_ALLOW) (map allow_line endpoints)) = map Ok endpoints"
  using assms
proof (induction endpoints)
  case (Cons e es)
  then show ?case
    using parse_allow_line [of e] by (simp add: List.map_filter_def)
qed (simp add: List.map_filter_def)

lemma OUTBOUND_RULE_plain:
  "newline \<notin> set OUTBOUND_RULE" "carriage_return \<notin> set OUTBOUND_RULE" "strip_prefix EGRESS_ALLOW OUTBOUND_RULE = None"
  by (simp_all add: OUTBOUND_RULE_def EGRESS_ALLOW_def newline_def carriage_return_def)

text \<open>Reading a compiled Seatbelt profile gives the network access it was compiled for.\<close>

lemma parse_compile_seatbelt:
  assumes "case network of NA_Deny \<Rightarrow> True | NA_Allowlist endpoints \<Rightarrow> endpoints \<noteq> [] \<and> list_all valid_endpoint endpoints"
  shows "parse_seatbelt_network (compile_seatbelt network) = Ok network"
proof (cases network)
  case NA_Deny
  then show ?thesis
    using str_lines_unlines [OF PROFILE_LINES_plain(1), of "[]"] PROFILE_LINES_plain(2)
    by (simp add: parse_seatbelt_network_def compile_seatbelt_def)
next
  case (NA_Allowlist endpoints)
  with assms have e: "endpoints \<noteq> []" "list_all valid_endpoint endpoints"
    by simp_all
  have "list_all (\<lambda>l. newline \<notin> set l \<and> carriage_return \<notin> set l) (PROFILE_LINES @ map allow_line endpoints @ [OUTBOUND_RULE])"
    using PROFILE_LINES_plain(1) e(2) OUTBOUND_RULE_plain by (auto simp: list_all_iff dest: allow_line_plain)
  from str_lines_unlines [OF this, of "[]"]
  have lines: "str_lines (compile_seatbelt network) = PROFILE_LINES @ map allow_line endpoints @ [OUTBOUND_RULE]"
    by (simp add: NA_Allowlist compile_seatbelt_def unlines_def)
  have "List.map_filter (strip_prefix EGRESS_ALLOW) [OUTBOUND_RULE] = []"
    using OUTBOUND_RULE_plain(3) by (simp add: List.map_filter_def)
  then have "collect_results (map parse_allow_target (List.map_filter (strip_prefix EGRESS_ALLOW)
      (str_lines (compile_seatbelt network)))) = Ok endpoints"
    unfolding lines map_filter_append
    using PROFILE_LINES_plain(2) parse_allow_lines [OF e(2)] collect_results_Ok by simp
  moreover have "str_contains OUTBOUND_RULE (compile_seatbelt network)"
    unfolding str_contains_iff NA_Allowlist compile_seatbelt_def by simp (metis append.assoc)
  ultimately show ?thesis
    using e(1) by (simp add: parse_seatbelt_network_def NA_Allowlist)
qed

section \<open>Compiled policies\<close>

definition dev_network :: NetworkAccess where
  "dev_network = NA_Allowlist [(DEV_NETWORK_HOST, DEV_NETWORK_PORT)]"

lemma validate_policy_floor_network:
  "validate_policy_floor N policy = Ok network \<Longrightarrow> network = NA_Deny \<or> network = dev_network"
  by (auto simp: validate_policy_floor_def dev_network_def split: option.splits if_splits list.splits prod.splits)

lemma profile_pairs:
  "pair_count (CHR ''k'') (CHR ''-'') (compile_seatbelt NA_Deny) = 0"
  "pair_count (CHR ''k'') (CHR ''-'') (compile_seatbelt dev_network) = 1"
proof -
  have not_newline: "CHR ''k'' \<noteq> newline" "CHR ''-'' \<noteq> newline"
    by (simp_all add: newline_def)
  have "map (pair_count (CHR ''k'') (CHR ''-'')) PROFILE_LINES = replicate 17 0"
    by (simp add: PROFILE_LINES_def numeral_eq_Suc)
  then have "sum_list (map (pair_count (CHR ''k'') (CHR ''-'')) PROFILE_LINES) = 0"
    by (simp add: sum_list_replicate)
  moreover have "pair_count (CHR ''k'') (CHR ''-'') (allow_line (DEV_NETWORK_HOST, p)) = 0" for p
    by (rule pair_count_absent)
      (simp add: allow_line_def EGRESS_ALLOW_def DEV_NETWORK_HOST_def show_u16_def show_nat_not_in is_ascii_digit_def)
  moreover have "pair_count (CHR ''k'') (CHR ''-'') (OUTBOUND_RULE @ newline # s) = 1 + pair_count (CHR ''k'') (CHR ''-'') s" for s
    by (simp add: pair_count_newline not_newline) (simp add: OUTBOUND_RULE_def)
  ultimately show "pair_count (CHR ''k'') (CHR ''-'') (compile_seatbelt NA_Deny) = 0"
      "pair_count (CHR ''k'') (CHR ''-'') (compile_seatbelt dev_network) = 1"
    using pair_count_unlines [OF not_newline, of PROFILE_LINES "[]"]
    by (simp_all add: compile_seatbelt_def dev_network_def pair_count_unlines not_newline pair_count_newline)
qed

lemma seatbelt_dev:
  "verify_seatbelt (as_bytes (compile_seatbelt network)) = Ok ()"
  "from_utf8 (as_bytes (compile_seatbelt network)) = Some (compile_seatbelt network)"
  "parse_seatbelt_network (compile_seatbelt network) = Ok network"
  if "network = NA_Deny \<or> network = dev_network"
proof -
  show parse: "parse_seatbelt_network (compile_seatbelt network) = Ok network"
    using that by (intro parse_compile_seatbelt)
      (auto simp: dev_network_def valid_endpoint_def DEV_NETWORK_HOST_def newline_def carriage_return_def)
  have "list_all is_ascii (show_u16 p)" for p
    using show_nat_digits [of "unat p"] by (auto simp: show_u16_def list_all_iff is_ascii_def is_ascii_digit_def)
  then have "list_all is_ascii (compile_seatbelt network)"
    using that PROFILE_LINES_plain(3)
    by (auto simp: compile_seatbelt_def dev_network_def allow_line_def EGRESS_ALLOW_def DEV_NETWORK_HOST_def
        OUTBOUND_RULE_def newline_def is_ascii_def)
  then show utf8: "from_utf8 (as_bytes (compile_seatbelt network)) = Some (compile_seatbelt network)"
    by (rule from_utf8_as_bytes)
  have "starts_with '';; OpenBox native profile v2 '' (compile_seatbelt network)"
    by (simp add: starts_with_def compile_seatbelt_def PROFILE_LINES_def)
  moreover have "\<not> str_contains ''network-outbound'' (compile_seatbelt NA_Deny)"
    using pair_count_contains [of "''network-outbound''" "compile_seatbelt NA_Deny" "CHR ''k''" "CHR ''-''"]
    by (auto simp: profile_pairs)
  moreover have "count_matches ''network-outbound'' (compile_seatbelt network) \<le> 1"
    using count_matches_le [of "''network-outbound''" "CHR ''k''" "CHR ''-''" "compile_seatbelt network"] that
    by (auto simp: profile_pairs)
  ultimately show "verify_seatbelt (as_bytes (compile_seatbelt network)) = Ok ()"
    using parse utf8 by (auto simp: verify_seatbelt_def)
qed

lemma json_as_u64_show: "json_as_u64 (J_Number (show_u16 p)) = Some (unat p)"
proof -
  have "unat p < 2 ^ 64"
    using unsigned_less [of p, where ?'a = nat] by simp
  then show ?thesis
    using show_nat_digits [of "unat p"] by (simp add: show_u16_def parse_show_nat)
qed

lemma bwrap_endpoint_show:
  assumes "json_at e ''host'' = J_String host" and "json_at e ''port'' = J_Number (show_u16 p)"
  shows "bwrap_endpoint e = Ok (host, p)"
proof -
  have "unat p < 65536"
    using unsigned_less [of p, where ?'a = nat] by simp
  with assms show ?thesis
    by (simp add: bwrap_endpoint_def json_as_u64_show del: json_as_u64.simps)
qed

lemma bwrap_dev_endpoint: "is_dev_endpoint e \<Longrightarrow> bwrap_endpoint e = Ok (DEV_NETWORK_HOST, DEV_NETWORK_PORT)"
  by (cases e) (simp_all add: bwrap_endpoint_show del: json_at.simps)

lemma bwrap_dev:
  assumes "network = NA_Deny \<or> network = dev_network"
    and law: "\<And>v. compile_bwrap N root network = nl_json_pretty N v @ [newline] \<Longrightarrow>
      nl_json_parse N (as_bytes (compile_bwrap N root network)) = Some v"
  shows "verify_bwrap N root (as_bytes (compile_bwrap N root network)) = Ok ()"
    and "compiled_network_access Linux N (Some (as_bytes (compile_bwrap N root network))) = Ok network"
proof -
  note parsed = law [OF compile_bwrap_def]
  show "verify_bwrap N root (as_bytes (compile_bwrap N root network)) = Ok ()"
    using assms(1) unfolding verify_bwrap_def parsed
    by (auto simp: dev_network_def Let_def)
  show "compiled_network_access Linux N (Some (as_bytes (compile_bwrap N root network))) = Ok network"
    using assms(1) unfolding compiled_network_access_def option.case parsed
    by (auto simp: dev_network_def Let_def bwrap_endpoint_show)
qed

text \<open>
  C25. What provisioning compiles is accepted when the service starts and read back to the network access
  that the policy was validated for: none, or the one development endpoint; the digest it returns is the
  one of the file. \<open>serde_json\<close> is taken to parse what it printed.
\<close>

theorem compiled_policy_roundtrip:
  assumes "compile_native_policy platform N calls document output workspace = (Ok sha, Some compiled)"
    and "pc_output calls = Some (as_bytes compiled)" and "pc_canonical_root calls = Some root"
    and "\<And>v. compiled = nl_json_pretty N v @ [newline] \<Longrightarrow> nl_json_parse N (as_bytes compiled) = Some v"
  shows "verify_compiled_profile platform N (pc_output calls) (pc_output calls) sha root = Ok ()
    \<and> (\<exists>yaml policy network. pc_document calls = Some yaml \<and> pl_parse_sandbox_policy (nl_policy N) yaml = Some policy
         \<and> validate_policy_floor N policy = Ok network \<and> (network = NA_Deny \<or> network = dev_network)
         \<and> compiled_network_access platform N (pc_output calls) = Ok network)"
proof -
  obtain yaml policy network where p: "pc_document calls = Some yaml" "pl_parse_sandbox_policy (nl_policy N) yaml = Some policy"
      "validate_policy_floor N policy = Ok network"
    and compiled: "sha256_file N (pc_output calls) = Ok sha"
      "platform = MacOS \<and> compiled = compile_seatbelt network \<or> platform = Linux \<and> compiled = compile_bwrap N root network"
    using assms(1,3) by (auto simp: compile_native_policy_def split: if_splits option.splits sum.splits Platform.splits)
  have network: "network = NA_Deny \<or> network = dev_network"
    by (rule validate_policy_floor_network [OF p(3)])
  from compiled(2) have "verify_compiled_profile platform N (pc_output calls) (pc_output calls) sha root = Ok ()
      \<and> compiled_network_access platform N (pc_output calls) = Ok network"
    using compiled(1) seatbelt_dev [OF network] bwrap_dev [OF network, of N root] assms(2,4)
    by (auto simp: verify_compiled_profile_def compiled_network_access_def [of MacOS])
  with p network show ?thesis
    by blast
qed

definition sample_bwrap :: json where
  "sample_bwrap = J_Object
     [(''clear_environment'', J_Bool True), (''format'', J_String ''openbox-native-bwrap-v1''),
      (''network'', J_Object [(''mode'', J_String ''deny'')]), (''workdir'', J_String ''/sandbox''),
      (''workspace_root'', J_String ''/w'')]"

definition sample_native_policy :: "unit SandboxPolicy" where
  "sample_native_policy = \<lparr>sp_version = 1,
     sp_filesystem = Some \<lparr>fsp_include_workdir = False, fsp_read_only = [], fsp_read_write = [''/sandbox'']\<rparr>,
     sp_landlock = None,
     sp_process = Some \<lparr>prp_run_as_user = ''sandbox'', prp_run_as_group = ''sandbox'', prp_rest = ()\<rparr>,
     sp_network_policies = fmempty, sp_network_middlewares = fmempty\<rparr>"

definition sample_native_lib :: "unit native_lib" where
  "sample_native_lib = \<lparr>
     nl_policy = \<lparr>pl_parse_sandbox_policy = \<lambda>_. Some sample_native_policy, pl_normalize_path = id, pl_sha256 = \<lambda>_. [],
        pl_encode_filesystem = \<lambda>_. [], pl_encode_landlock = \<lambda>_. [], pl_encode_process = \<lambda>_. [],
        pl_encode_rule = \<lambda>_. [], pl_encode_middleware = \<lambda>_. []\<rparr>,
     nl_default = (),
     nl_json_pretty = \<lambda>v. if v = sample_bwrap then ''x'' else [],
     nl_json_parse = \<lambda>bytes. if bytes = as_bytes [CHR ''x'', newline] then Some sample_bwrap else None\<rparr>"

definition sample_calls :: provision_calls where
  "sample_calls = \<lparr>pc_document = Some [], pc_create_root = True, pc_restrict_root = True, pc_canonical_root = Some ''/w'',
     pc_create_parent = True, pc_write = True, pc_rename = True, pc_output = Some (as_bytes [CHR ''x'', newline])\<rparr>"

theorem compiled_policy_roundtrip_witness:
  "verify_compiled_profile Linux sample_native_lib (pc_output sample_calls) (pc_output sample_calls) [] ''/w'' = Ok ()
    \<and> compiled_network_access Linux sample_native_lib (pc_output sample_calls) = Ok NA_Deny"
proof -
  have policy: "validate_policy_floor sample_native_lib sample_native_policy = Ok NA_Deny"
    by (simp add: validate_policy_floor_def sample_native_policy_def sorted_entries_def sorted_list_of_fset.rep_eq)
  have run: "compile_native_policy Linux sample_native_lib sample_calls ''/p'' ''/o'' ''/w'' = (Ok [], Some [CHR ''x'', newline])"
    using policy
    by (simp add: compile_native_policy_def is_absolute_def starts_with_def sample_calls_def sample_native_lib_def
        compile_bwrap_def sample_bwrap_def sha256_file_def hex_string_def)
  have law: "nl_json_parse sample_native_lib (as_bytes [CHR ''x'', newline]) = Some v"
    if "[CHR ''x'', newline] = nl_json_pretty sample_native_lib v @ [newline]" for v
    using that by (simp add: sample_native_lib_def split: if_splits)
  from compiled_policy_roundtrip [OF run _ _ law] policy show ?thesis
    by (simp add: sample_calls_def) (simp add: sample_native_lib_def)
qed

text \<open>
  A profile that passes verification has the pinned digest on its first read, and its content, the
  second read, gives on Linux no network or exactly the development endpoint; on macOS a profile without
  endpoints has no outbound rule at all, and one with endpoints has a single one, to the proxy.
\<close>

theorem verified_profile_access:
  assumes "verify_compiled_profile platform N first_read second_read sha root = Ok ()"
  shows "sha256_file N first_read = Ok sha \<and> (\<exists>content. second_read = Some content
    \<and> (platform = Linux \<longrightarrow> compiled_network_access Linux N second_read \<in> {Ok NA_Deny, Ok dev_network})
    \<and> (platform = MacOS \<longrightarrow> (\<exists>body access. from_utf8 content = Some body
         \<and> compiled_network_access MacOS N second_read = Ok access
         \<and> (if access = NA_Deny then \<not> str_contains ''network-outbound'' body
            else str_contains OUTBOUND_RULE body \<and> count_matches ''network-outbound'' body \<le> 1))))"
proof -
  obtain content where content: "second_read = Some content" "sha256_file N first_read = Ok sha"
    and verified: "case platform of MacOS \<Rightarrow> verify_seatbelt content = Ok () | Linux \<Rightarrow> verify_bwrap N root content = Ok ()
      | OtherPlatform \<Rightarrow> True"
    using assms by (auto simp: verify_compiled_profile_def split: sum.splits if_splits option.splits Platform.splits)
  have "compiled_network_access Linux N second_read \<in> {Ok NA_Deny, Ok dev_network}" if "platform = Linux"
    using verified that content(1) bwrap_dev_endpoint
    by (auto simp: verify_bwrap_def compiled_network_access_def Let_def dev_network_def split: option.splits if_splits
        json.splits list.splits)
  moreover have "\<exists>body access. from_utf8 content = Some body
         \<and> compiled_network_access MacOS N second_read = Ok access
         \<and> (if access = NA_Deny then \<not> str_contains ''network-outbound'' body
            else str_contains OUTBOUND_RULE body \<and> count_matches ''network-outbound'' body \<le> 1)" if mac: "platform = MacOS"
  proof -
    obtain body access where body: "from_utf8 content = Some body" "parse_seatbelt_network body = Ok access"
      and checks: "access = NA_Deny \<longrightarrow> \<not> str_contains ''network-outbound'' body"
        "count_matches ''network-outbound'' body \<le> 1"
      using verified mac by (auto simp: verify_seatbelt_def split: option.splits sum.splits if_splits)
    have "str_contains OUTBOUND_RULE body" if "access \<noteq> NA_Deny"
      using body(2) that by (auto simp: parse_seatbelt_network_def split: sum.splits if_splits)
    with body checks content(1) show ?thesis
      by (auto simp: compiled_network_access_def)
  qed
  ultimately show ?thesis
    using content by blast
qed

theorem verified_profile_access_witness:
  "compiled_network_access Linux sample_native_lib (pc_output sample_calls) \<in> {Ok NA_Deny, Ok dev_network}"
proof -
  have "verify_compiled_profile Linux sample_native_lib (pc_output sample_calls) (pc_output sample_calls) [] ''/w'' = Ok ()"
    by (simp add: verify_compiled_profile_def verify_bwrap_def sample_calls_def sample_native_lib_def sample_bwrap_def
        sha256_file_def hex_string_def Let_def)
  from verified_profile_access [OF this] show ?thesis
    by simp
qed

end
