(* ===== verification/Native_Proxy.thy ===== *)
theory Native_Proxy
  imports Native_Policy
begin

text \<open>
  The egress proxy of the native provider (\<^verbatim>\<open>src/src/native/proxy.rs\<close>): reading a request header, parsing
  it, the decision against the allow-list with the retained evidence, and the cap on connections. Sockets
  are the sequences of their reads; what the proxy then does with them is a value.
\<close>

section \<open>Requests\<close>

definition MAX_HEADER_BYTES :: nat where "MAX_HEADER_BYTES = 64 * 1024"
definition MAX_HOST_BYTES :: nat where "MAX_HOST_BYTES = 253"
definition MAX_RETAINED_DECISIONS :: nat where "MAX_RETAINED_DECISIONS = 256"
definition MAX_CONCURRENT_CONNECTIONS :: nat where "MAX_CONCURRENT_CONNECTIONS = 128"

definition crlf :: string where "crlf = [carriage_return, newline]"

definition header_end :: bytes where "header_end = as_bytes (crlf @ crlf)"

datatype ProxyError = PX_UnexpectedEof | PX_InvalidData | PX_Io

text \<open>
  \<open>read_header\<close> on the reads of the socket, each an error or the bytes it got, none at the end of the
  stream; \<open>None\<close> when it still waits for a read.
\<close>

fun read_header :: "bytes \<Rightarrow> (unit + bytes) list \<Rightarrow> (ProxyError + bytes) option" where
  "read_header bs [] = (if length bs < MAX_HEADER_BYTES then None else Some (Err PX_InvalidData))"
| "read_header bs (r # reads) =
     (if length bs < MAX_HEADER_BYTES then
        (case r of
           Inl _ \<Rightarrow> Some (Err PX_Io)
         | Inr chunk \<Rightarrow>
             if chunk = [] then Some (Err PX_UnexpectedEof)
             else if split_at_first header_end (bs @ chunk) \<noteq> None then Some (Ok (bs @ chunk))
             else read_header (bs @ chunk) reads)
      else Some (Err PX_InvalidData))"

record ProxyRequest =
  pq_connect :: bool
  pq_host :: string
  pq_port :: u16
  pq_forward_header :: bytes

definition parse_authority :: "string \<Rightarrow> u16 \<Rightarrow> ProxyError + (string \<times> u16)" where
  "parse_authority authority default_port =
     (if authority = [] \<or> CHR ''@'' \<in> set authority \<or> starts_with ''['' authority then Err PX_InvalidData
      else
        let split = (case rsplit_once (CHR '':'') authority of
               Some (host, port) \<Rightarrow>
                 if CHR '':'' \<notin> set host then map_option (\<lambda>p. (host, p)) (parse_u16 port)
                 else Some (authority, default_port)
             | None \<Rightarrow> Some (authority, default_port))
        in case split of
             None \<Rightarrow> Err PX_InvalidData
           | Some (host0, port) \<Rightarrow>
               let host = map to_ascii_lowercase (trim_end_matches (CHR ''.'') host0)
               in if host = [] \<or> MAX_HOST_BYTES < length host
                     \<or> \<not> list_all (\<lambda>c. is_ascii_alphanumeric c \<or> c = CHR ''.'' \<or> c = CHR ''-'') host
                  then Err PX_InvalidData else Ok (host, port))"

text \<open>The header lines that are forwarded.\<close>

definition is_proxy_connection :: "string \<Rightarrow> bool" where
  "is_proxy_connection line =
     (case split_once (CHR '':'') line of
        None \<Rightarrow> False
      | Some (name, _) \<Rightarrow> eq_ignore_ascii_case name ''proxy-connection'')"

definition forwarded_lines :: "string list \<Rightarrow> string list" where
  "forwarded_lines lines = filter (\<lambda>line. \<not> is_proxy_connection line) (takeWhile (\<lambda>line. line \<noteq> []) lines)"

definition parse_absolute :: "string \<Rightarrow> string \<Rightarrow> string \<Rightarrow> string list \<Rightarrow> bytes \<Rightarrow> ProxyError + ProxyRequest" where
  "parse_absolute http_method target version lines rest =
     (case strip_prefix ''http://'' target of
        None \<Rightarrow> Err PX_InvalidData
      | Some absolute \<Rightarrow>
          let (authority, path) =
                (case split_once (CHR ''/'') absolute of None \<Rightarrow> (absolute, ''/'') | Some parts \<Rightarrow> parts)
          in case parse_authority authority 80 of
               Inl e \<Rightarrow> Err e
             | Inr (host, port) \<Rightarrow>
                 let forward_path = (if path = ''/'' then ''/'' else ''/'' @ path)
                 in Ok \<lparr>pq_connect = False, pq_host = host, pq_port = port,
                      pq_forward_header = as_bytes
                        (http_method @ '' '' @ forward_path @ '' '' @ version @ crlf
                         @ concat (map (\<lambda>line. line @ crlf) (forwarded_lines lines)) @ crlf) @ rest\<rparr>)"

definition parse_request :: "bytes \<Rightarrow> ProxyError + ProxyRequest" where
  "parse_request header =
     (case split_at_first header_end header of
        None \<Rightarrow> Err PX_InvalidData
      | Some (head, rest) \<Rightarrow>
          (case from_utf8 (head @ header_end) of
             None \<Rightarrow> Err PX_InvalidData
           | Some txt \<Rightarrow>
               (case split_str crlf txt of
                  [] \<Rightarrow> Err PX_InvalidData
                | request_line # lines \<Rightarrow>
                    (case split_whitespace request_line of
                       [http_method, target, version] \<Rightarrow>
                         if \<not> starts_with ''HTTP/1.'' version then Err PX_InvalidData
                         else if eq_ignore_ascii_case http_method ''CONNECT'' then
                           (case parse_authority target 443 of
                              Inl e \<Rightarrow> Err e
                            | Inr (host, port) \<Rightarrow>
                                Ok \<lparr>pq_connect = True, pq_host = host, pq_port = port, pq_forward_header = []\<rparr>)
                         else parse_absolute http_method target version lines rest
                     | _ \<Rightarrow> Err PX_InvalidData))))"

section \<open>Serving\<close>

definition target_is_allowed :: "string \<Rightarrow> u16 \<Rightarrow> (string \<times> u16) list \<Rightarrow> bool" where
  "target_is_allowed host port allowlist =
     list_ex (\<lambda>(allowed_host, allowed_port). host = allowed_host \<and> port = allowed_port) allowlist"

text \<open>
  What a connection does after its header was read: it is closed, answered with 403, or connected to an
  upstream, with the answer to the client and the bytes sent upstream before both directions are copied.
\<close>

datatype served =
    SV_Closed
  | SV_Forbidden
  | SV_Upstream string u16 string bytes

definition serve :: "(string \<times> u16) list \<Rightarrow> bytes \<Rightarrow> EgressDecision list \<Rightarrow> served \<times> EgressDecision list" where
  "serve allowlist header decisions =
     (case parse_request header of
        Inl _ \<Rightarrow> (SV_Closed, decisions)
      | Inr request \<Rightarrow>
          let allowed = target_is_allowed (pq_host request) (pq_port request) allowlist;
              retained =
                (if length decisions < MAX_RETAINED_DECISIONS
                 then decisions @ [EgressDecision_new (if allowed then EgressAllowed else EgressDenied)
                        (pq_host request) (pq_port request)]
                 else decisions)
          in (if \<not> allowed then SV_Forbidden
              else SV_Upstream (pq_host request) (pq_port request)
                (if pq_connect request then ''HTTP/1.1 200 Connection Established'' @ crlf @ crlf else [])
                (pq_forward_header request), retained))"

text \<open>The accept loop: the number of connections being served, and what it does with an event.\<close>

datatype proxy_event = PE_Shutdown | PE_Joined | PE_Accepted | PE_AcceptFailed

datatype proxy_reaction = PR_Stop | PR_Continue | PR_Unavailable | PR_Spawn

definition proxy_step :: "nat \<Rightarrow> proxy_event \<Rightarrow> proxy_reaction \<times> nat" where
  "proxy_step connections event =
     (case event of
        PE_Shutdown \<Rightarrow> (PR_Stop, connections)
      | PE_AcceptFailed \<Rightarrow> (PR_Stop, connections)
      | PE_Joined \<Rightarrow> (PR_Continue, connections - 1)
      | PE_Accepted \<Rightarrow>
          if MAX_CONCURRENT_CONNECTIONS \<le> connections then (PR_Unavailable, connections)
          else (PR_Spawn, connections + 1))"

definition proxy_url :: "u16 \<Rightarrow> string" where
  "proxy_url port = ''http://127.0.0.1:'' @ show_u16 port"

section \<open>Hosts\<close>

definition host_char :: "char \<Rightarrow> bool" where
  "host_char c \<longleftrightarrow> (is_ascii_alphanumeric c \<or> c = CHR ''.'' \<or> c = CHR ''-'') \<and> to_ascii_lowercase c = c"

text \<open>The hosts the proxy compares: lower case, of bounded length, without a dot at the end.\<close>

definition normal_host :: "string \<Rightarrow> bool" where
  "normal_host host \<longleftrightarrow> host \<noteq> [] \<and> length host \<le> MAX_HOST_BYTES \<and> list_all host_char host \<and> last host \<noteq> CHR ''.''"

lemma of_char_lowercase:
  "(of_char (to_ascii_lowercase c) :: nat) = (if 65 \<le> (of_char c :: nat) \<and> of_char c \<le> (90 :: nat) then of_char c + 32 else of_char c)"
  by (auto simp: to_ascii_lowercase_def)

lemma to_ascii_lowercase_twice [simp]: "to_ascii_lowercase (to_ascii_lowercase c) = to_ascii_lowercase c"
  unfolding to_ascii_lowercase_def [of "to_ascii_lowercase c"] of_char_lowercase by auto

lemma lowercase_other:
  assumes "\<not> (97 \<le> (of_char d :: nat) \<and> of_char d \<le> (122 :: nat))" and "\<not> (65 \<le> (of_char d :: nat) \<and> of_char d \<le> (90 :: nat))"
  shows "to_ascii_lowercase c = d \<longleftrightarrow> c = d"
proof -
  have "of_char (to_ascii_lowercase c) = (of_char d :: nat) \<longleftrightarrow> of_char c = (of_char d :: nat)"
    using assms unfolding of_char_lowercase by auto
  then show ?thesis
    by simp
qed

lemma host_char_lowercase:
  "is_ascii_alphanumeric c \<or> c = CHR ''.'' \<or> c = CHR ''-'' \<Longrightarrow> host_char (to_ascii_lowercase c)"
  unfolding host_char_def is_ascii_alphanumeric_def is_ascii_digit_def of_char_lowercase
  by (auto simp: lowercase_other)

lemma lowercase_alphanumeric:
  "is_ascii_alphanumeric (to_ascii_lowercase c) \<longleftrightarrow> is_ascii_alphanumeric c"
  unfolding is_ascii_alphanumeric_def is_ascii_digit_def of_char_lowercase by auto

lemma host_char_lowercase_iff:
  "host_char (to_ascii_lowercase c) \<longleftrightarrow> is_ascii_alphanumeric c \<or> c = CHR ''.'' \<or> c = CHR ''-''"
  by (auto simp: host_char_def lowercase_alphanumeric lowercase_other)

lemma normal_host_chars:
  "list_all (\<lambda>c. is_ascii_alphanumeric c \<or> c = CHR ''.'' \<or> c = CHR ''-'') (map to_ascii_lowercase h) \<longleftrightarrow>
     list_all host_char (map to_ascii_lowercase h)"
  by (auto simp: list_all_iff host_char_lowercase_iff lowercase_alphanumeric lowercase_other)

lemma trim_end_last: "trim_end_matches c s \<noteq> [] \<Longrightarrow> last (trim_end_matches c s) \<noteq> c"
  unfolding trim_end_matches_def using hd_dropWhile [of "\<lambda>x. x = c" "rev s"] by (auto simp: last_rev)

lemma trim_end_id: "s = [] \<or> last s \<noteq> c \<Longrightarrow> trim_end_matches c s = s"
  by (cases s rule: rev_cases) (auto simp: trim_end_matches_def)

lemma parse_authority_normal:
  assumes "parse_authority authority default_port = Ok (host, port)"
  shows "normal_host host"
proof -
  obtain host0 where host: "host = map to_ascii_lowercase (trim_end_matches (CHR ''.'') host0)" "host \<noteq> []"
      "length host \<le> MAX_HOST_BYTES"
      "list_all (\<lambda>c. is_ascii_alphanumeric c \<or> c = CHR ''.'' \<or> c = CHR ''-'') host"
    using assms by (auto simp: parse_authority_def Let_def not_less split: if_splits option.splits prod.splits)
  moreover have "list_all host_char host"
    using host(4) unfolding host(1) normal_host_chars .
  moreover have "last host \<noteq> CHR ''.''"
    using host(2) trim_end_last [of "CHR ''.''" host0] unfolding host(1) by (simp add: last_map lowercase_other)
  ultimately show ?thesis
    by (simp add: normal_host_def)
qed

lemma host_char_not: "host_char c \<Longrightarrow> c \<noteq> CHR '':'' \<and> c \<noteq> CHR ''@'' \<and> c \<noteq> CHR ''[''"
  by (auto simp: host_char_def is_ascii_alphanumeric_def is_ascii_digit_def to_ascii_lowercase_def)

lemma parse_authority_host:
  assumes "normal_host host"
  shows "parse_authority (host @ '':'' @ show_u16 port) default_port = Ok (host, port)"
    and "parse_authority host default_port = Ok (host, default_port)"
proof -
  have h: "host \<noteq> []" "length host \<le> MAX_HOST_BYTES" "list_all host_char host" "last host \<noteq> CHR ''.''"
    using assms by (simp_all add: normal_host_def)
  have no: "CHR '':'' \<notin> set host" "CHR ''@'' \<notin> set host" "CHR ''['' \<notin> set host"
    using h(3) host_char_not by (auto simp: list_all_iff)
  have port: "CHR '':'' \<notin> set (show_u16 port)" "CHR ''@'' \<notin> set (show_u16 port)"
    by (simp_all add: show_u16_def show_nat_not_in is_ascii_digit_def)
  have first: "\<not> starts_with ''['' (host @ s)" for s
    using h(1) no(3) by (cases host) (auto simp: starts_with_def)
  have lower: "map to_ascii_lowercase host = host"
    using h(3) by (auto simp: list_all_iff host_char_def intro: map_idI)
  have trim: "trim_end_matches (CHR ''.'') host = host"
    using h(4) by (simp add: trim_end_id)
  have chars: "list_all (\<lambda>c. is_ascii_alphanumeric c \<or> c = CHR ''.'' \<or> c = CHR ''-'') host"
    using h(3) by (auto simp: list_all_iff host_char_def)
  show "parse_authority (host @ '':'' @ show_u16 port) default_port = Ok (host, port)"
    using rsplit_once_append [OF port(1), of host] h(1,2) no port first [of "CHR '':'' # show_u16 port"] lower trim chars
    by (auto simp: parse_authority_def parse_show_u16)
  have "rsplit_once (CHR '':'') host = None"
    using no(1) by (simp add: rsplit_once_def)
  then show "parse_authority host default_port = Ok (host, default_port)"
    using h(1,2) no first [of "[]"] lower trim chars by (auto simp: parse_authority_def)
qed

section \<open>Requests that were read\<close>

lemma parse_request_normal:
  assumes "parse_request header = Ok r"
  shows "normal_host (pq_host r)"
proof -
  obtain authority d where "parse_authority authority d = Ok (pq_host r, pq_port r)"
    using assms
    by (auto simp: parse_request_def parse_absolute_def Let_def split: option.splits prod.splits list.splits sum.splits if_splits)
  then show ?thesis
    by (rule parse_authority_normal)
qed

lemma read_header_sound:
  assumes "read_header bs reads = Some (Ok header)" and "list_all (\<lambda>r. case r of Inl _ \<Rightarrow> True | Inr c \<Rightarrow> length c \<le> 1024) reads"
  shows "length header < MAX_HEADER_BYTES + 1024 \<and> split_at_first header_end header \<noteq> None"
  using assms
proof (induction bs reads rule: read_header.induct)
  case (2 bs r reads)
  then show ?case
    by (cases r) (auto split: if_splits)
qed (simp split: if_splits)

lemma read_header_ends:
  "MAX_HEADER_BYTES \<le> length bs + length reads \<Longrightarrow> read_header bs reads \<noteq> None"
proof (induction bs reads rule: read_header.induct)
  case (2 bs r reads)
  have "MAX_HEADER_BYTES \<le> length (bs @ chunk) + length reads" if "chunk \<noteq> []" for chunk :: bytes
    using that 2(2) by (cases chunk) simp_all
  with 2(1) show ?case
    by (cases r) (auto split: if_splits)
qed simp

text \<open>
  A header is read to its end within bounds: what is read has the empty line that ends a header and
  is shorter than the limit by the size of one read at most beyond it, and whatever a client sends, the
  reader has an answer after at most as many reads as the limit has bytes.
\<close>

theorem header_read_bounded:
  assumes "list_all (\<lambda>r. case r of Inl _ \<Rightarrow> True | Inr chunk \<Rightarrow> length chunk \<le> 1024) reads"
  shows "(\<forall>header. read_header [] reads = Some (Ok header) \<longrightarrow>
      length header < MAX_HEADER_BYTES + 1024 \<and> (\<exists>head rest. header = head @ header_end @ rest))
    \<and> (MAX_HEADER_BYTES \<le> length reads \<longrightarrow> read_header [] reads \<noteq> None)"
  using read_header_sound [OF _ assms, of "[]"] read_header_ends [of "[]" reads] split_at_first_Some [of header_end]
  by (auto, blast+)

theorem header_read_bounded_witness:
  "length (header_end @ [1]) < MAX_HEADER_BYTES + 1024"
proof -
  have "list_all (\<lambda>r. case r of Inl _ \<Rightarrow> True | Inr chunk \<Rightarrow> length chunk \<le> 1024) [Ok [], Ok (header_end @ [1]) :: unit + bytes]"
    by (simp add: header_end_def crlf_def)
  moreover have "read_header [] [Ok (header_end @ [1])] = Some (Ok (header_end @ [1]))"
    using split_at_first_occurs [of header_end "[]" "[1]"] by (auto simp: MAX_HEADER_BYTES_def header_end_def crlf_def)
  ultimately show ?thesis
    using header_read_bounded [of "[Ok (header_end @ [1])]"] by simp
qed

section \<open>Egress\<close>

fun serve_all :: "(string \<times> u16) list \<Rightarrow> bytes list \<Rightarrow> EgressDecision list \<Rightarrow> served list \<times> EgressDecision list" where
  "serve_all allowlist [] decisions = ([], decisions)"
| "serve_all allowlist (header # headers) decisions =
     (case serve allowlist header decisions of
        (s, decisions1) \<Rightarrow> (case serve_all allowlist headers decisions1 of (ss, decisions2) \<Rightarrow> (s # ss, decisions2)))"

definition verdict :: "(string \<times> u16) list \<Rightarrow> ProxyRequest \<Rightarrow> EgressDecision" where
  "verdict allowlist r = EgressDecision_new
     (if (pq_host r, pq_port r) \<in> set allowlist then EgressAllowed else EgressDenied) (pq_host r) (pq_port r)"

definition requests :: "bytes list \<Rightarrow> ProxyRequest list" where
  "requests headers = List.map_filter (\<lambda>header. case parse_request header of Inl _ \<Rightarrow> None | Inr r \<Rightarrow> Some r) headers"

lemma target_is_allowed_iff: "target_is_allowed host port allowlist \<longleftrightarrow> (host, port) \<in> set allowlist"
  by (auto simp: target_is_allowed_def list_ex_iff)

lemma serve_all_Cons:
  "snd (serve_all allowlist (header # headers) decisions) =
     snd (serve_all allowlist headers (snd (serve allowlist header decisions)))"
  by (simp split: prod.split)

lemma requests_Cons:
  "requests (header # headers) = (case parse_request header of Inl _ \<Rightarrow> requests headers | Inr r \<Rightarrow> r # requests headers)"
  by (simp add: requests_def List.map_filter_def split: sum.split)

lemma serve_all_decisions:
  "length decisions \<le> MAX_RETAINED_DECISIONS \<Longrightarrow>
   snd (serve_all allowlist headers decisions) = take MAX_RETAINED_DECISIONS (decisions @ map (verdict allowlist) (requests headers))"
proof (induction headers arbitrary: decisions)
  case (Cons header headers)
  show ?case
  proof (cases "parse_request header")
    case (Inl e)
    with Cons show ?thesis
      unfolding serve_all_Cons requests_Cons by (simp add: serve_def)
  next
    case (Inr r)
    have step: "snd (serve allowlist header decisions) =
        (if length decisions < MAX_RETAINED_DECISIONS then decisions @ [verdict allowlist r] else decisions)"
      by (simp add: serve_def Inr Let_def target_is_allowed_iff verdict_def)
    show ?thesis
      unfolding serve_all_Cons requests_Cons step using Cons.prems
      by (simp add: Cons.IH Inr take_Cons')
  qed
qed (simp add: requests_def List.map_filter_def)

lemma serve_all_upstream:
  "SV_Upstream host port reply sent \<in> set (fst (serve_all allowlist headers decisions)) \<Longrightarrow>
   (host, port) \<in> set allowlist \<and> normal_host host"
proof (induction headers arbitrary: decisions)
  case (Cons header headers)
  obtain s ds where s: "serve allowlist header decisions = (s, ds)"
    by (cases "serve allowlist header decisions")
  have "(host, port) \<in> set allowlist \<and> normal_host host" if "s = SV_Upstream host port reply sent"
    using s that parse_request_normal [of header]
    by (auto simp: serve_def Let_def target_is_allowed_iff split: sum.splits if_splits)
  with Cons.IH [of ds] Cons.prems s show ?case
    by (auto split: prod.splits)
qed simp

text \<open>
  C26. Whatever clients send, the proxy connects only to targets of the allow-list, by a normalised host
  and the port the request names, and the evidence it retains is the verdicts on the requests it could
  parse, in their order, up to the bound: allowed exactly for the targets of the allow-list.
\<close>

theorem proxy_reaches_only_allowlist:
  assumes "serve_all allowlist headers [] = (outcomes, decisions)"
  shows "(\<forall>host port reply sent. SV_Upstream host port reply sent \<in> set outcomes \<longrightarrow>
      (host, port) \<in> set allowlist \<and> normal_host host)
    \<and> decisions = take MAX_RETAINED_DECISIONS (map (verdict allowlist) (requests headers))"
  using serve_all_upstream [of _ _ _ _ allowlist headers "[]"] serve_all_decisions [of "[]" allowlist headers] assms
  by auto

text \<open>A concrete header: the request is rewritten for the upstream, and the path \<open>//\<close> loses a slash.\<close>

lemma strip_prefix_map: "inj f \<Longrightarrow> strip_prefix (map f xs) (map f ys) = map_option (map f) (strip_prefix xs ys)"
  by (induction xs ys rule: strip_prefix.induct) (auto dest: injD)

lemma split_at_first_map:
  "inj f \<Longrightarrow> split_at_first (map f pat) (map f s) = map_option (\<lambda>(a, b). (map f a, map f b)) (split_at_first pat s)"
proof (induction s)
  case (Cons x s)
  with strip_prefix_map [OF Cons.prems, of pat "x # s"] show ?case
    by (cases "strip_prefix pat (x # s)"; cases "split_at_first pat s") auto
qed simp

lemma split_header:
  "split_at_first header_end (as_bytes s) = map_option (\<lambda>(a, b). (as_bytes a, as_bytes b)) (split_at_first (crlf @ crlf) s)"
  unfolding header_end_def as_bytes_def
  by (rule split_at_first_map) (simp add: inj_def byte_of_char_inject)

definition sample_request :: string where
  "sample_request = ''GET http://A.b:80// HTTP/1.1'' @ crlf @ ''Proxy-Connection: x'' @ crlf @ ''H: y'' @ crlf @ crlf"

lemma sample_split: "split_at_first (crlf @ crlf) sample_request =
    Some (''GET http://A.b:80// HTTP/1.1'' @ crlf @ ''Proxy-Connection: x'' @ crlf @ ''H: y'', [])"
  by code_simp

lemma sample_lines: "split_str crlf sample_request = [''GET http://A.b:80// HTTP/1.1'', ''Proxy-Connection: x'', ''H: y'', [], []]"
  by code_simp

lemma sample_words: "split_whitespace ''GET http://A.b:80// HTTP/1.1'' = [''GET'', ''http://A.b:80//'', ''HTTP/1.1'']"
  by code_simp

lemma sample_text: "from_utf8 (as_bytes sample_request) = Some sample_request"
  by (rule from_utf8_as_bytes) (simp add: sample_request_def crlf_def carriage_return_def newline_def is_ascii_def)

lemma sample_authority: "parse_authority ''A.b:80'' 80 = Ok (''a.b'', 80)"
proof -
  have port: "parse_u16 ''80'' = Some 80"
    by (simp add: parse_u16_def parse_unsigned_def is_ascii_digit_def decimal_def digit_value_def)
  have trim: "trim_end_matches (CHR ''.'') ''A.b'' = ''A.b''"
    by code_simp
  have host: "map to_ascii_lowercase ''A.b'' = ''a.b''"
    by code_simp
  have chars: "list_all (\<lambda>c. is_ascii_alphanumeric c \<or> c = CHR ''.'' \<or> c = CHR ''-'') ''a.b''"
    by (simp add: is_ascii_alphanumeric_def is_ascii_digit_def)
  show ?thesis
    using rsplit_once_append [of "CHR '':''" "''80''" "''A.b''"] chars
    by (simp add: parse_authority_def starts_with_def port trim host MAX_HOST_BYTES_def del: list.map)
qed

lemma sample_request_parsed:
  "parse_request (as_bytes sample_request) = Ok \<lparr>pq_connect = False, pq_host = ''a.b'', pq_port = 80,
     pq_forward_header = as_bytes (''GET / HTTP/1.1'' @ crlf @ ''H: y'' @ crlf @ crlf)\<rparr>"
proof -
  have whole: "as_bytes (''GET http://A.b:80// HTTP/1.1'' @ crlf @ ''Proxy-Connection: x'' @ crlf @ ''H: y'') @ header_end
      = as_bytes sample_request"
    by (simp add: sample_request_def header_end_def as_bytes_def)
  have forwarded: "forwarded_lines [''Proxy-Connection: x'', ''H: y'', [], []] = [''H: y'']"
    by code_simp
  have version: "starts_with ''HTTP/1.'' ''HTTP/1.1''" "\<not> eq_ignore_ascii_case ''GET'' ''CONNECT''"
    by code_simp+
  have target: "strip_prefix ''http://'' ''http://A.b:80//'' = Some ''A.b:80//''" "split_once (CHR ''/'') ''A.b:80//'' = Some (''A.b:80'', ''/'')"
    by (simp_all add: split_once_def)
  show ?thesis
    unfolding parse_request_def split_header sample_split option.map prod.case option.case whole sample_text
      sample_lines list.case sample_words
    by (simp add: version parse_absolute_def target sample_authority forwarded as_bytes_def)
qed

theorem proxy_reaches_only_allowlist_witness:
  "serve_all [(''a.b'', 80)] [as_bytes sample_request] [] =
     ([SV_Upstream ''a.b'' 80 [] (as_bytes (''GET / HTTP/1.1'' @ crlf @ ''H: y'' @ crlf @ crlf))],
      [EgressDecision_new EgressAllowed ''a.b'' 80])
   \<and> normal_host ''a.b''"
proof -
  have run: "serve_all [(''a.b'', 80)] [as_bytes sample_request] [] =
     ([SV_Upstream ''a.b'' 80 [] (as_bytes (''GET / HTTP/1.1'' @ crlf @ ''H: y'' @ crlf @ crlf))],
      [EgressDecision_new EgressAllowed ''a.b'' 80])"
    by (simp add: serve_def sample_request_parsed target_is_allowed_def MAX_RETAINED_DECISIONS_def Let_def)
  with proxy_reaches_only_allowlist [OF run] show ?thesis
    by simp
qed

section \<open>Connections\<close>

fun proxy_loop :: "nat \<Rightarrow> proxy_event list \<Rightarrow> nat" where
  "proxy_loop connections [] = connections"
| "proxy_loop connections (event # events) =
     (case proxy_step connections event of
        (PR_Stop, n) \<Rightarrow> n
      | (_, n) \<Rightarrow> proxy_loop n events)"

lemma proxy_loop_capped:
  "connections \<le> MAX_CONCURRENT_CONNECTIONS \<Longrightarrow> proxy_loop connections events \<le> MAX_CONCURRENT_CONNECTIONS"
  by (induction connections events rule: proxy_loop.induct)
    (auto simp: proxy_step_def split: proxy_event.splits if_splits)

end
