(* ===== verification/Native_System.thy ===== *)
theory Native_System
  imports Native_Readers Native_Proxy Outcome_Logic
begin

text \<open>
  The system the native provider (\<^verbatim>\<open>src/src/native/mod.rs\<close>) runs on: its operations are programs of system
  calls, of actions on the child process and on the policy proxy. Other processes change the file system
  between any two calls, so that every answer brings the file system of that moment; an answer has to fit
  it. A path is its text.
\<close>

section \<open>Paths\<close>

text \<open>\<open>Path::join\<close>, and \<open>Path::parent\<close> on the canonical absolute path of the workspace root.\<close>

definition path_join :: "string \<Rightarrow> string \<Rightarrow> string" where
  "path_join base name =
     (if starts_with ''/'' name then name
      else if base = [] \<or> last base = CHR ''/'' then base @ name
      else base @ ''/'' @ name)"

definition path_parent :: "string \<Rightarrow> string option" where
  "path_parent path =
     (if path = ''/'' then None
      else map_option (\<lambda>(parent, name). if parent = [] then ''/'' else parent) (rsplit_once_str ''/'' path))"

lemma path_parent_shorter: "path_parent path = Some parent \<Longrightarrow> length parent \<le> max 1 (length path)"
  by (auto simp: path_parent_def split: if_splits dest!: rsplit_once_str_Some)

lemma path_parent_less: "path_parent path = Some parent \<Longrightarrow> length parent < length path"
  by (auto simp: path_parent_def split: if_splits dest!: rsplit_once_str_Some)

definition below :: "string \<Rightarrow> string \<Rightarrow> bool" where
  "below tree path \<longleftrightarrow> path = tree \<or> prefix (tree @ ''/'') path"

section \<open>Actions\<close>

text \<open>A node of the file system, a directory with its permission bits.\<close>

datatype node = Node_Dir nat | Node_Symlink | Node_Other

type_synonym file_system = "string \<Rightarrow> node option"

datatype IoError = IO_AlreadyExists | IO_NotFound | IO_Other

record ExitStatus =
  xs_code :: "i32 option"
  xs_signal :: "i32 option"

datatype WaitOutcome =
    WO_Exited ExitStatus
  | WO_Overflow OutputLimitKind
  | WO_CommandTimeout
  | WO_Deadline
  | WO_Cancelled
  | WO_WaitFailed

datatype Stdio = Stdio_Inherit | Stdio_Null | Stdio_Piped

record Command =
  cmd_program :: string
  cmd_args :: "string list"
  cmd_env_clear :: bool
  cmd_env :: "(string \<times> string) list"
  cmd_current_dir :: "string option"
  cmd_stdin :: Stdio
  cmd_stdout :: Stdio
  cmd_stderr :: Stdio

datatype 'r nprog =
    N_Return 'r
  | N_Panic
  | N_Cancelled "bool \<Rightarrow> 'r nprog"
  | N_Read string "bytes option \<Rightarrow> 'r nprog"
  | N_SymlinkMetadata string "node option \<Rightarrow> 'r nprog"
  | N_CreateDir string "IoError + unit \<Rightarrow> 'r nprog"
  | N_SetPermissions string nat "bool \<Rightarrow> 'r nprog"
  | N_IsDir string "bool \<Rightarrow> 'r nprog"
  | N_Exists string "bool \<Rightarrow> 'r nprog"
  | N_RemoveDirAll string "IoError + unit \<Rightarrow> 'r nprog"
  | N_ProxyStart "(string \<times> u16) list" "u16 option \<Rightarrow> 'r nprog"
  | N_ProxyFinish "EgressDecision list \<Rightarrow> 'r nprog"
  | N_Spawn Command OutputLimits "u32 option option \<Rightarrow> 'r nprog"
  | N_Select "WaitOutcome \<Rightarrow> 'r nprog"
  | N_Kill "'r nprog"
  | N_Join "ReadResult \<times> ReadResult \<times> OutputByteCounts \<Rightarrow> 'r nprog"
  | N_LogShow u32 u64 "string option \<Rightarrow> 'r nprog"

section \<open>Environment\<close>

text \<open>
  What \<open>select!\<close> finds ready. The overflow channel is ready when a reader sent into it; its own sender
  is kept, so it never ends.
\<close>

record readiness =
  rdy_cancelled :: bool
  rdy_deadline :: bool
  rdy_command_timeout :: bool
  rdy_overflow :: bool
  rdy_status :: "(unit + ExitStatus) option"

definition select_outcome :: "readiness \<Rightarrow> OutputLimitKind list \<Rightarrow> WaitOutcome option" where
  "select_outcome ready channel =
     (if rdy_cancelled ready then Some WO_Cancelled
      else if rdy_deadline ready then Some WO_Deadline
      else if rdy_command_timeout ready then Some WO_CommandTimeout
      else if rdy_overflow ready \<and> channel \<noteq> [] then Some (WO_Overflow (hd channel))
      else map_option (\<lambda>status. case status of Inl _ \<Rightarrow> WO_WaitFailed | Inr s \<Rightarrow> WO_Exited s) (rdy_status ready))"

text \<open>
  The answers. The readers run until an answer arrives, by the steps it names; the answer to \<open>N_Join\<close>
  also says whether a task was lost (\<open>await\<close> gave an error). \<open>NR_Connections\<close> are the headers that the
  proxy read from its clients, in the order in which it decided on them.
\<close>

datatype nreply =
    NR_Bool bool
  | NR_Read "bytes option"
  | NR_Metadata "node option"
  | NR_CreateDir "IoError + nat"
  | NR_RemoveDirAll "IoError + unit" file_system
  | NR_Port "u16 option"
  | NR_Connections "bytes list"
  | NR_Spawn "u32 option option"
  | NR_Select "reader_step list" readiness
  | NR_Done
  | NR_Join "reader_step list" bool bool
  | NR_Log "string option"

record nanswer =
  na_fs :: file_system
  na_reply :: nreply

record system =
  sys_fs :: file_system
  sys_readers :: readers
  sys_allowlist :: "(string \<times> u16) list"

text \<open>The events; a removal records the file system it found.\<close>

datatype nevent =
    NV_Read string "bytes option"
  | NV_CreateDir string "IoError + unit"
  | NV_SetPermissions string nat bool
  | NV_RemoveDirAll file_system string "IoError + unit"
  | NV_Exists string bool
  | NV_ProxyStart "(string \<times> u16) list" "u16 option"
  | NV_ProxyFinish "bytes list"
  | NV_Spawn Command OutputLimits "u32 option option"
  | NV_Select "reader_step list" WaitOutcome
  | NV_Kill
  | NV_Join "reader_step list" bool bool
  | NV_LogShow u32 "string option"

text \<open>
  What a call admits on a file system: \<open>create_dir\<close> succeeds on a free path only, and reports
  \<open>AlreadyExists\<close> only for a used one; \<open>remove_dir_all\<close> reports \<open>NotFound\<close> only for a free path, after a
  success nothing is left of the tree, after another error any part of it. The predicates that follow
  links are also false when the metadata cannot be read.
\<close>

definition metadata_admits :: "file_system \<Rightarrow> string \<Rightarrow> node option \<Rightarrow> bool" where
  "metadata_admits fs path answer \<longleftrightarrow> answer = None \<or> answer = fs path"

definition create_dir_admits :: "file_system \<Rightarrow> string \<Rightarrow> IoError + nat \<Rightarrow> bool" where
  "create_dir_admits fs path answer \<longleftrightarrow>
     (case answer of
        Inr mode \<Rightarrow> fs path = None
      | Inl IO_AlreadyExists \<Rightarrow> fs path \<noteq> None
      | Inl _ \<Rightarrow> True)"

definition create_dir_effect :: "file_system \<Rightarrow> string \<Rightarrow> IoError + nat \<Rightarrow> file_system" where
  "create_dir_effect fs path answer =
     (case answer of Inr mode \<Rightarrow> fs(path \<mapsto> Node_Dir mode) | Inl _ \<Rightarrow> fs)"

definition set_permissions_effect :: "file_system \<Rightarrow> string \<Rightarrow> nat \<Rightarrow> bool \<Rightarrow> file_system" where
  "set_permissions_effect fs path mode done_ok =
     (case fs path of
        Some (Node_Dir _) \<Rightarrow> if done_ok then fs(path \<mapsto> Node_Dir mode) else fs
      | _ \<Rightarrow> fs)"

definition is_dir_admits :: "file_system \<Rightarrow> string \<Rightarrow> bool \<Rightarrow> bool" where
  "is_dir_admits fs path answer \<longleftrightarrow>
     (answer \<longrightarrow> (case fs path of Some (Node_Dir _) \<Rightarrow> True | Some Node_Symlink \<Rightarrow> True | _ \<Rightarrow> False))"

definition exists_admits :: "file_system \<Rightarrow> string \<Rightarrow> bool \<Rightarrow> bool" where
  "exists_admits fs path answer \<longleftrightarrow> (answer \<longrightarrow> fs path \<noteq> None)"

definition remove_admits :: "file_system \<Rightarrow> string \<Rightarrow> IoError + unit \<Rightarrow> file_system \<Rightarrow> bool" where
  "remove_admits fs path answer fs1 \<longleftrightarrow>
     (case answer of
        Inr _ \<Rightarrow> fs path \<noteq> None \<and> fs1 = (\<lambda>p. if below path p then None else fs p)
      | Inl IO_NotFound \<Rightarrow> fs path = None \<and> fs1 = fs
      | Inl _ \<Rightarrow> fs1 path = fs path \<and> (\<forall>p. fs1 p = fs p \<or> fs1 p = None \<and> below path p))"

definition joined :: "bool \<Rightarrow> read_task \<Rightarrow> ReadResult" where
  "joined lost t = (if lost then ReadResult_default else rt_result t)"

definition reader_counts :: "readers \<Rightarrow> OutputByteCounts" where
  "reader_counts S = OutputByteCounts_new (rt_own_count (rs_stdout S)) (rt_own_count (rs_stderr S))"

text \<open>One step of a program: the answer's file system replaces the state's, then the call acts on it.\<close>

definition guarded :: "bool \<Rightarrow> 'a \<Rightarrow> 'a option" where
  "guarded ok x = (if ok then Some x else None)"

fun nstep :: "('r nprog, nanswer, system, nevent) stepper" where
  "nstep (N_Return r) a s = None"
| "nstep N_Panic a s = None"
| "nstep (N_Cancelled k) a s =
     (case na_reply a of NR_Bool b \<Rightarrow> Some ([], s\<lparr>sys_fs := na_fs a\<rparr>, k b) | _ \<Rightarrow> None)"
| "nstep (N_Read path k) a s =
     (case na_reply a of NR_Read r \<Rightarrow> Some ([NV_Read path r], s\<lparr>sys_fs := na_fs a\<rparr>, k r) | _ \<Rightarrow> None)"
| "nstep (N_SymlinkMetadata path k) a s =
     (case na_reply a of
        NR_Metadata m \<Rightarrow> guarded (metadata_admits (na_fs a) path m) ([], s\<lparr>sys_fs := na_fs a\<rparr>, k m)
      | _ \<Rightarrow> None)"
| "nstep (N_CreateDir path k) a s =
     (case na_reply a of
        NR_CreateDir r \<Rightarrow>
          let r1 = (case r of Inl e \<Rightarrow> Err e | Inr mode \<Rightarrow> Ok ())
          in guarded (create_dir_admits (na_fs a) path r)
               ([NV_CreateDir path r1], s\<lparr>sys_fs := create_dir_effect (na_fs a) path r\<rparr>, k r1)
      | _ \<Rightarrow> None)"
| "nstep (N_SetPermissions path mode k) a s =
     (case na_reply a of
        NR_Bool b \<Rightarrow>
          Some ([NV_SetPermissions path mode b], s\<lparr>sys_fs := set_permissions_effect (na_fs a) path mode b\<rparr>, k b)
      | _ \<Rightarrow> None)"
| "nstep (N_IsDir path k) a s =
     (case na_reply a of
        NR_Bool b \<Rightarrow> guarded (is_dir_admits (na_fs a) path b) ([], s\<lparr>sys_fs := na_fs a\<rparr>, k b)
      | _ \<Rightarrow> None)"
| "nstep (N_Exists path k) a s =
     (case na_reply a of
        NR_Bool b \<Rightarrow> guarded (exists_admits (na_fs a) path b) ([NV_Exists path b], s\<lparr>sys_fs := na_fs a\<rparr>, k b)
      | _ \<Rightarrow> None)"
| "nstep (N_RemoveDirAll path k) a s =
     (case na_reply a of
        NR_RemoveDirAll r fs1 \<Rightarrow>
          guarded (remove_admits (na_fs a) path r fs1) ([NV_RemoveDirAll (na_fs a) path r], s\<lparr>sys_fs := fs1\<rparr>, k r)
      | _ \<Rightarrow> None)"
| "nstep (N_ProxyStart endpoints k) a s =
     (case na_reply a of
        NR_Port port \<Rightarrow>
          Some ([NV_ProxyStart endpoints port], s\<lparr>sys_fs := na_fs a, sys_allowlist := endpoints\<rparr>, k port)
      | _ \<Rightarrow> None)"
| "nstep (N_ProxyFinish k) a s =
     (case na_reply a of
        NR_Connections headers \<Rightarrow>
          Some ([NV_ProxyFinish headers], s\<lparr>sys_fs := na_fs a\<rparr>, k (snd (serve_all (sys_allowlist s) headers [])))
      | _ \<Rightarrow> None)"
| "nstep (N_Spawn command limits k) a s =
     (case na_reply a of
        NR_Spawn r \<Rightarrow>
          Some ([NV_Spawn command limits r], s\<lparr>sys_fs := na_fs a, sys_readers := readers_new limits\<rparr>, k r)
      | _ \<Rightarrow> None)"
| "nstep (N_Select k) a s =
     (case na_reply a of
        NR_Select steps ready \<Rightarrow>
          Option.bind (reader_steps steps (sys_readers s)) (\<lambda>readers.
            map_option (\<lambda>outcome. ([NV_Select steps outcome], s\<lparr>sys_fs := na_fs a, sys_readers := readers\<rparr>, k outcome))
              (select_outcome ready (rs_channel readers)))
      | _ \<Rightarrow> None)"
| "nstep (N_Kill k) a s =
     (case na_reply a of NR_Done \<Rightarrow> Some ([NV_Kill], s\<lparr>sys_fs := na_fs a\<rparr>, k) | _ \<Rightarrow> None)"
| "nstep (N_Join k) a s =
     (case na_reply a of
        NR_Join steps lost_out lost_err \<Rightarrow>
          Option.bind (reader_steps steps (sys_readers s)) (\<lambda>readers.
            guarded ((lost_out \<or> rt_pending (rs_stdout readers) = None)
                     \<and> (lost_err \<or> rt_pending (rs_stderr readers) = None))
              ([NV_Join steps lost_out lost_err], s\<lparr>sys_fs := na_fs a, sys_readers := readers\<rparr>,
               k (joined lost_out (rs_stdout readers), joined lost_err (rs_stderr readers), reader_counts readers)))
      | _ \<Rightarrow> None)"
| "nstep (N_LogShow process_id seconds k) a s =
     (case na_reply a of
        NR_Log body \<Rightarrow> Some ([NV_LogShow process_id body], s\<lparr>sys_fs := na_fs a\<rparr>, k body)
      | _ \<Rightarrow> None)"

interpretation native: returning nstep N_Return N_Panic
  by unfold_locales simp_all

end
