(* ===== verification/Native_Runtime.thy ===== *)
theory Native_Runtime
  imports Native_System
begin

text \<open>
  The operations of the native provider (\<^verbatim>\<open>src/src/native/mod.rs\<close>, \<^verbatim>\<open>src/src/native/monitor.rs\<close>) as programs
  of system calls. The platform of the build is a field of the runtime.
\<close>

section \<open>Configuration\<close>

record NativeConfig =
  nc_profile_path :: string
  nc_profile_sha256 :: Sha256Digest
  nc_workspace_root :: string
  nc_policy_identity :: PolicyIdentity

record 'x NativeRuntime =
  nr_platform :: Platform
  nr_lib :: "'x native_lib"
  nr_config :: NativeConfig

definition verify_profile_at ::
  "Platform \<Rightarrow> 'x native_lib \<Rightarrow> string \<Rightarrow> string \<Rightarrow> string \<Rightarrow> (NativeConfigError + unit \<Rightarrow> 'r nprog) \<Rightarrow> 'r nprog" where
  "verify_profile_at platform N path expected_sha256 workspace_root k =
     N_Read path (\<lambda>first_read.
       if sha256_file N first_read = Ok expected_sha256
       then N_Read path (\<lambda>second_read.
              k (verify_compiled_profile platform N first_read second_read expected_sha256 workspace_root))
       else k (verify_compiled_profile platform N first_read None expected_sha256 workspace_root))"

text \<open>\<open>canonicalized\<close> is what the system answers for the workspace root.\<close>

definition NativeConfig_new ::
  "Platform \<Rightarrow> 'x native_lib \<Rightarrow> string \<Rightarrow> Sha256Digest \<Rightarrow> string \<Rightarrow> string option \<Rightarrow> PolicyIdentity \<Rightarrow>
   (NativeConfigError + NativeConfig) nprog" where
  "NativeConfig_new platform N profile_path profile_sha256 workspace_root canonicalized policy_identity =
     (if \<not> is_absolute profile_path \<or> \<not> is_absolute workspace_root then N_Return (Err NE_InvalidConfiguration)
      else case canonicalized of
             None \<Rightarrow> N_Return (Err NE_InvalidConfiguration)
           | Some root \<Rightarrow>
               verify_profile_at platform N profile_path (sha_str profile_sha256) root (\<lambda>verified.
                 N_Return (case verified of
                   Inl e \<Rightarrow> Err e
                 | Inr _ \<Rightarrow> Ok \<lparr>nc_profile_path = profile_path, nc_profile_sha256 = profile_sha256,
                     nc_workspace_root = root, nc_policy_identity = policy_identity\<rparr>)))"

definition NativeRuntime_new ::
  "Platform \<Rightarrow> 'x native_lib \<Rightarrow> NativeConfig \<Rightarrow> (NativeConfigError + 'x NativeRuntime) nprog" where
  "NativeRuntime_new platform N config =
     verify_profile_at platform N (nc_profile_path config) (sha_str (nc_profile_sha256 config))
       (nc_workspace_root config) (\<lambda>verified.
         N_Return (case verified of
           Inl e \<Rightarrow> Err e
         | Inr _ \<Rightarrow> Ok \<lparr>nr_platform = platform, nr_lib = N, nr_config = config\<rparr>))"

definition native_capability :: ProviderCapability where
  "native_capability = EnforcedLocally"

definition verify_profile :: "'x NativeRuntime \<Rightarrow> (NativeConfigError + unit \<Rightarrow> 'r nprog) \<Rightarrow> 'r nprog" where
  "verify_profile R =
     verify_profile_at (nr_platform R) (nr_lib R) (nc_profile_path (nr_config R))
       (sha_str (nc_profile_sha256 (nr_config R))) (nc_workspace_root (nr_config R))"

definition workspace :: "'x NativeRuntime \<Rightarrow> RequestOwnedId \<Rightarrow> string" where
  "workspace R request_id = path_join (nc_workspace_root (nr_config R)) (roid_str request_id)"

section \<open>Contexts and failures\<close>

datatype ContextFailure = CxF_Cancelled | CxF_Deadline

fun context_exec_code :: "ContextFailure \<Rightarrow> ExecFailureCode" where
  "context_exec_code CxF_Cancelled = EF_Cancelled"
| "context_exec_code CxF_Deadline = EF_Deadline"

fun context_readiness_code :: "ContextFailure \<Rightarrow> ReadinessFailureCode" where
  "context_readiness_code CxF_Cancelled = RF_Cancelled"
| "context_readiness_code CxF_Deadline = RF_Deadline"

fun context_cleanup_code :: "ContextFailure \<Rightarrow> CleanupFailureCode" where
  "context_cleanup_code CxF_Cancelled = CU_Cancelled"
| "context_cleanup_code CxF_Deadline = CU_Deadline"

fun context_detail :: "ContextFailure \<Rightarrow> OperatorDetail" where
  "context_detail CxF_Cancelled = OperatorDetail_redacted ''native sandbox operation cancelled''"
| "context_detail CxF_Deadline = OperatorDetail_redacted ''native sandbox operation deadline elapsed''"

definition native_preflight :: "'tok OperationContext \<Rightarrow> (ContextFailure + unit \<Rightarrow> 'r nprog) \<Rightarrow> 'r nprog" where
  "native_preflight context k =
     N_Cancelled (\<lambda>cancelled.
       k (if cancelled then Err CxF_Cancelled
          else if od_duration (oc_deadline context) = 0 then Err CxF_Deadline
          else Ok ()))"

definition create_context_failure :: "ContextFailure \<Rightarrow> CreateFailure" where
  "create_context_failure failure =
     NotCreated (case failure of CxF_Cancelled \<Rightarrow> CF_Cancelled | CxF_Deadline \<Rightarrow> CF_Deadline) (context_detail failure)"

definition native_detail :: "string \<Rightarrow> OperatorDetail" where
  "native_detail message = OperatorDetail_redacted message"

definition sha256_bytes :: "'x native_lib \<Rightarrow> bytes \<Rightarrow> string" where
  "sha256_bytes N content = hex_string (pl_sha256 (nl_policy N) content)"

text \<open>The mode \<^verbatim>\<open>0o700\<close>.\<close>

definition OWNER_ONLY :: nat where
  "OWNER_ONLY = 7 * 8 * 8"

section \<open>Create\<close>

primrec restore_components ::
  "string list \<Rightarrow> (CreateFailure + unit \<Rightarrow> 'r nprog) \<Rightarrow> 'r nprog" where
  "restore_components [] k = k (Ok ())"
| "restore_components (component # components) k =
     (let refuse = \<lambda>message. k (Err (NotCreated CF_Provider (native_detail message)));
          restrict = N_SetPermissions component OWNER_ONLY (\<lambda>permitted.
            if \<not> permitted then refuse ''workspace root permissions could not be set''
            else restore_components components k)
      in N_SymlinkMetadata component (\<lambda>metadata.
           case metadata of
             Some Node_Symlink \<Rightarrow> refuse ''workspace root component is a symbolic link''
           | Some Node_Other \<Rightarrow> refuse ''workspace root component is not a directory''
           | Some (Node_Dir _) \<Rightarrow> restrict
           | None \<Rightarrow>
               N_CreateDir component (\<lambda>created. case created of
                 Inl _ \<Rightarrow> refuse ''workspace root could not be restored''
               | Inr _ \<Rightarrow> restrict)))"

definition ensure_workspace_root :: "'x NativeRuntime \<Rightarrow> (CreateFailure + unit \<Rightarrow> 'r nprog) \<Rightarrow> 'r nprog" where
  "ensure_workspace_root R k =
     (let root = nc_workspace_root (nr_config R)
      in restore_components ((case path_parent root of None \<Rightarrow> [] | Some parent \<Rightarrow> [parent]) @ [root]) k)"

definition created_workspace :: "CreateRequest \<Rightarrow> CreateFailure + CreatedSandbox" where
  "created_workspace request =
     (let request_id = cr_request_id request
      in case OpaqueProviderHandle_new (as_bytes (roid_str request_id)) of
           Inl _ \<Rightarrow> Err (PossiblyCreated (CleanupTarget_new request_id) CF_Protocol
             (native_detail ''native provider handle could not be retained''))
         | Inr handle \<Rightarrow> Ok (CreatedSandbox_from_runtime request_id handle (cr_expected_policy request)))"

definition make_workspace :: "'x NativeRuntime \<Rightarrow> CreateRequest \<Rightarrow> (CreateFailure + CreatedSandbox) nprog" where
  "make_workspace R request =
     (let ws = workspace R (cr_request_id request)
      in N_CreateDir ws (\<lambda>made. case made of
           Inl IO_AlreadyExists \<Rightarrow>
             N_Return (Err (Conflict CF_Provider (native_detail ''request-owned workspace already exists'')))
         | Inl _ \<Rightarrow>
             N_Return (Err (NotCreated CF_Provider (native_detail ''request-owned workspace could not be created'')))
         | Inr _ \<Rightarrow>
             N_SetPermissions ws OWNER_ONLY (\<lambda>permitted.
               N_Return
                 (if \<not> permitted
                  then Err (PossiblyCreated (CleanupTarget_new (cr_request_id request)) CF_Provider
                         (native_detail ''request-owned workspace permissions could not be set''))
                  else created_workspace request))))"

definition create_verified ::
  "'x NativeRuntime \<Rightarrow> CreateRequest \<Rightarrow> NativeConfigError + unit \<Rightarrow> (CreateFailure + CreatedSandbox) nprog" where
  "create_verified R request verified =
     (if \<not> is_ok verified \<or> cr_expected_policy request \<noteq> nc_policy_identity (nr_config R)
         \<or> sha256_bytes (nr_lib R) (doc_bytes (cr_policy_document request))
             \<noteq> sha_str (policy_sha256 (cr_expected_policy request))
      then N_Return (Err (NotCreated CF_Validation
             (native_detail ''deployment policy identity or native profile mismatch'')))
      else ensure_workspace_root R (\<lambda>ensured. case ensured of
             Inl failure \<Rightarrow> N_Return (Err failure)
           | Inr _ \<Rightarrow> make_workspace R request))"

definition native_create ::
  "'x NativeRuntime \<Rightarrow> CreateRequest \<Rightarrow> 'tok OperationContext \<Rightarrow> (CreateFailure + CreatedSandbox) nprog" where
  "native_create R request context =
     native_preflight context (\<lambda>checked. case checked of
       Inl failure \<Rightarrow> N_Return (Err (create_context_failure failure))
     | Inr _ \<Rightarrow> verify_profile R (create_verified R request))"

section \<open>Readiness\<close>

definition native_wait_ready ::
  "'x NativeRuntime \<Rightarrow> CreatedSandbox \<Rightarrow> PolicyIdentity \<Rightarrow> 'tok OperationContext \<Rightarrow>
   (ReadinessFailure + ReadySandbox) nprog" where
  "native_wait_ready R sandbox expected_policy context =
     (let target = CreatedSandbox_cleanup_target sandbox;
          mismatch = ReadinessFailure_new target RF_PolicyMismatch
            (native_detail ''native profile attestation or workspace readiness failed'')
      in native_preflight context (\<lambda>checked. case checked of
           Inl failure \<Rightarrow>
             N_Return (Err (ReadinessFailure_new target (context_readiness_code failure) (context_detail failure)))
         | Inr _ \<Rightarrow>
         verify_profile R (\<lambda>verified.
           if \<not> is_ok verified \<or> expected_policy \<noteq> nc_policy_identity (nr_config R)
              \<or> cs_expected_policy sandbox \<noteq> expected_policy
           then N_Return (Err mismatch)
           else N_IsDir (workspace R (cs_request_id sandbox)) (\<lambda>present.
             N_Return
               (if \<not> present
                   \<or> handle_bytes (cs_provider_handle sandbox) \<noteq> as_bytes (roid_str (cs_request_id sandbox))
                then Err mismatch
                else case ReadySandbox_attest sandbox expected_policy expected_policy of
                       Inl _ \<Rightarrow> Err (ReadinessFailure_new target RF_PolicyMismatch
                         (native_detail ''native local-attestation transition failed''))
                     | Inr ready \<Rightarrow> Ok ready)))))"

section \<open>Command\<close>

definition PROXY_VARIABLES :: "string list" where
  "PROXY_VARIABLES =
     [''HTTP_PROXY'', ''HTTPS_PROXY'', ''ALL_PROXY'', ''http_proxy'', ''https_proxy'', ''all_proxy'']"

definition set_proxy_environment :: "u16 \<Rightarrow> Command \<Rightarrow> Command" where
  "set_proxy_environment port command =
     command\<lparr>cmd_env := cmd_env command @ map (\<lambda>name. (name, proxy_url port)) PROXY_VARIABLES
       @ [(''NO_PROXY'', []), (''no_proxy'', [])]\<rparr>"

definition Command_new :: "string \<Rightarrow> Command" where
  "Command_new program =
     \<lparr>cmd_program = program, cmd_args = [], cmd_env_clear = False, cmd_env = [], cmd_current_dir = None,
      cmd_stdin = Stdio_Inherit, cmd_stdout = Stdio_Inherit, cmd_stderr = Stdio_Inherit\<rparr>"

definition command_args :: "string list \<Rightarrow> Command \<Rightarrow> Command" where
  "command_args args command = command\<lparr>cmd_args := cmd_args command @ args\<rparr>"

definition macos_command :: "NativeConfig \<Rightarrow> string \<Rightarrow> string list \<Rightarrow> u16 option \<Rightarrow> Command" where
  "macos_command config ws argv proxy =
     (let command = command_args
            [''-D'', ''WORKSPACE_ROOT='' @ nc_workspace_root config, ''-D'', ''WORKSPACE='' @ ws]
            ((Command_new ''/usr/bin/sandbox-exec'')\<lparr>cmd_env_clear := True\<rparr>);
          proxied = (case proxy of
              None \<Rightarrow> command
            | Some port \<Rightarrow>
                set_proxy_environment port
                  (command_args [''-D'', ''PROXY_ENDPOINT=localhost:'' @ show_u16 port] command))
      in (command_args ([''-f'', nc_profile_path config, ''--''] @ argv) proxied)\<lparr>cmd_current_dir := Some ws\<rparr>)"

definition READ_ONLY_PATHS :: "string list" where
  "READ_ONLY_PATHS = [''/usr'', ''/bin'', ''/sbin'', ''/lib'', ''/lib64'', ''/etc'']"

text \<open>The directories of the host that exist are bound read-only.\<close>

primrec read_only_binds :: "string list \<Rightarrow> (string list \<Rightarrow> 'r nprog) \<Rightarrow> 'r nprog" where
  "read_only_binds [] k = k []"
| "read_only_binds (path # paths) k =
     N_Exists path (\<lambda>present.
       read_only_binds paths (\<lambda>binds. k ((if present then [''--ro-bind'', path, path] else []) @ binds)))"

definition linux_command :: "string \<Rightarrow> string list \<Rightarrow> u16 option \<Rightarrow> string list \<Rightarrow> Command" where
  "linux_command ws argv proxy binds =
     (let command = command_args
            ([''--die-with-parent'', ''--new-session'', ''--unshare-all'']
             @ (if proxy \<noteq> None then [''--share-net''] else [])
             @ [''--proc'', ''/proc'', ''--dev'', ''/dev''] @ binds
             @ [''--bind'', ws, ''/sandbox'', ''--chdir'', ''/sandbox''])
            ((Command_new ''bwrap'')\<lparr>cmd_env_clear := True\<rparr>)
      in command_args (''--'' # argv)
           (case proxy of None \<Rightarrow> command | Some port \<Rightarrow> set_proxy_environment port command))"

text \<open>Indexing an empty argument vector is a panic.\<close>

definition native_command ::
  "'x NativeRuntime \<Rightarrow> string \<Rightarrow> ExecRequest \<Rightarrow> u16 option \<Rightarrow> (NativeConfigError + Command \<Rightarrow> 'r nprog) \<Rightarrow> 'r nprog" where
  "native_command R ws request proxy k =
     (let argv = argv_slice (er_argv request)
      in case nr_platform R of
           MacOS \<Rightarrow> if argv = [] then N_Panic else k (Ok (macos_command (nr_config R) ws argv proxy))
         | Linux \<Rightarrow>
             read_only_binds READ_ONLY_PATHS (\<lambda>binds.
               if argv = [] then N_Panic else k (Ok (linux_command ws argv proxy binds)))
         | OtherPlatform \<Rightarrow> k (Err NE_UnsupportedPlatform))"

definition piped :: "Command \<Rightarrow> Command" where
  "piped command = command\<lparr>cmd_stdin := Stdio_Null, cmd_stdout := Stdio_Piped, cmd_stderr := Stdio_Piped\<rparr>"

section \<open>Violations\<close>

definition log_marker :: "u32 \<Rightarrow> string" where
  "log_marker process_id = ''('' @ show_nat (unat process_id) @ '')''"

definition violation_line :: "u32 \<Rightarrow> string \<Rightarrow> bool" where
  "violation_line process_id line \<longleftrightarrow>
     str_contains ''[com.apple.sandbox.reporting:violation]'' line
     \<and> str_contains '' deny('' line \<and> str_contains (log_marker process_id) line"

definition violation_category :: "string \<Rightarrow> ViolationCategory" where
  "violation_category line =
     (if str_contains '' file-write'' line then DeniedFileWrite
      else if str_contains '' file-read'' line then DeniedFileRead
      else if str_contains '' network-'' line then DeniedNetwork
      else if str_contains '' process-'' line then DeniedProcess
      else OtherViolation)"

text \<open>The categories in the order of their declaration, which is that of the \<open>BTreeSet\<close>.\<close>

definition category_order :: "ViolationCategory list" where
  "category_order = [DeniedFileWrite, DeniedFileRead, DeniedNetwork, DeniedProcess, OtherViolation]"

definition violation_evidence :: "u32 \<Rightarrow> string \<Rightarrow> ViolationEvidence option" where
  "violation_evidence process_id body =
     (let found = filter (violation_line process_id) (str_lines body);
          count = fold (\<lambda>line n. saturating_add_u64 n 1) found 0;
          categories = map violation_category found
      in if count \<noteq> 0
         then Some \<lparr>ve_count = count, ve_categories = filter (\<lambda>c. c \<in> set categories) category_order\<rparr>
         else None)"

text \<open>The answer to \<open>N_LogShow\<close> is the output of \<open>log show\<close>, \<open>None\<close> when it did not run or failed.\<close>

definition monitor_collect :: "Platform \<Rightarrow> u32 \<Rightarrow> u64 \<Rightarrow> (ViolationEvidence option \<Rightarrow> 'r nprog) \<Rightarrow> 'r nprog" where
  "monitor_collect platform process_id lookback_seconds k =
     (if platform = MacOS
      then N_LogShow process_id (if lookback_seconds = 0 then 1 else lookback_seconds) (\<lambda>output.
             k (Option.bind output (violation_evidence process_id)))
      else k None)"

section \<open>Execution\<close>

definition signal_code :: "i32 \<Rightarrow> i32" where
  "signal_code signal = (if 128 + sint signal < 2 ^ 31 then 128 + signal else word_of_int (2 ^ 31 - 1))"

definition observed_status :: "ExitStatus \<Rightarrow> ObservedExitCode option" where
  "observed_status status =
     (case xs_code status of
        Some code \<Rightarrow> (case ObservedExitCode_new code of Inl _ \<Rightarrow> None | Inr c \<Rightarrow> Some c)
      | None \<Rightarrow>
          Option.bind (xs_signal status)
            (\<lambda>signal. case ObservedExitCode_new (signal_code signal) of Inl _ \<Rightarrow> None | Inr c \<Rightarrow> Some c))"

definition native_fail_expect :: "ValidationError + ExecFailure \<Rightarrow> (ExecFailure + 'r) nprog" where
  "native_fail_expect constructed = (case constructed of Inl _ \<Rightarrow> N_Panic | Inr f \<Rightarrow> N_Return (Err f))"

definition refuse_exec :: "CleanupTarget \<Rightarrow> ExecFailureCode \<Rightarrow> string \<Rightarrow> (ExecFailure + 'r) nprog" where
  "refuse_exec target code message =
     native_fail_expect (ExecFailure_not_dispatched target code (native_detail message))"

definition observation_failure ::
  "CleanupTarget \<Rightarrow> ExecFailureCode \<Rightarrow> OutputByteCounts \<Rightarrow> string \<Rightarrow> (ExecFailure + 'r) nprog" where
  "observation_failure target code counts message =
     native_fail_expect (ExecFailure_possibly_dispatched target code FT_Unknown counts (native_detail message))"

definition detected_overflow :: "WaitOutcome \<Rightarrow> ReadResult \<Rightarrow> ReadResult \<Rightarrow> OutputLimitKind option" where
  "detected_overflow outcome stdout_result stderr_result =
     (case outcome of
        WO_Overflow kind \<Rightarrow> Some kind
      | _ \<Rightarrow> (case rr_overflow stdout_result of Some kind \<Rightarrow> Some kind | None \<Rightarrow> rr_overflow stderr_result))"

text \<open>The result of an execution that was spawned.\<close>

definition exec_result ::
  "CleanupTarget \<Rightarrow> WaitOutcome \<Rightarrow> ReadResult \<Rightarrow> ReadResult \<Rightarrow> OutputByteCounts \<Rightarrow> SandboxEvidence \<Rightarrow>
   (ExecFailure + ExecCompleted) nprog" where
  "exec_result target outcome stdout_result stderr_result counts evidence =
     (let completed = \<lambda>code timeout. N_Return (Ok (ExecCompleted_with_sandbox_evidence
            (ExecCompleted_new code (rr_bytes stdout_result) (rr_bytes stderr_result) timeout) evidence))
      in case detected_overflow outcome stdout_result stderr_result of
           Some kind \<Rightarrow>
             native_fail_expect (ExecFailure_output_limit_exceeded target FT_Unknown counts kind
               (native_detail ''native sandbox output limit exceeded''))
         | None \<Rightarrow>
             (case outcome of
                WO_Exited status \<Rightarrow>
                  (case observed_status status of
                     None \<Rightarrow>
                       native_fail_expect (ExecFailure_missing_terminal_exit target FT_Unknown counts
                         (native_detail ''native sandbox process omitted an observable exit''))
                   | Some code \<Rightarrow> completed code OT_NotObserved)
              | WO_CommandTimeout \<Rightarrow>
                  (case ObservedExitCode_new 124 of Inl _ \<Rightarrow> N_Panic | Inr code \<Rightarrow> completed code OT_Confirmed)
              | WO_Deadline \<Rightarrow>
                  observation_failure target EF_Deadline counts ''native sandbox operation deadline elapsed''
              | WO_Cancelled \<Rightarrow>
                  observation_failure target EF_Cancelled counts ''native sandbox operation was cancelled''
              | WO_WaitFailed \<Rightarrow>
                  observation_failure target EF_Transport counts ''native sandbox process observation failed''
              | WO_Overflow _ \<Rightarrow>
                  observation_failure target EF_Transport counts ''native sandbox process observation failed''))"

definition proxy_start :: "NetworkAccess \<Rightarrow> (u16 option option \<Rightarrow> 'r nprog) \<Rightarrow> 'r nprog" where
  "proxy_start network k =
     (case network of
        NA_Deny \<Rightarrow> k (Some None)
      | NA_Allowlist endpoints \<Rightarrow>
          N_ProxyStart endpoints (\<lambda>port. k (case port of None \<Rightarrow> None | Some p \<Rightarrow> Some (Some p))))"

definition proxy_finish :: "u16 option \<Rightarrow> (EgressDecision list \<Rightarrow> 'r nprog) \<Rightarrow> 'r nprog" where
  "proxy_finish proxy k = (case proxy of None \<Rightarrow> k [] | Some _ \<Rightarrow> N_ProxyFinish k)"

definition kill_unless_exited :: "WaitOutcome \<Rightarrow> 'r nprog \<Rightarrow> 'r nprog" where
  "kill_unless_exited outcome p = (case outcome of WO_Exited _ \<Rightarrow> p | _ \<Rightarrow> N_Kill p)"

text \<open>From the spawn on: the wait, the readers, the violations and the decisions of the proxy.\<close>

definition collect_violation :: "'x NativeRuntime \<Rightarrow> ExecRequest \<Rightarrow> u32 option \<Rightarrow> (ViolationEvidence option \<Rightarrow> 'r nprog) \<Rightarrow> 'r nprog" where
  "collect_violation R request process_id k =
     (case process_id of
        None \<Rightarrow> k None
      | Some pid \<Rightarrow>
          monitor_collect (nr_platform R) pid
            (saturating_add_u64 (ucast (ct_seconds (er_timeout request))) 30) k)"

definition observe_command ::
  "'x NativeRuntime \<Rightarrow> CleanupTarget \<Rightarrow> ExecRequest \<Rightarrow> u16 option \<Rightarrow> u32 option \<Rightarrow> (ExecFailure + ExecCompleted) nprog" where
  "observe_command R target request proxy process_id =
     N_Select (\<lambda>outcome.
     kill_unless_exited outcome (
     N_Join (\<lambda>(stdout_result, stderr_result, counts).
     collect_violation R request process_id (\<lambda>violation.
     proxy_finish proxy (\<lambda>egress_decisions.
     exec_result target outcome stdout_result stderr_result counts
       (SandboxEvidence_new egress_decisions violation))))))"

definition run_command ::
  "'x NativeRuntime \<Rightarrow> CleanupTarget \<Rightarrow> ExecRequest \<Rightarrow> u16 option \<Rightarrow> Command \<Rightarrow> (ExecFailure + ExecCompleted) nprog" where
  "run_command R target request proxy command =
     N_Spawn (piped command) (er_output_limits request) (\<lambda>spawned. case spawned of
       None \<Rightarrow>
         proxy_finish proxy (\<lambda>_.
           refuse_exec target EF_Transport ''native sandbox process could not be spawned'')
     | Some process_id \<Rightarrow> observe_command R target request proxy process_id)"

definition exec_proxied ::
  "'x NativeRuntime \<Rightarrow> ReadySandbox \<Rightarrow> ExecRequest \<Rightarrow> u16 option option \<Rightarrow> (ExecFailure + ExecCompleted) nprog" where
  "exec_proxied R sandbox request started =
     (let target = ReadySandbox_cleanup_target sandbox
      in case started of
           None \<Rightarrow> refuse_exec target EF_Provider ''native policy proxy could not bind loopback''
         | Some proxy \<Rightarrow>
             native_command R (workspace R (rs_request_id sandbox)) request proxy (\<lambda>built. case built of
               Inl _ \<Rightarrow> refuse_exec target EF_Provider ''native sandbox runner is unavailable''
             | Inr command \<Rightarrow> run_command R target request proxy command))"

definition exec_verified ::
  "'x NativeRuntime \<Rightarrow> ReadySandbox \<Rightarrow> ExecRequest \<Rightarrow> NativeConfigError + unit \<Rightarrow> (ExecFailure + ExecCompleted) nprog" where
  "exec_verified R sandbox request verified =
     (let target = ReadySandbox_cleanup_target sandbox
      in if \<not> is_ok verified \<or> rs_active_policy sandbox \<noteq> nc_policy_identity (nr_config R)
            \<or> handle_bytes (rs_provider_handle sandbox) \<noteq> as_bytes (roid_str (rs_request_id sandbox))
         then refuse_exec target EF_Protocol ''native profile verification failed before dispatch''
         else N_IsDir (workspace R (rs_request_id sandbox)) (\<lambda>present.
           if \<not> present then refuse_exec target EF_Provider ''request-owned workspace is absent''
           else N_Read (nc_profile_path (nr_config R)) (\<lambda>profile.
             case compiled_network_access (nr_platform R) (nr_lib R) profile of
               Inl _ \<Rightarrow> refuse_exec target EF_Provider ''pinned native network policy could not be loaded''
             | Inr network \<Rightarrow> proxy_start network (exec_proxied R sandbox request))))"

definition native_exec ::
  "'x NativeRuntime \<Rightarrow> ReadySandbox \<Rightarrow> ExecRequest \<Rightarrow> 'tok OperationContext \<Rightarrow> (ExecFailure + ExecCompleted) nprog" where
  "native_exec R sandbox request context =
     native_preflight context (\<lambda>checked. case checked of
       Inl failure \<Rightarrow>
         native_fail_expect (ExecFailure_not_dispatched (ReadySandbox_cleanup_target sandbox)
           (context_exec_code failure) (context_detail failure))
     | Inr _ \<Rightarrow> verify_profile R (exec_verified R sandbox request))"

section \<open>Cleanup\<close>

definition native_delete ::
  "'x NativeRuntime \<Rightarrow> CleanupTarget \<Rightarrow> 'tok OperationContext \<Rightarrow> (CleanupFailure + DeleteOutcome) nprog" where
  "native_delete R target context =
     native_preflight context (\<lambda>checked. case checked of
       Inl failure \<Rightarrow>
         N_Return (Err (CleanupFailure_new target (context_cleanup_code failure) (context_detail failure)))
     | Inr _ \<Rightarrow>
         N_RemoveDirAll (workspace R (target_request_id target)) (\<lambda>removed.
           N_Return (case removed of
             Inr _ \<Rightarrow> Ok Deleted
           | Inl IO_NotFound \<Rightarrow> Ok AlreadyAbsent
           | Inl _ \<Rightarrow> Err (CleanupFailure_new target CU_Provider
               (native_detail ''request-owned workspace could not be removed'')))))"

definition native_wait_deleted ::
  "'x NativeRuntime \<Rightarrow> CleanupTarget \<Rightarrow> 'tok OperationContext \<Rightarrow> (CleanupFailure + unit) nprog" where
  "native_wait_deleted R target context =
     native_preflight context (\<lambda>checked. case checked of
       Inl failure \<Rightarrow>
         N_Return (Err (CleanupFailure_new target (context_cleanup_code failure) (context_detail failure)))
     | Inr _ \<Rightarrow>
         N_Exists (workspace R (target_request_id target)) (\<lambda>present.
           N_Return
             (if present
              then Err (CleanupFailure_new target CU_Provider
                     (native_detail ''request-owned workspace remains present''))
              else Ok ())))"

end
