(* ===== verification/Native_Props.thy ===== *)
theory Native_Props
  imports Native_Runtime
begin

text \<open>
  What the native provider promises to its callers: its failures say truthfully whether a workspace was
  made or a command was spawned, the command runs confined by the pinned profile, its output and its
  evidence are what the streams and the proxy carried, and a request touches its own workspace only.
\<close>

section \<open>Outcomes\<close>

abbreviation ens :: "(nevent list \<Rightarrow> system \<Rightarrow> 'r \<Rightarrow> bool) \<Rightarrow> system \<Rightarrow> 'r nprog \<Rightarrow> bool" where
  "ens \<equiv> concludes nstep N_Return N_Panic"

lemma guarded_Some [simp]: "guarded ok x = Some y \<longleftrightarrow> ok \<and> y = x"
  by (auto simp: guarded_def)

lemmas ens_ends [simp] = native.outcome_ret native.outcome_panic

definition forget_mode :: "IoError + nat \<Rightarrow> IoError + unit" where
  "forget_mode r = (case r of Inl e \<Rightarrow> Err e | Inr mode \<Rightarrow> Ok ())"

lemma ens_Cancelled: "(\<And>fs b. ens G (s\<lparr>sys_fs := fs\<rparr>) (k b)) \<Longrightarrow> ens G s (N_Cancelled k)"
  by (rule native.outcome_stepI) (auto split: nreply.splits)

lemma ens_Read:
  "(\<And>fs r. ens (\<lambda>evs. G (NV_Read path r # evs)) (s\<lparr>sys_fs := fs\<rparr>) (k r)) \<Longrightarrow> ens G s (N_Read path k)"
  by (rule native.outcome_stepI) (auto split: nreply.splits)

lemma ens_SymlinkMetadata:
  "(\<And>fs m. metadata_admits fs path m \<Longrightarrow> ens G (s\<lparr>sys_fs := fs\<rparr>) (k m)) \<Longrightarrow> ens G s (N_SymlinkMetadata path k)"
  by (rule native.outcome_stepI) (auto split: nreply.splits)

lemma ens_CreateDir:
  "(\<And>fs r. create_dir_admits fs path r \<Longrightarrow> ens (\<lambda>evs. G (NV_CreateDir path (forget_mode r) # evs))
     (s\<lparr>sys_fs := create_dir_effect fs path r\<rparr>) (k (forget_mode r))) \<Longrightarrow> ens G s (N_CreateDir path k)"
  unfolding forget_mode_def by (rule native.outcome_stepI) (auto simp: Let_def split: nreply.splits)

lemma ens_SetPermissions:
  "(\<And>fs b. ens (\<lambda>evs. G (NV_SetPermissions path mode b # evs))
     (s\<lparr>sys_fs := set_permissions_effect fs path mode b\<rparr>) (k b)) \<Longrightarrow> ens G s (N_SetPermissions path mode k)"
  by (rule native.outcome_stepI) (auto split: nreply.splits)

lemma ens_IsDir:
  "(\<And>fs b. is_dir_admits fs path b \<Longrightarrow> ens G (s\<lparr>sys_fs := fs\<rparr>) (k b)) \<Longrightarrow> ens G s (N_IsDir path k)"
  by (rule native.outcome_stepI) (auto split: nreply.splits)

lemma ens_Exists:
  "(\<And>fs b. exists_admits fs path b \<Longrightarrow> ens (\<lambda>evs. G (NV_Exists path b # evs)) (s\<lparr>sys_fs := fs\<rparr>) (k b)) \<Longrightarrow>
   ens G s (N_Exists path k)"
  by (rule native.outcome_stepI) (auto split: nreply.splits)

lemma ens_RemoveDirAll:
  "(\<And>fs r fs1. remove_admits fs path r fs1 \<Longrightarrow>
     ens (\<lambda>evs. G (NV_RemoveDirAll fs path r # evs)) (s\<lparr>sys_fs := fs1\<rparr>) (k r)) \<Longrightarrow> ens G s (N_RemoveDirAll path k)"
  by (rule native.outcome_stepI) (auto split: nreply.splits)

lemma ens_ProxyStart:
  "(\<And>fs port. ens (\<lambda>evs. G (NV_ProxyStart endpoints port # evs)) (s\<lparr>sys_fs := fs, sys_allowlist := endpoints\<rparr>) (k port)) \<Longrightarrow>
   ens G s (N_ProxyStart endpoints k)"
  by (rule native.outcome_stepI) (auto split: nreply.splits)

lemma ens_ProxyFinish:
  "(\<And>fs headers. ens (\<lambda>evs. G (NV_ProxyFinish headers # evs)) (s\<lparr>sys_fs := fs\<rparr>)
     (k (snd (serve_all (sys_allowlist s) headers [])))) \<Longrightarrow> ens G s (N_ProxyFinish k)"
  by (rule native.outcome_stepI) (auto split: nreply.splits)

lemma ens_Spawn:
  "(\<And>fs r. ens (\<lambda>evs. G (NV_Spawn command limits r # evs)) (s\<lparr>sys_fs := fs, sys_readers := readers_new limits\<rparr>) (k r)) \<Longrightarrow>
   ens G s (N_Spawn command limits k)"
  by (rule native.outcome_stepI) (auto split: nreply.splits)

lemma ens_Select:
  "(\<And>fs steps S ready o'. reader_steps steps (sys_readers s) = Some S \<Longrightarrow> select_outcome ready (rs_channel S) = Some o' \<Longrightarrow>
     ens (\<lambda>evs. G (NV_Select steps o' # evs)) (s\<lparr>sys_fs := fs, sys_readers := S\<rparr>) (k o')) \<Longrightarrow>
   ens G s (N_Select k)"
  by (rule native.outcome_stepI) (auto simp: bind_eq_Some_conv split: nreply.splits)

lemma ens_Kill: "(\<And>fs. ens (\<lambda>evs. G (NV_Kill # evs)) (s\<lparr>sys_fs := fs\<rparr>) p) \<Longrightarrow> ens G s (N_Kill p)"
  by (rule native.outcome_stepI) (auto split: nreply.splits)

lemma ens_Join:
  "(\<And>fs steps S lost_out lost_err. reader_steps steps (sys_readers s) = Some S \<Longrightarrow>
     (lost_out \<or> rt_pending (rs_stdout S) = None) \<Longrightarrow> (lost_err \<or> rt_pending (rs_stderr S) = None) \<Longrightarrow>
     ens (\<lambda>evs. G (NV_Join steps lost_out lost_err # evs)) (s\<lparr>sys_fs := fs, sys_readers := S\<rparr>)
       (k (joined lost_out (rs_stdout S), joined lost_err (rs_stderr S), reader_counts S))) \<Longrightarrow>
   ens G s (N_Join k)"
  by (rule native.outcome_stepI) (auto simp: bind_eq_Some_conv split: nreply.splits)

lemma ens_LogShow:
  "(\<And>fs body. ens (\<lambda>evs. G (NV_LogShow process_id body # evs)) (s\<lparr>sys_fs := fs\<rparr>) (k body)) \<Longrightarrow>
   ens G s (N_LogShow process_id seconds k)"
  by (rule native.outcome_stepI) (auto split: nreply.splits)

text \<open>The check of the context and of the profile.\<close>

lemma ens_preflight:
  "(\<And>fs f. ens G (s\<lparr>sys_fs := fs\<rparr>) (k (Err f))) \<Longrightarrow> (\<And>fs. ens G (s\<lparr>sys_fs := fs\<rparr>) (k (Ok ()))) \<Longrightarrow>
   ens G s (native_preflight ctx k)"
  unfolding native_preflight_def by (rule ens_Cancelled) auto

definition profile_checked :: "'x NativeRuntime \<Rightarrow> nevent list \<Rightarrow> bool" where
  "profile_checked R evs \<longleftrightarrow> (\<exists>first_read second_read rest.
     evs = NV_Read (nc_profile_path (nr_config R)) first_read # NV_Read (nc_profile_path (nr_config R)) second_read # rest
     \<and> verify_compiled_profile (nr_platform R) (nr_lib R) first_read second_read
         (sha_str (nc_profile_sha256 (nr_config R))) (nc_workspace_root (nr_config R)) = Ok ())"

lemma verify_first_read:
  "verify_compiled_profile platform N first_read second_read sha root = Ok u \<Longrightarrow> sha256_file N first_read = Ok sha"
  by (auto simp: verify_compiled_profile_def split: sum.splits if_splits)

lemma ens_verify:
  assumes "\<And>reads fs e. \<forall>ev\<in>set reads. \<exists>p r. ev = NV_Read p r \<Longrightarrow> ens (\<lambda>evs. G (reads @ evs)) (s\<lparr>sys_fs := fs\<rparr>) (k (Err e))"
    and "\<And>r1 r2 fs. (\<And>evs. profile_checked R (NV_Read (nc_profile_path (nr_config R)) r1 # NV_Read (nc_profile_path (nr_config R)) r2 # evs)) \<Longrightarrow>
      ens (\<lambda>evs. G (NV_Read (nc_profile_path (nr_config R)) r1 # NV_Read (nc_profile_path (nr_config R)) r2 # evs))
        (s\<lparr>sys_fs := fs\<rparr>) (k (Ok ()))"
  shows "ens G s (verify_profile R k)"
proof -
  let ?path = "nc_profile_path (nr_config R)" and ?sha = "sha_str (nc_profile_sha256 (nr_config R))"
  have one: "ens (\<lambda>evs. G (NV_Read ?path r1 # evs)) (s\<lparr>sys_fs := fs\<rparr>) (k (Err e))" for r1 fs e
    using assms(1) [of "[NV_Read ?path r1]"] by simp
  have two: "ens (\<lambda>evs. G (NV_Read ?path r1 # NV_Read ?path r2 # evs)) (s\<lparr>sys_fs := fs\<rparr>)
      (k (verify_compiled_profile (nr_platform R) (nr_lib R) r1 r2 ?sha (nc_workspace_root (nr_config R))))" for r1 r2 fs
  proof (cases "verify_compiled_profile (nr_platform R) (nr_lib R) r1 r2 ?sha (nc_workspace_root (nr_config R))")
    case (Inl e)
    then show ?thesis
      using assms(1) [of "[NV_Read ?path r1, NV_Read ?path r2]"] by simp
  next
    case (Inr u)
    then show ?thesis
      using assms(2) [of r1 r2] by (simp add: profile_checked_def)
  qed
  show ?thesis
    unfolding verify_profile_def verify_profile_at_def
  proof (rule ens_Read)
    fix fs r1
    show "ens (\<lambda>evs. G (NV_Read ?path r1 # evs)) (s\<lparr>sys_fs := fs\<rparr>)
       (if sha256_file (nr_lib R) r1 = Ok ?sha
        then N_Read ?path (\<lambda>second_read.
              k (verify_compiled_profile (nr_platform R) (nr_lib R) r1 second_read ?sha (nc_workspace_root (nr_config R))))
        else k (verify_compiled_profile (nr_platform R) (nr_lib R) r1 None ?sha (nc_workspace_root (nr_config R))))"
    proof (cases "sha256_file (nr_lib R) r1 = Ok ?sha")
      case True
      then show ?thesis
        using two by (auto intro!: ens_Read)
    next
      case False
      then obtain e where "verify_compiled_profile (nr_platform R) (nr_lib R) r1 None ?sha (nc_workspace_root (nr_config R)) = Err e"
        by (metis old.sum.exhaust verify_first_read)
      with False one show ?thesis
        by simp
    qed
  qed
qed

section \<open>Workspaces\<close>

lemma id_is_relative: "valid_RequestOwnedId i \<Longrightarrow> \<not> starts_with ''/'' (roid_str i)"
  by (auto simp: valid_RequestOwnedId_def starts_with_def)

lemma workspace_eq:
  "valid_RequestOwnedId i \<Longrightarrow> workspace R i =
     (let root = nc_workspace_root (nr_config R)
      in (if root = [] \<or> last root = CHR ''/'' then root else root @ ''/'') @ roid_str i)"
  by (simp add: workspace_def path_join_def id_is_relative Let_def)

lemma workspace_longer: "valid_RequestOwnedId i \<Longrightarrow> length (nc_workspace_root (nr_config R)) < length (workspace R i)"
  by (auto simp: workspace_eq Let_def valid_RequestOwnedId_def)

definition restored :: "'x NativeRuntime \<Rightarrow> string list" where
  "restored R = (case path_parent (nc_workspace_root (nr_config R)) of None \<Rightarrow> [] | Some parent \<Rightarrow> [parent])
     @ [nc_workspace_root (nr_config R)]"

lemma workspace_not_restored: "valid_RequestOwnedId i \<Longrightarrow> workspace R i \<notin> set (restored R)"
proof -
  assume i: "valid_RequestOwnedId i"
  then have "15 \<le> length (roid_str i)"
    by (auto simp: valid_RequestOwnedId_def)
  with i have "15 \<le> length (workspace R i)"
    by (auto simp: workspace_eq Let_def)
  then show ?thesis
    using workspace_longer [OF i, of R] path_parent_shorter [of "nc_workspace_root (nr_config R)"]
    by (cases "path_parent (nc_workspace_root (nr_config R))") (auto simp: restored_def)
qed

section \<open>Creation\<close>

definition made_workspace :: "'x NativeRuntime \<Rightarrow> CreateRequest \<Rightarrow> nevent list \<Rightarrow> bool" where
  "made_workspace R q evs \<longleftrightarrow> NV_CreateDir (workspace R (cr_request_id q)) (Ok ()) \<in> set evs"

definition native_create_report ::
  "'x NativeRuntime \<Rightarrow> CreateRequest \<Rightarrow> nevent list \<Rightarrow> system \<Rightarrow> CreateFailure + CreatedSandbox \<Rightarrow> bool" where
  "native_create_report R q evs s r \<longleftrightarrow>
     (let ws = workspace R (cr_request_id q)
      in case r of
           Inr created \<Rightarrow>
             profile_checked R evs \<and> made_workspace R q evs
             \<and> last evs = NV_SetPermissions ws OWNER_ONLY True
             \<and> (\<forall>mode. sys_fs s ws = Some (Node_Dir mode) \<longrightarrow> mode = OWNER_ONLY)
             \<and> cr_expected_policy q = nc_policy_identity (nr_config R)
             \<and> sha256_bytes (nr_lib R) (doc_bytes (cr_policy_document q)) = sha_str (policy_sha256 (cr_expected_policy q))
             \<and> created = \<lparr>cs_request_id = cr_request_id q,
                  cs_provider_handle = OpaqueProviderHandle (as_bytes (roid_str (cr_request_id q))),
                  cs_expected_policy = cr_expected_policy q\<rparr>
         | Inl f \<Rightarrow>
             (CreateFailure_state f = CS_PossiblyCreated \<longleftrightarrow> made_workspace R q evs)
             \<and> CreateFailure_cleanup_target f
                 = (if made_workspace R q evs then Some (CleanupTarget_new (cr_request_id q)) else None)
             \<and> (CreateFailure_state f = CS_Conflict \<longrightarrow> sys_fs s ws \<noteq> None))"

lemma restore_ends:
  fixes k :: "CreateFailure + unit \<Rightarrow> 'r nprog"
  assumes "\<And>evs fs r. \<forall>e\<in>set evs. \<exists>c\<in>set components. (\<exists>r. e = NV_CreateDir c r) \<or> (\<exists>m b. e = NV_SetPermissions c m b) \<Longrightarrow>
      (\<forall>f. r = Err f \<longrightarrow> (\<exists>m. f = NotCreated CF_Provider m)) \<Longrightarrow>
      ens (\<lambda>es. G (evs @ es)) (s\<lparr>sys_fs := fs\<rparr>) (k r)"
  shows "ens G s (restore_components components k)"
  using assms
proof (induction components arbitrary: G s k)
  case Nil
  from Nil [of "[]" "Ok ()" "sys_fs s"] show ?case
    by simp
next
  case (Cons c components)
  let ?mine = "\<lambda>e. (\<exists>r. e = NV_CreateDir c r) \<or> (\<exists>m b. e = NV_SetPermissions c m b)"
  have refuse: "ens (\<lambda>es. G (evs @ es)) (s\<lparr>sys_fs := fs\<rparr>) (k (Err (NotCreated CF_Provider m)))"
    if "\<forall>e\<in>set evs. ?mine e" for evs fs m
    by (rule Cons.prems) (use that in auto)
  have restrict: "ens (\<lambda>es. G (evs @ es)) (s\<lparr>sys_fs := fs\<rparr>)
      (N_SetPermissions c OWNER_ONLY (\<lambda>permitted.
         if \<not> permitted then k (Err (NotCreated CF_Provider m)) else restore_components components k))"
    if mine: "\<forall>e\<in>set evs. ?mine e" for evs fs m
  proof (rule ens_SetPermissions)
    fix fs1 b
    show "ens (\<lambda>es. G (evs @ NV_SetPermissions c OWNER_ONLY b # es))
        (s\<lparr>sys_fs := fs, sys_fs := set_permissions_effect fs1 c OWNER_ONLY b\<rparr>)
        (if \<not> b then k (Err (NotCreated CF_Provider m)) else restore_components components k)"
    proof (cases b)
      case True
      have "ens (\<lambda>es. G (evs @ NV_SetPermissions c OWNER_ONLY b # es))
        (s\<lparr>sys_fs := set_permissions_effect fs1 c OWNER_ONLY b\<rparr>) (restore_components components k)"
      proof (rule Cons.IH)
        fix evs' fs' and r :: "CreateFailure + unit"
        assume "\<forall>e\<in>set evs'. \<exists>c\<in>set components. (\<exists>r. e = NV_CreateDir c r) \<or> (\<exists>m b. e = NV_SetPermissions c m b)"
          and "\<forall>f. r = Err f \<longrightarrow> (\<exists>m. f = NotCreated CF_Provider m)"
        with mine show "ens (\<lambda>es. G (evs @ NV_SetPermissions c OWNER_ONLY b # evs' @ es))
            (s\<lparr>sys_fs := set_permissions_effect fs1 c OWNER_ONLY b, sys_fs := fs'\<rparr>) (k r)"
          using Cons.prems [of "evs @ NV_SetPermissions c OWNER_ONLY b # evs'" r] by fastforce
      qed
      with True show ?thesis
        by simp
    next
      case False
      have "\<forall>e\<in>set (evs @ [NV_SetPermissions c OWNER_ONLY b]). ?mine e"
        using mine by auto
      from refuse [OF this] False show ?thesis
        by simp
    qed
  qed
  show ?case
    unfolding restore_components.simps Let_def
  proof (rule ens_SymlinkMetadata)
    fix fs m
    show "ens G (s\<lparr>sys_fs := fs\<rparr>)
       (case m of None \<Rightarrow>
          N_CreateDir c (\<lambda>created. case created of
            Inl _ \<Rightarrow> k (Err (NotCreated CF_Provider (native_detail ''workspace root could not be restored'')))
          | Inr _ \<Rightarrow> N_SetPermissions c OWNER_ONLY (\<lambda>permitted.
              if \<not> permitted then k (Err (NotCreated CF_Provider (native_detail ''workspace root permissions could not be set'')))
              else restore_components components k))
        | Some (Node_Dir x) \<Rightarrow> N_SetPermissions c OWNER_ONLY (\<lambda>permitted.
              if \<not> permitted then k (Err (NotCreated CF_Provider (native_detail ''workspace root permissions could not be set'')))
              else restore_components components k)
        | Some Node_Symlink \<Rightarrow> k (Err (NotCreated CF_Provider (native_detail ''workspace root component is a symbolic link'')))
        | Some Node_Other \<Rightarrow> k (Err (NotCreated CF_Provider (native_detail ''workspace root component is not a directory''))))"
      using refuse [of "[]"] restrict [of "[]"] refuse [of "[NV_CreateDir c x]" for x] restrict [of "[NV_CreateDir c x]" for x]
      by (auto split: option.splits node.splits sum.splits intro!: ens_CreateDir)
  qed
qed

lemma uncreated_report:
  "\<not> made_workspace R q evs \<Longrightarrow> native_create_report R q evs s (Err (NotCreated code m))"
  by (simp add: native_create_report_def)

lemma make_workspace_ends:
  assumes id: "valid_RequestOwnedId (cr_request_id q)"
    and pre: "\<not> made_workspace R q pre" "\<And>evs. profile_checked R (pre @ evs)"
    and policy: "cr_expected_policy q = nc_policy_identity (nr_config R)"
      "sha256_bytes (nr_lib R) (doc_bytes (cr_policy_document q)) = sha_str (policy_sha256 (cr_expected_policy q))"
  shows "ens (\<lambda>evs. native_create_report R q (pre @ evs)) s (make_workspace R q)"
  unfolding make_workspace_def Let_def
proof (rule ens_CreateDir)
  let ?ws = "workspace R (cr_request_id q)"
  have handle: "OpaqueProviderHandle_new (as_bytes (roid_str (cr_request_id q)))
      = Ok (OpaqueProviderHandle (as_bytes (roid_str (cr_request_id q))))"
    using id by (auto simp: contract_defs valid_RequestOwnedId_def as_bytes_def)
  fix fs r
  assume fits: "create_dir_admits fs ?ws r"
  show "ens (\<lambda>evs. native_create_report R q (pre @ NV_CreateDir ?ws (forget_mode r) # evs))
     (s\<lparr>sys_fs := create_dir_effect fs ?ws r\<rparr>)
     (case forget_mode r of
        Inl IO_AlreadyExists \<Rightarrow>
          N_Return (Err (Conflict CF_Provider (native_detail ''request-owned workspace already exists'')))
      | Inl _ \<Rightarrow>
          N_Return (Err (NotCreated CF_Provider (native_detail ''request-owned workspace could not be created'')))
      | Inr _ \<Rightarrow>
          N_SetPermissions ?ws OWNER_ONLY (\<lambda>permitted.
            N_Return
              (if \<not> permitted
               then Err (PossiblyCreated (CleanupTarget_new (cr_request_id q)) CF_Provider
                      (native_detail ''request-owned workspace permissions could not be set''))
               else created_workspace q)))"
  proof (cases r)
    case (Inl e)
    with pre(1) fits show ?thesis
      by (cases e) (auto simp: forget_mode_def native_create_report_def made_workspace_def create_dir_admits_def
          create_dir_effect_def)
  next
    case (Inr mode)
    then show ?thesis
      using pre(2) policy
      by (auto intro!: ens_SetPermissions
          simp: forget_mode_def native_create_report_def made_workspace_def set_permissions_effect_def
            created_workspace_def handle Let_def contract_defs split: option.splits node.splits)
  qed
qed

lemma create_verified_ends:
  assumes "valid_RequestOwnedId (cr_request_id q)"
    and pre: "\<forall>ev\<in>set pre. \<exists>p r. ev = NV_Read p r"
    and checked: "\<And>evs. is_ok verified \<Longrightarrow> profile_checked R (pre @ evs)"
  shows "ens (\<lambda>evs. native_create_report R q (pre @ evs)) s (create_verified R q verified)"
proof -
  have unmade: "\<not> made_workspace R q pre"
    using pre by (auto simp: made_workspace_def)
  have "ens (\<lambda>evs. native_create_report R q (pre @ evs)) s
      (ensure_workspace_root R (\<lambda>ensured. case ensured of Inl failure \<Rightarrow> N_Return (Err failure) | Inr _ \<Rightarrow> make_workspace R q))"
    if ok: "is_ok verified" "cr_expected_policy q = nc_policy_identity (nr_config R)"
      "sha256_bytes (nr_lib R) (doc_bytes (cr_policy_document q)) = sha_str (policy_sha256 (cr_expected_policy q))"
    unfolding ensure_workspace_root_def Let_def restored_def [symmetric]
  proof (rule restore_ends)
    fix evs fs and r :: "CreateFailure + unit"
    assume mine: "\<forall>e\<in>set evs. \<exists>c\<in>set (restored R). (\<exists>r. e = NV_CreateDir c r) \<or> (\<exists>m b. e = NV_SetPermissions c m b)"
      and r: "\<forall>f. r = Err f \<longrightarrow> (\<exists>m. f = NotCreated CF_Provider m)"
    have un: "\<not> made_workspace R q (pre @ evs)"
      using mine unmade workspace_not_restored [OF assms(1), of R] by (force simp: made_workspace_def)
    then show "ens (\<lambda>es. native_create_report R q (pre @ evs @ es)) (s\<lparr>sys_fs := fs\<rparr>)
        (case r of Inl failure \<Rightarrow> N_Return (Err failure) | Inr _ \<Rightarrow> make_workspace R q)"
      using make_workspace_ends [OF assms(1) un _ ok(2,3)] checked [OF ok(1)] r
      by (cases r) (auto intro!: uncreated_report)
  qed
  with unmade show ?thesis
    by (auto simp: create_verified_def intro!: uncreated_report)
qed

lemma native_create_ends:
  assumes "valid_RequestOwnedId (cr_request_id q)"
  shows "ens (native_create_report R q) s (native_create R q ctx)"
  unfolding native_create_def
proof (rule ens_preflight; unfold sum.case; (rule ens_verify)?)
  show "ens (native_create_report R q) (s\<lparr>sys_fs := fs\<rparr>) (N_Return (Err (create_context_failure f)))" for fs f
    by (simp add: create_context_failure_def uncreated_report made_workspace_def)
  show "ens (\<lambda>evs. native_create_report R q (reads @ evs)) (s\<lparr>sys_fs := fs, sys_fs := fs1\<rparr>) (create_verified R q (Err e))"
    if "\<forall>ev\<in>set reads. \<exists>p r. ev = NV_Read p r" for reads fs fs1 and e :: NativeConfigError
    using create_verified_ends [OF assms that, of "Err e"] by simp
  show "ens (\<lambda>evs. native_create_report R q (NV_Read (nc_profile_path (nr_config R)) r1
        # NV_Read (nc_profile_path (nr_config R)) r2 # evs)) (s\<lparr>sys_fs := fs, sys_fs := fs1\<rparr>) (create_verified R q (Ok ()))"
    if "\<And>evs. profile_checked R (NV_Read (nc_profile_path (nr_config R)) r1
        # NV_Read (nc_profile_path (nr_config R)) r2 # evs)" for r1 r2 fs fs1
    using create_verified_ends [where R = R and verified = "Ok ()" and pre = "[NV_Read (nc_profile_path (nr_config R)) r1,
        NV_Read (nc_profile_path (nr_config R)) r2]", OF assms] that by simp
qed

section \<open>Readiness and cleanup\<close>

definition only_reads :: "nevent list \<Rightarrow> bool" where
  "only_reads evs \<longleftrightarrow> (\<forall>ev\<in>set evs. \<exists>p r. ev = NV_Read p r)"

lemma only_reads_simps [simp]: "only_reads []" "only_reads (NV_Read p r # evs) \<longleftrightarrow> only_reads evs"
  "only_reads (a @ b) \<longleftrightarrow> only_reads a \<and> only_reads b"
  by (auto simp: only_reads_def)

definition native_ready_report ::
  "'x NativeRuntime \<Rightarrow> CreatedSandbox \<Rightarrow> PolicyIdentity \<Rightarrow> nevent list \<Rightarrow> system \<Rightarrow> ReadinessFailure + ReadySandbox \<Rightarrow> bool" where
  "native_ready_report R created expected evs s r \<longleftrightarrow> only_reads evs \<and>
     (case r of
        Inl f \<Rightarrow> rf_cleanup_target f = CreatedSandbox_cleanup_target created
      | Inr ready \<Rightarrow>
          profile_checked R evs
          \<and> expected = nc_policy_identity (nr_config R) \<and> cs_expected_policy created = expected
          \<and> is_dir_admits (sys_fs s) (workspace R (cs_request_id created)) True
          \<and> handle_bytes (cs_provider_handle created) = as_bytes (roid_str (cs_request_id created))
          \<and> ready = \<lparr>rs_request_id = cs_request_id created, rs_provider_handle = cs_provider_handle created,
               rs_active_policy = expected\<rparr>)"

lemma native_wait_ready_ends:
  "ens (native_ready_report R created expected) s (native_wait_ready R created expected ctx)"
  unfolding native_wait_ready_def Let_def
  by (rule ens_preflight; unfold sum.case; (rule ens_verify)?)
    (auto simp: native_ready_report_def contract_defs only_reads_def [symmetric] split: sum.splits if_splits
      intro!: ens_IsDir)

text \<open>The workspaces of different requests do not overlap.\<close>

lemma workspaces_apart:
  assumes "valid_RequestOwnedId i" and "valid_RequestOwnedId j" and "i \<noteq> j"
    and "below (workspace R i) path"
  shows "\<not> below (workspace R j) path"
proof
  let ?base = "let root = nc_workspace_root (nr_config R) in if root = [] \<or> last root = CHR ''/'' then root else root @ ''/''"
  assume "below (workspace R j) path"
  then obtain a b where "path = ?base @ roid_str i @ a" "path = ?base @ roid_str j @ b"
    using assms(1,2,4) by (force simp: below_def workspace_eq Let_def prefix_def)
  moreover have "length (roid_str i) = length (roid_str j)"
    using assms(1,2) by (simp add: valid_RequestOwnedId_length)
  ultimately have "roid_str i = roid_str j"
    by auto
  with assms(3) show False
    by (cases i, cases j) simp
qed

definition others_kept :: "'x NativeRuntime \<Rightarrow> RequestOwnedId \<Rightarrow> file_system \<Rightarrow> file_system \<Rightarrow> bool" where
  "others_kept R i before after \<longleftrightarrow>
     (\<forall>j path. valid_RequestOwnedId j \<and> j \<noteq> i \<and> below (workspace R j) path \<longrightarrow> after path = before path)"

lemma remove_keeps_others:
  "valid_RequestOwnedId i \<Longrightarrow> remove_admits before (workspace R i) r after \<Longrightarrow> others_kept R i before after"
  using workspaces_apart [of i _ R]
  by (fastforce simp: remove_admits_def others_kept_def split: sum.splits IoError.splits)

definition native_delete_report ::
  "'x NativeRuntime \<Rightarrow> CleanupTarget \<Rightarrow> nevent list \<Rightarrow> system \<Rightarrow> CleanupFailure + DeleteOutcome \<Rightarrow> bool" where
  "native_delete_report R target evs s r \<longleftrightarrow>
     (let ws = workspace R (target_request_id target)
      in (evs = [] \<or> (\<exists>before answer. evs = [NV_RemoveDirAll before ws answer]
            \<and> others_kept R (target_request_id target) before (sys_fs s)))
        \<and> (case r of
             Inl f \<Rightarrow> cuf_cleanup_target f = target
           | Inr Deleted \<Rightarrow> evs \<noteq> [] \<and> (\<forall>path. below ws path \<longrightarrow> sys_fs s path = None)
           | Inr AlreadyAbsent \<Rightarrow> evs \<noteq> [] \<and> sys_fs s ws = None))"

lemma native_delete_ends:
  assumes "valid_RequestOwnedId (target_request_id target)"
  shows "ens (native_delete_report R target) s (native_delete R target ctx)"
  unfolding native_delete_def
proof (rule ens_preflight; unfold sum.case; (rule ens_RemoveDirAll)?)
  show "ens (\<lambda>evs. native_delete_report R target (NV_RemoveDirAll fs (workspace R (target_request_id target)) r # evs))
    (s\<lparr>sys_fs := fs', sys_fs := fs1\<rparr>)
    (N_Return (case r of
       Inr _ \<Rightarrow> Ok Deleted
     | Inl IO_NotFound \<Rightarrow> Ok AlreadyAbsent
     | Inl _ \<Rightarrow> Err (CleanupFailure_new target CU_Provider (native_detail ''request-owned workspace could not be removed''))))"
    if "remove_admits fs (workspace R (target_request_id target)) r fs1" for fs r fs1 fs'
    using remove_keeps_others [OF assms that] that
    by (auto simp: native_delete_report_def contract_defs remove_admits_def Let_def split: sum.splits IoError.splits)
qed (auto simp: native_delete_report_def contract_defs)

definition native_absence_report ::
  "'x NativeRuntime \<Rightarrow> CleanupTarget \<Rightarrow> nevent list \<Rightarrow> system \<Rightarrow> CleanupFailure + unit \<Rightarrow> bool" where
  "native_absence_report R target evs s r \<longleftrightarrow>
     (let ws = workspace R (target_request_id target)
      in case r of
           Inl f \<Rightarrow> cuf_cleanup_target f = target
             \<and> (cuf_code f = CU_Provider \<longrightarrow> evs = [NV_Exists ws True] \<and> sys_fs s ws \<noteq> None)
         | Inr _ \<Rightarrow> evs = [NV_Exists ws False])"

lemma context_cleanup_code_not [simp]: "context_cleanup_code f \<noteq> CU_Provider"
  by (cases f) simp_all

lemma native_wait_deleted_ends: "ens (native_absence_report R target) s (native_wait_deleted R target ctx)"
  unfolding native_wait_deleted_def
  by (rule ens_preflight; unfold sum.case; (rule ens_Exists)?)
    (auto simp: native_absence_report_def contract_defs exists_admits_def Let_def split: sum.splits)

section \<open>Execution\<close>

definition spawned :: "nevent list \<Rightarrow> bool" where
  "spawned evs \<longleftrightarrow> (\<exists>command limits process_id. NV_Spawn command limits (Some process_id) \<in> set evs)"

text \<open>
  What was observed of the process: the outcome of the wait, a kill unless it had exited, and the readers
  up to the join, with the tasks that were lost.
\<close>

definition observed ::
  "OutputLimits \<Rightarrow> nevent list \<Rightarrow> reader_step list \<Rightarrow> readers \<Rightarrow> WaitOutcome \<Rightarrow> bool \<Rightarrow> bool \<Rightarrow> bool" where
  "observed L evs steps S o' lost_out lost_err \<longleftrightarrow>
     (\<exists>steps1 steps2. steps = steps1 @ steps2 \<and> NV_Select steps1 o' \<in> set evs
        \<and> NV_Join steps2 lost_out lost_err \<in> set evs
        \<and> reader_steps steps (readers_new L) = Some S
        \<and> (lost_out \<or> rt_pending (rs_stdout S) = None) \<and> (lost_err \<or> rt_pending (rs_stderr S) = None)
        \<and> ((\<forall>status. o' \<noteq> WO_Exited status) \<longrightarrow> NV_Kill \<in> set evs))"

definition completed_as ::
  "ExecCompleted \<Rightarrow> WaitOutcome \<Rightarrow> bool" where
  "completed_as c o' \<longleftrightarrow>
     (case o' of
        WO_Exited status \<Rightarrow> observed_status status = Some (ec_exit_code c) \<and> ec_timeout c = OT_NotObserved
      | WO_CommandTimeout \<Rightarrow> ec_exit_code c = ObservedExitCode 124 \<and> ec_timeout c = OT_Confirmed
      | _ \<Rightarrow> False)"

definition evidence_from :: "nevent list \<Rightarrow> EgressDecision list \<Rightarrow> bool" where
  "evidence_from evs decisions \<longleftrightarrow>
     (if \<exists>endpoints port. NV_ProxyStart endpoints (Some port) \<in> set evs
      then \<exists>endpoints port headers. NV_ProxyStart endpoints (Some port) \<in> set evs \<and> NV_ProxyFinish headers \<in> set evs
        \<and> decisions = take MAX_RETAINED_DECISIONS (map (verdict endpoints) (requests headers))
      else decisions = [])"

definition native_exec_report ::
  "CleanupTarget \<Rightarrow> OutputLimits \<Rightarrow> nevent list \<Rightarrow> ExecFailure + ExecCompleted \<Rightarrow> bool" where
  "native_exec_report target L evs r \<longleftrightarrow>
     (case r of
        Inl f \<Rightarrow> ef_cleanup_target f = target
          \<and> (ef_dispatch_state f = PossiblyDispatched \<longleftrightarrow> spawned evs)
          \<and> (spawned evs \<longrightarrow> (\<exists>steps S o' lost_out lost_err. observed L evs steps S o' lost_out lost_err
               \<and> ef_counts f = reader_counts S
               \<and> ef_output_limit f = detected_overflow o' (joined lost_out (rs_stdout S)) (joined lost_err (rs_stderr S))))
      | Inr c \<Rightarrow> spawned evs
          \<and> (\<exists>steps S o' lost_out lost_err. observed L evs steps S o' lost_out lost_err
               \<and> completed_as c o'
               \<and> ec_stdout c = rr_bytes (joined lost_out (rs_stdout S))
               \<and> ec_stderr c = rr_bytes (joined lost_err (rs_stderr S))
               \<and> rr_overflow (joined lost_out (rs_stdout S)) = None
               \<and> rr_overflow (joined lost_err (rs_stderr S)) = None
               \<and> (length (carried True steps) + length (carried False steps) < 2 ^ 64 \<longrightarrow>
                    (lost_out \<or> ec_stdout c = carried True steps) \<and> (lost_err \<or> ec_stderr c = carried False steps)))
          \<and> evidence_from evs (se_egress_decisions (ec_sandbox_evidence c)))"

lemma ens_fail_expect:
  "is_ok x \<Longrightarrow> (\<And>f. x = Ok f \<Longrightarrow> G [] s (Err f)) \<Longrightarrow> ens G s (native_fail_expect x)"
  by (auto simp: native_fail_expect_def split: sum.splits)

lemma not_dispatched_is:
  "code \<notin> {EF_MissingTerminalExit, EF_OutputLimitExceeded} \<Longrightarrow>
   ExecFailure_not_dispatched target code d = Ok \<lparr>ef_cleanup_target = target, ef_dispatch_state = NotDispatched,
     ef_timeout_state = FT_NotObserved, ef_code = code, ef_counts = OutputByteCounts_default, ef_output_limit = None,
     ef_detail = d\<rparr>"
  by (auto simp: contract_defs ExecFailure_validated_def)

lemma ens_refuse:
  "code \<notin> {EF_MissingTerminalExit, EF_OutputLimitExceeded} \<Longrightarrow> \<not> spawned pre \<Longrightarrow>
   ens (\<lambda>evs s. native_exec_report target L (pre @ evs)) s (refuse_exec target code message)"
  unfolding refuse_exec_def
  by (rule ens_fail_expect) (auto simp: not_dispatched_is native_exec_report_def)

lemma exec_result_ends:
  assumes "\<And>f. ef_cleanup_target f = target \<Longrightarrow> ef_dispatch_state f = PossiblyDispatched \<Longrightarrow> ef_counts f = counts \<Longrightarrow>
      ef_output_limit f = detected_overflow o' out err \<Longrightarrow> G [] s (Err f)"
    and "\<And>c. completed_as c o' \<Longrightarrow> ec_stdout c = rr_bytes out \<Longrightarrow> ec_stderr c = rr_bytes err \<Longrightarrow>
      ec_sandbox_evidence c = evidence \<Longrightarrow> detected_overflow o' out err = None \<Longrightarrow> G [] s (Ok c)"
  shows "ens G s (exec_result target o' out err counts evidence)"
proof (cases "detected_overflow o' out err")
  case None
  have fail: "ens G s (native_fail_expect x)"
    if "x = Ok \<lparr>ef_cleanup_target = target, ef_dispatch_state = PossiblyDispatched, ef_timeout_state = FT_Unknown,
      ef_code = code, ef_counts = counts, ef_output_limit = None, ef_detail = d\<rparr>" for x code d
    by (rule ens_fail_expect) (use that assms(1) None in auto)
  show ?thesis
    using None assms(2) fail
    by (auto simp: exec_result_def Let_def completed_as_def observation_failure_def detected_overflow_def contract_defs
        ExecFailure_validated_def split: WaitOutcome.splits option.splits)
next
  case (Some kind)
  then show ?thesis
    using assms(1)
    by (auto simp: exec_result_def contract_defs ExecFailure_validated_def intro!: ens_fail_expect)
qed

definition proxy_known :: "nevent list \<Rightarrow> system \<Rightarrow> u16 option \<Rightarrow> bool" where
  "proxy_known evs s proxy \<longleftrightarrow>
     (case proxy of
        None \<Rightarrow> \<forall>endpoints port. NV_ProxyStart endpoints (Some port) \<notin> set evs
      | Some port \<Rightarrow> NV_ProxyStart (sys_allowlist s) (Some port) \<in> set evs)"

lemma proxy_known_fs [simp]: "proxy_known evs (s\<lparr>sys_fs := fs\<rparr>) proxy = proxy_known evs s proxy"
  "proxy_known evs (s\<lparr>sys_readers := S\<rparr>) proxy = proxy_known evs s proxy"
  by (simp_all add: proxy_known_def split: option.split)

lemma proxy_known_event:
  "proxy_known evs s proxy \<Longrightarrow> (\<And>endpoints port. e \<noteq> NV_ProxyStart endpoints (Some port)) \<Longrightarrow>
   proxy_known (evs @ [e]) s proxy"
  by (auto simp: proxy_known_def split: option.splits)

lemma proxy_finish_ends:
  assumes "proxy_known pre s proxy"
    and "\<And>evs fs decisions. (\<forall>e\<in>set evs. \<exists>headers. e = NV_ProxyFinish headers) \<Longrightarrow> evidence_from (pre @ evs) decisions \<Longrightarrow>
      ens (\<lambda>es. G (pre @ evs @ es)) (s\<lparr>sys_fs := fs\<rparr>) (k decisions)"
  shows "ens (\<lambda>es. G (pre @ es)) s (proxy_finish proxy k)"
proof (cases proxy)
  case None
  with assms(1) have "evidence_from (pre @ []) []"
    by (auto simp: proxy_known_def evidence_from_def)
  with None assms(2) [of "[]" "[]" "sys_fs s"] show ?thesis
    by (simp add: proxy_finish_def)
next
  case (Some port)
  have "evidence_from (pre @ [NV_ProxyFinish headers]) (snd (serve_all (sys_allowlist s) headers []))" for headers
    using assms(1) Some serve_all_decisions [of "[]" "sys_allowlist s" headers]
    by (auto simp: proxy_known_def evidence_from_def)
  then show ?thesis
    using assms(2) [of "[NV_ProxyFinish headers]" for headers] Some
    by (auto simp: proxy_finish_def intro!: ens_ProxyFinish)
qed

lemma ens_collect:
  assumes "\<And>evs fs violation. (\<forall>e\<in>set evs. \<exists>pid body. e = NV_LogShow pid body) \<Longrightarrow>
      ens (\<lambda>es. G (evs @ es)) (s\<lparr>sys_fs := fs\<rparr>) (k violation)"
  shows "ens G s (collect_violation R request process_id k)"
proof -
  have none: "ens G s (k None)"
    using assms [of "[]" "sys_fs s"] by simp
  have "ens (\<lambda>evs. G (NV_LogShow pid body # evs)) (s\<lparr>sys_fs := fs\<rparr>) (k v)" for pid body fs v
    using assms [of "[NV_LogShow pid body]"] by simp
  with none show ?thesis
    by (auto simp: collect_violation_def monitor_collect_def intro!: ens_LogShow split: option.splits)
qed

lemma reader_steps_append:
  "reader_steps (a @ b) S = Option.bind (reader_steps a S) (reader_steps b)"
proof (induction a arbitrary: S)
  case (Cons step a)
  then show ?case
    by (cases "reader_step step S") simp_all
qed simp

lemma observed_report:
  assumes "reader_steps steps1 (readers_new L) = Some S1" and "reader_steps steps2 S1 = Some S"
    and "lost_out \<or> rt_pending (rs_stdout S) = None" and "lost_err \<or> rt_pending (rs_stderr S) = None"
    and "{NV_Select steps1 o', NV_Join steps2 lost_out lost_err} \<subseteq> set evs"
    and "(\<forall>status. o' \<noteq> WO_Exited status) \<longrightarrow> NV_Kill \<in> set evs"
  shows "observed L evs (steps1 @ steps2) S o' lost_out lost_err"
  using assms unfolding observed_def
  by (intro exI [of _ steps1] exI [of _ steps2]) (auto simp: reader_steps_append)

lemma detected_overflow_None:
  "detected_overflow o' out err = None \<Longrightarrow> rr_overflow out = None \<and> rr_overflow err = None"
  by (auto simp: detected_overflow_def split: WaitOutcome.splits option.splits)

lemma observed_whole:
  assumes "observed L evs steps S o' lost_out lost_err"
    and "length (carried True steps) + length (carried False steps) < 2 ^ 64"
    and "rr_overflow (joined lost_out (rs_stdout S)) = None" and "rr_overflow (joined lost_err (rs_stderr S)) = None"
  shows "(lost_out \<or> rr_bytes (joined lost_out (rs_stdout S)) = carried True steps)
    \<and> (lost_err \<or> rr_bytes (joined lost_err (rs_stderr S)) = carried False steps)"
proof -
  have "readers_ok L (carried True steps) (carried False steps) S"
    using assms(1,2) reader_steps_ok [OF readers_new_ok, of steps L S] by (auto simp: observed_def)
  then show ?thesis
    using assms(1,3,4) by (auto simp: readers_ok_def task_ok_def pending_bytes_def observed_def joined_def)
qed

lemma exec_result_report:
  assumes "spawned evs" and "observed L evs steps S o' lost_out lost_err"
    and "evidence_from evs (se_egress_decisions evidence)"
  shows "ens (\<lambda>es s. native_exec_report target L (evs @ es)) s
    (exec_result target o' (joined lost_out (rs_stdout S)) (joined lost_err (rs_stderr S)) (reader_counts S) evidence)"
proof (rule exec_result_ends)
  show "native_exec_report target L (evs @ []) (Err f)"
    if "ef_cleanup_target f = target" "ef_dispatch_state f = PossiblyDispatched" "ef_counts f = reader_counts S"
      "ef_output_limit f = detected_overflow o' (joined lost_out (rs_stdout S)) (joined lost_err (rs_stderr S))" for f
    unfolding native_exec_report_def append_Nil2 sum.case using that assms(1,2) by blast
  show "native_exec_report target L (evs @ []) (Ok c)"
    if "completed_as c o'" "ec_stdout c = rr_bytes (joined lost_out (rs_stdout S))"
      "ec_stderr c = rr_bytes (joined lost_err (rs_stderr S))" "ec_sandbox_evidence c = evidence"
      "detected_overflow o' (joined lost_out (rs_stdout S)) (joined lost_err (rs_stderr S)) = None" for c
    unfolding native_exec_report_def append_Nil2 sum.case that(4)
    using that(1-3) assms detected_overflow_None [OF that(5)] observed_whole [OF assms(2)] by metis
qed

lemma observe_command_ends:
  assumes "spawned pre" and "proxy_known pre s proxy" and "sys_readers s = readers_new (er_output_limits q)"
  shows "ens (\<lambda>evs s. native_exec_report target (er_output_limits q) (pre @ evs)) s
    (observe_command R target q proxy process_id)"
  unfolding observe_command_def
proof (rule ens_Select)
  fix fs steps1 S1 ready o'
  assume S1: "reader_steps steps1 (sys_readers s) = Some S1"
  let ?s = "s\<lparr>sys_fs := fs, sys_readers := S1\<rparr>"
  let ?rest = "N_Join (\<lambda>(stdout_result, stderr_result, counts).
     collect_violation R q process_id (\<lambda>violation.
     proxy_finish proxy (\<lambda>egress_decisions.
     exec_result target o' stdout_result stderr_result counts (SandboxEvidence_new egress_decisions violation))))"
  have join: "ens (\<lambda>evs s. native_exec_report target (er_output_limits q) (pre @ NV_Select steps1 o' # kills @ evs)) s1 ?rest"
    if kills: "\<forall>e\<in>set kills. e = NV_Kill" "(\<forall>status. o' \<noteq> WO_Exited status) \<longrightarrow> NV_Kill \<in> set kills"
      and s1: "sys_readers s1 = S1" "sys_allowlist s1 = sys_allowlist s" for kills s1
  proof (rule ens_Join)
    fix fs2 steps2 S lost_out lost_err
    assume S: "reader_steps steps2 (sys_readers s1) = Some S"
      "lost_out \<or> rt_pending (rs_stdout S) = None" "lost_err \<or> rt_pending (rs_stderr S) = None"
    let ?pre = "pre @ NV_Select steps1 o' # kills @ [NV_Join steps2 lost_out lost_err]"
    have seen: "observed (er_output_limits q) (?pre @ evs) (steps1 @ steps2) S o' lost_out lost_err" for evs
      by (rule observed_report) (use S S1 s1 assms(3) kills in auto)
    have known: "proxy_known (?pre @ logs) s2 proxy"
      if "sys_allowlist s2 = sys_allowlist s" "\<forall>e\<in>set logs. \<exists>pid body. e = NV_LogShow pid body" for s2 logs
      using assms(2) that kills(1) by (fastforce simp: proxy_known_def split: option.splits)
    show "ens (\<lambda>evs s. native_exec_report target (er_output_limits q) (pre @ NV_Select steps1 o' # kills @ NV_Join steps2 lost_out lost_err # evs))
      (s1\<lparr>sys_fs := fs2, sys_readers := S\<rparr>)
      (case (joined lost_out (rs_stdout S), joined lost_err (rs_stderr S), reader_counts S) of
         (stdout_result, stderr_result, counts) \<Rightarrow>
     collect_violation R q process_id (\<lambda>violation.
     proxy_finish proxy (\<lambda>egress_decisions.
     exec_result target o' stdout_result stderr_result counts (SandboxEvidence_new egress_decisions violation))))"
      unfolding prod.case
    proof (rule ens_collect)
      fix logs fs3 and violation :: "ViolationEvidence option"
      assume logs: "\<forall>e\<in>set logs. \<exists>pid body. e = NV_LogShow pid body"
      have "ens (\<lambda>es s. native_exec_report target (er_output_limits q) ((?pre @ logs) @ es)) (s1\<lparr>sys_readers := S, sys_fs := fs3\<rparr>)
        (proxy_finish proxy (\<lambda>egress_decisions. exec_result target o' (joined lost_out (rs_stdout S))
          (joined lost_err (rs_stderr S)) (reader_counts S) (SandboxEvidence_new egress_decisions violation)))"
      proof (rule proxy_finish_ends)
        show "proxy_known (?pre @ logs) (s1\<lparr>sys_readers := S, sys_fs := fs3\<rparr>) proxy"
          using known logs s1 by simp
        fix evs fs4 decisions
        assume "evidence_from ((?pre @ logs) @ evs) decisions"
        moreover have "spawned (?pre @ logs @ evs)"
          using assms(1) by (auto simp: spawned_def)
        ultimately show "ens (\<lambda>es s. native_exec_report target (er_output_limits q) ((?pre @ logs) @ evs @ es))
            (s1\<lparr>sys_readers := S, sys_fs := fs3, sys_fs := fs4\<rparr>)
            (exec_result target o' (joined lost_out (rs_stdout S)) (joined lost_err (rs_stderr S)) (reader_counts S)
              (SandboxEvidence_new decisions violation))"
          using exec_result_report [of "?pre @ logs @ evs", OF _ seen] by (simp add: contract_defs)
      qed
      then show "ens (\<lambda>es s. native_exec_report target (er_output_limits q)
          (pre @ NV_Select steps1 o' # kills @ NV_Join steps2 lost_out lost_err # logs @ es))
          (s1\<lparr>sys_fs := fs2, sys_readers := S, sys_fs := fs3\<rparr>)
        (proxy_finish proxy (\<lambda>egress_decisions. exec_result target o' (joined lost_out (rs_stdout S))
          (joined lost_err (rs_stderr S)) (reader_counts S) (SandboxEvidence_new egress_decisions violation)))"
        by simp
    qed
  qed
  show "ens (\<lambda>evs s. native_exec_report target (er_output_limits q) (pre @ NV_Select steps1 o' # evs)) ?s
      (kill_unless_exited o' ?rest)"
    using join [of "[]" ?s] join [of "[NV_Kill]" "?s\<lparr>sys_fs := fs2\<rparr>" for fs2]
    by (auto simp: kill_unless_exited_def intro!: ens_Kill split: WaitOutcome.splits)
qed

lemma run_command_ends:
  assumes "\<not> spawned pre" and "proxy_known pre s proxy"
  shows "ens (\<lambda>evs s. native_exec_report target (er_output_limits q) (pre @ evs)) s
    (run_command R target q proxy command)"
  unfolding run_command_def
proof (rule ens_Spawn)
  fix fs spawn_result
  let ?e = "NV_Spawn (piped command) (er_output_limits q) spawn_result"
  let ?s = "s\<lparr>sys_fs := fs, sys_readers := readers_new (er_output_limits q)\<rparr>"
  have known: "proxy_known (pre @ [?e]) ?s proxy"
    by (rule proxy_known_event) (use assms(2) in \<open>auto simp: proxy_known_def split: option.splits\<close>)
  have "ens (\<lambda>evs s. native_exec_report target (er_output_limits q) ((pre @ [?e]) @ evs)) ?s
    (case spawn_result of
       None \<Rightarrow> proxy_finish proxy (\<lambda>_. refuse_exec target EF_Transport ''native sandbox process could not be spawned'')
     | Some process_id \<Rightarrow> observe_command R target q proxy process_id)"
  proof (cases spawn_result)
    case None
    have "ens (\<lambda>evs s. native_exec_report target (er_output_limits q) ((pre @ [?e]) @ evs)) ?s
      (proxy_finish proxy (\<lambda>_. refuse_exec target EF_Transport ''native sandbox process could not be spawned''))"
    proof (rule proxy_finish_ends [OF known])
      fix evs fs1 and decisions :: "EgressDecision list"
      assume "\<forall>e\<in>set evs. \<exists>headers. e = NV_ProxyFinish headers"
      then have "\<not> spawned ((pre @ [?e]) @ evs)"
        using assms(1) None by (auto simp: spawned_def)
      from ens_refuse [OF _ this] show "ens (\<lambda>es s. native_exec_report target (er_output_limits q) ((pre @ [?e]) @ evs @ es))
          (?s\<lparr>sys_fs := fs1\<rparr>) (refuse_exec target EF_Transport ''native sandbox process could not be spawned'')"
        by simp
    qed
    with None show ?thesis
      by simp
  next
    case (Some process_id)
    have "spawned (pre @ [?e])"
      using Some by (auto simp: spawned_def)
    from observe_command_ends [where q = q, OF this known] Some show ?thesis
      by simp
  qed
  then show "ens (\<lambda>evs s. native_exec_report target (er_output_limits q) (pre @ ?e # evs)) ?s
    (case spawn_result of
       None \<Rightarrow> proxy_finish proxy (\<lambda>_. refuse_exec target EF_Transport ''native sandbox process could not be spawned'')
     | Some process_id \<Rightarrow> observe_command R target q proxy process_id)"
    by simp
qed

lemma read_only_binds_ends:
  assumes "\<And>evs fs binds. (\<forall>e\<in>set evs. \<exists>p b. e = NV_Exists p b) \<Longrightarrow>
     ens (\<lambda>es. G (evs @ es)) (s\<lparr>sys_fs := fs\<rparr>) (k binds)"
  shows "ens G s (read_only_binds paths k)"
  using assms
proof (induction paths arbitrary: G s k)
  case Nil
  from Nil [of "[]" "sys_fs s"] show ?case
    by simp
next
  case (Cons path paths)
  show ?case
    unfolding read_only_binds.simps
  proof (rule ens_Exists)
    fix fs present
    show "ens (\<lambda>evs. G (NV_Exists path present # evs)) (s\<lparr>sys_fs := fs\<rparr>)
      (read_only_binds paths (\<lambda>binds. k ((if present then [''--ro-bind'', path, path] else []) @ binds)))"
      by (rule Cons.IH) (use Cons.prems [of "NV_Exists path present # evs" for evs] in simp)
  qed
qed

lemma exec_proxied_ends:
  assumes q: "argv_slice (er_argv q) \<noteq> []" and "\<not> spawned pre"
    and "\<And>proxy. started = Some proxy \<Longrightarrow> proxy_known pre s proxy"
  shows "ens (\<lambda>evs s. native_exec_report (ReadySandbox_cleanup_target ready) (er_output_limits q) (pre @ evs)) s
    (exec_proxied R ready q started)"
proof (cases started)
  case None
  with assms(2) show ?thesis
    by (auto simp: exec_proxied_def intro!: ens_refuse)
next
  case (Some proxy)
  let ?report = "\<lambda>evs s. native_exec_report (ReadySandbox_cleanup_target ready) (er_output_limits q) (pre @ evs)"
  have run: "ens (\<lambda>es s. ?report (evs @ es) s) (s\<lparr>sys_fs := fs\<rparr>)
      (run_command R (ReadySandbox_cleanup_target ready) q proxy command)"
    if "\<forall>e\<in>set evs. \<exists>p b. e = NV_Exists p b" for evs fs command
  proof -
    have "\<not> spawned (pre @ evs)" "proxy_known (pre @ evs) (s\<lparr>sys_fs := fs\<rparr>) proxy"
      using assms(2,3) Some that by (fastforce simp: spawned_def proxy_known_def split: option.splits)+
    from run_command_ends [OF this] show ?thesis
      by simp
  qed
  show ?thesis
  proof (cases "nr_platform R")
    case MacOS
    with run [of "[]" "sys_fs s"] Some q show ?thesis
      by (simp add: exec_proxied_def native_command_def)
  next
    case Linux
    with run Some q show ?thesis
      by (auto simp: exec_proxied_def native_command_def intro!: read_only_binds_ends)
  next
    case OtherPlatform
    with assms(2) Some show ?thesis
      by (auto simp: exec_proxied_def native_command_def intro!: ens_refuse)
  qed
qed

lemma exec_verified_ends:
  assumes q: "argv_slice (er_argv q) \<noteq> []" and pre: "only_reads pre"
  shows "ens (\<lambda>evs s. native_exec_report (ReadySandbox_cleanup_target ready) (er_output_limits q) (pre @ evs)) s
    (exec_verified R ready q verified)"
proof -
  let ?target = "ReadySandbox_cleanup_target ready"
  have unspawned: "\<not> spawned (pre @ [NV_Read p r])" "\<not> spawned pre" for p r
    using pre by (auto simp: spawned_def only_reads_def)
  have proxied: "ens (\<lambda>es s. native_exec_report ?target (er_output_limits q) ((pre @ [NV_Read p r]) @ es)) s1
      (proxy_start network (exec_proxied R ready q))" for p r s1 network
  proof (cases network)
    case NA_Deny
    have "proxy_known (pre @ [NV_Read p r]) s1 None"
      using pre by (auto simp: proxy_known_def only_reads_def)
    then have "ens (\<lambda>es s. native_exec_report ?target (er_output_limits q) ((pre @ [NV_Read p r]) @ es)) s1
        (exec_proxied R ready q (Some None))"
      by (intro exec_proxied_ends) (use q unspawned in auto)
    with NA_Deny show ?thesis
      by (simp add: proxy_start_def)
  next
    case (NA_Allowlist endpoints)
    have "ens (\<lambda>es s. native_exec_report ?target (er_output_limits q) ((pre @ [NV_Read p r, NV_ProxyStart endpoints port]) @ es))
        (s1\<lparr>sys_fs := fs, sys_allowlist := endpoints\<rparr>)
        (exec_proxied R ready q (case port of None \<Rightarrow> None | Some p \<Rightarrow> Some (Some p)))" for fs port
      by (rule exec_proxied_ends)
        (use unspawned q in \<open>auto simp: spawned_def proxy_known_def split: option.splits\<close>)
    with NA_Allowlist show ?thesis
      by (auto simp: proxy_start_def intro!: ens_ProxyStart)
  qed
  have refused: "ens (\<lambda>es s. native_exec_report ?target (er_output_limits q) (pre @ NV_Read p r # es)) s1
      (refuse_exec ?target EF_Provider message)" for p r s1 message
    using ens_refuse [OF _ unspawned(1)] by simp
  show ?thesis
    using proxied refused ens_refuse unspawned
    by (auto simp: exec_verified_def Let_def intro!: ens_IsDir ens_Read split: sum.splits)
qed

lemma native_exec_ends:
  assumes q: "argv_slice (er_argv q) \<noteq> []"
  shows "ens (\<lambda>evs s. native_exec_report (ReadySandbox_cleanup_target ready) (er_output_limits q) evs) s
    (native_exec R ready q ctx)"
  unfolding native_exec_def
proof (rule ens_preflight; unfold sum.case; (rule ens_verify)?)
  show "ens (\<lambda>evs s. native_exec_report (ReadySandbox_cleanup_target ready) (er_output_limits q) evs) (s\<lparr>sys_fs := fs\<rparr>)
    (native_fail_expect (ExecFailure_not_dispatched (ReadySandbox_cleanup_target ready) (context_exec_code f) (context_detail f)))"
    for fs f
    by (rule ens_fail_expect; cases f) (auto simp: not_dispatched_is native_exec_report_def spawned_def)
qed (use exec_verified_ends [OF q, of "[NV_Read a b, NV_Read c d]" for a b c d] exec_verified_ends [OF q] in
    \<open>auto simp: only_reads_def\<close>)

section \<open>Properties\<close>

definition nat_id :: RequestOwnedId where
  "nat_id = RequestOwnedId ''sbx-000000000000001''"

definition nat_policy :: PolicyIdentity where
  "nat_policy = \<lparr>policy_id = ''p'', policy_version = 1, policy_sha256 = Sha256Digest []\<rparr>"

definition nat_runtime :: "unit NativeRuntime" where
  "nat_runtime = \<lparr>nr_platform = Linux, nr_lib = sample_native_lib,
     nr_config = \<lparr>nc_profile_path = ''/p'', nc_profile_sha256 = Sha256Digest [], nc_workspace_root = ''/w'',
       nc_policy_identity = nat_policy\<rparr>\<rparr>"

definition nat_context :: "unit OperationContext" where
  "nat_context = \<lparr>oc_cancellation = (), oc_deadline = OperationDeadline 60\<rparr>"

definition nat_fs :: file_system where
  "nat_fs = [''/'' \<mapsto> Node_Dir 0, ''/w'' \<mapsto> Node_Dir 0]"

definition nat_system :: system where
  "nat_system = \<lparr>sys_fs = nat_fs, sys_readers = readers_new sample_output_limits, sys_allowlist = []\<rparr>"

definition answers :: "nreply list \<Rightarrow> nanswer list" where
  "answers replies = map (\<lambda>r. \<lparr>na_fs = nat_fs, na_reply = r\<rparr>) replies"

abbreviation nat_profile :: nreply where
  "nat_profile \<equiv> NR_Read (pc_output sample_calls)"

lemma nat_workspace: "workspace nat_runtime nat_id = ''/w/sbx-000000000000001''"
  by (simp add: workspace_def nat_runtime_def nat_id_def path_join_def starts_with_def)

lemma nat_id_valid: "valid_RequestOwnedId nat_id"
  by (simp add: valid_RequestOwnedId_def nat_id_def is_lower_hex_def is_ascii_digit_def)

lemma nat_verified:
  "verify_compiled_profile Linux sample_native_lib (pc_output sample_calls) (pc_output sample_calls) [] ''/w'' = Ok ()"
  "sha256_file sample_native_lib (pc_output sample_calls) = Ok []"
  by (simp_all add: verify_compiled_profile_def verify_bwrap_def sample_calls_def sample_native_lib_def sample_bwrap_def
      sha256_file_def hex_string_def Let_def)

lemma nat_fields [simp]:
  "nr_platform nat_runtime = Linux" "nr_lib nat_runtime = sample_native_lib"
  "nc_profile_path (nr_config nat_runtime) = ''/p''" "nc_profile_sha256 (nr_config nat_runtime) = Sha256Digest []"
  "nc_workspace_root (nr_config nat_runtime) = ''/w''" "nc_policy_identity (nr_config nat_runtime) = nat_policy"
  "oc_deadline nat_context = OperationDeadline 60"
  by (simp_all add: nat_runtime_def nat_context_def)

lemma nat_verify [simp]: "verify_profile nat_runtime k = N_Read ''/p'' (\<lambda>first_read.
    if sha256_file sample_native_lib first_read = Ok []
    then N_Read ''/p'' (\<lambda>second_read. k (verify_compiled_profile Linux sample_native_lib first_read second_read [] ''/w''))
    else k (verify_compiled_profile Linux sample_native_lib first_read None [] ''/w''))"
  by (simp add: verify_profile_def verify_profile_at_def)


definition nat_create :: CreateRequest where
  "nat_create = \<lparr>cr_request_id = nat_id, cr_template = TemplateIdentity ''native://native'',
     cr_policy_document = \<lparr>doc_media_type = ''application/yaml'', doc_bytes = [1]\<rparr>, cr_expected_policy = nat_policy\<rparr>"

definition nat_create_answers :: "nanswer list" where
  "nat_create_answers = answers [NR_Bool False, nat_profile, nat_profile, NR_Metadata (Some (Node_Dir 0)), NR_Bool True,
     NR_Metadata (Some (Node_Dir 0)), NR_Bool True, NR_CreateDir (Ok 0), NR_Bool False]"

lemma nat_sha [simp]: "sha256_bytes sample_native_lib x = []" "policy_sha256 nat_policy = Sha256Digest []"
  by (simp_all add: sha256_bytes_def sample_native_lib_def hex_string_def nat_policy_def)

lemma nat_parent [simp]: "path_parent ''/w'' = Some ''/''"
  by (simp add: path_parent_def rsplit_once_str_def)

lemma nat_create_run:
  "\<exists>evs s'. runs nstep nat_create_answers nat_system (native_create nat_runtime nat_create nat_context) =
     (evs, s', N_Return (Err (PossiblyCreated (CleanupTarget_new nat_id) CF_Provider
        (native_detail ''request-owned workspace permissions could not be set''))))"
  by (simp add: nat_create_answers_def answers_def native_create_def native_preflight_def nat_verified nat_create_def
      create_verified_def ensure_workspace_root_def make_workspace_def nat_workspace guarded_def metadata_admits_def
      create_dir_admits_def nat_fs_def Let_def)


text \<open>
  A native sandbox is reported ready only for the profile that verification accepts, the pinned policy
  it was created for, the handle of its own identifier, and a workspace that is a directory at that moment;
  checking changes nothing.
\<close>

theorem native_ready_attested:
  assumes "reaches nstep s (native_wait_ready R created expected ctx) evs s' p"
  shows "p \<noteq> N_Panic \<and> (\<forall>r. p = N_Return r \<longrightarrow> native_ready_report R created expected evs s' r)"
  using native_wait_ready_ends [of R created expected s ctx] assms by (simp add: concludes_def)

definition nat_created :: CreatedSandbox where
  "nat_created = \<lparr>cs_request_id = nat_id, cs_provider_handle = OpaqueProviderHandle (as_bytes (roid_str nat_id)),
     cs_expected_policy = nat_policy\<rparr>"

definition nat_ready :: ReadySandbox where
  "nat_ready = \<lparr>rs_request_id = nat_id, rs_provider_handle = OpaqueProviderHandle (as_bytes (roid_str nat_id)),
     rs_active_policy = nat_policy\<rparr>"

definition nat_fs_used :: file_system where
  "nat_fs_used = nat_fs(workspace nat_runtime nat_id \<mapsto> Node_Dir OWNER_ONLY)"

definition answers_used :: "nreply list \<Rightarrow> nanswer list" where
  "answers_used replies = map (\<lambda>r. \<lparr>na_fs = nat_fs_used, na_reply = r\<rparr>) replies"

theorem native_ready_attested_witness:
  "\<exists>s'. native_ready_report nat_runtime nat_created nat_policy
      [NV_Read ''/p'' (pc_output sample_calls), NV_Read ''/p'' (pc_output sample_calls)] s' (Ok nat_ready)"
proof -
  obtain s' where run: "runs nstep (answers_used [NR_Bool False, nat_profile, nat_profile, NR_Bool True]) nat_system
     (native_wait_ready nat_runtime nat_created nat_policy nat_context) =
     ([NV_Read ''/p'' (pc_output sample_calls), NV_Read ''/p'' (pc_output sample_calls)], s', N_Return (Ok nat_ready))"
    by (simp add: answers_used_def native_wait_ready_def native_preflight_def nat_verified nat_created_def nat_ready_def
        guarded_def is_dir_admits_def nat_fs_used_def contract_defs Let_def)
  from native_ready_attested [OF runs_reaches [OF run]] show ?thesis
    by auto
qed

text \<open>
  C29. Executing in a native sandbox never panics on a valid request. NotDispatched is reported exactly when
  no process was spawned; the counts of a failure and the limit it names are those of the readers. A
  completion carries what the readers kept, none of them having overflowed, with the code and the timeout
  of the wait, and the process was killed unless it had exited; a stream whose reader was not lost is
  returned whole, and the evidence is the proxy's verdicts on the requests it got.
\<close>

theorem native_exec_truthful:
  assumes "valid_ExecRequest q" and "reaches nstep s (native_exec R ready q ctx) evs s' p"
  shows "p \<noteq> N_Panic \<and> (\<forall>r. p = N_Return r \<longrightarrow>
      native_exec_report (ReadySandbox_cleanup_target ready) (er_output_limits q) evs r)"
proof -
  have "argv_slice (er_argv q) \<noteq> []"
    using assms(1) by (simp add: valid_ExecRequest_def valid_Argv_def)
  from native_exec_ends [OF this, of ready s R ctx] assms(2) show ?thesis
    by (simp add: concludes_def)
qed

definition nat_exec :: ExecRequest where
  "nat_exec = \<lparr>er_argv = Argv [''id''], er_timeout = CommandTimeout 5, er_output_limits = sample_output_limits\<rparr>"

lemma nat_deny: "compiled_network_access Linux sample_native_lib (pc_output sample_calls) = Ok NA_Deny"
  by (simp add: compiled_network_access_def sample_calls_def sample_native_lib_def sample_bwrap_def Let_def)

text \<open>The command writes two bytes and then more than its limit: it is killed, and the report says so.\<close>

definition nat_exec_answers :: "nanswer list" where
  "nat_exec_answers = answers_used ([NR_Bool False, nat_profile, nat_profile, NR_Bool True, nat_profile]
     @ replicate 6 (NR_Bool False)
     @ [NR_Spawn (Some (Some 7)),
        NR_Select [RS_Add True [1, 2], RS_Decide True, RS_Add True [3, 4, 5, 6], RS_Decide True]
          \<lparr>rdy_cancelled = False, rdy_deadline = False, rdy_command_timeout = False, rdy_overflow = True, rdy_status = None\<rparr>,
        NR_Done, NR_Join [] False False])"

lemma nat_readers:
  "\<exists>S. reader_steps [RS_Add True [1, 2], RS_Decide True, RS_Add True [3, 4, 5, 6], RS_Decide True]
     (readers_new sample_output_limits) = Some S
   \<and> rs_channel S = [LimitStdout] \<and> rt_pending (rs_stdout S) = None \<and> rt_pending (rs_stderr S) = None
   \<and> rr_overflow (rt_result (rs_stdout S)) = Some LimitStdout \<and> reader_counts S = \<lparr>obc_stdout = 6, obc_stderr = 0\<rparr>"
  by (simp add: sample_output_limits_def readers_new_def read_task_new_def
        ReadResult_default_def reader_step_def read_add_def read_decide_def chunk_overflow_def Let_def
        u64_of_len_def saturating_add_u64_def reader_counts_def contract_defs)

definition nat_overflow :: ExecFailure where
  "nat_overflow = \<lparr>ef_cleanup_target = \<lparr>target_request_id = nat_id\<rparr>, ef_dispatch_state = PossiblyDispatched,
     ef_timeout_state = FT_Unknown, ef_code = EF_OutputLimitExceeded,
     ef_counts = \<lparr>obc_stdout = 6, obc_stderr = 0\<rparr>, ef_output_limit = Some LimitStdout,
     ef_detail = native_detail ''native sandbox output limit exceeded''\<rparr>"

lemma nat_exec_run:
  "\<exists>evs s'. runs nstep nat_exec_answers nat_system (native_exec nat_runtime nat_ready nat_exec nat_context) =
     (evs, s', N_Return (Err nat_overflow))"
proof -
  obtain S where S: "reader_steps [RS_Add True [1, 2], RS_Decide True, RS_Add True [3, 4, 5, 6], RS_Decide True]
     (readers_new sample_output_limits) = Some S"
    "rs_channel S = [LimitStdout]" "rt_pending (rs_stdout S) = None" "rt_pending (rs_stderr S) = None"
    "rr_overflow (rt_result (rs_stdout S)) = Some LimitStdout" "reader_counts S = \<lparr>obc_stdout = 6, obc_stderr = 0\<rparr>"
    using nat_readers by blast
  note [simp del] = reader_steps.simps(2)
  show ?thesis
    by (simp add: nat_exec_answers_def answers_used_def native_exec_def native_preflight_def nat_verified exec_verified_def
        nat_ready_def guarded_def is_dir_admits_def nat_fs_used_def nat_deny proxy_start_def exec_proxied_def
        native_command_def READ_ONLY_PATHS_def exists_admits_def nat_exec_def run_command_def observe_command_def
        select_outcome_def S kill_unless_exited_def joined_def collect_violation_def monitor_collect_def proxy_finish_def
        exec_result_def detected_overflow_def native_fail_expect_def nat_overflow_def Let_def contract_defs
        ExecFailure_validated_def numeral_eq_Suc)
qed

theorem native_exec_truthful_witness:
  "\<exists>evs. native_exec_report (ReadySandbox_cleanup_target nat_ready) sample_output_limits evs (Err nat_overflow) \<and> spawned evs"
proof -
  obtain evs s' where "runs nstep nat_exec_answers nat_system (native_exec nat_runtime nat_ready nat_exec nat_context) =
      (evs, s', N_Return (Err nat_overflow))"
    using nat_exec_run by blast
  note run = runs_reaches [OF this]
  have "valid_ExecRequest nat_exec"
    by (simp add: nat_exec_def sample_output_limits_def valid_ExecRequest_def valid_Argv_def valid_CommandTimeout_def
        valid_OutputLimits_def CommandTimeout_MIN_SECONDS_def CommandTimeout_MAX_SECONDS_def)
  from native_exec_truthful [OF this run]
  have "native_exec_report (ReadySandbox_cleanup_target nat_ready) sample_output_limits evs (Err nat_overflow)"
    by (simp add: nat_exec_def)
  moreover from this have "spawned evs"
    by (simp add: native_exec_report_def nat_overflow_def)
  ultimately show ?thesis
    by blast
qed

text \<open>
  C31. Deleting removes the request's own workspace and nothing of another request's, whatever the other
  processes do: Deleted means that nothing is left of it at that moment, AlreadyAbsent that it did not
  exist. Waiting for the deletion reports a remaining workspace truthfully, and reports absence only when
  the system said that the workspace does not exist.
\<close>

theorem native_cleanup_truthful:
  assumes "valid_RequestOwnedId (target_request_id target)"
  shows "(reaches nstep s (native_delete R target ctx) evs s' p \<longrightarrow>
      p \<noteq> N_Panic \<and> (\<forall>r. p = N_Return r \<longrightarrow> native_delete_report R target evs s' r))
    \<and> (reaches nstep s (native_wait_deleted R target ctx) evs s' p' \<longrightarrow>
      p' \<noteq> N_Panic \<and> (\<forall>r. p' = N_Return r \<longrightarrow> native_absence_report R target evs s' r))"
  using native_delete_ends [OF assms, of R s ctx] native_wait_deleted_ends [of R target s ctx]
  by (simp add: concludes_def)

lemma nat_fs_used_workspace: "nat_fs_used (workspace nat_runtime nat_id) = Some (Node_Dir OWNER_ONLY)"
  by (simp add: nat_fs_used_def)

text \<open>
  The answer of \<open>exists\<close> is also negative when the metadata cannot be read: a workspace that is present can
  be reported absent.
\<close>

lemma unreadable_workspace_reported_deleted:
  "\<exists>s'. reaches nstep nat_system (native_wait_deleted nat_runtime (CleanupTarget_new nat_id) nat_context)
      [NV_Exists (workspace nat_runtime nat_id) False] s' (N_Return (Ok ()))
    \<and> sys_fs s' (workspace nat_runtime nat_id) \<noteq> None"
proof -
  have "runs nstep (answers_used [NR_Bool False, NR_Bool False]) nat_system
      (native_wait_deleted nat_runtime (CleanupTarget_new nat_id) nat_context) =
    ([NV_Exists (workspace nat_runtime nat_id) False], nat_system\<lparr>sys_fs := nat_fs_used\<rparr>, N_Return (Ok ()))"
    by (simp add: answers_used_def native_wait_deleted_def native_preflight_def guarded_def exists_admits_def contract_defs)
  from runs_reaches [OF this] show ?thesis
    by (intro exI [of _ "nat_system\<lparr>sys_fs := nat_fs_used\<rparr>"]) (auto simp: nat_fs_used_def)
qed

theorem native_cleanup_truthful_witness:
  "\<exists>evs s'. reaches nstep nat_system (native_delete nat_runtime (CleanupTarget_new nat_id) nat_context) evs s'
      (N_Return (Ok Deleted)) \<and> sys_fs s' (workspace nat_runtime nat_id) = None"
proof -
  let ?ws = "workspace nat_runtime nat_id"
  let ?after = "\<lambda>p. if below ?ws p then None else nat_fs_used p"
  have "runs nstep (answers_used [NR_Bool False, NR_RemoveDirAll (Ok ()) ?after]) nat_system
      (native_delete nat_runtime (CleanupTarget_new nat_id) nat_context) =
    ([NV_RemoveDirAll nat_fs_used ?ws (Ok ())], nat_system\<lparr>sys_fs := ?after\<rparr>, N_Return (Ok Deleted))"
    by (simp add: answers_used_def native_delete_def native_preflight_def remove_admits_def contract_defs
        guarded_def nat_fs_used_workspace)
  note run = runs_reaches [OF this]
  have valid: "valid_RequestOwnedId (target_request_id (CleanupTarget_new nat_id))"
    by (simp add: contract_defs nat_id_valid)
  have "native_delete_report nat_runtime (CleanupTarget_new nat_id) [NV_RemoveDirAll nat_fs_used ?ws (Ok ())]
      (nat_system\<lparr>sys_fs := ?after\<rparr>) (Ok Deleted)"
    using native_cleanup_truthful [OF valid] run by blast
  then have "sys_fs (nat_system\<lparr>sys_fs := ?after\<rparr>) ?ws = None"
    by (simp add: native_delete_report_def Let_def below_def contract_defs)
  with run show ?thesis
    by blast
qed

end
