(* ===== verification/Native_Confinement.thy ===== *)
theory Native_Confinement
  imports Native_Props
begin

text \<open>
  The command a native execution spawns: whatever the caller's arguments and the answers of the system are,
  it is the sandbox runner of the platform, confined as the pinned profile says.
\<close>

section \<open>Commands a program may spawn\<close>

text \<open>\<open>C\<close> holds of every command that the program may spawn, after the events before it.\<close>

primrec spawning :: "'r nprog \<Rightarrow> (nevent list \<Rightarrow> Command \<Rightarrow> OutputLimits \<Rightarrow> bool) \<Rightarrow> bool" where
  "spawning (N_Return r) C = True"
| "spawning N_Panic C = True"
| "spawning (N_Cancelled k) C = (\<forall>b. spawning (k b) C)"
| "spawning (N_Read path k) C = (\<forall>r. spawning (k r) (\<lambda>evs. C (NV_Read path r # evs)))"
| "spawning (N_SymlinkMetadata path k) C = (\<forall>m. spawning (k m) C)"
| "spawning (N_CreateDir path k) C = (\<forall>r. spawning (k r) (\<lambda>evs. C (NV_CreateDir path r # evs)))"
| "spawning (N_SetPermissions path mode k) C = (\<forall>b. spawning (k b) (\<lambda>evs. C (NV_SetPermissions path mode b # evs)))"
| "spawning (N_IsDir path k) C = (\<forall>b. spawning (k b) C)"
| "spawning (N_Exists path k) C = (\<forall>b. spawning (k b) (\<lambda>evs. C (NV_Exists path b # evs)))"
| "spawning (N_RemoveDirAll path k) C = (\<forall>fs r. spawning (k r) (\<lambda>evs. C (NV_RemoveDirAll fs path r # evs)))"
| "spawning (N_ProxyStart endpoints k) C = (\<forall>port. spawning (k port) (\<lambda>evs. C (NV_ProxyStart endpoints port # evs)))"
| "spawning (N_ProxyFinish k) C = (\<forall>headers decisions. spawning (k decisions) (\<lambda>evs. C (NV_ProxyFinish headers # evs)))"
| "spawning (N_Spawn command limits k) C =
     (C [] command limits \<and> (\<forall>r. spawning (k r) (\<lambda>evs. C (NV_Spawn command limits r # evs))))"
| "spawning (N_Select k) C = (\<forall>steps o'. spawning (k o') (\<lambda>evs. C (NV_Select steps o' # evs)))"
| "spawning (N_Kill p) C = spawning p (\<lambda>evs. C (NV_Kill # evs))"
| "spawning (N_Join k) C = (\<forall>steps lo le x. spawning (k x) (\<lambda>evs. C (NV_Join steps lo le # evs)))"
| "spawning (N_LogShow process_id seconds k) C = (\<forall>body. spawning (k body) (\<lambda>evs. C (NV_LogShow process_id body # evs)))"

lemma spawning_step:
  "nstep p a s = Some (ev, s1, p1) \<Longrightarrow> spawning p C \<Longrightarrow> spawning p1 (\<lambda>evs. C (ev @ evs))"
  by (cases p) (auto simp: Let_def bind_eq_Some_conv split: nreply.splits)

lemma spawning_reached:
  "reaches nstep s p evs s' p' \<Longrightarrow> spawning p C \<Longrightarrow> p' = N_Spawn command limits k \<Longrightarrow> C evs command limits"
proof (induction arbitrary: C rule: reaches.induct)
  case (reaches_step p a s ev s1 p1 evs s2 p2)
  from reaches_step.IH [OF spawning_step [OF reaches_step.hyps(1) reaches_step.prems(1)] reaches_step.prems(2)] show ?case
    by simp
qed simp

section \<open>Confinement\<close>

text \<open>
  The arguments before the first \<open>--\<close> are the runner's, all after it are the caller's. On Linux every
  namespace is unshared, the network only shared with a proxy in front, and the workspace is the one
  directory of the host that is bound writable.
\<close>

definition confined_command ::
  "'x NativeRuntime \<Rightarrow> RequestOwnedId \<Rightarrow> string list \<Rightarrow> u16 option \<Rightarrow> Command \<Rightarrow> bool" where
  "confined_command R i argv proxy command \<longleftrightarrow>
     cmd_env_clear command
     \<and> cmd_env command = (case proxy of None \<Rightarrow> []
         | Some port \<Rightarrow> map (\<lambda>name. (name, proxy_url port)) PROXY_VARIABLES @ [(''NO_PROXY'', []), (''no_proxy'', [])])
     \<and> cmd_stdin command = Stdio_Null \<and> cmd_stdout command = Stdio_Piped \<and> cmd_stderr command = Stdio_Piped
     \<and> (\<exists>options. cmd_args command = options @ ''--'' # argv \<and> ''--'' \<notin> set options
        \<and> (case nr_platform R of
             MacOS \<Rightarrow> cmd_program command = ''/usr/bin/sandbox-exec'' \<and> cmd_current_dir command = Some (workspace R i)
               \<and> sublist [''-f'', nc_profile_path (nr_config R)] options
               \<and> sublist [''-D'', ''WORKSPACE='' @ workspace R i] options
           | Linux \<Rightarrow> cmd_program command = ''bwrap''
               \<and> {''--die-with-parent'', ''--new-session'', ''--unshare-all''} \<subseteq> set options
               \<and> (''--share-net'' \<in> set options \<longleftrightarrow> proxy \<noteq> None)
               \<and> count_list options ''--bind'' = 1
               \<and> sublist [''--bind'', workspace R i, ''/sandbox'', ''--chdir'', ''/sandbox''] options
           | OtherPlatform \<Rightarrow> False))"

definition network_enforced :: "'x NativeRuntime \<Rightarrow> nevent list \<Rightarrow> u16 option \<Rightarrow> bool" where
  "network_enforced R evs proxy \<longleftrightarrow>
     (\<exists>profile. NV_Read (nc_profile_path (nr_config R)) profile \<in> set evs
        \<and> (case proxy of
             None \<Rightarrow> compiled_network_access (nr_platform R) (nr_lib R) profile = Ok NA_Deny
           | Some port \<Rightarrow> \<exists>endpoints.
               compiled_network_access (nr_platform R) (nr_lib R) profile = Ok (NA_Allowlist endpoints)
               \<and> NV_ProxyStart endpoints (Some port) \<in> set evs))"

lemma network_enforcedI:
  "NV_Read (nc_profile_path (nr_config R)) profile \<in> set evs \<Longrightarrow>
   compiled_network_access (nr_platform R) (nr_lib R) profile = Ok NA_Deny \<Longrightarrow> network_enforced R evs None"
  "NV_Read (nc_profile_path (nr_config R)) profile \<in> set evs \<Longrightarrow>
   compiled_network_access (nr_platform R) (nr_lib R) profile = Ok (NA_Allowlist endpoints) \<Longrightarrow>
   NV_ProxyStart endpoints (Some port) \<in> set evs \<Longrightarrow> network_enforced R evs (Some port)"
  by (auto simp: network_enforced_def)

lemma absolute_not_option: "is_absolute p \<Longrightarrow> p \<noteq> CHR ''-'' # x"
  by (auto simp: is_absolute_def starts_with_def)

lemma workspace_absolute:
  "is_absolute (nc_workspace_root (nr_config R)) \<Longrightarrow> valid_RequestOwnedId i \<Longrightarrow> is_absolute (workspace R i)"
  by (cases "nc_workspace_root (nr_config R)") (auto simp: workspace_eq Let_def is_absolute_def starts_with_def split: if_splits)

lemma macos_confined:
  assumes "nr_platform R = MacOS" and "is_absolute (nc_profile_path (nr_config R))"
  shows "confined_command R i argv proxy (piped (macos_command (nr_config R) (workspace R i) argv proxy))"
proof -
  let ?options = "[''-D'', ''WORKSPACE_ROOT='' @ nc_workspace_root (nr_config R), ''-D'', ''WORKSPACE='' @ workspace R i]
    @ (case proxy of None \<Rightarrow> [] | Some port \<Rightarrow> [''-D'', ''PROXY_ENDPOINT=localhost:'' @ show_u16 port])
    @ [''-f'', nc_profile_path (nr_config R)]"
  have "''--'' \<notin> set ?options"
    using absolute_not_option [OF assms(2), of "''-''"] by (auto split: option.splits)
  moreover have "sublist [''-f'', nc_profile_path (nr_config R)] ?options"
    by (simp only: sublist_append_leftI append.assoc [symmetric])
  moreover have "sublist [''-D'', ''WORKSPACE='' @ workspace R i] ?options"
    unfolding sublist_def
    by (rule exI [of _ "[''-D'', ''WORKSPACE_ROOT='' @ nc_workspace_root (nr_config R)]"]) auto
  ultimately show ?thesis
    unfolding confined_command_def using assms(1)
    by (auto simp: macos_command_def piped_def Let_def command_args_def Command_new_def set_proxy_environment_def
        split: option.splits intro!: exI [of _ ?options])
qed

definition ro_bind :: "string \<Rightarrow> string list" where
  "ro_bind path = [''--ro-bind'', path, path]"

definition binds_of :: "string list \<Rightarrow> bool" where
  "binds_of binds \<longleftrightarrow> (\<exists>paths. subseq paths READ_ONLY_PATHS \<and> binds = concat (map ro_bind paths))"

lemma binds_of_words: "binds_of binds \<Longrightarrow> x \<in> set binds \<Longrightarrow> x = ''--ro-bind'' \<or> x \<in> set READ_ONLY_PATHS"
  by (auto simp: binds_of_def ro_bind_def [abs_def] split: if_splits elim: list_emb_set)

lemma linux_confined:
  assumes "nr_platform R = Linux" and "is_absolute (nc_workspace_root (nr_config R))" and "valid_RequestOwnedId i"
    and "binds_of binds"
  shows "confined_command R i argv proxy (piped (linux_command (workspace R i) argv proxy binds))"
proof -
  let ?net = "if proxy \<noteq> None then [''--share-net''] else []"
  let ?head = "[''--die-with-parent'', ''--new-session'', ''--unshare-all''] @ ?net
    @ [''--proc'', ''/proc'', ''--dev'', ''/dev''] @ binds"
  let ?tail = "[''--bind'', workspace R i, ''/sandbox'', ''--chdir'', ''/sandbox'']"
  let ?options = "?head @ ?tail"
  have ws: "workspace R i \<noteq> CHR ''-'' # x" "CHR ''-'' # x \<noteq> workspace R i" for x
    using absolute_not_option [OF workspace_absolute [OF assms(2,3)], of x] by auto
  have words: "x \<notin> set binds" if "x \<noteq> ''--ro-bind''" "x \<notin> set READ_ONLY_PATHS" for x
    using binds_of_words [OF assms(4)] that by blast
  have "''--'' \<notin> set ?options"
    using words [of "''--''"] ws by (auto simp: READ_ONLY_PATHS_def)
  moreover have "''--share-net'' \<in> set ?options \<longleftrightarrow> proxy \<noteq> None"
    using words [of "''--share-net''"] ws by (auto simp: READ_ONLY_PATHS_def)
  moreover have "count_list ?options ''--bind'' = 1"
    using words [of "''--bind''"] ws by (auto simp: READ_ONLY_PATHS_def count_list_0_iff)
  moreover have "sublist ?tail ?options"
    by (rule sublist_append_leftI)
  moreover have "{''--die-with-parent'', ''--new-session'', ''--unshare-all''} \<subseteq> set ?options"
    by simp
  moreover have "cmd_args (piped (linux_command (workspace R i) argv proxy binds)) = ?options @ ''--'' # argv"
    by (cases proxy) (simp_all add: linux_command_def piped_def Let_def command_args_def Command_new_def
        set_proxy_environment_def)
  ultimately have "\<exists>options. cmd_args (piped (linux_command (workspace R i) argv proxy binds)) = options @ ''--'' # argv
      \<and> ''--'' \<notin> set options \<and> {''--die-with-parent'', ''--new-session'', ''--unshare-all''} \<subseteq> set options
      \<and> (''--share-net'' \<in> set options \<longleftrightarrow> proxy \<noteq> None) \<and> count_list options ''--bind'' = 1
      \<and> sublist ?tail options"
    by blast
  then show ?thesis
    unfolding confined_command_def assms(1) Platform.case
    by (cases proxy) (simp_all add: linux_command_def piped_def Let_def command_args_def Command_new_def
        set_proxy_environment_def)
qed

section \<open>Execution\<close>

definition exec_confined :: "'x NativeRuntime \<Rightarrow> ReadySandbox \<Rightarrow> ExecRequest \<Rightarrow> nevent list \<Rightarrow> Command \<Rightarrow> OutputLimits \<Rightarrow> bool" where
  "exec_confined R ready q evs command limits \<longleftrightarrow>
     profile_checked R evs \<and> rs_active_policy ready = nc_policy_identity (nr_config R)
     \<and> limits = er_output_limits q
     \<and> (\<exists>proxy. confined_command R (rs_request_id ready) (argv_slice (er_argv q)) proxy command
          \<and> network_enforced R evs proxy)"

lemma spawning_fail [simp]: "spawning (native_fail_expect x) C"
  by (simp add: native_fail_expect_def split: sum.split)

lemma spawning_refuse [simp]: "spawning (refuse_exec target code message) C"
  by (simp add: refuse_exec_def)

lemma spawning_result [simp]: "spawning (exec_result target o' out err counts evidence) C"
  by (auto simp: exec_result_def Let_def observation_failure_def split: option.splits WaitOutcome.splits sum.splits)

lemma spawning_finish: "(\<And>d C. spawning (k d) C) \<Longrightarrow> spawning (proxy_finish proxy k) C"
  by (simp add: proxy_finish_def split: option.split)

lemma spawning_collect: "(\<And>v C. spawning (k v) C) \<Longrightarrow> spawning (collect_violation R q process_id k) C"
  by (simp add: collect_violation_def monitor_collect_def split: option.split)

lemma spawning_observe [simp]: "spawning (observe_command R target q proxy process_id) C"
  by (auto simp: observe_command_def kill_unless_exited_def intro!: spawning_collect spawning_finish split: WaitOutcome.split)

lemma spawning_run [simp]: "spawning (run_command R target q proxy command) C \<longleftrightarrow> C [] (piped command) (er_output_limits q)"
  by (auto simp: run_command_def intro!: spawning_finish split: option.split)

lemma spawning_binds:
  assumes "\<And>evs present. subseq present paths \<Longrightarrow> spawning (k (concat (map ro_bind present))) (\<lambda>e. C (evs @ e))"
  shows "spawning (read_only_binds paths k) C"
  using assms
proof (induction paths arbitrary: k C)
  case Nil
  from Nil [of "[]" "[]"] show ?case
    by simp
next
  case (Cons path paths)
  have "spawning (read_only_binds paths (\<lambda>binds. k ((if b then [''--ro-bind'', path, path] else []) @ binds)))
      (\<lambda>evs. C (NV_Exists path b # evs))" for b
  proof (rule Cons.IH)
    fix evs present
    assume sub: "subseq present paths"
    show "spawning (k ((if b then [''--ro-bind'', path, path] else []) @ concat (map ro_bind present)))
        (\<lambda>e. C (NV_Exists path b # evs @ e))"
      using Cons.prems [of "path # present" "NV_Exists path b # evs"] Cons.prems [of present "NV_Exists path b # evs"] sub
      by (cases b) (simp_all add: ro_bind_def [abs_def] list_emb_Cons)
  qed
  then show ?case
    by simp
qed

lemma spawning_command:
  assumes "is_absolute (nc_workspace_root (nr_config R))" and "is_absolute (nc_profile_path (nr_config R))"
    and "valid_RequestOwnedId (rs_request_id ready)"
    and "\<And>evs command. confined_command R (rs_request_id ready) (argv_slice (er_argv q)) proxy (piped command) \<Longrightarrow>
      C evs (piped command) (er_output_limits q)"
  shows "spawning (exec_proxied R ready q (Some proxy)) C"
proof -
  have linux: "confined_command R (rs_request_id ready) argv proxy
      (piped (linux_command (workspace R (rs_request_id ready)) argv proxy (concat (map ro_bind present))))"
    if "nr_platform R = Linux" "subseq present READ_ONLY_PATHS" for argv proxy present
    using linux_confined [OF that(1) assms(1,3)] that(2) by (auto simp: binds_of_def)
  have "spawning (native_command R (workspace R (rs_request_id ready)) q proxy (\<lambda>built. case built of
         Inl _ \<Rightarrow> refuse_exec (ReadySandbox_cleanup_target ready) EF_Provider ''native sandbox runner is unavailable''
       | Inr command \<Rightarrow> run_command R (ReadySandbox_cleanup_target ready) q proxy command)) C"
    unfolding native_command_def Let_def
    using assms(4) macos_confined [OF _ assms(2)] linux
    by (auto intro!: spawning_binds split: Platform.split)
  then show ?thesis
    by (simp add: exec_proxied_def Let_def)
qed

lemma spawning_exec:
  assumes "is_absolute (nc_workspace_root (nr_config R))" and "is_absolute (nc_profile_path (nr_config R))"
    and "valid_RequestOwnedId (rs_request_id ready)"
  shows "spawning (native_exec R ready q ctx) (exec_confined R ready q)"
proof -
  let ?path = "nc_profile_path (nr_config R)"
  have proxied: "spawning (proxy_start network (exec_proxied R ready q))
      (\<lambda>evs. exec_confined R ready q (NV_Read ?path r1 # NV_Read ?path r2 # NV_Read ?path profile # evs))"
    if "verify_compiled_profile (nr_platform R) (nr_lib R) r1 r2
        (sha_str (nc_profile_sha256 (nr_config R))) (nc_workspace_root (nr_config R)) = Ok ()"
      and "rs_active_policy ready = nc_policy_identity (nr_config R)"
      and "compiled_network_access (nr_platform R) (nr_lib R) profile = Ok network"
    for network r1 r2 profile
  proof (cases network)
    case NA_Deny
    with that show ?thesis
      by (auto simp: proxy_start_def exec_confined_def profile_checked_def
          intro!: spawning_command [OF assms] exI [of _ "None :: u16 option"] network_enforcedI(1) [of R profile])
  next
    case (NA_Allowlist endpoints)
    have "spawning (exec_proxied R ready q None) C" for C
      by (simp add: exec_proxied_def)
    moreover have "spawning (exec_proxied R ready q (Some (Some port)))
        (\<lambda>evs. exec_confined R ready q (NV_Read ?path r1 # NV_Read ?path r2 # NV_Read ?path profile
          # NV_ProxyStart endpoints (Some port) # evs))" for port
      using that NA_Allowlist
      by (auto simp: exec_confined_def profile_checked_def
          intro!: spawning_command [OF assms] exI [of _ "Some port"] network_enforcedI(2) [of R profile _ endpoints])
    ultimately show ?thesis
      using NA_Allowlist by (auto simp: proxy_start_def split: option.split)
  qed
  then show ?thesis
    by (auto simp: native_exec_def native_preflight_def verify_profile_def verify_profile_at_def exec_verified_def Let_def
        is_ok_iff split: sum.splits dest: verify_first_read)
qed

text \<open>
  C30. Whatever a caller's command and the system's answers are, a process is spawned only after the profile
  was verified, for a sandbox of the pinned policy, and it is the platform's sandbox runner with a cleared
  environment: the caller's arguments all follow the first \<open>--\<close>, so that none of them is an option; on Linux
  all namespaces are unshared and the request's workspace is the only writable directory of the host. The
  network is shared only when the policy that was read has endpoints, with the proxy for them running and
  named in the environment.
\<close>

theorem native_command_confined:
  assumes "is_absolute (nc_workspace_root (nr_config R))" and "is_absolute (nc_profile_path (nr_config R))"
    and "valid_RequestOwnedId (rs_request_id ready)"
    and "reaches nstep s (native_exec R ready q ctx) evs s' (N_Spawn command limits k)"
  shows "exec_confined R ready q evs command limits"
  using spawning_reached [OF assms(4) spawning_exec [OF assms(1-3)] refl] .

definition nat_injection :: ExecRequest where
  "nat_injection = \<lparr>er_argv = Argv [''--share-net'', ''--'', ''sh''], er_timeout = CommandTimeout 5,
     er_output_limits = sample_output_limits\<rparr>"

lemma nat_spawn_run:
  "\<exists>evs s' command k. runs nstep (take 11 nat_exec_answers) nat_system
     (native_exec nat_runtime nat_ready nat_injection nat_context) = (evs, s', N_Spawn command sample_output_limits k)"
  by (simp add: nat_exec_answers_def answers_used_def native_exec_def native_preflight_def nat_verified exec_verified_def
      nat_ready_def guarded_def is_dir_admits_def nat_fs_used_def nat_deny proxy_start_def exec_proxied_def
      native_command_def READ_ONLY_PATHS_def exists_admits_def nat_injection_def run_command_def Let_def
      numeral_eq_Suc)

theorem native_command_confined_witness:
  "\<exists>evs command options. exec_confined nat_runtime nat_ready nat_injection evs command sample_output_limits
    \<and> cmd_args command = options @ [''--'', ''--share-net'', ''--'', ''sh''] \<and> ''--'' \<notin> set options"
proof -
  obtain evs s' command k where "runs nstep (take 11 nat_exec_answers) nat_system
     (native_exec nat_runtime nat_ready nat_injection nat_context) = (evs, s', N_Spawn command sample_output_limits k)"
    using nat_spawn_run by blast
  note run = runs_reaches [OF this]
  have confined: "exec_confined nat_runtime nat_ready nat_injection evs command sample_output_limits"
    by (rule native_command_confined [OF _ _ _ run])
      (simp_all add: is_absolute_def starts_with_def nat_ready_def nat_id_valid)
  then obtain options where "cmd_args command = options @ [''--'', ''--share-net'', ''--'', ''sh'']" "''--'' \<notin> set options"
    unfolding exec_confined_def confined_command_def nat_injection_def by auto
  with confined show ?thesis
    by blast
qed

end
