(* ===== verification/Socket_Address.thy ===== *)
theory Socket_Address
  imports Rust_Format
begin

text \<open>
  \<open>std::net::SocketAddr\<close>: the text form that \<open>str::parse\<close> accepts, read by the parsers of Rust's standard
  library, and the loopback test.
\<close>

datatype IpAddr =
    IPv4 "nat list"
  | IPv6 "nat list"

record SocketAddr =
  sa_ip :: IpAddr
  sa_port :: nat

text \<open>An IPv4 address is four octets, an IPv6 address eight segments.\<close>

fun is_loopback :: "IpAddr \<Rightarrow> bool" where
  "is_loopback (IPv4 octets) \<longleftrightarrow> octets \<noteq> [] \<and> hd octets = 127"
| "is_loopback (IPv6 segments) \<longleftrightarrow> segments = [0, 0, 0, 0, 0, 0, 0, 1]"

section \<open>Parsing\<close>

definition to_digit :: "nat \<Rightarrow> char \<Rightarrow> nat option" where
  "to_digit radix c =
     (let n = (of_char c :: nat);
          d = (if is_ascii_digit c then n - 48
               else if 97 \<le> n \<and> n \<le> 122 then n - 87
               else if 65 \<le> n \<and> n \<le> 90 then n - 55
               else radix)
      in if d < radix then Some d else None)"

definition digits_value :: "nat \<Rightarrow> string \<Rightarrow> nat" where
  "digits_value radix digits = foldl (\<lambda>n c. radix * n + the (to_digit radix c)) 0 digits"

text \<open>\<open>read_number\<close>: at most \<open>max_digits\<close> digits, the value below \<open>bound\<close>.\<close>

definition read_number :: "nat \<Rightarrow> nat option \<Rightarrow> bool \<Rightarrow> nat \<Rightarrow> string \<Rightarrow> (nat \<times> string) option" where
  "read_number radix max_digits allow_zero_prefix bound s =
     (let digits = takeWhile (\<lambda>c. to_digit radix c \<noteq> None) s
      in if digits = [] \<or> (case max_digits of None \<Rightarrow> False | Some m \<Rightarrow> m < length digits)
            \<or> \<not> allow_zero_prefix \<and> hd digits = CHR ''0'' \<and> 1 < length digits
            \<or> bound \<le> digits_value radix digits
         then None
         else Some (digits_value radix digits, drop (length digits) s))"

definition read_char :: "char \<Rightarrow> string \<Rightarrow> string option" where
  "read_char c s = (case s of [] \<Rightarrow> None | x # xs \<Rightarrow> if x = c then Some xs else None)"

text \<open>\<open>read_separator\<close>: the separator comes before every part but the first.\<close>

definition read_separated :: "char \<Rightarrow> nat \<Rightarrow> (string \<Rightarrow> ('a \<times> string) option) \<Rightarrow> string \<Rightarrow> ('a \<times> string) option" where
  "read_separated c i read s = (if 0 < i then Option.bind (read_char c s) read else read s)"

fun read_octets :: "nat \<Rightarrow> nat \<Rightarrow> string \<Rightarrow> (nat list \<times> string) option" where
  "read_octets i 0 s = Some ([], s)"
| "read_octets i (Suc n) s =
     Option.bind (read_separated (CHR ''.'') i (read_number 10 (Some 3) False 256) s) (\<lambda>(octet, s1).
       map_option (\<lambda>(octets, s2). (octet # octets, s2)) (read_octets (Suc i) n s1))"

definition read_ipv4_addr :: "string \<Rightarrow> (nat list \<times> string) option" where
  "read_ipv4_addr s = read_octets 0 4 s"

text \<open>
  The groups of an IPv6 address from position \<open>i\<close> on, whether the last two came from an IPv4 address,
  and the rest; \<open>n\<close> groups are missing.
\<close>

fun read_groups :: "nat \<Rightarrow> nat \<Rightarrow> string \<Rightarrow> nat list \<times> bool \<times> string" where
  "read_groups i 0 s = ([], False, s)"
| "read_groups i (Suc n) s =
     (case (if 0 < n then read_separated (CHR '':'') i read_ipv4_addr s else None) of
        Some (octets, s1) \<Rightarrow>
          ([octets ! 0 * 256 + octets ! 1, octets ! 2 * 256 + octets ! 3], True, s1)
      | None \<Rightarrow>
          (case read_separated (CHR '':'') i (read_number 16 (Some 4) True 65536) s of
             None \<Rightarrow> ([], False, s)
           | Some (segment, s1) \<Rightarrow>
               (case read_groups (Suc i) n s1 of (segments, ipv4, s2) \<Rightarrow> (segment # segments, ipv4, s2))))"

definition read_ipv6_addr :: "string \<Rightarrow> (nat list \<times> string) option" where
  "read_ipv6_addr s =
     (case read_groups 0 8 s of
        (head, head_ipv4, s1) \<Rightarrow>
          if length head = 8 then Some (head, s1)
          else if head_ipv4 then None
          else Option.bind (strip_prefix ''::'' s1) (\<lambda>s2.
            case read_groups 0 (8 - (length head + 1)) s2 of
              (tail, _, s3) \<Rightarrow> Some (head @ replicate (8 - length head - length tail) 0 @ tail, s3)))"

definition read_port :: "string \<Rightarrow> (nat \<times> string) option" where
  "read_port s = Option.bind (read_char (CHR '':'') s) (read_number 10 None True 65536)"

definition read_scope_id :: "string \<Rightarrow> (nat \<times> string) option" where
  "read_scope_id s = Option.bind (read_char (CHR ''%'') s) (read_number 10 None True (2 ^ 32))"

definition read_socket_addr_v4 :: "string \<Rightarrow> (SocketAddr \<times> string) option" where
  "read_socket_addr_v4 s =
     Option.bind (read_ipv4_addr s) (\<lambda>(ip, s1).
       map_option (\<lambda>(port, s2). (\<lparr>sa_ip = IPv4 ip, sa_port = port\<rparr>, s2)) (read_port s1))"

definition read_socket_addr_v6 :: "string \<Rightarrow> (SocketAddr \<times> string) option" where
  "read_socket_addr_v6 s =
     Option.bind (read_char (CHR ''['') s) (\<lambda>s1.
     Option.bind (read_ipv6_addr s1) (\<lambda>(ip, s2).
       let s3 = (case read_scope_id s2 of None \<Rightarrow> s2 | Some (_, rest) \<Rightarrow> rest) in
     Option.bind (read_char (CHR '']'') s3) (\<lambda>s4.
       map_option (\<lambda>(port, s5). (\<lparr>sa_ip = IPv6 ip, sa_port = port\<rparr>, s5)) (read_port s4))))"

definition parse_socket_addr :: "string \<Rightarrow> SocketAddr option" where
  "parse_socket_addr s =
     (case (case read_socket_addr_v4 s of Some r \<Rightarrow> Some r | None \<Rightarrow> read_socket_addr_v6 s) of
        Some (addr, []) \<Rightarrow> Some addr
      | _ \<Rightarrow> None)"

section \<open>Round trip\<close>

definition show_ipv4 :: "nat \<Rightarrow> nat \<Rightarrow> nat \<Rightarrow> nat \<Rightarrow> nat \<Rightarrow> string" where
  "show_ipv4 a b c d port = show_nat a @ ''.'' @ show_nat b @ ''.'' @ show_nat c @ ''.'' @ show_nat d @ '':'' @ show_nat port"

lemma to_digit_10: "to_digit 10 c = (if is_ascii_digit c then Some (digit_value c) else None)"
  by (auto simp: to_digit_def Let_def is_ascii_digit_def digit_value_def)

lemma digits_value_10: "list_all is_ascii_digit s \<Longrightarrow> digits_value 10 s = decimal s"
proof -
  have "list_all is_ascii_digit s \<Longrightarrow> foldl (\<lambda>n c. 10 * n + the (to_digit 10 c)) m s = foldl (\<lambda>n c. 10 * n + digit_value c) m s" for m
    by (induction s arbitrary: m) (simp_all add: to_digit_10)
  then show "list_all is_ascii_digit s \<Longrightarrow> digits_value 10 s = decimal s"
    by (simp add: digits_value_def decimal_def)
qed

lemma show_nat_length: "n < 10 ^ Suc k \<Longrightarrow> length (show_nat n) \<le> Suc k"
proof (induction k arbitrary: n)
  case 0
  then show ?case
    by (simp add: show_nat.simps [of n])
next
  case (Suc k)
  have "n div 10 < 10 ^ Suc k"
    using Suc.prems by (simp add: div_less_iff_less_mult mult.commute)
  from Suc.IH [OF this] show ?case
    by (subst show_nat.simps) simp
qed

lemma show_nat_hd: "hd (show_nat n) = CHR ''0'' \<Longrightarrow> n = 0"
proof (induction n rule: show_nat.induct)
  case (1 n)
  show ?case
  proof (cases "n < 10")
    case True
    then have "of_char (hd (show_nat n)) = 48 + n"
      by (simp add: show_nat.simps [of n])
    with 1(2) show ?thesis
      by simp
  next
    case False
    then have "hd (show_nat (n div 10)) = CHR ''0''"
      using 1(2) show_nat_digits [of "n div 10"] by (simp add: show_nat.simps [of n])
    with 1(1) False have "n div 10 = 0"
      by simp
    with False show ?thesis
      by simp
  qed
qed

lemma read_show_nat:
  assumes "n < bound" and "rest = [] \<or> \<not> is_ascii_digit (hd rest)" and "\<And>m. max_digits = Some m \<Longrightarrow> length (show_nat n) \<le> m"
  shows "read_number 10 max_digits allow bound (show_nat n @ rest) = Some (n, rest)"
proof -
  have digits: "list_all is_ascii_digit (show_nat n)" "show_nat n \<noteq> []" "decimal (show_nat n) = n"
    using show_nat_digits by auto
  have take: "takeWhile (\<lambda>c. to_digit 10 c \<noteq> None) (show_nat n @ rest) = show_nat n"
    using digits(1) assms(2) by (cases rest) (auto simp: to_digit_10 list_all_iff takeWhile_tail)
  have "\<not> (hd (show_nat n) = CHR ''0'' \<and> 1 < length (show_nat n))"
    using show_nat_hd [of n] by (auto simp: show_nat.simps [of 0])
  then show ?thesis
    unfolding read_number_def take Let_def using digits assms(1,3)
    by (force simp: digits_value_10 split: option.splits)
qed

lemma parse_show_ipv4:
  assumes "a < 256" and "b < 256" and "c < 256" and "d < 256" and "port < 65536"
  shows "parse_socket_addr (show_ipv4 a b c d port) = Some \<lparr>sa_ip = IPv4 [a, b, c, d], sa_port = port\<rparr>"
proof -
  have short: "length (show_nat n) \<le> 3" if "n < 256" for n
    using show_nat_length [of n 2] that by simp
  have octet: "read_number 10 (Some 3) False 256 (show_nat n @ CHR ''.'' # rest) = Some (n, CHR ''.'' # rest)"
    "read_number 10 (Some 3) False 256 (show_nat n @ CHR '':'' # rest) = Some (n, CHR '':'' # rest)" if "n < 256" for n rest
    using that short by (auto intro!: read_show_nat simp: is_ascii_digit_def)
  have port: "read_number 10 None True 65536 (show_nat port) = Some (port, [])"
    using read_show_nat [of port 65536 "[]" None True] assms(5) by simp
  have four: "(4 :: nat) = Suc (Suc (Suc (Suc 0)))"
    by simp
  have "read_ipv4_addr (show_ipv4 a b c d port) = Some ([a, b, c, d], CHR '':'' # show_nat port)"
    unfolding read_ipv4_addr_def four show_ipv4_def using assms(1-4)
    by (simp add: octet read_separated_def read_char_def)
  then show ?thesis
    by (simp add: parse_socket_addr_def read_socket_addr_v4_def read_port_def read_char_def port)
qed

end
