(* ===== verification/Tls_Server.thy ===== *)
theory Tls_Server
  imports Boundary_Pool Socket_Address
begin

text \<open>
  The authenticated transport of the service (\<^verbatim>\<open>src/src/service/server.rs\<close>): the checked configuration, a
  connection as a program of the actions at which it waits, and \<open>run\<close>, the accept loop with its
  connections as tasks, its permits and its orderly shutdown. TLS, PEM files and sockets are the
  environment: what a handshake says about the peer's certificates is an answer.
\<close>

section \<open>Configuration\<close>

datatype ServerError =
    Srv_Configuration | Srv_Bind | Srv_Accept | Srv_Tls | Srv_Authentication | Srv_Authorization | Srv_Protocol

type_synonym callers = "(CallerFingerprint, CallerRole) hm"

record TlsServerConfig =
  tsc_bind_address :: SocketAddr
  tsc_certificate_path :: string
  tsc_private_key_path :: string
  tsc_client_ca_path :: string
  tsc_authorized_callers :: callers
  tsc_maximum_connections :: nat
  tsc_drain_timeout :: duration

definition TlsServerConfig_new ::
  "SocketAddr \<Rightarrow> string \<Rightarrow> string \<Rightarrow> string \<Rightarrow> callers \<Rightarrow> nat \<Rightarrow> duration \<Rightarrow> ServerError + TlsServerConfig" where
  "TlsServerConfig_new bind_address certificate_path private_key_path client_ca_path authorized_callers
      maximum_connections drain_timeout =
     (if \<not> is_loopback (sa_ip bind_address) \<or> authorized_callers = [] \<or> maximum_connections = 0 \<or> drain_timeout = 0
      then Err Srv_Configuration
      else if list_ex (\<lambda>path. path = []) [certificate_path, private_key_path, client_ca_path]
      then Err Srv_Configuration
      else Ok \<lparr>tsc_bind_address = bind_address, tsc_certificate_path = certificate_path,
             tsc_private_key_path = private_key_path, tsc_client_ca_path = client_ca_path,
             tsc_authorized_callers = authorized_callers, tsc_maximum_connections = maximum_connections,
             tsc_drain_timeout = drain_timeout\<rparr>)"

text \<open>
  What reading the three PEM files and the TLS library answer: the items of a certificate file, \<open>None\<close>
  one that is malformed; whether a root is taken; whether the verifier and the configuration are built.
\<close>

record tls_calls =
  tc_certificates :: "bytes option list option"
  tc_private_key :: "bytes option"
  tc_client_ca :: "bytes option list option"
  tc_root_add :: "bytes \<Rightarrow> bool"
  tc_verifier :: bool
  tc_versions :: bool
  tc_single_cert :: bool

record tls_identity =
  ti_certificates :: "bytes list"
  ti_private_key :: bytes
  ti_client_roots :: "bytes list"

definition read_certificates :: "bytes option list option \<Rightarrow> ServerError + bytes list" where
  "read_certificates items =
     (case items of
        None \<Rightarrow> Err Srv_Configuration
      | Some certificates \<Rightarrow>
          if \<not> list_all (\<lambda>c. c \<noteq> None) certificates \<or> certificates = [] then Err Srv_Configuration
          else Ok (map the certificates))"

definition read_private_key :: "bytes option \<Rightarrow> ServerError + bytes" where
  "read_private_key key = (case key of None \<Rightarrow> Err Srv_Configuration | Some k \<Rightarrow> Ok k)"

definition read_root_store :: "(bytes \<Rightarrow> bool) \<Rightarrow> bytes option list option \<Rightarrow> ServerError + bytes list" where
  "read_root_store add items =
     (case read_certificates items of
        Inl e \<Rightarrow> Err e
      | Inr certificates \<Rightarrow>
          if list_all add certificates \<and> certificates \<noteq> [] then Ok certificates else Err Srv_Configuration)"

definition load_tls_config :: "tls_calls \<Rightarrow> ServerError + tls_identity" where
  "load_tls_config calls =
     (case read_certificates (tc_certificates calls) of
        Inl e \<Rightarrow> Err e
      | Inr certificates \<Rightarrow>
          (case read_private_key (tc_private_key calls) of
             Inl e \<Rightarrow> Err e
           | Inr key \<Rightarrow>
               (case read_root_store (tc_root_add calls) (tc_client_ca calls) of
                  Inl e \<Rightarrow> Err e
                | Inr roots \<Rightarrow>
                    if \<not> tc_verifier calls \<or> \<not> tc_versions calls \<or> \<not> tc_single_cert calls
                    then Err Srv_Configuration
                    else Ok \<lparr>ti_certificates = certificates, ti_private_key = key, ti_client_roots = roots\<rparr>)))"

text \<open>The server; its boundary is the state of the service that it runs on.\<close>

record SandboxTlsServer =
  sts_listener :: SocketAddr
  sts_acceptor :: tls_identity
  sts_authorized_callers :: callers
  sts_maximum_connections :: nat
  sts_drain_timeout :: duration

definition from_listener :: "TlsServerConfig \<Rightarrow> SocketAddr \<Rightarrow> tls_calls \<Rightarrow> ServerError + SandboxTlsServer" where
  "from_listener config listener calls =
     (case load_tls_config calls of
        Inl e \<Rightarrow> Err e
      | Inr tls \<Rightarrow>
          Ok \<lparr>sts_listener = listener, sts_acceptor = tls, sts_authorized_callers = tsc_authorized_callers config,
            sts_maximum_connections = tsc_maximum_connections config,
            sts_drain_timeout = tsc_drain_timeout config\<rparr>)"

text \<open>\<open>bound\<close>: the address the listener got, if the call succeeded.\<close>

definition server_bind :: "TlsServerConfig \<Rightarrow> SocketAddr option \<Rightarrow> tls_calls \<Rightarrow> ServerError + SandboxTlsServer" where
  "server_bind config bound calls =
     (case bound of None \<Rightarrow> Err Srv_Bind | Some listener \<Rightarrow> from_listener config listener calls)"

definition from_std_listener ::
  "TlsServerConfig \<Rightarrow> SocketAddr option \<Rightarrow> bool \<Rightarrow> bool \<Rightarrow> tls_calls \<Rightarrow> ServerError + SandboxTlsServer" where
  "from_std_listener config local_addr nonblocking from_std calls =
     (case local_addr of
        None \<Rightarrow> Err Srv_Bind
      | Some address \<Rightarrow>
          if \<not> is_loopback (sa_ip address) then Err Srv_Configuration
          else if \<not> nonblocking \<or> \<not> from_std then Err Srv_Bind
          else from_listener config address calls)"

section \<open>A connection\<close>

text \<open>
  \<open>T_Select\<close> is the \<open>select!\<close> between a handler and the next byte of the client, \<open>T_Run\<close> awaits a
  handler alone. \<open>T_Aborted\<close> is a task whose set was dropped.
\<close>

datatype tprog =
    T_Return "ServerError + unit"
  | T_Panic
  | T_Aborted
  | T_Accept "(unit + bytes list option) \<Rightarrow> tprog"
  | T_ReadRequest "FrameError + RequestEnvelope \<Rightarrow> tprog"
  | T_Handle CallerIdentity RequestEnvelope "ResponseEnvelope prog \<Rightarrow> tprog"
  | T_Select "ResponseEnvelope prog" "ResponseEnvelope \<Rightarrow> tprog" "ResponseEnvelope prog \<Rightarrow> tprog"
  | T_Cancel OperationId tprog
  | T_Run "ResponseEnvelope prog" "ResponseEnvelope \<Rightarrow> tprog"
  | T_Write ResponseEnvelope "FrameError + unit \<Rightarrow> tprog"

definition respond :: "ResponseEnvelope \<Rightarrow> tprog" where
  "respond response =
     T_Write response (\<lambda>written. T_Return (case written of Inl _ \<Rightarrow> Err Srv_Protocol | Inr _ \<Rightarrow> Ok ()))"

definition watch_client :: "OperationId \<Rightarrow> ResponseEnvelope prog \<Rightarrow> tprog" where
  "watch_client operation_id handling =
     T_Select handling respond (\<lambda>handling'. T_Cancel operation_id (T_Run handling' respond))"

definition serve_caller :: "CallerIdentity \<Rightarrow> tprog" where
  "serve_caller caller =
     T_ReadRequest (\<lambda>received.
       case received of
         Inl _ \<Rightarrow> T_Return (Err Srv_Protocol)
       | Inr request \<Rightarrow>
           let operation_id = rqe_operation_id request
           in T_Handle caller request (watch_client operation_id))"

definition authenticate :: "(bytes \<Rightarrow> bytes) \<Rightarrow> callers \<Rightarrow> bytes list option \<Rightarrow> ServerError + CallerIdentity" where
  "authenticate sha256 authorized peer_certificates =
     (case peer_certificates of
        None \<Rightarrow> Err Srv_Authentication
      | Some [] \<Rightarrow> Err Srv_Authentication
      | Some (leaf # _) \<Rightarrow>
          (case CallerFingerprint_from_certificate_der sha256 leaf of
             Inl _ \<Rightarrow> Err Srv_Authentication
           | Inr fingerprint \<Rightarrow>
               (case hm_get authorized fingerprint of
                  None \<Rightarrow> Err Srv_Authorization
                | Some role \<Rightarrow> Ok (CallerIdentity_new fingerprint role))))"

definition handle_connection :: "(bytes \<Rightarrow> bytes) \<Rightarrow> callers \<Rightarrow> tprog" where
  "handle_connection sha256 authorized =
     T_Accept (\<lambda>accepted.
       case accepted of
         Inl _ \<Rightarrow> T_Return (Err Srv_Tls)
       | Inr peer_certificates \<Rightarrow>
           (case authenticate sha256 authorized peer_certificates of
              Inl e \<Rightarrow> T_Return (Err e)
            | Inr caller \<Rightarrow> serve_caller caller))"

text \<open>
  The libraries the transport uses. \<open>TA_Received\<close> is what the client sends until the frame is read or
  the stream ends, \<open>TA_Fuel\<close> the bound on the iterations of the handler's waiting loops, \<open>TA_Finished\<close>
  that the awaited handler has returned, \<open>TA_Client\<close> a byte or the end of the stream from the client.
\<close>

record transport_lib =
  tl_sha256 :: "bytes \<Rightarrow> bytes"
  tl_requests :: "RequestEnvelope json_codec"
  tl_responses :: "ResponseEnvelope json_codec"

datatype tanswer =
    TA_Tls "unit + bytes list option"
  | TA_Received bytes
  | TA_Fuel nat
  | TA_Action answer
  | TA_Finished
  | TA_Client
  | TA_Writer writer

datatype tevent =
    TV_Tls "bytes list option"
  | TV_Request RequestEnvelope
  | TV_Handle CallerIdentity RequestEnvelope
  | TV_Boundary event
  | TV_Client
  | TV_Response ResponseEnvelope bytes

definition handler_step ::
  "ResponseEnvelope prog \<Rightarrow> answer \<Rightarrow> service \<Rightarrow> (ResponseEnvelope prog \<Rightarrow> tprog) \<Rightarrow>
   (tevent list \<times> service \<times> tprog) option" where
  "handler_step p a s k = map_option (\<lambda>(ev, s1, p1). (map TV_Boundary ev, s1, k p1)) (step_prog p a s)"

text \<open>A handler that has panicked takes its task with it.\<close>

definition handler_ended ::
  "ResponseEnvelope prog \<Rightarrow> service \<Rightarrow> (ResponseEnvelope \<Rightarrow> tprog) \<Rightarrow> (tevent list \<times> service \<times> tprog) option" where
  "handler_ended p s k =
     (case p of Ret response \<Rightarrow> Some ([], s, k response) | Panic \<Rightarrow> Some ([], s, T_Panic) | _ \<Rightarrow> None)"

fun tstep :: "transport_lib \<Rightarrow> AssetBundleIdentity \<Rightarrow> (tprog, tanswer, service, tevent) stepper" where
  "tstep L B (T_Accept k) (TA_Tls r) s =
     Some (case r of Inl _ \<Rightarrow> [] | Inr certificates \<Rightarrow> [TV_Tls certificates], s, k r)"
| "tstep L B (T_ReadRequest k) (TA_Received sent) s =
     Some (case read_request (tl_requests L) sent of
             Inl e \<Rightarrow> ([], s, k (Err e))
           | Inr (request, _) \<Rightarrow> ([TV_Request request], s, k (Ok request)))"
| "tstep L B (T_Handle caller request k) (TA_Fuel fuel) s =
     Some ([TV_Handle caller request], s, k (handle B fuel caller request))"
| "tstep L B (T_Select p k kc) (TA_Action a) s = handler_step p a s (\<lambda>p1. T_Select p1 k kc)"
| "tstep L B (T_Select p k kc) TA_Finished s = handler_ended p s k"
| "tstep L B (T_Select p k kc) TA_Client s = Some ([TV_Client], s, kc p)"
| "tstep L B (T_Cancel operation_id t) (TA_Action a) s =
     map_option (\<lambda>(ev, s1, p1). (map TV_Boundary ev, s1, t)) (step_prog (cancel_operation operation_id Ret) a s)"
| "tstep L B (T_Run p k) (TA_Action a) s = handler_step p a s (\<lambda>p1. T_Run p1 k)"
| "tstep L B (T_Run p k) TA_Finished s = handler_ended p s k"
| "tstep L B (T_Write response k) (TA_Writer w) s =
     (case write_response (tl_responses L) w response of
        (result, w1) \<Rightarrow> Some ([TV_Response response (w_sent w1)], s, k result))"
| "tstep L B t a s = None"

section \<open>The accept loop\<close>

text \<open>
  \<open>run\<close>: accepting; draining since the given time; past the drain timeout, with the cancellation of all
  operations still to come; waiting for the cancelled operations; returned. \<open>Semaphore::new\<close> panics above
  its maximum.
\<close>

datatype phase =
    PH_Accepting
  | PH_Draining instant
  | PH_TimedOut
  | PH_Cancelled
  | PH_Finished "ServerError + unit"
  | PH_Panicked

record run_state =
  run_service :: service
  run_permits :: nat
  run_tasks :: "tprog list"
  run_phase :: phase
  run_shutdown :: bool
  run_now :: instant

definition MAX_PERMITS :: nat where
  "MAX_PERMITS = (2 ^ 64 - 1) div 8"

definition run_start :: "SandboxTlsServer \<Rightarrow> service \<Rightarrow> instant \<Rightarrow> run_state" where
  "run_start S service now =
     \<lparr>run_service = service, run_permits = sts_maximum_connections S, run_tasks = [],
      run_phase = (if MAX_PERMITS < sts_maximum_connections S then PH_Panicked else PH_Accepting),
      run_shutdown = False, run_now = now\<rparr>"

fun task_ended :: "tprog \<Rightarrow> bool" where
  "task_ended (T_Return _) = True"
| "task_ended T_Panic = True"
| "task_ended T_Aborted = True"
| "task_ended _ = False"

definition live :: "tprog list \<Rightarrow> nat" where
  "live ts = length (filter (\<lambda>t. \<not> task_ended t) ts)"

text \<open>
  What happens next: the shutdown token is cancelled, time passes, a branch of the loop's \<open>select!\<close>
  runs, a task makes an action, the drain timeout expires, the operations are cancelled, the last task
  is joined.
\<close>

datatype server_move =
    MV_Shutdown
  | MV_Tick duration
  | MV_Drain
  | MV_Accept "SocketAddr option"
  | MV_Task nat tanswer
  | MV_Timeout
  | MV_CancelAll
  | MV_Joined

datatype sevent =
    SV_Connect nat SocketAddr
  | SV_Task nat tevent
  | SV_Drain
  | SV_CancelAll

text \<open>\<open>tasks.spawn\<close> with a permit, which the task gives back when it ends.\<close>

definition accept_peer :: "transport_lib \<Rightarrow> SandboxTlsServer \<Rightarrow> SocketAddr \<Rightarrow> run_state \<Rightarrow> sevent list \<times> run_state" where
  "accept_peer L S peer s =
     (if \<not> is_loopback (sa_ip peer) then ([], s)
      else if run_permits s = 0 then ([], s)
      else ([SV_Connect (length (run_tasks s)) peer],
            s\<lparr>run_permits := run_permits s - 1,
              run_tasks := run_tasks s @ [handle_connection (tl_sha256 L) (sts_authorized_callers S)]\<rparr>))"

definition task_result :: "nat \<Rightarrow> run_state \<Rightarrow> tevent list \<times> service \<times> tprog \<Rightarrow> sevent list \<times> run_state" where
  "task_result i s r =
     (case r of (ev, service, t) \<Rightarrow>
        (map (SV_Task i) ev,
         s\<lparr>run_service := service, run_tasks := (run_tasks s)[i := t],
           run_permits := (if task_ended t then Suc (run_permits s) else run_permits s)\<rparr>))"

text \<open>An error of \<open>accept\<close> leaves the loop at once; dropping the task set aborts the tasks.\<close>

definition accept_failed :: "run_state \<Rightarrow> run_state" where
  "accept_failed s =
     s\<lparr>run_tasks := map (\<lambda>t. if task_ended t then t else T_Aborted) (run_tasks s),
       run_permits := run_permits s + live (run_tasks s), run_phase := PH_Finished (Err Srv_Accept)\<rparr>"

fun server_step ::
  "transport_lib \<Rightarrow> SandboxTlsServer \<Rightarrow> server_move \<Rightarrow> run_state \<Rightarrow> (sevent list \<times> run_state) option" where
  "server_step L S MV_Shutdown s = Some ([], s\<lparr>run_shutdown := True\<rparr>)"
| "server_step L S (MV_Tick d) s = Some ([], s\<lparr>run_now := run_now s + d\<rparr>)"
| "server_step L S MV_Drain s =
     (if run_phase s = PH_Accepting \<and> run_shutdown s then
        map_option (\<lambda>(_, service, _).
            ([SV_Drain], s\<lparr>run_service := service, run_phase := PH_Draining (run_now s)\<rparr>))
          (step_prog start_draining A_tick (run_service s))
      else None)"
| "server_step L S (MV_Accept accepted) s =
     (if run_phase s = PH_Accepting then
        Some (case accepted of None \<Rightarrow> ([], accept_failed s) | Some peer \<Rightarrow> accept_peer L S peer s)
      else None)"
| "server_step L S (MV_Task i a) s =
     (if i < length (run_tasks s) then
        map_option (task_result i s) (tstep L (sv_bundle (run_service s)) (run_tasks s ! i) a (run_service s))
      else None)"
| "server_step L S MV_Timeout s =
     (case run_phase s of
        PH_Draining since \<Rightarrow>
          if since + sts_drain_timeout S \<le> run_now s \<and> live (run_tasks s) \<noteq> 0
          then Some ([], s\<lparr>run_phase := PH_TimedOut\<rparr>) else None
      | _ \<Rightarrow> None)"
| "server_step L S MV_CancelAll s =
     (if run_phase s = PH_TimedOut then
        map_option (\<lambda>(_, service, _). ([SV_CancelAll], s\<lparr>run_service := service, run_phase := PH_Cancelled\<rparr>))
          (step_prog cancel_all_operations A_tick (run_service s))
      else None)"
| "server_step L S MV_Joined s =
     (case run_phase s of
        PH_Draining _ \<Rightarrow> if live (run_tasks s) = 0 then Some ([], s\<lparr>run_phase := PH_Finished (Ok ())\<rparr>) else None
      | PH_Cancelled \<Rightarrow> if live (run_tasks s) = 0 then Some ([], s\<lparr>run_phase := PH_Finished (Ok ())\<rparr>) else None
      | _ \<Rightarrow> None)"

fun server_run ::
  "transport_lib \<Rightarrow> SandboxTlsServer \<Rightarrow> server_move list \<Rightarrow> run_state \<Rightarrow> (sevent list \<times> run_state) option" where
  "server_run L S [] s = Some ([], s)"
| "server_run L S (mv # moves) s =
     Option.bind (server_step L S mv s) (\<lambda>(ev, s1).
       map_option (\<lambda>(evs, s2). (ev @ evs, s2)) (server_run L S moves s1))"

text \<open>The states that \<open>run\<close> passes through, with what was observable so far.\<close>

inductive server_reach :: "transport_lib \<Rightarrow> SandboxTlsServer \<Rightarrow> service \<Rightarrow> sevent list \<Rightarrow> run_state \<Rightarrow> bool"
  for L S service where
  server_start: "server_reach L S service [] (run_start S service now)"
| server_next: "server_reach L S service tr s \<Longrightarrow> server_step L S mv s = Some (ev, s1) \<Longrightarrow>
     server_reach L S service (tr @ ev) s1"

end
