(* ===== verification/Server_Props.thy ===== *)
theory Server_Props
  imports Tls_Server "HOL-Library.Multiset"
begin

text \<open>
  What the accept loop keeps: its permits, the evidence behind every request it hands to the boundary,
  the order of its shutdown, and that the service under it evolves as the pool of handlers that
  \<open>Boundary_Pool\<close> reasons about.
\<close>

section \<open>Shapes of a task\<close>

text \<open>The points at which a connection can be; the handler in progress, if it has one.\<close>

definition awaits_request :: "CallerIdentity \<Rightarrow> tprog \<Rightarrow> bool" where
  "awaits_request caller t \<longleftrightarrow> t = serve_caller caller"

definition hands_over :: "CallerIdentity \<Rightarrow> RequestEnvelope \<Rightarrow> tprog \<Rightarrow> bool" where
  "hands_over caller request t \<longleftrightarrow> t = T_Handle caller request (watch_client (rqe_operation_id request))"

definition has_request :: "tprog \<Rightarrow> bool" where
  "has_request t \<longleftrightarrow>
     (\<exists>p op. t = watch_client op p) \<or> (\<exists>p op. t = T_Cancel op (T_Run p respond)) \<or> (\<exists>p. t = T_Run p respond)
     \<or> (\<exists>r. t = respond r)"

fun handler_of :: "tprog \<Rightarrow> ResponseEnvelope prog option" where
  "handler_of (T_Select p _ _) = Some p"
| "handler_of (T_Cancel _ t) = handler_of t"
| "handler_of (T_Run p _) = Some p"
| "handler_of _ = None"

lemma task_shapes [simp]:
  "\<not> task_ended (handle_connection sha authorized)" "\<not> task_ended (serve_caller caller)"
  "\<not> task_ended (watch_client op p)" "\<not> task_ended (respond r)"
  "handler_of (handle_connection sha authorized) = None" "handler_of (serve_caller caller) = None"
  "handler_of (watch_client op p) = Some p" "handler_of (respond r) = None"
  by (simp_all add: handle_connection_def serve_caller_def watch_client_def respond_def)

lemma has_request_shapes [simp]:
  "has_request (watch_client op p)" "has_request (T_Cancel op (T_Run p respond))" "has_request (T_Run p respond)"
  "has_request (respond r)"
  by (auto simp: has_request_def)

lemma ended_no_handler: "task_ended t \<Longrightarrow> handler_of t = None"
  by (cases t) simp_all

lemma ended_no_step: "task_ended t \<Longrightarrow> tstep L B t a s = None"
  by (cases t) simp_all

section \<open>Permits\<close>

lemma live_append: "live (ts @ [t]) = live ts + (if task_ended t then 0 else 1)"
  by (simp add: live_def)

lemma live_update:
  "i < length ts \<Longrightarrow> \<not> task_ended (ts ! i) \<Longrightarrow> live (ts[i := t]) + (if task_ended t then 1 else 0) = live ts"
proof (induction ts arbitrary: i)
  case (Cons x ts)
  then show ?case
    by (cases i) (force simp: live_def)+
qed simp

definition permits_kept :: "SandboxTlsServer \<Rightarrow> run_state \<Rightarrow> bool" where
  "permits_kept S s \<longleftrightarrow> run_permits s + live (run_tasks s) = sts_maximum_connections S"

lemma live_aborted: "live (map (\<lambda>t. if task_ended t then t else T_Aborted) ts) = 0"
  by (simp add: live_def filter_empty_conv)

lemma permits_step:
  assumes "permits_kept S s" and "server_step L S mv s = Some (ev, s1)"
  shows "permits_kept S s1"
proof (cases mv)
  case (MV_Task i a)
  with assms(2) obtain ev' service t where i: "i < length (run_tasks s)"
    and step: "tstep L (sv_bundle (run_service s)) (run_tasks s ! i) a (run_service s) = Some (ev', service, t)"
    and s1: "s1 = snd (task_result i s (ev', service, t))"
    by (auto split: if_splits)
  from step have "\<not> task_ended (run_tasks s ! i)"
    using ended_no_step by fastforce
  from live_update [OF i this, of t] assms(1) s1 show ?thesis
    by (auto simp: permits_kept_def task_result_def split: if_splits)
next
  case (MV_Accept accepted)
  with assms show ?thesis
    by (auto simp: permits_kept_def accept_peer_def accept_failed_def live_append live_aborted
        split: if_splits option.splits)
qed (use assms in \<open>auto simp: permits_kept_def split: if_splits phase.splits\<close>)

lemma permits_reach: "server_reach L S service tr s \<Longrightarrow> permits_kept S s"
proof (induction rule: server_reach.induct)
  case (server_start now)
  then show ?case
    by (simp add: permits_kept_def run_start_def live_def)
qed (rule permits_step)

section \<open>Evidence\<close>

definition connected :: "sevent list \<Rightarrow> nat \<Rightarrow> bool" where
  "connected tr i \<longleftrightarrow> (\<exists>peer. SV_Connect i peer \<in> set tr \<and> is_loopback (sa_ip peer))"

definition authenticated :: "transport_lib \<Rightarrow> SandboxTlsServer \<Rightarrow> sevent list \<Rightarrow> nat \<Rightarrow> CallerIdentity \<Rightarrow> bool" where
  "authenticated L S tr i caller \<longleftrightarrow>
     (\<exists>leaf chain. SV_Task i (TV_Tls (Some (leaf # chain))) \<in> set tr
        \<and> CallerFingerprint_from_certificate_der (tl_sha256 L) leaf = Ok (ci_fingerprint caller)
        \<and> hm_get (sts_authorized_callers S) (ci_fingerprint caller) = Some (ci_role caller))"

definition handed_over :: "transport_lib \<Rightarrow> SandboxTlsServer \<Rightarrow> sevent list \<Rightarrow> nat \<Rightarrow> bool" where
  "handed_over L S tr i \<longleftrightarrow>
     (\<exists>caller request. SV_Task i (TV_Handle caller request) \<in> set tr \<and> authenticated L S tr i caller
        \<and> SV_Task i (TV_Request request) \<in> set tr)"

text \<open>What is known of a task, from its point and the trace.\<close>

definition task_evidence :: "transport_lib \<Rightarrow> SandboxTlsServer \<Rightarrow> sevent list \<Rightarrow> nat \<Rightarrow> tprog \<Rightarrow> bool" where
  "task_evidence L S tr i t \<longleftrightarrow> connected tr i \<and>
     (task_ended t \<or> t = handle_connection (tl_sha256 L) (sts_authorized_callers S)
      \<or> (\<exists>caller. awaits_request caller t \<and> authenticated L S tr i caller)
      \<or> (\<exists>caller request. hands_over caller request t \<and> authenticated L S tr i caller
           \<and> SV_Task i (TV_Request request) \<in> set tr)
      \<or> has_request t \<and> handed_over L S tr i)"

lemma evidence_mono:
  "connected tr i \<Longrightarrow> connected (tr @ ev) i"
  "authenticated L S tr i caller \<Longrightarrow> authenticated L S (tr @ ev) i caller"
  "handed_over L S tr i \<Longrightarrow> handed_over L S (tr @ ev) i"
  "task_evidence L S tr i t \<Longrightarrow> task_evidence L S (tr @ ev) i t"
proof -
  show *: "connected tr i \<Longrightarrow> connected (tr @ ev) i"
    "authenticated L S tr i caller \<Longrightarrow> authenticated L S (tr @ ev) i caller" for caller
    by (auto simp: connected_def authenticated_def)
  then show **: "handed_over L S tr i \<Longrightarrow> handed_over L S (tr @ ev) i"
    by (auto simp: handed_over_def)
  from * ** show "task_evidence L S tr i t \<Longrightarrow> task_evidence L S (tr @ ev) i t"
    by (auto simp: task_evidence_def)
qed

lemma evidence_ended: "connected tr i \<Longrightarrow> task_ended t \<Longrightarrow> task_evidence L S tr i t"
  by (simp add: task_evidence_def)

lemma evidence_caller: "connected tr i \<Longrightarrow> authenticated L S tr i caller \<Longrightarrow> task_evidence L S tr i (serve_caller caller)"
  by (auto simp: task_evidence_def awaits_request_def)

lemma evidence_hand_over:
  "connected tr i \<Longrightarrow> authenticated L S tr i caller \<Longrightarrow> SV_Task i (TV_Request request) \<in> set tr \<Longrightarrow>
     task_evidence L S tr i (T_Handle caller request (watch_client (rqe_operation_id request)))"
  unfolding task_evidence_def hands_over_def by blast

lemma evidence_request:
  "connected tr i \<Longrightarrow> handed_over L S tr i \<Longrightarrow> has_request t \<Longrightarrow> task_evidence L S tr i t"
  by (simp add: task_evidence_def)

lemma authenticate_Ok:
  assumes "authenticate sha authorized certificates = Ok caller"
  obtains leaf chain where "certificates = Some (leaf # chain)"
    and "CallerFingerprint_from_certificate_der sha leaf = Ok (ci_fingerprint caller)"
    and "hm_get authorized (ci_fingerprint caller) = Some (ci_role caller)"
  using assms
  by (auto simp: authenticate_def CallerIdentity_new_def split: option.splits list.splits sum.splits)

text \<open>One action of a task, by its point; every action of the boundary belongs to a handler.\<close>

lemma step_connection:
  assumes "tstep L B (handle_connection (tl_sha256 L) (sts_authorized_callers S)) a s = Some (ev, s1, t1)"
    and connected: "connected tr i"
  shows "task_evidence L S (tr @ map (SV_Task i) ev) i t1 \<and> s1 = s \<and> handler_of t1 = None
     \<and> (\<forall>e. TV_Boundary e \<notin> set ev) \<and> (\<forall>c r. TV_Handle c r \<notin> set ev)"
proof -
  from assms(1) obtain r where a: "a = TA_Tls r"
    by (cases a) (simp_all add: handle_connection_def)
  have ended: ?thesis if "task_ended t1" and "s1 = s" and "ev = [] \<or> (\<exists>x. ev = [TV_Tls x])"
    using that evidence_ended [OF evidence_mono(1) [OF connected] that(1)] ended_no_handler by auto
  show ?thesis
  proof (cases r)
    case (Inl e)
    with assms(1) a show ?thesis
      by (intro ended) (auto simp: handle_connection_def)
  next
    case r: (Inr certificates)
    show ?thesis
    proof (cases "authenticate (tl_sha256 L) (sts_authorized_callers S) certificates")
      case (Inl e)
      with assms(1) a r show ?thesis
        by (intro ended) (auto simp: handle_connection_def)
    next
      case (Inr caller)
      with assms(1) a r have step: "s1 = s" "ev = [TV_Tls certificates]" "t1 = serve_caller caller"
        by (simp_all add: handle_connection_def)
      obtain leaf chain where "certificates = Some (leaf # chain)"
        and "CallerFingerprint_from_certificate_der (tl_sha256 L) leaf = Ok (ci_fingerprint caller)"
        and "hm_get (sts_authorized_callers S) (ci_fingerprint caller) = Some (ci_role caller)"
        using authenticate_Ok [OF Inr] by blast
      then have "authenticated L S (tr @ [SV_Task i (TV_Tls certificates)]) i caller"
        unfolding authenticated_def by auto
      from evidence_caller [OF evidence_mono(1) [OF connected] this] step show ?thesis
        by simp
    qed
  qed
qed

lemma step_caller:
  assumes "tstep L B (serve_caller caller) a s = Some (ev, s1, t1)"
    and "connected tr i" and "authenticated L S tr i caller"
  shows "task_evidence L S (tr @ map (SV_Task i) ev) i t1 \<and> s1 = s \<and> handler_of t1 = None
     \<and> (\<forall>e. TV_Boundary e \<notin> set ev) \<and> (\<forall>c r. TV_Handle c r \<notin> set ev)"
proof -
  from assms(1) obtain sent where a: "a = TA_Received sent"
    by (cases a) (simp_all add: serve_caller_def)
  show ?thesis
  proof (cases "read_request (tl_requests L) sent")
    case (Inl e)
    with assms a show ?thesis
      by (auto simp: serve_caller_def evidence_mono intro: evidence_ended)
  next
    case (Inr r)
    obtain request rest where r: "r = (request, rest)"
      by fastforce
    have step: "t1 = T_Handle caller request (watch_client (rqe_operation_id request))" "s1 = s"
        "ev = [TV_Request request]"
      using assms(1) a Inr r by (simp_all add: serve_caller_def)
    have "task_evidence L S (tr @ [SV_Task i (TV_Request request)]) i t1"
      unfolding step(1) using assms(2,3) by (intro evidence_hand_over evidence_mono) simp_all
    with step show ?thesis
      by simp
  qed
qed

lemma step_hand_over:
  assumes "tstep L B (T_Handle caller request (watch_client (rqe_operation_id request))) a s = Some (ev, s1, t1)"
    and "connected tr i" and "authenticated L S tr i caller" and "SV_Task i (TV_Request request) \<in> set tr"
  shows "task_evidence L S (tr @ map (SV_Task i) ev) i t1 \<and> s1 = s
     \<and> (\<exists>fuel. handler_of t1 = Some (handle B fuel caller request)) \<and> ev = [TV_Handle caller request]"
proof -
  from assms(1) obtain fuel where a: "a = TA_Fuel fuel"
    by (cases a) simp_all
  with assms(1) have step: "s1 = s" "ev = [TV_Handle caller request]"
      "t1 = watch_client (rqe_operation_id request) (handle B fuel caller request)"
    by simp_all
  have "handed_over L S (tr @ [SV_Task i (TV_Handle caller request)]) i"
    using assms(3,4) by (force simp: handed_over_def evidence_mono)
  then have "task_evidence L S (tr @ [SV_Task i (TV_Handle caller request)]) i t1"
    unfolding step(3) using evidence_request [OF evidence_mono(1) [OF assms(2)]] by simp
  with step show ?thesis
    by auto
qed

text \<open>
  A task with a request acts on the service through its handler, or by the one action that cancels the
  operation; otherwise it leaves the service alone.
\<close>

lemma step_request:
  assumes "tstep L B t a s = Some (ev, s1, t1)" and "has_request t"
  shows "(task_ended t1 \<or> has_request t1) \<and> (\<forall>c r. TV_Handle c r \<notin> set ev) \<and>
     ((\<exists>p x ev' p1. handler_of t = Some p \<and> step_prog p x s = Some (ev', s1, p1) \<and> ev = map TV_Boundary ev'
          \<and> handler_of t1 = Some p1)
      \<or> (\<exists>op q. step_prog (cancel_operation op Ret) A_tick s = Some ([], s1, q) \<and> ev = []
          \<and> handler_of t1 = handler_of t)
      \<or> s1 = s \<and> (\<forall>e. TV_Boundary e \<notin> set ev) \<and> (handler_of t1 = handler_of t \<or> handler_of t1 = None))"
proof -
  consider (watch) p op where "t = watch_client op p" | (cancel) p op where "t = T_Cancel op (T_Run p respond)"
    | (alone) p where "t = T_Run p respond" | (answer) r where "t = respond r"
    using assms(2) by (auto simp: has_request_def)
  then show ?thesis
  proof cases
    case watch
    consider (act) x where "a = TA_Action x" | (finish) "a = TA_Finished" | (client) "a = TA_Client"
      using assms(1) watch by (cases a) (simp_all add: watch_client_def)
    then show ?thesis
    proof cases
      case act
      with assms(1) watch obtain ev' p1 where "step_prog p x s = Some (ev', s1, p1)"
          and "ev = map TV_Boundary ev'" and "t1 = watch_client op p1"
        by (auto simp: watch_client_def handler_step_def)
      with watch show ?thesis
        by (auto simp: has_request_def)
    next
      case finish
      with assms(1) watch have "s1 = s \<and> ev = [] \<and> ((\<exists>r. t1 = respond r) \<or> t1 = T_Panic)"
        by (auto simp: watch_client_def handler_ended_def split: prog.splits)
      then show ?thesis
        by (auto simp: has_request_def)
    next
      case client
      with assms(1) watch have "s1 = s \<and> ev = [TV_Client] \<and> t1 = T_Cancel op (T_Run p respond)"
        by (simp add: watch_client_def)
      with watch show ?thesis
        by (auto simp: has_request_def)
    qed
  next
    case cancel
    then obtain x ev' q where "step_prog (cancel_operation op Ret) x s = Some (ev', s1, q)"
        and ev: "ev = map TV_Boundary ev'" and t1: "t1 = T_Run p respond"
      using assms(1) by (cases a) auto
    moreover from this have "x = A_tick" and "ev' = []"
      by (auto simp: cancel_operation_def split: answer.splits option.splits)
    ultimately have "step_prog (cancel_operation op Ret) A_tick s = Some ([], s1, q)" and "ev = []"
      by simp_all
    moreover have "has_request t1" and "handler_of t1 = handler_of t"
      using t1 cancel by (auto simp: has_request_def)
    ultimately show ?thesis
      by auto
  next
    case alone
    consider (act) x where "a = TA_Action x" | (finish) "a = TA_Finished"
      using assms(1) alone by (cases a) simp_all
    then show ?thesis
    proof cases
      case act
      with assms(1) alone obtain ev' p1 where "step_prog p x s = Some (ev', s1, p1)"
          and "ev = map TV_Boundary ev'" and "t1 = T_Run p1 respond"
        by (auto simp: handler_step_def)
      with alone show ?thesis
        by (auto simp: has_request_def)
    next
      case finish
      with assms(1) alone have "s1 = s \<and> ev = [] \<and> ((\<exists>r. t1 = respond r) \<or> t1 = T_Panic)"
        by (auto simp: handler_ended_def split: prog.splits)
      then show ?thesis
        by (auto simp: has_request_def)
    qed
  next
    case answer
    then obtain w where "a = TA_Writer w"
      using assms(1) by (cases a) (simp_all add: respond_def)
    with answer assms(1) have "s1 = s" and "task_ended t1" and "\<exists>x y. ev = [TV_Response x y]"
      by (auto simp: respond_def split: prod.splits)
    with ended_no_handler show ?thesis
      by auto
  qed
qed

text \<open>What the trace says at the moment a request is handed over, and at every action of the boundary.\<close>

definition justified :: "transport_lib \<Rightarrow> SandboxTlsServer \<Rightarrow> sevent list \<Rightarrow> sevent \<Rightarrow> bool" where
  "justified L S tr e \<longleftrightarrow>
     (\<forall>i caller request. e = SV_Task i (TV_Handle caller request) \<longrightarrow>
        connected tr i \<and> authenticated L S tr i caller \<and> SV_Task i (TV_Request request) \<in> set tr)
     \<and> (\<forall>i ev. e = SV_Task i (TV_Boundary ev) \<longrightarrow> connected tr i \<and> handed_over L S tr i)"

lemma justified_mono: "justified L S tr e \<Longrightarrow> justified L S (tr @ ev) e"
  by (auto simp: justified_def evidence_mono)

definition accounted_for :: "transport_lib \<Rightarrow> SandboxTlsServer \<Rightarrow> sevent list \<Rightarrow> bool" where
  "accounted_for L S tr \<longleftrightarrow> (\<forall>pre e post. tr = pre @ e # post \<longrightarrow> justified L S pre e)"

lemma accounted_extend:
  assumes "accounted_for L S tr" and "\<forall>e \<in> set ev. justified L S tr e"
  shows "accounted_for L S (tr @ ev)"
  unfolding accounted_for_def
proof (intro allI impI)
  fix pre e post
  assume "tr @ ev = pre @ e # post"
  then consider (old) us where "tr = pre @ e # us" | (new) us where "pre = tr @ us" and "ev = us @ e # post"
    by (auto simp: append_eq_append_conv2 append_eq_Cons_conv)
  then show "justified L S pre e"
  proof cases
    case old
    with assms(1) show ?thesis
      by (simp add: accounted_for_def)
  next
    case new
    with assms(2) justified_mono [of L S tr e us] show ?thesis
      by simp
  qed
qed

definition evident :: "transport_lib \<Rightarrow> SandboxTlsServer \<Rightarrow> sevent list \<Rightarrow> run_state \<Rightarrow> bool" where
  "evident L S tr s \<longleftrightarrow>
     accounted_for L S tr \<and> (\<forall>i < length (run_tasks s). task_evidence L S tr i (run_tasks s ! i))"

text \<open>One action of any task.\<close>

lemma step_task:
  assumes step: "tstep L B t a s = Some (ev, s1, t1)" and evidence: "task_evidence L S tr i t"
  shows "task_evidence L S (tr @ map (SV_Task i) ev) i t1 \<and> (\<forall>e \<in> set ev. justified L S tr (SV_Task i e))"
proof -
  have plain: "justified L S tr (SV_Task i e)" if "\<forall>x. e \<noteq> TV_Boundary x" "\<forall>c r. e \<noteq> TV_Handle c r" for e
    using that by (auto simp: justified_def)
  from evidence have connected: "connected tr i"
    by (simp add: task_evidence_def)
  have "\<not> task_ended t"
    using step ended_no_step by fastforce
  with evidence consider (new) "t = handle_connection (tl_sha256 L) (sts_authorized_callers S)"
    | (caller) caller where "t = serve_caller caller" and "authenticated L S tr i caller"
    | (over) caller request where "t = T_Handle caller request (watch_client (rqe_operation_id request))"
        and "authenticated L S tr i caller" and "SV_Task i (TV_Request request) \<in> set tr"
    | (request) "has_request t" and "handed_over L S tr i"
    by (auto simp: task_evidence_def awaits_request_def hands_over_def)
  then show ?thesis
  proof cases
    case new
    show ?thesis
      using step_connection [OF step [unfolded new] connected] plain by metis
  next
    case caller
    show ?thesis
      using step_caller [OF step [unfolded caller(1)] connected caller(2)] plain by metis
  next
    case over
    from step_hand_over [OF step [unfolded over(1)] connected over(2,3)] over connected show ?thesis
      by (auto simp: justified_def)
  next
    case request
    from step_request [OF step request(1)]
    have "task_ended t1 \<or> has_request t1" and "\<forall>c r. TV_Handle c r \<notin> set ev"
      by blast+
    moreover have "justified L S tr (SV_Task i (TV_Boundary e))" for e
      using connected request(2) by (simp add: justified_def)
    ultimately show ?thesis
      using connected request(2) evidence_mono(1,3) by (metis evidence_ended evidence_request plain)
  qed
qed

lemma evident_step:
  assumes "evident L S tr s" and "server_step L S mv s = Some (ev, s1)"
  shows "evident L S (tr @ ev) s1"
proof (cases mv)
  case (MV_Task i a)
  with assms(2) obtain ev' service t where i: "i < length (run_tasks s)"
    and step: "tstep L (sv_bundle (run_service s)) (run_tasks s ! i) a (run_service s) = Some (ev', service, t)"
    and ev: "ev = map (SV_Task i) ev'" and tasks: "run_tasks s1 = (run_tasks s)[i := t]"
    by (auto simp: task_result_def split: if_splits)
  from assms(1) i have "task_evidence L S tr i (run_tasks s ! i)"
    by (simp add: evident_def)
  from step_task [OF step this] have t: "task_evidence L S (tr @ ev) i t" and "\<forall>e \<in> set ev. justified L S tr e"
    by (auto simp: ev)
  then have "accounted_for L S (tr @ ev)"
    using assms(1) by (simp add: evident_def accounted_extend)
  moreover have "task_evidence L S (tr @ ev) j (run_tasks s1 ! j)" if "j < length (run_tasks s1)" for j
    using that t assms(1) evidence_mono(4) by (cases "j = i") (auto simp: tasks evident_def)
  ultimately show ?thesis
    by (simp add: evident_def)
next
  case (MV_Accept accepted)
  have justified: "justified L S tr (SV_Connect j peer)" for j peer
    by (simp add: justified_def)
  show ?thesis
  proof (cases accepted)
    case None
    with MV_Accept assms have s1: "ev = []" "s1 = accept_failed s"
      by (auto split: if_splits)
    from assms(1) have "task_evidence L S tr i T_Aborted" if "i < length (run_tasks s)" for i
      using that by (auto simp: evident_def task_evidence_def)
    with assms(1) show ?thesis
      unfolding s1 by (auto simp: evident_def accept_failed_def)
  next
    case (Some peer)
    with MV_Accept assms(2) have eq: "(ev, s1) = accept_peer L S peer s"
      by (auto split: if_splits)
    show ?thesis
    proof (cases "is_loopback (sa_ip peer) \<and> run_permits s \<noteq> 0")
      case True
      let ?i = "length (run_tasks s)"
      from eq True have ev: "ev = [SV_Connect ?i peer]"
        and tasks: "run_tasks s1 = run_tasks s @ [handle_connection (tl_sha256 L) (sts_authorized_callers S)]"
        by (auto simp: accept_peer_def)
      have "connected (tr @ ev) ?i"
        using True by (auto simp: connected_def ev)
      then have "task_evidence L S (tr @ ev) ?i (handle_connection (tl_sha256 L) (sts_authorized_callers S))"
        by (simp add: task_evidence_def)
      moreover have "accounted_for L S (tr @ ev)"
        using assms(1) justified by (auto simp: evident_def ev intro: accounted_extend)
      ultimately show ?thesis
        using assms(1) evidence_mono(4) by (auto simp: evident_def tasks nth_append less_Suc_eq)
    next
      case False
      with eq have "ev = []" and "s1 = s"
        by (auto simp: accept_peer_def split: if_splits)
      with assms(1) show ?thesis
        by simp
    qed
  qed
next
  case MV_Drain
  with assms have "ev = [SV_Drain]" and "run_tasks s1 = run_tasks s"
    by (auto split: if_splits)
  with assms(1) evidence_mono(4) show ?thesis
    by (auto simp: evident_def justified_def intro!: accounted_extend)
next
  case MV_CancelAll
  with assms have "ev = [SV_CancelAll]" and "run_tasks s1 = run_tasks s"
    by (auto split: if_splits)
  with assms(1) evidence_mono(4) show ?thesis
    by (auto simp: evident_def justified_def intro!: accounted_extend)
qed (use assms in \<open>auto simp: evident_def split: if_splits phase.splits\<close>)

lemma evident_reach: "server_reach L S service tr s \<Longrightarrow> evident L S tr s"
proof (induction rule: server_reach.induct)
  case (server_start now)
  then show ?case
    by (simp add: evident_def accounted_for_def run_start_def)
qed (rule evident_step)

section \<open>The pool of handlers\<close>

lemma bundle_step: "step_prog p a s = Some (ev, s1, p1) \<Longrightarrow> sv_bundle s1 = sv_bundle s"
  by (cases p) (auto split: answer.splits option.splits prod.splits if_splits)

definition handlers :: "tprog list \<Rightarrow> ResponseEnvelope prog multiset" where
  "handlers ts = mset (List.map_filter handler_of ts)"

definition handler_bag :: "tprog \<Rightarrow> ResponseEnvelope prog multiset" where
  "handler_bag t = (case handler_of t of None \<Rightarrow> {#} | Some p \<Rightarrow> {#p#})"

definition boundary_event :: "sevent \<Rightarrow> event option" where
  "boundary_event e = (case e of SV_Task _ (TV_Boundary ev) \<Rightarrow> Some ev | _ \<Rightarrow> None)"

definition boundary_events :: "sevent list \<Rightarrow> event list" where
  "boundary_events tr = List.map_filter boundary_event tr"

lemma boundary_events_append [simp]: "boundary_events (tr @ ev) = boundary_events tr @ boundary_events ev"
  by (simp add: boundary_events_def List.map_filter_def)

lemma boundary_events_simps [simp]:
  "boundary_events [] = []" "boundary_events [SV_Drain] = []" "boundary_events [SV_CancelAll] = []"
  "boundary_events [SV_Connect i peer] = []"
  "boundary_events (map (SV_Task i \<circ> TV_Boundary) evs) = evs"
  by (induction evs) (simp_all add: boundary_events_def boundary_event_def List.map_filter_simps)

lemma boundary_events_none: "\<forall>e. TV_Boundary e \<notin> set ev \<Longrightarrow> boundary_events (map (SV_Task i) ev) = []"
  by (induction ev) (auto simp: boundary_events_def boundary_event_def List.map_filter_simps split: tevent.splits)

lemma handlers_append: "handlers (ts @ [t]) = handlers ts + handler_bag t"
  by (auto simp: handlers_def handler_bag_def List.map_filter_def split: option.splits)

lemma handlers_update:
  "i < length ts \<Longrightarrow> handlers (ts[i := t]) + handler_bag (ts ! i) = handlers ts + handler_bag t"
proof (induction ts arbitrary: i)
  case (Cons x ts)
  show ?case
  proof (cases i)
    case 0
    then show ?thesis
      by (simp add: handlers_def handler_bag_def List.map_filter_simps split: option.splits)
  next
    case (Suc j)
    with Cons.IH [of j] Cons.prems show ?thesis
      by (simp add: handlers_def List.map_filter_simps split: option.splits)
  qed
qed simp

definition in_pool :: "AssetBundleIdentity \<Rightarrow> sevent list \<Rightarrow> run_state \<Rightarrow> bool" where
  "in_pool B tr s \<longleftrightarrow> sv_bundle (run_service s) = B \<and>
     (\<exists>ps. pool_reach B (run_service s, ps, boundary_events tr) \<and> handlers (run_tasks s) \<subseteq># mset ps)"

text \<open>The pool's side of what a task does: a handler acts, an operation is cancelled, a request arrives.\<close>

lemma pool_handler:
  assumes "pool_reach B (s, ps, tr)" and "p \<in># mset ps" and "step_prog p a s = Some (ev, s1, p1)"
  shows "\<exists>ps1. pool_reach B (s1, ps1, tr @ ev) \<and> mset ps1 = mset ps - {#p#} + {#p1#}"
proof -
  from assms(2) obtain j where j: "j < length ps" "ps ! j = p"
    by (auto simp: in_set_conv_nth)
  with assms have "pool_reach B (s1, ps[j := p1], tr @ ev)"
    by (auto intro: pool_next pool_act)
  with j show ?thesis
    by (auto simp: mset_update)
qed

lemma pool_arrival:
  "pool_reach B (s, ps, tr) \<Longrightarrow> pool_reach B (s, ps @ [handle B fuel caller envelope], tr)"
  by (rule pool_next [OF _ pool_arrive])

lemma pool_cancel:
  assumes "pool_reach B (s, ps, tr)" and "step_prog (cancel_operation op Ret) A_tick s = Some ([], s1, q)"
  shows "\<exists>ps1. pool_reach B (s1, ps @ ps1, tr)"
proof -
  let ?request = "\<lparr>rqe_protocol_version = PROTOCOL_VERSION, rqe_operation_id = op, rqe_asset_bundle = B,
     rqe_request = SReq_Cancel op\<rparr>"
  let ?p = "handle B 0 (CallerIdentity_new (CallerFingerprint []) RuntimeRole) ?request"
  from assms(2) obtain p1 where "step_prog ?p A_tick s = Some ([], s1, p1)"
    by (auto simp: handle_def handle_cancel_def RequestEnvelope_into_parts_def cancel_operation_def
        split: option.splits)
  then have "step_prog ((ps @ [?p]) ! length ps) A_tick s = Some ([], s1, p1)"
    by simp
  from pool_next [OF pool_arrival [OF assms(1)] pool_act [OF _ this]]
  have "pool_reach B (s1, (ps @ [?p])[length ps := p1], tr @ [])"
    by simp
  then show ?thesis
    by (metis append.right_neutral list_update_length)
qed

lemma in_pool_task:
  assumes pool: "in_pool B tr s" and i: "i < length (run_tasks s)" and evidence: "task_evidence L S tr i (run_tasks s ! i)"
    and step: "tstep L B (run_tasks s ! i) a (run_service s) = Some (ev, s1, t1)"
  shows "in_pool B (tr @ map (SV_Task i) ev) (snd (task_result i s (ev, s1, t1)))"
proof -
  let ?t = "run_tasks s ! i"
  from pool obtain ps where ps: "pool_reach B (run_service s, ps, boundary_events tr)"
    and sub: "handlers (run_tasks s) \<subseteq># mset ps" and B: "sv_bundle (run_service s) = B"
    by (auto simp: in_pool_def)
  note update = handlers_update [OF i, of t1]
  have result: ?thesis
    if "pool_reach B (s1, ps1, boundary_events tr @ boundary_events (map (SV_Task i) ev))"
      and "handlers ((run_tasks s)[i := t1]) \<subseteq># mset ps1" and "sv_bundle s1 = B" for ps1
    using that by (auto simp: in_pool_def task_result_def)
  have quiet: ?thesis if "s1 = run_service s" "\<forall>e. TV_Boundary e \<notin> set ev" "handler_bag t1 \<subseteq># handler_bag ?t"
  proof (rule result [of ps])
    have "handlers ((run_tasks s)[i := t1]) \<subseteq># handlers (run_tasks s)"
      using update that(3) by (metis add.commute mset_subset_eq_mono_add_left_cancel subset_mset.add_le_cancel_right subset_mset.add_left_mono)
    from subset_mset.order_trans [OF this sub] show "handlers ((run_tasks s)[i := t1]) \<subseteq># mset ps" .
  qed (use that ps B boundary_events_none in simp_all)
  have "\<not> task_ended ?t"
    using step ended_no_step by fastforce
  with evidence consider (new) "?t = handle_connection (tl_sha256 L) (sts_authorized_callers S)"
    | (caller) caller where "?t = serve_caller caller" and "authenticated L S tr i caller"
    | (over) caller request where "?t = T_Handle caller request (watch_client (rqe_operation_id request))"
        and "authenticated L S tr i caller" and "SV_Task i (TV_Request request) \<in> set tr"
    | (request) "has_request ?t"
    by (auto simp: task_evidence_def awaits_request_def hands_over_def)
  then show ?thesis
  proof cases
    case new
    with step_connection [OF step [unfolded new]] evidence show ?thesis
      by (intro quiet) (auto simp: task_evidence_def handler_bag_def)
  next
    case caller
    with step_caller [OF step [unfolded caller(1)] _ caller(2)] evidence show ?thesis
      by (intro quiet) (auto simp: task_evidence_def handler_bag_def)
  next
    case over
    with step_hand_over [OF step [unfolded over(1)] _ over(2,3)] evidence obtain fuel
      where t1: "handler_of t1 = Some (handle B fuel caller request)" and s1: "s1 = run_service s"
        and ev: "ev = [TV_Handle caller request]"
      by (auto simp: task_evidence_def)
    show ?thesis
    proof (rule result [of "ps @ [handle B fuel caller request]"])
      show "handlers ((run_tasks s)[i := t1]) \<subseteq># mset (ps @ [handle B fuel caller request])"
        using update over(1) sub by (simp add: handler_bag_def t1)
      show "pool_reach B (s1, ps @ [handle B fuel caller request],
          boundary_events tr @ boundary_events (map (SV_Task i) ev))"
        using pool_arrival [OF ps] s1 ev boundary_events_none [of ev i] by simp
    qed (use s1 B in simp)
  next
    case request
    from step_request [OF step request] consider
        (act) p x ev' p1 where "handler_of ?t = Some p" "step_prog p x (run_service s) = Some (ev', s1, p1)"
          "ev = map TV_Boundary ev'" "handler_of t1 = Some p1"
      | (cancel) op q where "step_prog (cancel_operation op Ret) A_tick (run_service s) = Some ([], s1, q)" "ev = []"
          "handler_of t1 = handler_of ?t"
      | (rest) "s1 = run_service s" "\<forall>e. TV_Boundary e \<notin> set ev" "handler_of t1 = handler_of ?t \<or> handler_of t1 = None"
      by (elim conjE disjE exE) blast+
    then show ?thesis
    proof cases
      case act
      have H: "handlers ((run_tasks s)[i := t1]) + {#p#} = handlers (run_tasks s) + {#p1#}"
        using update act(1,4) by (simp add: handler_bag_def)
      have mem: "p \<in># handlers (run_tasks s)"
        using act(1) i by (auto simp: handlers_def List.map_filter_def in_set_conv_nth intro!: image_eqI [of _ _ ?t])
      then have p: "p \<in># mset ps"
        using sub by (meson mset_subset_eqD)
      from pool_handler [OF ps p act(2)] obtain ps1
        where ps1: "pool_reach B (s1, ps1, boundary_events tr @ ev')" "mset ps1 = mset ps - {#p#} + {#p1#}"
        by blast
      have "handlers ((run_tasks s)[i := t1]) + {#p#} \<subseteq># mset ps1 + {#p#}"
        unfolding H ps1(2) using sub p by simp
      then have "handlers ((run_tasks s)[i := t1]) \<subseteq># mset ps1"
        by simp
      with ps1(1) act(3) B bundle_step [OF act(2)] show ?thesis
        by (intro result [of ps1]) simp_all
    next
      case cancel
      from pool_cancel [OF ps cancel(1)] obtain ps1 where "pool_reach B (s1, ps @ ps1, boundary_events tr)"
        by blast
      moreover have "handlers ((run_tasks s)[i := t1]) = handlers (run_tasks s)"
        using update cancel(3) by (simp add: handler_bag_def)
      ultimately show ?thesis
        using sub B bundle_step [OF cancel(1)] cancel(2)
        by (intro result [of "ps @ ps1"]) (simp_all add: subset_mset.add_increasing2)
    next
      case rest
      then show ?thesis
        by (intro quiet) (auto simp: handler_bag_def)
    qed
  qed
qed

lemma in_pool_step:
  assumes pool: "in_pool B tr s" and evident: "evident L S tr s" and step: "server_step L S mv s = Some (ev, s1)"
  shows "in_pool B (tr @ ev) s1"
proof (cases mv)
  case (MV_Task i a)
  with step obtain r where i: "i < length (run_tasks s)"
    and r: "tstep L (sv_bundle (run_service s)) (run_tasks s ! i) a (run_service s) = Some r"
    and eq: "(ev, s1) = task_result i s r"
    by (auto split: if_splits)
  obtain ev' s' t where "r = (ev', s', t)"
    by (metis prod_cases3)
  moreover from this eq have "ev = map (SV_Task i) ev'"
    by (simp add: task_result_def)
  moreover have "sv_bundle (run_service s) = B" and "task_evidence L S tr i (run_tasks s ! i)"
    using pool evident i by (simp_all add: in_pool_def evident_def)
  ultimately show ?thesis
    using in_pool_task [OF pool i] r eq by (metis snd_conv)
next
  case (MV_Accept accepted)
  have no_handler: "handler_bag (handle_connection sha authorized) = {#}" for sha authorized
    by (simp add: handler_bag_def)
  have aborted: "handlers (map (\<lambda>t. if task_ended t then t else T_Aborted) ts) = {#}" for ts
    by (auto simp: handlers_def List.map_filter_def filter_empty_conv ended_no_handler)
  from MV_Accept step pool show ?thesis
    by (auto simp: in_pool_def accept_peer_def accept_failed_def handlers_append no_handler aborted
        split: if_splits option.splits)
next
  case MV_Drain
  with step have "run_service s1 = (run_service s)\<lparr>sv_draining := True\<rparr>" "run_tasks s1 = run_tasks s" "ev = [SV_Drain]"
    by (auto simp: start_draining_def split: if_splits)
  with pool show ?thesis
    by (auto simp: in_pool_def intro: pool_next pool_drain)
next
  case MV_CancelAll
  let ?v = "run_service s"
  from MV_CancelAll step have "run_service s1 = ?v\<lparr>sv_cancelled := map snd (sv_active ?v) @ sv_cancelled ?v\<rparr>"
      "run_tasks s1 = run_tasks s" "ev = [SV_CancelAll]"
    by (auto simp: cancel_all_operations_def split: if_splits)
  with pool show ?thesis
    by (auto simp: in_pool_def intro: pool_next pool_cancel_all)
qed (use pool step in \<open>auto simp: in_pool_def split: if_splits phase.splits\<close>)

lemma in_pool_reach:
  assumes "server_reach L S service tr s" and "sv_owned service = []"
  shows "in_pool (sv_bundle service) tr s"
  using assms(1)
proof (induction rule: server_reach.induct)
  case (server_start now)
  have "pool_reach (sv_bundle service) (service, [], [])"
    using assms(2) by (rule pool_start)
  then show ?case
    by (auto simp: in_pool_def run_start_def handlers_def List.map_filter_simps)
next
  case (server_next tr s mv ev s1)
  from in_pool_step [OF server_next(3) evident_reach [OF server_next(1)] server_next(2)] show ?case .
qed

section \<open>Shutdown\<close>

text \<open>A program that never ends the draining of the service.\<close>

primrec steady :: "'a prog \<Rightarrow> bool" where
  "steady (Ret x) = True"
| "steady Panic = True"
| "steady OutOfFuel = True"
| "steady (StoreDraining b p) = (b \<and> steady p)"
| "steady (UnixTime k) = (\<forall>x. steady (k x))"
| "steady (Now k) = (\<forall>x. steady (k x))"
| "steady (GenerateToken k) = (\<forall>x. steady (k x))"
| "steady (NewCancellation k) = (\<forall>x. steady (k x))"
| "steady (LoadDraining k) = (\<forall>x. steady (k x))"
| "steady (LoadReconciled k) = (\<forall>x. steady (k x))"
| "steady (OwnedGet i k) = (\<forall>x. steady (k x))"
| "steady (OwnedTake c i t k) = (\<forall>x. steady (k x))"
| "steady (PreparedReserve i item k) = (\<forall>x. steady (k x))"
| "steady (PreparedRemove t k) = (\<forall>x. steady (k x))"
| "steady (ActiveInsert i c k) = (\<forall>x. steady (k x))"
| "steady (ActiveLen k) = (\<forall>x. steady (k x))"
| "steady (ActiveCancel i k) = (\<forall>x. steady (k x))"
| "steady (Notified k) = (\<forall>x. steady (k x))"
| "steady (Select c t m k) = (\<forall>x. steady (k x))"
| "steady (StoreWrite r k) = (\<forall>x. steady (k x))"
| "steady (StoreRemove i k) = (\<forall>x. steady (k x))"
| "steady (StoreLoad k) = (\<forall>x. steady (k x))"
| "steady (RtCreate q c k) = (\<forall>x. steady (k x))"
| "steady (RtWaitReady q p c k) = (\<forall>x. steady (k x))"
| "steady (RtExec r q c k) = (\<forall>x. steady (k x))"
| "steady (RtDelete t c k) = (\<forall>x. steady (k x))"
| "steady (RtWaitDeleted t c k) = (\<forall>x. steady (k x))"
| "steady (StoreReconciled b p) = steady p"
| "steady (OwnedPut i e p) = steady p"
| "steady (PreparedForget i p) = steady p"
| "steady (ActiveRemove i p) = steady p"
| "steady (ActiveCancelAll p) = steady p"

lemma steady_step:
  "steady p \<Longrightarrow> step_prog p a s = Some (ev, s1, p1) \<Longrightarrow> steady p1 \<and> (sv_draining s \<longrightarrow> sv_draining s1)"
  by (cases p) (auto split: answer.splits option.splits prod.splits if_splits)

lemma steady_bind: "steady p \<Longrightarrow> (\<And>x. steady (f x)) \<Longrightarrow> steady (bind p f)"
  by (induction p) auto

lemma steady_acquire_loop: "(\<And>x. steady (k x)) \<Longrightarrow> steady (acquire_loop fuel caller i t c k)"
  by (induction fuel) (auto split: option.splits wake.splits)

lemmas steady_defs =
  transition_and_write_def transition_and_try_write_def put_owned_def reject_new_work_def
  operation_context_ms_def Let_def

lemma steady_dispatch: "steady (dispatch B fuel caller request c)"
proof (cases request)
  case (SReq_Create q d)
  then show ?thesis
    by (auto simp: steady_defs boundary_create_def create_outcome_def split: sum.splits prod.splits)
next
  case (SReq_WaitReady i t pol d)
  then show ?thesis
    by (auto simp: steady_defs boundary_wait_ready_def
        split: sum.splits prod.splits option.splits Lifecycle.splits)
next
  case (SReq_PrepareExec i t q d)
  then show ?thesis
    by (auto simp: steady_defs boundary_prepare_exec_def split: option.splits)
next
  case (SReq_CommitExec i t d)
  then show ?thesis
    by (auto simp: steady_defs boundary_commit_exec_def commit_taken_def
        split: sum.splits prod.splits option.splits Lifecycle.splits)
next
  case (SReq_Delete target d)
  then show ?thesis
    by (auto simp: steady_defs boundary_delete_def acquire_for_cleanup_def
        split: sum.splits prod.splits option.splits intro!: steady_acquire_loop)
next
  case (SReq_WaitDeleted target d)
  then show ?thesis
    by (auto simp: steady_defs boundary_wait_deleted_def acquire_for_cleanup_def
        split: sum.splits prod.splits option.splits intro!: steady_acquire_loop)
qed (auto simp: steady_defs health_def begin_drain_def drain_status_def)

lemma steady_handle: "steady (handle B fuel caller envelope)"
  by (auto simp: handle_def Let_def RequestEnvelope_into_parts_def handle_cancel_def cancel_operation_def
      simp del: dispatch.simps intro!: steady_bind steady_dispatch split: ServiceRequest.splits)

definition stopping :: "phase \<Rightarrow> bool" where
  "stopping ph \<longleftrightarrow> (case ph of PH_Draining _ \<Rightarrow> True | PH_TimedOut \<Rightarrow> True | PH_Cancelled \<Rightarrow> True
     | PH_Finished (Inr _) \<Rightarrow> True | _ \<Rightarrow> False)"

definition orderly :: "sevent list \<Rightarrow> run_state \<Rightarrow> bool" where
  "orderly tr s \<longleftrightarrow>
     (stopping (run_phase s) \<longrightarrow> run_shutdown s \<and> sv_draining (run_service s) \<and> SV_Drain \<in> set tr)
     \<and> (\<forall>r. run_phase s = PH_Finished r \<longrightarrow> live (run_tasks s) = 0)
     \<and> (SV_Drain \<in> set tr \<longrightarrow> run_phase s \<noteq> PH_Accepting)
     \<and> (\<forall>pre post. tr = pre @ SV_Drain # post \<longrightarrow> (\<forall>i peer. SV_Connect i peer \<notin> set post))
     \<and> (\<forall>t \<in> set (run_tasks s). \<forall>p. handler_of t = Some p \<longrightarrow> steady p)"

lemma no_connect_extend:
  assumes "\<forall>pre post. tr = pre @ SV_Drain # post \<longrightarrow> (\<forall>i peer. SV_Connect i peer \<notin> set post)"
    and "SV_Drain \<in> set tr \<Longrightarrow> \<forall>i peer. SV_Connect i peer \<notin> set ev"
    and "SV_Drain \<in> set ev \<Longrightarrow> ev = [SV_Drain]"
  shows "\<forall>pre post. tr @ ev = pre @ SV_Drain # post \<longrightarrow> (\<forall>i peer. SV_Connect i peer \<notin> set post)"
proof (intro allI impI)
  fix pre post i peer
  assume "tr @ ev = pre @ SV_Drain # post"
  then consider (old) us where "tr = pre @ SV_Drain # us" and "post = us @ ev"
    | (new) us where "pre = tr @ us" and "ev = us @ SV_Drain # post"
    by (auto simp: append_eq_append_conv2 append_eq_Cons_conv)
  then show "SV_Connect i peer \<notin> set post"
  proof cases
    case old
    with assms(1,2) show ?thesis
      by auto
  next
    case new
    with assms(3) have "us @ SV_Drain # post = [SV_Drain]"
      by simp
    then show ?thesis
      by (cases us) simp_all
  qed
qed

lemma step_steady:
  assumes step: "tstep L B t a s = Some (ev, s1, t1)" and evidence: "task_evidence L S tr i t"
    and steady: "\<And>p. handler_of t = Some p \<Longrightarrow> steady p"
  shows "(sv_draining s \<longrightarrow> sv_draining s1) \<and> (\<forall>p. handler_of t1 = Some p \<longrightarrow> steady p)"
proof -
  have "\<not> task_ended t"
    using step ended_no_step by fastforce
  with evidence consider (new) "t = handle_connection (tl_sha256 L) (sts_authorized_callers S)"
    | (caller) caller where "t = serve_caller caller" and "authenticated L S tr i caller"
    | (over) caller request where "t = T_Handle caller request (watch_client (rqe_operation_id request))"
        and "authenticated L S tr i caller" and "SV_Task i (TV_Request request) \<in> set tr"
    | (request) "has_request t"
    by (auto simp: task_evidence_def awaits_request_def hands_over_def)
  then show ?thesis
  proof cases
    case new
    with step_connection [OF step [unfolded new]] evidence show ?thesis
      by (auto simp: task_evidence_def)
  next
    case caller
    with step_caller [OF step [unfolded caller(1)] _ caller(2)] evidence show ?thesis
      by (auto simp: task_evidence_def)
  next
    case over
    with step_hand_over [OF step [unfolded over(1)] _ over(2,3)] evidence steady_handle show ?thesis
      by (auto simp: task_evidence_def)
  next
    case request
    have cancel: "steady (cancel_operation op Ret)" for op
      by (simp add: cancel_operation_def)
    from step_request [OF step request] show ?thesis
      by (elim conjE disjE exE) (use steady steady_step cancel in fastforce)+
  qed
qed

lemma orderly_step:
  assumes orderly: "orderly tr s" and evident: "evident L S tr s" and step: "server_step L S mv s = Some (ev, s1)"
  shows "orderly (tr @ ev) s1"
proof (cases mv)
  case (MV_Task i a)
  with step obtain ev' service t where i: "i < length (run_tasks s)"
    and r: "tstep L (sv_bundle (run_service s)) (run_tasks s ! i) a (run_service s) = Some (ev', service, t)"
    and ev: "ev = map (SV_Task i) ev'" and s1: "s1 = snd (task_result i s (ev', service, t))"
    by (auto simp: task_result_def split: if_splits)
  have "task_evidence L S tr i (run_tasks s ! i)" and "\<And>p. handler_of (run_tasks s ! i) = Some p \<Longrightarrow> steady p"
    using evident orderly i by (auto simp: evident_def orderly_def)
  from step_steady [OF r this]
  have steady: "sv_draining (run_service s) \<longrightarrow> sv_draining service" "\<forall>p. handler_of t = Some p \<longrightarrow> steady p"
    by simp_all
  have "\<not> task_ended (run_tasks s ! i)"
    using r ended_no_step by fastforce
  then have "live (run_tasks s) \<noteq> 0"
    using i by (auto simp: live_def filter_empty_conv)
  moreover have "\<forall>pre post. tr @ ev = pre @ SV_Drain # post \<longrightarrow> (\<forall>i peer. SV_Connect i peer \<notin> set post)"
    using orderly by (intro no_connect_extend) (auto simp: orderly_def ev)
  moreover have "set ((run_tasks s)[i := t]) \<subseteq> insert t (set (run_tasks s))"
    by (rule set_update_subset_insert)
  ultimately show ?thesis
    using orderly steady unfolding orderly_def s1 by (auto simp: task_result_def ev)
next
  case (MV_Accept accepted)
  with step have ph: "run_phase s = PH_Accepting"
    and eq: "(ev, s1) = (case accepted of None \<Rightarrow> ([], accept_failed s) | Some peer \<Rightarrow> accept_peer L S peer s)"
    by (auto split: if_splits)
  have "\<forall>pre post. tr @ ev = pre @ SV_Drain # post \<longrightarrow> (\<forall>i peer. SV_Connect i peer \<notin> set post)"
    using orderly ph eq
    by (intro no_connect_extend) (auto simp: orderly_def accept_peer_def split: option.splits if_splits)
  with orderly ph eq show ?thesis
    by (auto simp: orderly_def stopping_def accept_peer_def accept_failed_def live_aborted
        split: option.splits if_splits)
next
  case MV_Drain
  with step have ev: "ev = [SV_Drain]" and ph: "run_phase s = PH_Accepting" "run_shutdown s"
    and s1: "s1 = s\<lparr>run_service := (run_service s)\<lparr>sv_draining := True\<rparr>, run_phase := PH_Draining (run_now s)\<rparr>"
    by (auto simp: start_draining_def split: if_splits)
  have "\<forall>pre post. tr @ ev = pre @ SV_Drain # post \<longrightarrow> (\<forall>i peer. SV_Connect i peer \<notin> set post)"
    using orderly by (intro no_connect_extend) (auto simp: orderly_def ev)
  with orderly ph show ?thesis
    unfolding s1 by (auto simp: orderly_def ev)
next
  case MV_CancelAll
  let ?v = "run_service s"
  from MV_CancelAll step have ev: "ev = [SV_CancelAll]" and ph: "run_phase s = PH_TimedOut"
    and s1: "s1 = s\<lparr>run_service := ?v\<lparr>sv_cancelled := map snd (sv_active ?v) @ sv_cancelled ?v\<rparr>, run_phase := PH_Cancelled\<rparr>"
    by (auto simp: cancel_all_operations_def split: if_splits)
  have "\<forall>pre post. tr @ ev = pre @ SV_Drain # post \<longrightarrow> (\<forall>i peer. SV_Connect i peer \<notin> set post)"
    using orderly by (intro no_connect_extend) (auto simp: orderly_def ev)
  with orderly ph show ?thesis
    unfolding s1 by (auto simp: orderly_def stopping_def ev)
qed (use orderly step in \<open>auto simp: orderly_def stopping_def split: if_splits phase.splits\<close>)

lemma orderly_reach: "server_reach L S service tr s \<Longrightarrow> orderly tr s"
proof (induction rule: server_reach.induct)
  case (server_start now)
  then show ?case
    by (simp add: orderly_def stopping_def run_start_def)
next
  case (server_next tr s mv ev s1)
  from orderly_step [OF server_next(3) evident_reach [OF server_next(1)] server_next(2)] show ?case .
qed

end
