(* ===== verification/Server_Claims.thy ===== *)
theory Server_Claims
  imports Server_Props
begin

text \<open>
  The properties of the accept loop, with a server that accepts one client, answers its request and
  shuts down as the concrete run.
\<close>

section \<open>A concrete run\<close>

definition sample_leaf :: bytes where
  "sample_leaf = [7]"

definition sample_transport :: transport_lib where
  "sample_transport = \<lparr>tl_sha256 = (\<lambda>_. [1]), tl_requests = one_value_codec (sample_envelope ''op6'' SReq_Health) [5, 6],
     tl_responses = one_value_codec probe_response [9]\<rparr>"

definition sample_fingerprint :: CallerFingerprint where
  "sample_fingerprint = CallerFingerprint (hex_string [1])"

definition local_address :: SocketAddr where
  "local_address = \<lparr>sa_ip = IPv4 [127, 0, 0, 1], sa_port = 17443\<rparr>"

definition sample_tls_config :: TlsServerConfig where
  "sample_tls_config = \<lparr>tsc_bind_address = local_address, tsc_certificate_path = ''/c'', tsc_private_key_path = ''/k'',
     tsc_client_ca_path = ''/a'', tsc_authorized_callers = [(sample_fingerprint, RuntimeRole)],
     tsc_maximum_connections = 1, tsc_drain_timeout = 5\<rparr>"

definition sample_tls_calls :: tls_calls where
  "sample_tls_calls = \<lparr>tc_certificates = Some [Some [1]], tc_private_key = Some [2], tc_client_ca = Some [Some [3]],
     tc_root_add = (\<lambda>_. True), tc_verifier = True, tc_versions = True, tc_single_cert = True\<rparr>"

definition sample_server :: SandboxTlsServer where
  "sample_server = (case server_bind sample_tls_config (Some local_address) sample_tls_calls of
     Inr server \<Rightarrow> server | Inl _ \<Rightarrow> undefined)"

lemma sample_tls_config_accepted:
  "TlsServerConfig_new local_address ''/c'' ''/k'' ''/a'' [(sample_fingerprint, RuntimeRole)] 1 5 = Ok sample_tls_config"
  by (simp add: TlsServerConfig_new_def sample_tls_config_def local_address_def)

lemma sample_server_eq:
  "sample_server = \<lparr>sts_listener = local_address,
     sts_acceptor = \<lparr>ti_certificates = [[1]], ti_private_key = [2], ti_client_roots = [[3]]\<rparr>,
     sts_authorized_callers = [(sample_fingerprint, RuntimeRole)], sts_maximum_connections = 1,
     sts_drain_timeout = 5\<rparr>"
  by (simp add: sample_server_def server_bind_def from_listener_def load_tls_config_def read_certificates_def
      read_private_key_def read_root_store_def sample_tls_calls_def sample_tls_config_def)

definition request_moves :: "server_move list" where
  "request_moves =
     [MV_Accept (Some \<lparr>sa_ip = IPv4 [10, 0, 0, 9], sa_port = 4000\<rparr>), MV_Accept (Some local_address),
      MV_Accept (Some local_address), MV_Task 0 (TA_Tls (Inr (Some [sample_leaf]))),
      MV_Task 0 (TA_Received [0, 0, 0, 2, 5, 6]), MV_Task 0 (TA_Fuel 1)] @
     map (\<lambda>a. MV_Task 0 (TA_Action a)) [A_tick, A_tick, A_load True, A_tick, A_tick, A_tick, A_tick] @
     [MV_Task 0 TA_Finished]"

definition shutdown_moves :: "server_move list" where
  "shutdown_moves =
     [MV_Shutdown, MV_Drain, MV_Tick 9, MV_Timeout, MV_CancelAll,
      MV_Task 0 (TA_Writer \<lparr>w_sent = [], w_room = None, w_flush_ok = True\<rparr>), MV_Joined]"

definition sample_run :: "server_move list \<Rightarrow> (sevent list \<times> run_state) option" where
  "sample_run moves = server_run sample_transport sample_server moves (run_start sample_server sample_service 0)"

lemmas run_defs =
  eval_defs sample_run_def sample_server_eq sample_transport_def sample_leaf_def sample_fingerprint_def
  local_address_def request_moves_def shutdown_moves_def run_start_def MAX_PERMITS_def accept_peer_def
  handle_connection_def authenticate_def CallerFingerprint_from_certificate_der_def serve_caller_def watch_client_def
  respond_def handler_step_def handler_ended_def task_result_def health_def live_def
  one_value_codec_def read_request_def read_message_def read_frame_def read_exact_def decode_def
  MAX_REQUEST_FRAME_BYTES_def

lemma request_served:
  "map_option (\<lambda>(tr, s). (tr, run_permits s, map handler_of (run_tasks s))) (sample_run request_moves) =
     Some ([SV_Connect 0 local_address, SV_Task 0 (TV_Tls (Some [sample_leaf])),
            SV_Task 0 (TV_Request (sample_envelope ''op6'' SReq_Health)),
            SV_Task 0 (TV_Handle \<lparr>ci_fingerprint = sample_fingerprint, ci_role = RuntimeRole\<rparr>
              (sample_envelope ''op6'' SReq_Health))], 0, [None])"
  by (simp add: run_defs)

lemma shutdown_served:
  "case sample_run (request_moves @ shutdown_moves) of
     None \<Rightarrow> False
   | Some (tr, s) \<Rightarrow> run_phase s = PH_Finished (Ok ()) \<and> SV_CancelAll \<in> set tr \<and> run_permits s = 1"
  by (simp add: run_defs write_response_def write_json_frame_def write_all_def MAX_RESPONSE_FRAME_BYTES_def
      start_draining_def cancel_all_operations_def)

lemma server_run_reach:
  "server_reach L S service tr s \<Longrightarrow> server_run L S moves s = Some (evs, s') \<Longrightarrow> server_reach L S service (tr @ evs) s'"
proof (induction moves arbitrary: tr s evs)
  case (Cons mv moves)
  from Cons.prems(2) obtain ev s1 evs' where step: "server_step L S mv s = Some (ev, s1)"
    and run: "server_run L S moves s1 = Some (evs', s')" and evs: "evs = ev @ evs'"
    by (auto split: bind_splits)
  from Cons.IH [OF server_next [OF Cons.prems(1) step] run] show ?case
    by (simp add: evs)
qed simp

lemma sample_reach:
  "sample_run moves = Some (tr, s) \<Longrightarrow> server_reach sample_transport sample_server sample_service tr s"
  unfolding sample_run_def using server_run_reach [OF server_start] by force

section \<open>Properties\<close>



text \<open>
  C32. A request reaches the boundary only over a connection from the loopback interface, after a TLS
  handshake whose first peer certificate has a configured fingerprint, as that fingerprint with its
  configured role, and is one that this client sent; every action of the boundary or of the runtime that a
  connection makes comes after such a request.
\<close>

theorem server_authorized:
  assumes "server_reach L S service tr s"
  shows "(\<forall>pre i caller request post. tr = pre @ SV_Task i (TV_Handle caller request) # post \<longrightarrow>
       (\<exists>peer leaf chain. SV_Connect i peer \<in> set pre \<and> is_loopback (sa_ip peer)
          \<and> SV_Task i (TV_Tls (Some (leaf # chain))) \<in> set pre
          \<and> CallerFingerprint_from_certificate_der (tl_sha256 L) leaf = Ok (ci_fingerprint caller)
          \<and> hm_get (sts_authorized_callers S) (ci_fingerprint caller) = Some (ci_role caller)
          \<and> SV_Task i (TV_Request request) \<in> set pre))
     \<and> (\<forall>pre i ev post. tr = pre @ SV_Task i (TV_Boundary ev) # post \<longrightarrow>
          (\<exists>caller request. SV_Task i (TV_Handle caller request) \<in> set pre))"
proof -
  have accounted: "accounted_for L S tr"
    using evident_reach [OF assms] by (simp add: evident_def)
  show ?thesis
  proof (intro conjI allI impI)
    fix pre i caller request post
    assume "tr = pre @ SV_Task i (TV_Handle caller request) # post"
    with accounted have "justified L S pre (SV_Task i (TV_Handle caller request))"
      by (simp add: accounted_for_def)
    then show "\<exists>peer leaf chain. SV_Connect i peer \<in> set pre \<and> is_loopback (sa_ip peer)
          \<and> SV_Task i (TV_Tls (Some (leaf # chain))) \<in> set pre
          \<and> CallerFingerprint_from_certificate_der (tl_sha256 L) leaf = Ok (ci_fingerprint caller)
          \<and> hm_get (sts_authorized_callers S) (ci_fingerprint caller) = Some (ci_role caller)
          \<and> SV_Task i (TV_Request request) \<in> set pre"
      unfolding justified_def connected_def authenticated_def by blast
  next
    fix pre i ev post
    assume "tr = pre @ SV_Task i (TV_Boundary ev) # post"
    with accounted have "justified L S pre (SV_Task i (TV_Boundary ev))"
      by (simp add: accounted_for_def)
    then show "\<exists>caller request. SV_Task i (TV_Handle caller request) \<in> set pre"
      unfolding justified_def handed_over_def by blast
  qed
qed

theorem server_authorized_witness:
  "case sample_run request_moves of
     None \<Rightarrow> False
   | Some (tr, s) \<Rightarrow> \<exists>peer leaf chain.
       SV_Connect 0 peer \<in> set tr \<and> is_loopback (sa_ip peer) \<and> SV_Task 0 (TV_Tls (Some (leaf # chain))) \<in> set tr
       \<and> CallerFingerprint_from_certificate_der (tl_sha256 sample_transport) leaf = Ok sample_fingerprint"
proof -
  let ?request = "sample_envelope ''op6'' SReq_Health"
  let ?caller = "\<lparr>ci_fingerprint = sample_fingerprint, ci_role = RuntimeRole\<rparr>"
  obtain tr s where run: "sample_run request_moves = Some (tr, s)"
    and "tr = [SV_Connect 0 local_address, SV_Task 0 (TV_Tls (Some [sample_leaf])), SV_Task 0 (TV_Request ?request)]
       @ SV_Task 0 (TV_Handle ?caller ?request) # []"
    using request_served by auto
  from conjunct1 [OF server_authorized [OF sample_reach [OF run]], rule_format, OF this(2)]
  obtain peer leaf chain where "SV_Connect 0 peer \<in> set tr" "is_loopback (sa_ip peer)"
      "SV_Task 0 (TV_Tls (Some (leaf # chain))) \<in> set tr"
      "CallerFingerprint_from_certificate_der (tl_sha256 sample_transport) leaf = Ok sample_fingerprint"
    unfolding \<open>tr = _\<close> by auto
  then show ?thesis
    unfolding run option.case prod.case by blast
qed

text \<open>
  C34. The connections in progress and the free permits add up to the configured maximum at every moment,
  so that there are never more connections than that, and a permit is lost neither to a failed handshake
  nor to a handler that panics.
\<close>

theorem server_capacity:
  assumes "server_reach L S service tr s"
  shows "live (run_tasks s) \<le> sts_maximum_connections S
     \<and> run_permits s = sts_maximum_connections S - live (run_tasks s)"
  using permits_reach [OF assms] by (auto simp: permits_kept_def)

theorem server_capacity_witness:
  "case sample_run request_moves of None \<Rightarrow> False | Some (tr, s) \<Rightarrow> live (run_tasks s) \<le> 1"
proof -
  obtain tr s where run: "sample_run request_moves = Some (tr, s)"
    using request_served by (auto split: option.splits)
  from server_capacity [OF sample_reach [OF run]] show ?thesis
    unfolding run by (simp add: sample_server_eq)
qed

text \<open>
  C35. The server stops in order: when \<open>run\<close> has returned without an error, the shutdown was asked for,
  the service is draining and stayed so, no connection was accepted after the draining began, and every
  connection has ended.
\<close>

theorem server_shutdown_orderly:
  assumes "server_reach L S service tr s" and "run_phase s = PH_Finished (Ok ())"
  shows "run_shutdown s \<and> sv_draining (run_service s) \<and> SV_Drain \<in> set tr
     \<and> (\<forall>pre post. tr = pre @ SV_Drain # post \<longrightarrow> (\<forall>i peer. SV_Connect i peer \<notin> set post))
     \<and> (\<forall>t \<in> set (run_tasks s). task_ended t)"
  using orderly_reach [OF assms(1)] assms(2)
  by (auto simp: orderly_def stopping_def live_def filter_empty_conv)

theorem server_shutdown_orderly_witness:
  "case sample_run (request_moves @ shutdown_moves) of
     None \<Rightarrow> False
   | Some (tr, s) \<Rightarrow> sv_draining (run_service s) \<and> SV_Drain \<in> set tr \<and> (\<forall>t \<in> set (run_tasks s). task_ended t)"
proof -
  obtain tr s where run: "sample_run (request_moves @ shutdown_moves) = Some (tr, s)"
    and "run_phase s = PH_Finished (Ok ())"
    using shutdown_served by (auto split: option.splits)
  with server_shutdown_orderly [OF sample_reach [OF run]] show ?thesis
    by (simp add: run)
qed

section \<open>Clients that stay silent\<close>

text \<open>
  The wait after the cancellation of all operations is for every connection, those without an operation
  included: \<open>run\<close> returns without an error only after each task that is still in progress has acted. A
  client that never finishes its handshake or never sends a request is not cancelled by anything.
\<close>

lemma step_keeps_task:
  assumes "server_step L S mv s = Some (ev, s1)" and "\<forall>a. mv \<noteq> MV_Task i a"
    and "i < length (run_tasks s)" and "\<not> task_ended (run_tasks s ! i)" and "\<nexists>r. run_phase s = PH_Finished r"
  shows "(i < length (run_tasks s1) \<and> \<not> task_ended (run_tasks s1 ! i) \<and> (\<nexists>r. run_phase s1 = PH_Finished r))
     \<or> run_phase s1 = PH_Finished (Err Srv_Accept)"
proof -
  have "live (run_tasks s) \<noteq> 0"
    using assms(3,4) by (auto simp: live_def filter_empty_conv)
  with assms show ?thesis
    by (cases mv) (auto simp: accept_peer_def accept_failed_def task_result_def nth_append
        split: if_splits option.splits phase.splits)
qed

lemma finished_stays:
  "run_phase s = PH_Finished r \<Longrightarrow> server_run L S moves s = Some (evs, s') \<Longrightarrow> run_phase s' = PH_Finished r"
proof (induction moves arbitrary: s evs)
  case (Cons mv moves)
  from Cons.prems(2) obtain ev s1 evs' where step: "server_step L S mv s = Some (ev, s1)"
    and run: "server_run L S moves s1 = Some (evs', s')"
    by (auto split: bind_splits)
  from step Cons.prems(1) have "run_phase s1 = PH_Finished r"
    by (cases mv) (auto simp: task_result_def split: if_splits)
  from Cons.IH [OF this run] show ?case .
qed simp

theorem server_waits_for_every_client:
  assumes "server_run L S moves s = Some (evs, s')" and "run_phase s' = PH_Finished (Ok ())"
    and "i < length (run_tasks s)" and "\<not> task_ended (run_tasks s ! i)" and "\<nexists>r. run_phase s = PH_Finished r"
  shows "\<exists>a. MV_Task i a \<in> set moves"
  using assms
proof (induction moves arbitrary: s evs)
  case (Cons mv moves)
  from Cons.prems(1) obtain ev s1 evs' where step: "server_step L S mv s = Some (ev, s1)"
    and run: "server_run L S moves s1 = Some (evs', s')"
    by (auto split: bind_splits)
  show ?case
  proof (cases "\<exists>a. mv = MV_Task i a")
    case False
    with step_keeps_task [OF step _ Cons.prems(3-5)] consider
        (kept) "i < length (run_tasks s1)" "\<not> task_ended (run_tasks s1 ! i)" "\<nexists>r. run_phase s1 = PH_Finished r"
      | (failed) "run_phase s1 = PH_Finished (Err Srv_Accept)"
      by blast
    then show ?thesis
    proof cases
      case kept
      from Cons.IH [OF run Cons.prems(2) kept] show ?thesis
        by auto
    next
      case failed
      from finished_stays [OF failed run] Cons.prems(2) show ?thesis
        by simp
    qed
  qed auto
qed simp

end
