(* ===== verification/Process_System.thy ===== *)
theory Process_System
  imports Server_Claims Native_Runtime Outcome_Logic
begin

text \<open>
  The system that the service process runs on: start-up (\<^verbatim>\<open>src/src/main.rs\<close>, \<^verbatim>\<open>src/src/config.rs\<close>) and the
  channel of the OpenShell provider (\<^verbatim>\<open>src/src/openshell/config.rs\<close>) are programs of system calls, of calls
  to the provider and of the stages of the service, which are the programs of the other theories. Other
  processes may change a file between any two calls, so the answers of the calls are independent.
\<close>

section \<open>Values\<close>

record Metadata =
  md_kind :: file_kind
  md_uid :: u32
  md_mode :: u32
  md_len :: u64

type_synonym file_handle = nat

text \<open>What is set on tonic's \<open>Endpoint\<close>: with TLS, the root certificate, the certificate and the key.\<close>

record Endpoint =
  ep_uri :: string
  ep_connect_timeout :: duration
  ep_http2_adaptive_window :: bool
  ep_http2_keep_alive_interval :: "duration option"
  ep_keep_alive_while_idle :: bool
  ep_tls_config :: "(bytes \<times> bytes \<times> bytes) option"

text \<open>What \<open>serde_json\<close> presents to a visitor; a number that is not finite has no text.\<close>

datatype raw_json =
    RJ_Unit
  | RJ_Bool bool
  | RJ_I64 int
  | RJ_U64 nat
  | RJ_F64 "string option"
  | RJ_Str string
  | RJ_Seq "raw_json list"
  | RJ_Map "(string \<times> raw_json) list"

record 'x process_lib =
  wl_platform :: Platform
  wl_native :: "'x native_lib"
  wl_transport :: transport_lib
  wl_json :: "bytes \<Rightarrow> raw_json option"
  wl_from_shared :: "string \<Rightarrow> bool"
  wl_tls_config :: "bytes \<times> bytes \<times> bytes \<Rightarrow> bool"
  wl_euid :: u32

section \<open>Programs\<close>

datatype 'r pprog =
    P_Return 'r
  | P_Panic
  | P_SymlinkMetadata string "Metadata option \<Rightarrow> 'r pprog"
  | P_Open string "file_handle option \<Rightarrow> 'r pprog"
  | P_Fstat file_handle "Metadata option \<Rightarrow> 'r pprog"
  | P_ReadTake file_handle nat "bytes option \<Rightarrow> 'r pprog"
  | P_Read string "bytes option \<Rightarrow> 'r pprog"
  | P_CurrentExe "string option \<Rightarrow> 'r pprog"
  | P_VarOs string "string option \<Rightarrow> 'r pprog"
  | P_Print string "'r pprog"
  | P_CompilePolicy string string string "NativeConfigError + string \<Rightarrow> 'r pprog"
  | P_NativeConfig string Sha256Digest string PolicyIdentity "NativeConfigError + NativeConfig \<Rightarrow> 'r pprog"
  | P_NativeRuntime NativeConfig "bool \<Rightarrow> 'r pprog"
  | P_Connect Endpoint "bool \<Rightarrow> 'r pprog"
  | P_StoreInit string "bool \<Rightarrow> 'r pprog"
  | P_Boundary AssetBundleIdentity "'r pprog"
  | P_Reconcile duration duration "bool \<Rightarrow> 'r pprog"
  | P_Bind TlsServerConfig "ServerError + SandboxTlsServer \<Rightarrow> 'r pprog"
  | P_Serve SandboxTlsServer "ServerError + unit \<Rightarrow> 'r pprog"

text \<open>
  The answers. \<open>PR_Native\<close>: the canonical workspace root, and the answers to the calls of the provider;
  \<open>PR_StoreInit\<close>: what \<open>DurableStore::initialize\<close> finds and the records that are in the directory;
  \<open>PR_Serve\<close>: when \<open>run\<close> starts and what happens until it returns.
\<close>

datatype preply =
    PR_Metadata "Metadata option"
  | PR_Bool bool
  | PR_Done
  | PR_Bytes "bytes option"
  | PR_Text "string option"
  | PR_Provision provision_calls
  | PR_Native "string option" system "nanswer list"
  | PR_StoreInit bool bool "u32 \<Rightarrow> u32 option" directory_state table
  | PR_Reconcile "answer list"
  | PR_Bind "SocketAddr option" tls_calls
  | PR_Serve instant "server_move list"

record pstate =
  ps_opened :: "string list"
  ps_store :: table
  ps_service :: "service option"

datatype pevent =
    PV_Metadata string "Metadata option"
  | PV_Open string bool
  | PV_Fstat string "Metadata option"
  | PV_ReadTake string nat "bytes option"
  | PV_Read string "bytes option"
  | PV_CurrentExe "string option"
  | PV_VarOs string "string option"
  | PV_Print string
  | PV_CompilePolicy string string string "string option"
  | PV_NativeConfig "nevent list" "NativeConfigError + NativeConfig"
  | PV_NativeRuntime NativeConfig "nevent list" bool
  | PV_Connect Endpoint bool
  | PV_StoreInit string bool
  | PV_Boundary AssetBundleIdentity
  | PV_Reconcile "event list" bool
  | PV_Bind TlsServerConfig "ServerError + SandboxTlsServer"
  | PV_Serve "sevent list" "ServerError + unit"

text \<open>A stage of the service runs to its end: the result of a program that has returned.\<close>

fun ret_value :: "'a prog \<Rightarrow> 'a option" where
  "ret_value (Ret x) = Some x"
| "ret_value _ = None"

fun nret_value :: "'r nprog \<Rightarrow> 'r option" where
  "nret_value (N_Return r) = Some r"
| "nret_value _ = None"

fun finished :: "phase \<Rightarrow> (ServerError + unit) option" where
  "finished (PH_Finished r) = Some r"
| "finished _ = None"

fun pstep :: "'x process_lib \<Rightarrow> ('r pprog, preply, pstate, pevent) stepper" where
  "pstep W (P_Return r) a s = None"
| "pstep W P_Panic a s = None"
| "pstep W (P_SymlinkMetadata path k) a s =
     (case a of PR_Metadata m \<Rightarrow> Some ([PV_Metadata path m], s, k m) | _ \<Rightarrow> None)"
| "pstep W (P_Open path k) a s =
     (case a of
        PR_Bool opened \<Rightarrow>
          if opened
          then Some ([PV_Open path True], s\<lparr>ps_opened := ps_opened s @ [path]\<rparr>, k (Some (length (ps_opened s))))
          else Some ([PV_Open path False], s, k None)
      | _ \<Rightarrow> None)"
| "pstep W (P_Fstat h k) a s =
     (case a of PR_Metadata m \<Rightarrow> Some ([PV_Fstat (ps_opened s ! h) m], s, k m) | _ \<Rightarrow> None)"
| "pstep W (P_ReadTake h limit k) a s =
     (case a of
        PR_Bytes body \<Rightarrow>
          guarded (case body of None \<Rightarrow> True | Some bytes \<Rightarrow> length bytes \<le> limit)
            ([PV_ReadTake (ps_opened s ! h) limit body], s, k body)
      | _ \<Rightarrow> None)"
| "pstep W (P_Read path k) a s = (case a of PR_Bytes body \<Rightarrow> Some ([PV_Read path body], s, k body) | _ \<Rightarrow> None)"
| "pstep W (P_CurrentExe k) a s = (case a of PR_Text path \<Rightarrow> Some ([PV_CurrentExe path], s, k path) | _ \<Rightarrow> None)"
| "pstep W (P_VarOs name k) a s = (case a of PR_Text v \<Rightarrow> Some ([PV_VarOs name v], s, k v) | _ \<Rightarrow> None)"
| "pstep W (P_Print line p) a s = (case a of PR_Done \<Rightarrow> Some ([PV_Print line], s, p) | _ \<Rightarrow> None)"
| "pstep W (P_CompilePolicy policy_document output workspace_root k) a s =
     (case a of
        PR_Provision calls \<Rightarrow>
          (case compile_native_policy (wl_platform W) (wl_native W) calls policy_document output workspace_root of
             (result, written) \<Rightarrow>
               Some ([PV_CompilePolicy policy_document output workspace_root written], s, k result))
      | _ \<Rightarrow> None)"
| "pstep W (P_NativeConfig profile sha256 root identity k) a s =
     (case a of
        PR_Native canonicalized system answers \<Rightarrow>
          (case runs nstep answers system
                  (NativeConfig_new (wl_platform W) (wl_native W) profile sha256 root canonicalized identity) of
             (evs, _, p) \<Rightarrow> map_option (\<lambda>r. ([PV_NativeConfig evs r], s, k r)) (nret_value p))
      | _ \<Rightarrow> None)"
| "pstep W (P_NativeRuntime config k) a s =
     (case a of
        PR_Native _ system answers \<Rightarrow>
          (case runs nstep answers system (NativeRuntime_new (wl_platform W) (wl_native W) config) of
             (evs, _, p) \<Rightarrow>
               map_option (\<lambda>r. ([PV_NativeRuntime config evs (is_ok r)], s, k (is_ok r))) (nret_value p))
      | _ \<Rightarrow> None)"
| "pstep W (P_Connect endpoint k) a s =
     (case a of PR_Bool ok \<Rightarrow> Some ([PV_Connect endpoint ok], s, k ok) | _ \<Rightarrow> None)"
| "pstep W (P_StoreInit path k) a s =
     (case a of
        PR_StoreInit mkdir_ok chmod_ok stat_mode dir records \<Rightarrow>
          guarded (table_invar records)
            (let initialized = is_ok (fst (DurableStore_initialize mkdir_ok chmod_ok stat_mode path dir))
             in ([PV_StoreInit path initialized], s\<lparr>ps_store := records\<rparr>, k initialized))
      | _ \<Rightarrow> None)"
| "pstep W (P_Boundary asset_bundle p) a s =
     (case a of
        PR_Done \<Rightarrow>
          Some ([PV_Boundary asset_bundle], s\<lparr>ps_service := Some (service_new asset_bundle (ps_store s))\<rparr>, p)
      | _ \<Rightarrow> None)"
| "pstep W (P_Reconcile delete_deadline wait_deadline k) a s =
     (case a of
        PR_Reconcile answers \<Rightarrow>
          Option.bind (ps_service s) (\<lambda>service.
            case run_prog answers service (reconcile_startup delete_deadline wait_deadline) of
              (evs, service1, p) \<Rightarrow>
                map_option (\<lambda>r. ([PV_Reconcile evs (is_ok r)], s\<lparr>ps_service := Some service1\<rparr>, k (is_ok r)))
                  (ret_value p))
      | _ \<Rightarrow> None)"
| "pstep W (P_Bind config k) a s =
     (case a of
        PR_Bind bound calls \<Rightarrow>
          let result = server_bind config bound calls in Some ([PV_Bind config result], s, k result)
      | _ \<Rightarrow> None)"
| "pstep W (P_Serve server k) a s =
     (case a of
        PR_Serve now moves \<Rightarrow>
          Option.bind (ps_service s) (\<lambda>service.
            if run_phase (run_start server service now) = PH_Panicked then Some ([], s, P_Panic)
            else Option.bind (server_run (wl_transport W) server moves (run_start server service now)) (\<lambda>(tr, r).
              map_option (\<lambda>result. ([PV_Serve tr result], s\<lparr>ps_service := Some (run_service r)\<rparr>, k result))
                (finished (run_phase r))))
      | _ \<Rightarrow> None)"

interpretation process: returning "pstep W" P_Return P_Panic for W :: "'x process_lib"
  by unfold_locales auto

section \<open>Following a program\<close>

text \<open>
  \<open>follows W Q E s p\<close>: \<open>Q\<close> is true at every point of \<open>p\<close> at which the process ends or is about to serve, of
  all events from the start of the process on, \<open>E\<close> being those before \<open>p\<close>.
\<close>

fun notable :: "'r pprog \<Rightarrow> bool" where
  "notable (P_Return _) = True"
| "notable P_Panic = True"
| "notable (P_Serve _ _) = True"
| "notable _ = False"

type_synonym 'r watch = "pevent list \<Rightarrow> pstate \<Rightarrow> 'r pprog \<Rightarrow> bool"

definition follows :: "'x process_lib \<Rightarrow> 'r watch \<Rightarrow> pevent list \<Rightarrow> pstate \<Rightarrow> 'r pprog \<Rightarrow> bool" where
  "follows W Q E s p \<longleftrightarrow> holds (pstep W) (\<lambda>evs s' p'. notable p' \<longrightarrow> Q (E @ evs) s' p') s p"

lemma follows_return: "Q E s (P_Return r) \<Longrightarrow> follows W Q E s (P_Return r)"
  unfolding follows_def by (subst holds_unfold) simp

lemma follows_step:
  assumes "notable p \<Longrightarrow> Q E s p"
    and "\<And>a ev s1 p1. pstep W p a s = Some (ev, s1, p1) \<Longrightarrow> follows W Q (E @ ev) s1 p1"
  shows "follows W Q E s p"
  unfolding follows_def
proof (subst holds_unfold, intro conjI allI impI)
  fix a ev s1 p1
  assume "pstep W p a s = Some (ev, s1, p1)"
  from assms(2) [OF this]
  show "holds (pstep W) (\<lambda>evs s' p'. notable p' \<longrightarrow> Q (E @ ev @ evs) s' p') s1 p1"
    by (simp add: follows_def)
qed (use assms(1) in simp)

lemma follows_reached: "follows W Q E s p \<Longrightarrow> reaches (pstep W) s p evs s' p' \<Longrightarrow> notable p' \<Longrightarrow> Q (E @ evs) s' p'"
  unfolding follows_def by (drule (1) holdsD) simp

lemma follows_concludes:
  "follows W (\<lambda>E s p. p \<noteq> P_Panic \<and> (\<forall>r. p = P_Return r \<longrightarrow> G E s r)) [] s p \<Longrightarrow>
     concludes (pstep W) P_Return P_Panic G s p"
  by (fastforce simp: concludes_def dest: follows_reached)

text \<open>One rule per action.\<close>

named_theorems follows_rules \<open>what is left to follow after each action\<close>

lemma follows_metadata [follows_rules]:
  "(\<And>m. follows W Q (E @ [PV_Metadata path m]) s (k m)) \<Longrightarrow> follows W Q E s (P_SymlinkMetadata path k)"
  by (rule follows_step) (auto split: preply.splits)

lemma follows_open [follows_rules]:
  "(\<And>h. h = length (ps_opened s) \<Longrightarrow>
      follows W Q (E @ [PV_Open path True]) (s\<lparr>ps_opened := ps_opened s @ [path]\<rparr>) (k (Some h))) \<Longrightarrow>
   follows W Q (E @ [PV_Open path False]) s (k None) \<Longrightarrow> follows W Q E s (P_Open path k)"
  by (rule follows_step) (auto split: preply.splits if_splits)

lemma follows_fstat [follows_rules]:
  "(\<And>m. follows W Q (E @ [PV_Fstat (ps_opened s ! h) m]) s (k m)) \<Longrightarrow> follows W Q E s (P_Fstat h k)"
  by (rule follows_step) (auto split: preply.splits)

lemma follows_read_take [follows_rules]:
  "(\<And>body. (case body of None \<Rightarrow> True | Some bytes \<Rightarrow> length bytes \<le> limit) \<Longrightarrow>
      follows W Q (E @ [PV_ReadTake (ps_opened s ! h) limit body]) s (k body)) \<Longrightarrow>
   follows W Q E s (P_ReadTake h limit k)"
  by (rule follows_step) (auto simp: guarded_def split: preply.splits if_splits)

lemma follows_read [follows_rules]:
  "(\<And>body. follows W Q (E @ [PV_Read path body]) s (k body)) \<Longrightarrow> follows W Q E s (P_Read path k)"
  by (rule follows_step) (auto split: preply.splits)

lemma follows_current_exe [follows_rules]:
  "(\<And>path. follows W Q (E @ [PV_CurrentExe path]) s (k path)) \<Longrightarrow> follows W Q E s (P_CurrentExe k)"
  by (rule follows_step) (auto split: preply.splits)

lemma follows_var_os [follows_rules]:
  "(\<And>v. follows W Q (E @ [PV_VarOs name v]) s (k v)) \<Longrightarrow> follows W Q E s (P_VarOs name k)"
  by (rule follows_step) (auto split: preply.splits)

lemma follows_print [follows_rules]:
  "follows W Q (E @ [PV_Print line]) s p \<Longrightarrow> follows W Q E s (P_Print line p)"
  by (rule follows_step) (auto split: preply.splits)

lemma follows_compile_policy [follows_rules]:
  "(\<And>written r. follows W Q (E @ [PV_CompilePolicy policy_document output workspace_root written]) s (k r)) \<Longrightarrow>
     follows W Q E s (P_CompilePolicy policy_document output workspace_root k)"
  by (rule follows_step) (auto split: preply.splits prod.splits)

lemma nret_value_Some [simp]: "nret_value p = Some r \<longleftrightarrow> p = N_Return r"
  by (cases p) auto

lemma ret_value_Some [simp]: "ret_value p = Some r \<longleftrightarrow> p = Ret r"
  by (cases p) auto

lemma finished_Some [simp]: "finished ph = Some r \<longleftrightarrow> ph = PH_Finished r"
  by (cases ph) auto

lemma follows_native_config [follows_rules]:
  assumes "\<And>canonicalized system evs system' r.
      reaches nstep system (NativeConfig_new (wl_platform W) (wl_native W) profile sha256 root canonicalized identity)
        evs system' (N_Return r) \<Longrightarrow> follows W Q (E @ [PV_NativeConfig evs r]) s (k r)"
  shows "follows W Q E s (P_NativeConfig profile sha256 root identity k)"
proof (rule follows_step)
  fix a ev s1 p1
  assume "pstep W (P_NativeConfig profile sha256 root identity k) a s = Some (ev, s1, p1)"
  then obtain canonicalized system answers evs system' r
    where run: "runs nstep answers system
        (NativeConfig_new (wl_platform W) (wl_native W) profile sha256 root canonicalized identity) = (evs, system', N_Return r)"
      and "ev = [PV_NativeConfig evs r]" "s1 = s" "p1 = k r"
    by (auto split: preply.splits prod.splits)
  with assms [OF runs_reaches [OF run]] show "follows W Q (E @ ev) s1 p1"
    by simp
qed simp

lemma follows_native_runtime [follows_rules]:
  assumes "\<And>system evs system' r. reaches nstep system (NativeRuntime_new (wl_platform W) (wl_native W) config) evs system' (N_Return r) \<Longrightarrow>
      follows W Q (E @ [PV_NativeRuntime config evs (is_ok r)]) s (k (is_ok r))"
  shows "follows W Q E s (P_NativeRuntime config k)"
proof (rule follows_step)
  fix a ev s1 p1
  assume "pstep W (P_NativeRuntime config k) a s = Some (ev, s1, p1)"
  then obtain system answers evs system' r
    where run: "runs nstep answers system (NativeRuntime_new (wl_platform W) (wl_native W) config) = (evs, system', N_Return r)"
      and "ev = [PV_NativeRuntime config evs (is_ok r)]" "s1 = s" "p1 = k (is_ok r)"
    by (auto split: preply.splits prod.splits)
  with assms [OF runs_reaches [OF run]] show "follows W Q (E @ ev) s1 p1"
    by simp
qed simp

lemma follows_connect [follows_rules]:
  "(\<And>ok. follows W Q (E @ [PV_Connect endpoint ok]) s (k ok)) \<Longrightarrow> follows W Q E s (P_Connect endpoint k)"
  by (rule follows_step) (auto split: preply.splits)

lemma follows_store_init [follows_rules]:
  "(\<And>records ok. table_invar records \<Longrightarrow>
      follows W Q (E @ [PV_StoreInit path ok]) (s\<lparr>ps_store := records\<rparr>) (k ok)) \<Longrightarrow>
   follows W Q E s (P_StoreInit path k)"
  by (rule follows_step) (auto simp: guarded_def Let_def split: preply.splits if_splits)

lemma follows_boundary [follows_rules]:
  "follows W Q (E @ [PV_Boundary asset_bundle])
      (s\<lparr>ps_service := Some (service_new asset_bundle (ps_store s))\<rparr>) p \<Longrightarrow>
   follows W Q E s (P_Boundary asset_bundle p)"
  by (rule follows_step) (auto split: preply.splits)

lemma follows_reconcile [follows_rules]:
  assumes "\<And>service evs service1 r. ps_service s = Some service \<Longrightarrow>
      preach service (reconcile_startup delete_deadline wait_deadline) evs service1 (Ret r) \<Longrightarrow>
      follows W Q (E @ [PV_Reconcile evs (is_ok r)]) (s\<lparr>ps_service := Some service1\<rparr>) (k (is_ok r))"
  shows "follows W Q E s (P_Reconcile delete_deadline wait_deadline k)"
proof (rule follows_step)
  fix a ev s1 p1
  assume "pstep W (P_Reconcile delete_deadline wait_deadline k) a s = Some (ev, s1, p1)"
  then obtain service answers evs service1 r where service: "ps_service s = Some service"
      and run: "run_prog answers service (reconcile_startup delete_deadline wait_deadline) = (evs, service1, Ret r)"
      and "ev = [PV_Reconcile evs (is_ok r)]" "s1 = s\<lparr>ps_service := Some service1\<rparr>" "p1 = k (is_ok r)"
    by (auto split: preply.splits prod.splits bind_splits)
  with assms [OF service runs_reaches [OF run]] show "follows W Q (E @ ev) s1 p1"
    by simp
qed simp

lemma follows_bind [follows_rules]:
  "(\<And>bound calls. follows W Q (E @ [PV_Bind config (server_bind config bound calls)]) s (k (server_bind config bound calls))) \<Longrightarrow>
     follows W Q E s (P_Bind config k)"
  by (rule follows_step) (auto simp: Let_def split: preply.splits)

lemma follows_serve:
  assumes "Q E s (P_Serve server k)"
    and "\<And>service. ps_service s = Some service \<Longrightarrow> sts_maximum_connections server \<le> MAX_PERMITS"
    and "\<And>service tr r result. ps_service s = Some service \<Longrightarrow> server_reach (wl_transport W) server service tr r \<Longrightarrow>
      run_phase r = PH_Finished result \<Longrightarrow>
      follows W Q (E @ [PV_Serve tr result]) (s\<lparr>ps_service := Some (run_service r)\<rparr>) (k result)"
  shows "follows W Q E s (P_Serve server k)"
proof (rule follows_step)
  fix a ev s1 p1
  assume step: "pstep W (P_Serve server k) a s = Some (ev, s1, p1)"
  then obtain now moves service where a: "a = PR_Serve now moves" and service: "ps_service s = Some service"
    by (auto split: preply.splits bind_splits)
  have "run_phase (run_start server service now) \<noteq> PH_Panicked"
    using assms(2) [OF service] by (simp add: run_start_def)
  with step a service obtain tr r result
    where run: "server_run (wl_transport W) server moves (run_start server service now) = Some (tr, r)"
      and "run_phase r = PH_Finished result" "ev = [PV_Serve tr result]"
          "s1 = s\<lparr>ps_service := Some (run_service r)\<rparr>" "p1 = k result"
    by (auto split: bind_splits if_splits)
  with assms(3) [OF service] server_run_reach [OF server_start run] show "follows W Q (E @ ev) s1 p1"
    by simp
qed (use assms(1) in simp)

end
