(* ===== verification/Process_Config.thy ===== *)
theory Process_Config
  imports Process_System
begin

text \<open>
  The configuration of the service process (\<^verbatim>\<open>src/src/config.rs\<close>): strict JSON, the structure that it is
  decoded to, the checks of files and directories against the owner of the process, the validation of the
  values, and \<open>load\<close>.
\<close>

section \<open>Strict JSON\<close>

datatype StrictJson =
    SJ_Null
  | SJ_Bool bool
  | SJ_Number string
  | SJ_String string
  | SJ_Array "StrictJson list"
  | SJ_Object "(string \<times> json) list"

fun into_value :: "StrictJson \<Rightarrow> json" where
  "into_value SJ_Null = J_Null"
| "into_value (SJ_Bool b) = J_Bool b"
| "into_value (SJ_Number n) = J_Number n"
| "into_value (SJ_String s) = J_String s"
| "into_value (SJ_Array vs) = J_Array (map into_value vs)"
| "into_value (SJ_Object m) = J_Object m"

definition nul :: char where "nul = CHR 0x00"

text \<open>\<open>serde_json::Number::from\<close> of an integer, as its text.\<close>

definition number_of_int :: "int \<Rightarrow> string" where
  "number_of_int n = (if n < 0 then ''-'' @ show_nat (nat (- n)) else show_nat (nat n))"

text \<open>The visitor; \<open>visit_map\<close> has the keys seen so far.\<close>

fun visit :: "raw_json \<Rightarrow> StrictJson option"
  and visit_seq :: "raw_json list \<Rightarrow> StrictJson list option"
  and visit_map :: "string list \<Rightarrow> (string \<times> raw_json) list \<Rightarrow> (string \<times> json) list option" where
  "visit RJ_Unit = Some SJ_Null"
| "visit (RJ_Bool b) = Some (SJ_Bool b)"
| "visit (RJ_I64 n) = Some (SJ_Number (number_of_int n))"
| "visit (RJ_U64 n) = Some (SJ_Number (show_nat n))"
| "visit (RJ_F64 text) = map_option SJ_Number text"
| "visit (RJ_Str s) = (if nul \<in> set s then None else Some (SJ_String s))"
| "visit (RJ_Seq vs) = map_option SJ_Array (visit_seq vs)"
| "visit (RJ_Map m) = map_option SJ_Object (visit_map [] m)"
| "visit_seq [] = Some []"
| "visit_seq (v # vs) = Option.bind (visit v) (\<lambda>x. map_option ((#) x) (visit_seq vs))"
| "visit_map keys [] = Some []"
| "visit_map keys ((key, v) # m) =
     (if nul \<in> set key \<or> key \<in> set keys then None
      else Option.bind (visit v) (\<lambda>x. map_option ((#) (key, into_value x)) (visit_map (key # keys) m)))"

text \<open>A value that the visitor lets through: every key of an object once, no NUL in a text.\<close>

fun clean_json :: "json \<Rightarrow> bool" where
  "clean_json (J_String s) \<longleftrightarrow> nul \<notin> set s"
| "clean_json (J_Array vs) \<longleftrightarrow> list_all clean_json vs"
| "clean_json (J_Object m) \<longleftrightarrow> distinct (map fst m) \<and> list_all (\<lambda>(key, v). nul \<notin> set key \<and> clean_json v) m"
| "clean_json _ \<longleftrightarrow> True"

lemma visit_clean:
  "visit raw = Some v \<Longrightarrow> clean_json (into_value v)"
  "visit_seq raws = Some vs \<Longrightarrow> list_all (\<lambda>v. clean_json (into_value v)) vs"
  "visit_map keys m = Some members \<Longrightarrow>
     distinct (map fst members) \<and> set (map fst members) \<inter> set keys = {}
     \<and> list_all (\<lambda>(key, v). nul \<notin> set key \<and> clean_json v) members"
proof (induction raw and raws and keys m arbitrary: v and vs and members rule: visit_visit_seq_visit_map.induct)
  case (12 keys key v m)
  from 12(3) obtain x z where key: "nul \<notin> set key" "key \<notin> set keys" and x: "visit v = Some x"
    and z: "visit_map (key # keys) m = Some z" and members: "members = (key, into_value x) # z"
    by (auto split: if_splits bind_splits)
  from 12(2) [OF _ x z] key
  have "distinct (map fst z) \<and> set (map fst z) \<inter> set (key # keys) = {}
     \<and> list_all (\<lambda>(key, v). nul \<notin> set key \<and> clean_json v) z"
    by simp
  moreover from 12(1) [OF _ x] key have "clean_json (into_value x)"
    by simp
  ultimately show ?case
    using key by (auto simp: members)
qed (auto simp: list_all_iff split: if_splits bind_splits)

text \<open>The documents that the visitor accepts.\<close>

fun clean_raw :: "raw_json \<Rightarrow> bool" where
  "clean_raw (RJ_F64 text) \<longleftrightarrow> text \<noteq> None"
| "clean_raw (RJ_Str s) \<longleftrightarrow> nul \<notin> set s"
| "clean_raw (RJ_Seq vs) \<longleftrightarrow> list_all clean_raw vs"
| "clean_raw (RJ_Map m) \<longleftrightarrow> distinct (map fst m) \<and> list_all (\<lambda>(key, v). nul \<notin> set key \<and> clean_raw v) m"
| "clean_raw _ \<longleftrightarrow> True"

lemma visit_accepts:
  "visit raw \<noteq> None \<longleftrightarrow> clean_raw raw"
  "visit_seq raws \<noteq> None \<longleftrightarrow> list_all clean_raw raws"
  "visit_map keys m \<noteq> None \<longleftrightarrow>
     distinct (map fst m) \<and> set (map fst m) \<inter> set keys = {} \<and> list_all (\<lambda>(key, v). nul \<notin> set key \<and> clean_raw v) m"
proof (induction raw and raws and keys m rule: visit_visit_seq_visit_map.induct)
  case (10 v vs)
  then show ?case
    by (cases "visit v") auto
next
  case (12 keys key v m)
  show ?case
  proof (cases "nul \<in> set key \<or> key \<in> set keys")
    case False
    with 12 show ?thesis
      by (cases "visit v") auto
  qed auto
qed auto

section \<open>The structure\<close>

datatype ProviderKind = PK_OpenShell | PK_Native

datatype AuthorizedRole = AR_Runtime | AR_Administrator

record AuthorizedCaller =
  auc_certificate_sha256 :: string
  auc_role :: AuthorizedRole

record ProcessConfig =
  pcf_bind_address :: SocketAddr
  pcf_server_certificate_path :: string
  pcf_server_private_key_path :: string
  pcf_client_ca_path :: string
  pcf_authorized_callers :: "AuthorizedCaller list"
  pcf_state_directory :: string
  pcf_asset_bundle :: AssetBundleIdentity
  pcf_provider :: ProviderKind
  pcf_provider_capability :: ProviderCapability
  pcf_runtime_endpoint :: "string option"
  pcf_runtime_mtls_directory :: "string option"
  pcf_runtime_connect_timeout_ms :: "u64 option"
  pcf_runtime_poll_interval_ms :: "u64 option"
  pcf_native_profile_path :: "string option"
  pcf_native_profile_sha256 :: "Sha256Digest option"
  pcf_native_workspace_root :: "string option"
  pcf_reconcile_delete_deadline_ms :: u64
  pcf_reconcile_wait_deadline_ms :: u64
  pcf_maximum_connections :: nat
  pcf_drain_timeout_ms :: u64
  pcf_allow_degraded_landlock :: bool

fun CallerRole_from :: "AuthorizedRole \<Rightarrow> CallerRole" where
  "CallerRole_from AR_Runtime = RuntimeRole"
| "CallerRole_from AR_Administrator = AdministratorRole"

text \<open>
  Serde's derived decoding. A structure is an object of known fields or an array of the leading ones in
  order; a unit variant its name, or an object from its name to null.
\<close>

definition struct_fields :: "string list \<Rightarrow> json \<Rightarrow> (string \<times> json) list option" where
  "struct_fields names value =
     (case value of
        J_Object m \<Rightarrow> if set (map fst m) \<subseteq> set names then Some m else None
      | J_Array vs \<Rightarrow> if length vs \<le> length names then Some (zip names vs) else None
      | _ \<Rightarrow> None)"

definition required :: "(json \<Rightarrow> 'a option) \<Rightarrow> (string \<times> json) list \<Rightarrow> string \<Rightarrow> 'a option" where
  "required dec m name = Option.bind (map_of m name) dec"

definition defaulted :: "'a \<Rightarrow> (json \<Rightarrow> 'a option) \<Rightarrow> (string \<times> json) list \<Rightarrow> string \<Rightarrow> 'a option" where
  "defaulted d dec m name = (case map_of m name of None \<Rightarrow> Some d | Some v \<Rightarrow> dec v)"

definition de_option :: "(json \<Rightarrow> 'a option) \<Rightarrow> json \<Rightarrow> 'a option option" where
  "de_option dec v = (if v = J_Null then Some None else map_option Some (dec v))"

definition ok_value :: "'e + 'a \<Rightarrow> 'a option" where
  "ok_value r = (case r of Inl _ \<Rightarrow> None | Inr x \<Rightarrow> Some x)"

definition de_unsigned :: "nat \<Rightarrow> json \<Rightarrow> nat option" where
  "de_unsigned bound v = Option.bind (json_as_u64 v) (\<lambda>n. if n < bound then Some n else None)"

definition de_u16 :: "json \<Rightarrow> u16 option" where "de_u16 v = map_option of_nat (de_unsigned (2 ^ 16) v)"
definition de_u64 :: "json \<Rightarrow> u64 option" where "de_u64 v = map_option of_nat (de_unsigned (2 ^ 64) v)"

definition de_list :: "(json \<Rightarrow> 'a option) \<Rightarrow> json \<Rightarrow> 'a list option" where
  "de_list dec v = Option.bind (json_as_array v) (\<lambda>vs.
     if list_all (\<lambda>x. dec x \<noteq> None) vs then Some (map (\<lambda>x. the (dec x)) vs) else None)"

fun variant_name :: "json \<Rightarrow> string option" where
  "variant_name (J_String s) = Some s"
| "variant_name (J_Object [(s, J_Null)]) = Some s"
| "variant_name _ = None"

definition de_variant :: "(string \<times> 'a) list \<Rightarrow> json \<Rightarrow> 'a option" where
  "de_variant variants v = Option.bind (variant_name v) (map_of variants)"

definition ProviderKind_deserialize :: "json \<Rightarrow> ProviderKind option" where
  "ProviderKind_deserialize = de_variant [(''openshell'', PK_OpenShell), (''native'', PK_Native)]"

definition ProviderCapability_deserialize :: "json \<Rightarrow> ProviderCapability option" where
  "ProviderCapability_deserialize = de_variant [(''attested'', Attested), (''enforced-locally'', EnforcedLocally)]"

definition AuthorizedRole_deserialize :: "json \<Rightarrow> AuthorizedRole option" where
  "AuthorizedRole_deserialize = de_variant [(''runtime'', AR_Runtime), (''administrator'', AR_Administrator)]"

definition AuthorizedCaller_deserialize :: "json \<Rightarrow> AuthorizedCaller option" where
  "AuthorizedCaller_deserialize value =
     Option.bind (struct_fields [''certificate_sha256'', ''role''] value) (\<lambda>m.
     Option.bind (required json_as_str m ''certificate_sha256'') (\<lambda>certificate_sha256.
     map_option (\<lambda>role. \<lparr>auc_certificate_sha256 = certificate_sha256, auc_role = role\<rparr>)
       (required AuthorizedRole_deserialize m ''role'')))"

definition de_sha256 :: "json \<Rightarrow> Sha256Digest option" where
  "de_sha256 v = Option.bind (json_as_str v) (\<lambda>s. ok_value (Sha256Digest_parse s))"

definition de_template :: "json \<Rightarrow> TemplateIdentity option" where
  "de_template v = Option.bind (json_as_str v) (\<lambda>s. ok_value (TemplateIdentity_new s))"

definition de_policy_identity :: "json \<Rightarrow> PolicyIdentity option" where
  "de_policy_identity value =
     Option.bind (struct_fields [''id'', ''version'', ''sha256''] value) (\<lambda>m.
     Option.bind (required json_as_str m ''id'') (\<lambda>i.
     Option.bind (required de_u64 m ''version'') (\<lambda>version.
     Option.bind (required de_sha256 m ''sha256'') (\<lambda>sha256.
       ok_value (PolicyIdentity_new i version sha256)))))"

definition de_asset_bundle :: "json \<Rightarrow> AssetBundleIdentity option" where
  "de_asset_bundle value =
     Option.bind (struct_fields [''runtime_contract_version'', ''adapter_build_sha256'', ''template'', ''policy'',
       ''compatibility_id''] value) (\<lambda>m.
     Option.bind (required de_u16 m ''runtime_contract_version'') (\<lambda>contract_version.
     Option.bind (required de_sha256 m ''adapter_build_sha256'') (\<lambda>adapter_build_sha256.
     Option.bind (required de_template m ''template'') (\<lambda>template.
     Option.bind (required de_policy_identity m ''policy'') (\<lambda>policy.
     Option.bind (required json_as_str m ''compatibility_id'') (\<lambda>compatibility_id.
       ok_value (AssetBundleIdentity_new contract_version adapter_build_sha256 template policy compatibility_id)))))))"

definition CONFIG_FIELDS :: "string list" where
  "CONFIG_FIELDS =
     [''bind_address'', ''server_certificate_path'', ''server_private_key_path'', ''client_ca_path'',
      ''authorized_callers'', ''state_directory'', ''asset_bundle'', ''provider'', ''provider_capability'',
      ''runtime_endpoint'', ''runtime_mtls_directory'', ''runtime_connect_timeout_ms'',
      ''runtime_poll_interval_ms'', ''native_profile_path'', ''native_profile_sha256'', ''native_workspace_root'',
      ''reconcile_delete_deadline_ms'', ''reconcile_wait_deadline_ms'', ''maximum_connections'',
      ''drain_timeout_ms'', ''allow_degraded_landlock'']"

definition ProcessConfig_deserialize :: "json \<Rightarrow> ProcessConfig option" where
  "ProcessConfig_deserialize value =
     Option.bind (struct_fields CONFIG_FIELDS value) (\<lambda>m.
     Option.bind (required (\<lambda>v. Option.bind (json_as_str v) parse_socket_addr) m ''bind_address'') (\<lambda>bind_address.
     Option.bind (required json_as_str m ''server_certificate_path'') (\<lambda>server_certificate_path.
     Option.bind (required json_as_str m ''server_private_key_path'') (\<lambda>server_private_key_path.
     Option.bind (required json_as_str m ''client_ca_path'') (\<lambda>client_ca_path.
     Option.bind (required (de_list AuthorizedCaller_deserialize) m ''authorized_callers'') (\<lambda>authorized_callers.
     Option.bind (required json_as_str m ''state_directory'') (\<lambda>state_directory.
     Option.bind (required de_asset_bundle m ''asset_bundle'') (\<lambda>asset_bundle.
     Option.bind (required ProviderKind_deserialize m ''provider'') (\<lambda>provider.
     Option.bind (required ProviderCapability_deserialize m ''provider_capability'') (\<lambda>provider_capability.
     Option.bind (defaulted None (de_option json_as_str) m ''runtime_endpoint'') (\<lambda>runtime_endpoint.
     Option.bind (defaulted None (de_option json_as_str) m ''runtime_mtls_directory'') (\<lambda>runtime_mtls_directory.
     Option.bind (defaulted None (de_option de_u64) m ''runtime_connect_timeout_ms'') (\<lambda>connect_timeout.
     Option.bind (defaulted None (de_option de_u64) m ''runtime_poll_interval_ms'') (\<lambda>poll_interval.
     Option.bind (defaulted None (de_option json_as_str) m ''native_profile_path'') (\<lambda>native_profile_path.
     Option.bind (defaulted None (de_option de_sha256) m ''native_profile_sha256'') (\<lambda>native_profile_sha256.
     Option.bind (defaulted None (de_option json_as_str) m ''native_workspace_root'') (\<lambda>native_workspace_root.
     Option.bind (required de_u64 m ''reconcile_delete_deadline_ms'') (\<lambda>delete_deadline.
     Option.bind (required de_u64 m ''reconcile_wait_deadline_ms'') (\<lambda>wait_deadline.
     Option.bind (required (de_unsigned (2 ^ 64)) m ''maximum_connections'') (\<lambda>maximum_connections.
     Option.bind (required de_u64 m ''drain_timeout_ms'') (\<lambda>drain_timeout.
     Option.bind (defaulted False json_as_bool m ''allow_degraded_landlock'') (\<lambda>allow_degraded_landlock.
       Some \<lparr>pcf_bind_address = bind_address, pcf_server_certificate_path = server_certificate_path,
         pcf_server_private_key_path = server_private_key_path, pcf_client_ca_path = client_ca_path,
         pcf_authorized_callers = authorized_callers, pcf_state_directory = state_directory,
         pcf_asset_bundle = asset_bundle, pcf_provider = provider,
         pcf_provider_capability = provider_capability, pcf_runtime_endpoint = runtime_endpoint,
         pcf_runtime_mtls_directory = runtime_mtls_directory, pcf_runtime_connect_timeout_ms = connect_timeout,
         pcf_runtime_poll_interval_ms = poll_interval, pcf_native_profile_path = native_profile_path,
         pcf_native_profile_sha256 = native_profile_sha256, pcf_native_workspace_root = native_workspace_root,
         pcf_reconcile_delete_deadline_ms = delete_deadline, pcf_reconcile_wait_deadline_ms = wait_deadline,
         pcf_maximum_connections = maximum_connections, pcf_drain_timeout_ms = drain_timeout,
         pcf_allow_degraded_landlock = allow_degraded_landlock\<rparr>))))))))))))))))))))))"

end
