(* ===== verification/Process_Files.thy ===== *)
theory Process_Files
  imports Process_Config
begin

text \<open>
  The rest of \<^verbatim>\<open>src/src/config.rs\<close>: the checks of files and directories, the validation of the values and
  \<open>load\<close>, as programs of system calls; what a successful \<open>load\<close> has seen.
\<close>

datatype ConfigError = ConfigError

definition MAX_CONFIG_BYTES :: nat where
  "MAX_CONFIG_BYTES = 1024 * 1024"

section \<open>Files\<close>

text \<open>\<open>Path::components\<close> of an absolute path after its root: empty parts and \<open>.\<close> are left out.\<close>

fun split_slash :: "string \<Rightarrow> string \<Rightarrow> string list" where
  "split_slash part [] = [part]"
| "split_slash part (c # cs) =
     (if c = CHR ''/'' then part # split_slash [] cs else split_slash (part @ [c]) cs)"

definition path_components :: "string \<Rightarrow> string list" where
  "path_components path = filter (\<lambda>part. part \<noteq> [] \<and> part \<noteq> ''.'') (split_slash [] path)"

primrec reject_symlinks ::
  "string \<Rightarrow> string list \<Rightarrow> (ConfigError + unit \<Rightarrow> 'r pprog) \<Rightarrow> 'r pprog" where
  "reject_symlinks current [] k = k (Ok ())"
| "reject_symlinks current (component # components) k =
     (let current1 = path_join current component in
      P_SymlinkMetadata current1 (\<lambda>metadata.
        case metadata of
          None \<Rightarrow> k (Err ConfigError)
        | Some m \<Rightarrow>
            if md_kind m = SymbolicLink then k (Err ConfigError)
            else reject_symlinks current1 components k))"

definition reject_symlink_components :: "string \<Rightarrow> (ConfigError + unit \<Rightarrow> 'r pprog) \<Rightarrow> 'r pprog" where
  "reject_symlink_components path k =
     (if \<not> is_absolute path then k (Err ConfigError) else reject_symlinks ''/'' (path_components path) k)"

text \<open>The test of \<open>open_owner_file\<close>; \<open>0o777\<close>, \<open>0o600\<close> and \<open>0o022\<close> are 511, 384 and 18.\<close>

definition owner_file :: "u32 \<Rightarrow> bool \<Rightarrow> Metadata \<Rightarrow> bool" where
  "owner_file euid private m \<longleftrightarrow>
     (let mode = md_mode m AND 511 in
      \<not> (md_kind m \<noteq> RegularFile \<or> md_uid m \<noteq> euid \<or> private \<and> mode \<noteq> 384 \<or> \<not> private \<and> mode AND 18 \<noteq> 0))"

definition open_owner_file ::
  "'x process_lib \<Rightarrow> string \<Rightarrow> bool \<Rightarrow> (ConfigError + file_handle \<Rightarrow> 'r pprog) \<Rightarrow> 'r pprog" where
  "open_owner_file W path private k =
     reject_symlink_components path (\<lambda>plain.
       case plain of
         Inl e \<Rightarrow> k (Err e)
       | Inr _ \<Rightarrow>
           P_Open path (\<lambda>descriptor.
             case descriptor of
               None \<Rightarrow> k (Err ConfigError)
             | Some h \<Rightarrow>
                 P_Fstat h (\<lambda>metadata.
                   case metadata of
                     None \<Rightarrow> k (Err ConfigError)
                   | Some m \<Rightarrow> if \<not> owner_file (wl_euid W) private m then k (Err ConfigError) else k (Ok h))))"

definition validate_owner_file ::
  "'x process_lib \<Rightarrow> string \<Rightarrow> bool \<Rightarrow> (ConfigError + unit \<Rightarrow> 'r pprog) \<Rightarrow> 'r pprog" where
  "validate_owner_file W path private k =
     open_owner_file W path private (\<lambda>opened. k (case opened of Inl e \<Rightarrow> Err e | Inr _ \<Rightarrow> Ok ()))"

definition owner_directory :: "u32 \<Rightarrow> Metadata \<Rightarrow> bool" where
  "owner_directory euid m \<longleftrightarrow>
     \<not> (md_kind m \<noteq> DirectoryFile \<or> md_uid m \<noteq> euid \<or> md_mode m AND 511 \<noteq> 448)"

definition validate_owner_directory ::
  "'x process_lib \<Rightarrow> string \<Rightarrow> (ConfigError + unit \<Rightarrow> 'r pprog) \<Rightarrow> 'r pprog" where
  "validate_owner_directory W path k =
     reject_symlink_components path (\<lambda>plain.
       case plain of
         Inl e \<Rightarrow> k (Err e)
       | Inr _ \<Rightarrow>
           P_SymlinkMetadata path (\<lambda>metadata.
             case metadata of
               None \<Rightarrow> k (Err ConfigError)
             | Some m \<Rightarrow> if \<not> owner_directory (wl_euid W) m then k (Err ConfigError) else k (Ok ())))"

section \<open>Values\<close>

definition valid_loopback_https_endpoint :: "string \<Rightarrow> bool" where
  "valid_loopback_https_endpoint value =
     (case strip_prefix ''https://'' value of
        None \<Rightarrow> False
      | Some authority \<Rightarrow>
          if authority = [] \<or> list_ex (\<lambda>c. c \<in> {CHR ''/'', CHR ''?'', CHR ''#'', CHR ''@'', nul}) authority
          then False
          else case parse_socket_addr authority of
                 None \<Rightarrow> False
               | Some address \<Rightarrow> is_loopback (sa_ip address) \<and> sa_port address \<noteq> 0)"

definition outside :: "u64 \<Rightarrow> u64 option \<Rightarrow> bool" where
  "outside maximum v = (case v of None \<Rightarrow> True | Some n \<Rightarrow> n = 0 \<or> n > maximum)"

text \<open>The tests before the first file, those of the provider, and those after it.\<close>

definition valid_transport :: "ProcessConfig \<Rightarrow> bool" where
  "valid_transport config \<longleftrightarrow>
     is_loopback (sa_ip (pcf_bind_address config)) \<and> sa_port (pcf_bind_address config) \<noteq> 0
     \<and> pcf_authorized_callers config \<noteq> [] \<and> length (pcf_authorized_callers config) \<le> 1024
     \<and> pcf_maximum_connections config \<noteq> 0 \<and> pcf_maximum_connections config \<le> 65536"

definition valid_openshell :: "ProcessConfig \<Rightarrow> bool" where
  "valid_openshell config \<longleftrightarrow>
     pcf_provider_capability config = Attested \<and> pcf_native_profile_path config = None
     \<and> pcf_native_profile_sha256 config = None \<and> pcf_native_workspace_root config = None
     \<and> (case pcf_runtime_endpoint config of None \<Rightarrow> False | Some endpoint \<Rightarrow> valid_loopback_https_endpoint endpoint)
     \<and> (case pcf_runtime_mtls_directory config of None \<Rightarrow> False | Some mtls \<Rightarrow> mtls \<noteq> [])
     \<and> \<not> outside 120000 (pcf_runtime_connect_timeout_ms config)
     \<and> \<not> outside 60000 (pcf_runtime_poll_interval_ms config)"

definition native_mismatch :: "ProcessConfig \<Rightarrow> bool" where
  "native_mismatch config \<longleftrightarrow>
     pcf_provider_capability config \<noteq> EnforcedLocally \<or> pcf_runtime_endpoint config \<noteq> None
     \<or> pcf_runtime_mtls_directory config \<noteq> None \<or> pcf_runtime_connect_timeout_ms config \<noteq> None
     \<or> pcf_runtime_poll_interval_ms config \<noteq> None"

definition valid_deadlines :: "ProcessConfig \<Rightarrow> bool" where
  "valid_deadlines config \<longleftrightarrow>
     pcf_reconcile_delete_deadline_ms config \<noteq> 0 \<and> \<not> pcf_reconcile_delete_deadline_ms config > 120000
     \<and> pcf_reconcile_wait_deadline_ms config \<noteq> 0 \<and> \<not> pcf_reconcile_wait_deadline_ms config > 120000
     \<and> pcf_drain_timeout_ms config \<noteq> 0 \<and> \<not> pcf_drain_timeout_ms config > 120000"

text \<open>Checks in order, up to the first that fails.\<close>

primrec in_order ::
  "((ConfigError + unit \<Rightarrow> 'r pprog) \<Rightarrow> 'r pprog) list \<Rightarrow> (ConfigError + unit \<Rightarrow> 'r pprog) \<Rightarrow> 'r pprog" where
  "in_order [] k = k (Ok ())"
| "in_order (check # checks) k = check (\<lambda>r. case r of Inl e \<Rightarrow> k (Err e) | Inr _ \<Rightarrow> in_order checks k)"

definition validate_provider ::
  "'x process_lib \<Rightarrow> ProcessConfig \<Rightarrow> (ConfigError + unit \<Rightarrow> 'r pprog) \<Rightarrow> 'r pprog" where
  "validate_provider W config k =
     (case pcf_provider config of
        PK_OpenShell \<Rightarrow> k (if valid_openshell config then Ok () else Err ConfigError)
      | PK_Native \<Rightarrow>
          if native_mismatch config then k (Err ConfigError)
          else (case (pcf_native_profile_path config, pcf_native_workspace_root config) of
                  (Some profile, Some workspace_root) \<Rightarrow>
                    if pcf_native_profile_sha256 config = None \<or> workspace_root = [] then k (Err ConfigError)
                    else in_order [validate_owner_file W profile True, validate_owner_directory W workspace_root] k
                | _ \<Rightarrow> k (Err ConfigError)))"

definition config_checks ::
  "'x process_lib \<Rightarrow> ProcessConfig \<Rightarrow> ((ConfigError + unit \<Rightarrow> 'r pprog) \<Rightarrow> 'r pprog) list" where
  "config_checks W config =
     [validate_owner_file W (pcf_server_certificate_path config) False,
      validate_owner_file W (pcf_server_private_key_path config) True,
      validate_owner_file W (pcf_client_ca_path config) False,
      validate_owner_directory W (pcf_state_directory config)] @
     (case pcf_runtime_mtls_directory config of
        None \<Rightarrow> [] | Some directory \<Rightarrow> [validate_owner_directory W directory])"

definition validate_config ::
  "'x process_lib \<Rightarrow> ProcessConfig \<Rightarrow> (ConfigError + unit \<Rightarrow> 'r pprog) \<Rightarrow> 'r pprog" where
  "validate_config W config k =
     (if \<not> valid_transport config then k (Err ConfigError)
      else validate_provider W config (\<lambda>provider.
        case provider of
          Inl e \<Rightarrow> k (Err e)
        | Inr _ \<Rightarrow>
            if \<not> valid_deadlines config then k (Err ConfigError)
            else in_order (config_checks W config) k))"

definition decode_config :: "'x process_lib \<Rightarrow> bytes \<Rightarrow> ProcessConfig option" where
  "decode_config W body =
     Option.bind (wl_json W body) (\<lambda>raw.
     Option.bind (visit raw) (\<lambda>strict. ProcessConfig_deserialize (into_value strict)))"

definition load :: "'x process_lib \<Rightarrow> string \<Rightarrow> (ConfigError + ProcessConfig \<Rightarrow> 'r pprog) \<Rightarrow> 'r pprog" where
  "load W path k =
     open_owner_file W path True (\<lambda>opened.
       case opened of
         Inl e \<Rightarrow> k (Err e)
       | Inr h \<Rightarrow>
           P_Fstat h (\<lambda>metadata.
             case metadata of
               None \<Rightarrow> k (Err ConfigError)
             | Some m \<Rightarrow>
                 if md_len m = 0 \<or> MAX_CONFIG_BYTES < unat (md_len m) then k (Err ConfigError)
                 else P_ReadTake h (MAX_CONFIG_BYTES + 1) (\<lambda>content.
                   case content of
                     None \<Rightarrow> k (Err ConfigError)
                   | Some body \<Rightarrow>
                       if length body \<noteq> unat (md_len m) then k (Err ConfigError)
                       else case decode_config W body of
                              None \<Rightarrow> k (Err ConfigError)
                            | Some config \<Rightarrow>
                                validate_config W config (\<lambda>valid.
                                  k (case valid of Inl e \<Rightarrow> Err e | Inr _ \<Rightarrow> Ok config)))))"

section \<open>Evidence\<close>

text \<open>The paths that a walk along the components visits.\<close>

primrec visited :: "string \<Rightarrow> string list \<Rightarrow> string list" where
  "visited current [] = []"
| "visited current (component # components) =
     path_join current component # visited (path_join current component) components"

definition no_symlinks :: "pevent list \<Rightarrow> string \<Rightarrow> bool" where
  "no_symlinks E path \<longleftrightarrow> is_absolute path \<and>
     (\<forall>current \<in> set (visited ''/'' (path_components path)).
        \<exists>m. PV_Metadata current (Some m) \<in> set E \<and> md_kind m \<noteq> SymbolicLink)"

definition seen_owner_file :: "'x process_lib \<Rightarrow> pevent list \<Rightarrow> bool \<Rightarrow> string \<Rightarrow> bool" where
  "seen_owner_file W E private path \<longleftrightarrow> no_symlinks E path \<and>
     (\<exists>m. PV_Fstat path (Some m) \<in> set E \<and> owner_file (wl_euid W) private m)"

definition seen_owner_directory :: "'x process_lib \<Rightarrow> pevent list \<Rightarrow> string \<Rightarrow> bool" where
  "seen_owner_directory W E path \<longleftrightarrow> no_symlinks E path \<and>
     (\<exists>m. PV_Metadata path (Some m) \<in> set E \<and> owner_directory (wl_euid W) m)"

definition seen_provider :: "'x process_lib \<Rightarrow> pevent list \<Rightarrow> ProcessConfig \<Rightarrow> bool" where
  "seen_provider W E config \<longleftrightarrow>
     (case pcf_provider config of
        PK_OpenShell \<Rightarrow> valid_openshell config
      | PK_Native \<Rightarrow> \<not> native_mismatch config \<and> pcf_native_profile_sha256 config \<noteq> None
          \<and> (\<exists>profile workspace_root. pcf_native_profile_path config = Some profile
               \<and> pcf_native_workspace_root config = Some workspace_root
               \<and> seen_owner_file W E True profile \<and> seen_owner_directory W E workspace_root))"

definition seen_config :: "'x process_lib \<Rightarrow> pevent list \<Rightarrow> ProcessConfig \<Rightarrow> bool" where
  "seen_config W E config \<longleftrightarrow>
     valid_transport config \<and> seen_provider W E config \<and> valid_deadlines config
     \<and> seen_owner_file W E False (pcf_server_certificate_path config)
     \<and> seen_owner_file W E True (pcf_server_private_key_path config)
     \<and> seen_owner_file W E False (pcf_client_ca_path config)
     \<and> seen_owner_directory W E (pcf_state_directory config)
     \<and> (\<forall>directory. pcf_runtime_mtls_directory config = Some directory \<longrightarrow> seen_owner_directory W E directory)"

definition loaded_from :: "'x process_lib \<Rightarrow> pevent list \<Rightarrow> string \<Rightarrow> ProcessConfig \<Rightarrow> bool" where
  "loaded_from W E path config \<longleftrightarrow>
     seen_owner_file W E True path
     \<and> (\<exists>limit body. PV_ReadTake path limit (Some body) \<in> set E \<and> length body \<le> MAX_CONFIG_BYTES
          \<and> decode_config W body = Some config)
     \<and> seen_config W E config"

lemma seen_mono:
  assumes "set E \<subseteq> set E'"
  shows "no_symlinks E path \<Longrightarrow> no_symlinks E' path"
    and "seen_owner_file W E private path \<Longrightarrow> seen_owner_file W E' private path"
    and "seen_owner_directory W E path \<Longrightarrow> seen_owner_directory W E' path"
    and "seen_provider W E config \<Longrightarrow> seen_provider W E' config"
proof -
  show 1: "no_symlinks E path \<Longrightarrow> no_symlinks E' path" for path
    using assms unfolding no_symlinks_def by blast
  show 2: "seen_owner_file W E b path \<Longrightarrow> seen_owner_file W E' b path" for b path
    using assms 1 unfolding seen_owner_file_def by blast
  show 3: "seen_owner_directory W E path \<Longrightarrow> seen_owner_directory W E' path" for path
    using assms 1 unfolding seen_owner_directory_def by blast
  show "seen_provider W E config \<Longrightarrow> seen_provider W E' config"
    using 2 3 unfolding seen_provider_def by (auto split: ProviderKind.splits)
qed

text \<open>What follows each check: its evidence, with further file events and the same service.\<close>

fun file_event :: "pevent \<Rightarrow> bool" where
  "file_event (PV_Metadata _ _) = True"
| "file_event (PV_Open _ _) = True"
| "file_event (PV_Fstat _ _) = True"
| "file_event (PV_ReadTake _ _ _) = True"
| "file_event _ = False"

definition later :: "pevent list \<Rightarrow> pstate \<Rightarrow> pevent list \<Rightarrow> pstate \<Rightarrow> bool" where
  "later E s E' s' \<longleftrightarrow>
     (\<exists>ev. E' = E @ ev \<and> list_all file_event ev) \<and> ps_store s' = ps_store s \<and> ps_service s' = ps_service s"

lemma later_refl [simp]: "later E s E s"
  by (simp add: later_def)

lemma later_trans: "later E s E' s' \<Longrightarrow> later E' s' E'' s'' \<Longrightarrow> later E s E'' s''"
  by (auto simp: later_def)

lemma later_set: "later E s E' s' \<Longrightarrow> set E \<subseteq> set E'"
  by (auto simp: later_def)

lemma later_events [simp]:
  "list_all file_event ev \<Longrightarrow> later E s (E @ ev) s"
  "list_all file_event ev \<Longrightarrow> later E s (E @ ev) (s\<lparr>ps_opened := opened\<rparr>)"
  by (simp_all add: later_def)

lemma follows_reject_symlinks:
  assumes "\<And>E' s'. later E s E' s' \<Longrightarrow> \<forall>current \<in> set (visited here components).
        \<exists>m. PV_Metadata current (Some m) \<in> set E' \<and> md_kind m \<noteq> SymbolicLink \<Longrightarrow> follows W Q E' s' (k (Ok ()))"
    and "\<And>E' s' e. later E s E' s' \<Longrightarrow> follows W Q E' s' (k (Err e))"
  shows "follows W Q E s (reject_symlinks here components k)"
  using assms
proof (induction components arbitrary: here E)
  case (Cons component components)
  let ?here = "path_join here component"
  show ?case
    unfolding reject_symlinks.simps Let_def
  proof (rule follows_metadata)
    fix metadata
    let ?E = "E @ [PV_Metadata ?here metadata]"
    have failed: "follows W Q ?E s (k (Err e))" for e
      using Cons.prems(2) by simp
    show "follows W Q ?E s (case metadata of None \<Rightarrow> k (Err ConfigError)
        | Some m \<Rightarrow> if md_kind m = SymbolicLink then k (Err ConfigError) else reject_symlinks ?here components k)"
    proof (cases metadata)
      case (Some m)
      have "follows W Q ?E s (reject_symlinks ?here components k)" if "md_kind m \<noteq> SymbolicLink"
      proof (rule Cons.IH)
        fix E' s'
        assume later: "later ?E s E' s'" and rest: "\<forall>current \<in> set (visited ?here components).
          \<exists>m. PV_Metadata current (Some m) \<in> set E' \<and> md_kind m \<noteq> SymbolicLink"
        have "PV_Metadata ?here (Some m) \<in> set E'"
          using later_set [OF later] Some by auto
        with rest that have "\<forall>current \<in> set (visited here (component # components)).
            \<exists>m. PV_Metadata current (Some m) \<in> set E' \<and> md_kind m \<noteq> SymbolicLink"
          by auto
        from Cons.prems(1) [OF later_trans [OF _ later] this] show "follows W Q E' s' (k (Ok ()))"
          by simp
      next
        fix E' s' e
        assume "later ?E s E' s'"
        from Cons.prems(2) [OF later_trans [OF _ this]] show "follows W Q E' s' (k (Err e))"
          by simp
      qed
      with failed Some show ?thesis
        by simp
    qed (use failed in simp)
  qed
qed simp

lemma follows_no_symlinks:
  assumes "\<And>E' s'. later E s E' s' \<Longrightarrow> no_symlinks E' path \<Longrightarrow> follows W Q E' s' (k (Ok ()))"
    and "\<And>E' s' e. later E s E' s' \<Longrightarrow> follows W Q E' s' (k (Err e))"
  shows "follows W Q E s (reject_symlink_components path k)"
  using assms by (auto simp: reject_symlink_components_def no_symlinks_def intro!: follows_reject_symlinks)

lemma follows_open_owner_file:
  assumes "\<And>E' s' h. later E s E' s' \<Longrightarrow> seen_owner_file W E' private path \<Longrightarrow> ps_opened s' ! h = path \<Longrightarrow>
      follows W Q E' s' (k (Ok h))"
    and "\<And>E' s' e. later E s E' s' \<Longrightarrow> follows W Q E' s' (k (Err e))"
  shows "follows W Q E s (open_owner_file W path private k)"
  unfolding open_owner_file_def
proof (rule follows_no_symlinks)
  fix E' s'
  assume later: "later E s E' s'" and plain: "no_symlinks E' path"
  have failed: "later E' s' E'' s'' \<Longrightarrow> follows W Q E'' s'' (k (Err e))" for E'' s'' e
    by (rule assms(2) [OF later_trans [OF later]])
  let ?s = "s'\<lparr>ps_opened := ps_opened s' @ [path]\<rparr>"
  have opened: "follows W Q (E' @ [PV_Open path True, PV_Fstat path (Some m)]) ?s (k (Ok (length (ps_opened s'))))"
    if "owner_file (wl_euid W) private m" for m
  proof (rule assms(1))
    show "later E s (E' @ [PV_Open path True, PV_Fstat path (Some m)]) ?s"
      by (rule later_trans [OF later]) simp
    have "no_symlinks (E' @ [PV_Open path True, PV_Fstat path (Some m)]) path"
      by (rule seen_mono(1) [OF _ plain]) auto
    with that show "seen_owner_file W (E' @ [PV_Open path True, PV_Fstat path (Some m)]) private path"
      by (auto simp: seen_owner_file_def)
  qed simp
  show "follows W Q E' s' (case Ok () of Inl e \<Rightarrow> k (Err e) | Inr _ \<Rightarrow>
      P_Open path (\<lambda>descriptor. case descriptor of None \<Rightarrow> k (Err ConfigError)
        | Some h \<Rightarrow> P_Fstat h (\<lambda>metadata. case metadata of None \<Rightarrow> k (Err ConfigError)
            | Some m \<Rightarrow> if \<not> owner_file (wl_euid W) private m then k (Err ConfigError) else k (Ok h))))"
    using opened by (auto intro!: follows_open follows_fstat failed split: option.splits)
next
  fix E' s' e
  assume "later E s E' s'"
  then show "follows W Q E' s' (case Err e of Inl e \<Rightarrow> k (Err e) | Inr _ \<Rightarrow>
      P_Open path (\<lambda>descriptor. case descriptor of None \<Rightarrow> k (Err ConfigError)
        | Some h \<Rightarrow> P_Fstat h (\<lambda>metadata. case metadata of None \<Rightarrow> k (Err ConfigError)
            | Some m \<Rightarrow> if \<not> owner_file (wl_euid W) private m then k (Err ConfigError) else k (Ok h))))"
    using assms(2) by simp
qed

text \<open>\<open>secures W check P\<close>: when the check succeeds, \<open>P\<close> is true of the events so far.\<close>

definition secures ::
  "'x process_lib \<Rightarrow> ((ConfigError + unit \<Rightarrow> 'r pprog) \<Rightarrow> 'r pprog) \<Rightarrow> (pevent list \<Rightarrow> bool) \<Rightarrow> bool" where
  "secures W check P \<longleftrightarrow> (\<forall>Q E s k.
     (\<forall>E' s'. later E s E' s' \<longrightarrow> P E' \<longrightarrow> follows W Q E' s' (k (Ok ()))) \<longrightarrow>
     (\<forall>E' s' e. later E s E' s' \<longrightarrow> follows W Q E' s' (k (Err e))) \<longrightarrow> follows W Q E s (check k))"

definition lasting :: "(pevent list \<Rightarrow> bool) \<Rightarrow> bool" where
  "lasting P \<longleftrightarrow> (\<forall>E E'. set E \<subseteq> set E' \<longrightarrow> P E \<longrightarrow> P E')"

lemma securesI:
  assumes "\<And>Q E s k. (\<And>E' s'. later E s E' s' \<Longrightarrow> P E' \<Longrightarrow> follows W Q E' s' (k (Ok ()))) \<Longrightarrow>
      (\<And>E' s' e. later E s E' s' \<Longrightarrow> follows W Q E' s' (k (Err e))) \<Longrightarrow> follows W Q E s (check k)"
  shows "secures W check P"
  using assms unfolding secures_def by blast

lemma securesD:
  assumes "secures W check P"
    and "\<And>E' s'. later E s E' s' \<Longrightarrow> P E' \<Longrightarrow> follows W Q E' s' (k (Ok ()))"
    and "\<And>E' s' e. later E s E' s' \<Longrightarrow> follows W Q E' s' (k (Err e))"
  shows "follows W Q E s (check k)"
  using assms unfolding secures_def by blast

lemma lasting_seen [simp]:
  "lasting (\<lambda>E. seen_owner_file W E b path)" "lasting (\<lambda>E. seen_owner_directory W E path)"
  "lasting (\<lambda>E. seen_provider W E config)"
  by (auto simp: lasting_def dest: seen_mono)

lemma secures_owner_file: "secures W (validate_owner_file W path b) (\<lambda>E. seen_owner_file W E b path)"
  by (rule securesI) (auto simp: validate_owner_file_def intro!: follows_open_owner_file)

lemma secures_owner_directory: "secures W (validate_owner_directory W path) (\<lambda>E. seen_owner_directory W E path)"
proof (rule securesI)
  fix Q E s and k :: "ConfigError + unit \<Rightarrow> 'r pprog"
  assume passed: "\<And>E' s'. later E s E' s' \<Longrightarrow> seen_owner_directory W E' path \<Longrightarrow> follows W Q E' s' (k (Ok ()))"
    and failed: "\<And>E' s' e. later E s E' s' \<Longrightarrow> follows W Q E' s' (k (Err e))"
  show "follows W Q E s (validate_owner_directory W path k)"
    unfolding validate_owner_directory_def
  proof (rule follows_no_symlinks)
    fix E' s'
    assume later: "later E s E' s'" and plain: "no_symlinks E' path"
    have "follows W Q (E' @ [PV_Metadata path (Some m)]) s' (k (Ok ()))" if "owner_directory (wl_euid W) m" for m
    proof (rule passed)
      have "no_symlinks (E' @ [PV_Metadata path (Some m)]) path"
        by (rule seen_mono(1) [OF _ plain]) auto
      with that show "seen_owner_directory W (E' @ [PV_Metadata path (Some m)]) path"
        by (auto simp: seen_owner_directory_def)
    qed (rule later_trans [OF later], simp)
    moreover have "follows W Q (E' @ [PV_Metadata path m]) s' (k (Err e))" for m e
      by (rule failed [OF later_trans [OF later]]) simp
    ultimately show "follows W Q E' s' (case Ok () of Inl e \<Rightarrow> k (Err e) | Inr _ \<Rightarrow>
        P_SymlinkMetadata path (\<lambda>metadata. case metadata of None \<Rightarrow> k (Err ConfigError)
          | Some m \<Rightarrow> if \<not> owner_directory (wl_euid W) m then k (Err ConfigError) else k (Ok ())))"
      by (auto intro!: follows_metadata split: option.splits)
  qed (simp add: failed)
qed

lemma secures_in_order:
  assumes "list_all2 (secures W) checks Ps" and "list_all lasting Ps"
  shows "secures W (in_order checks) (\<lambda>E. list_all (\<lambda>P. P E) Ps)"
  using assms
proof (induction rule: list_all2_induct)
  case Nil
  show ?case
    by (rule securesI) simp
next
  case (Cons check checks P Ps)
  show ?case
  proof (rule securesI)
    fix Q E s and k :: "ConfigError + unit \<Rightarrow> 'a pprog"
    assume passed: "\<And>E' s'. later E s E' s' \<Longrightarrow> list_all (\<lambda>P. P E') (P # Ps) \<Longrightarrow> follows W Q E' s' (k (Ok ()))"
      and failed: "\<And>E' s' e. later E s E' s' \<Longrightarrow> follows W Q E' s' (k (Err e))"
    show "follows W Q E s (in_order (check # checks) k)"
      unfolding in_order.simps
    proof (rule securesD [OF Cons.hyps(1)])
      fix E' s'
      assume later: "later E s E' s'" and P: "P E'"
      have "follows W Q E' s' (in_order checks k)"
      proof (rule securesD [OF Cons.IH])
        fix E'' s''
        assume later': "later E' s' E'' s''" and Ps: "list_all (\<lambda>P. P E'') Ps"
        have "P E''"
          using Cons.prems P later_set [OF later'] by (auto simp: lasting_def)
        with Ps show "follows W Q E'' s'' (k (Ok ()))"
          by (intro passed later_trans [OF later later']) simp
      next
        fix E'' s'' e
        assume "later E' s' E'' s''"
        from failed [OF later_trans [OF later this]] show "follows W Q E'' s'' (k (Err e))" .
      qed (use Cons.prems in simp)
      then show "follows W Q E' s' (case Ok () of Inl e \<Rightarrow> k (Err e) | Inr _ \<Rightarrow> in_order checks k)"
        by simp
    qed (simp add: failed)
  qed
qed

lemma secures_provider: "secures W (validate_provider W config) (\<lambda>E. seen_provider W E config)"
proof (cases "pcf_provider config")
  case PK_OpenShell
  then show ?thesis
    by (intro securesI) (auto simp: validate_provider_def seen_provider_def)
next
  case PK_Native
  show ?thesis
  proof (cases "\<exists>profile workspace_root. pcf_native_profile_path config = Some profile
      \<and> pcf_native_workspace_root config = Some workspace_root \<and> \<not> native_mismatch config
      \<and> pcf_native_profile_sha256 config \<noteq> None \<and> workspace_root \<noteq> []")
    case True
    then obtain profile workspace_root where paths: "pcf_native_profile_path config = Some profile"
        "pcf_native_workspace_root config = Some workspace_root"
      and rest: "\<not> native_mismatch config" "pcf_native_profile_sha256 config \<noteq> None" "workspace_root \<noteq> []"
      by blast
    let ?checks = "[validate_owner_file W profile True, validate_owner_directory W workspace_root]
       :: ((ConfigError + unit \<Rightarrow> 'b pprog) \<Rightarrow> 'b pprog) list"
    have "secures W (in_order ?checks)
        (\<lambda>E. list_all (\<lambda>P. P E) [\<lambda>E. seen_owner_file W E True profile, \<lambda>E. seen_owner_directory W E workspace_root])"
      by (rule secures_in_order) (simp_all add: secures_owner_file secures_owner_directory)
    moreover have "validate_provider W config = in_order ?checks"
      using PK_Native paths rest by (intro ext) (auto simp: validate_provider_def)
    moreover have "seen_provider W E config \<longleftrightarrow> seen_owner_file W E True profile \<and> seen_owner_directory W E workspace_root" for E
      using PK_Native paths rest by (simp add: seen_provider_def)
    ultimately show ?thesis
      by simp
  next
    case False
    then have "validate_provider W config k = k (Err ConfigError)" for k :: "ConfigError + unit \<Rightarrow> 'b pprog"
      using PK_Native by (auto simp: validate_provider_def split: option.splits)
    then show ?thesis
      by (intro securesI) simp
  qed
qed

lemma secures_config: "secures W (validate_config W config) (\<lambda>E. seen_config W E config)"
proof (rule securesI)
  fix Q E s and k :: "ConfigError + unit \<Rightarrow> 'b pprog"
  assume passed: "\<And>E' s'. later E s E' s' \<Longrightarrow> seen_config W E' config \<Longrightarrow> follows W Q E' s' (k (Ok ()))"
    and failed: "\<And>E' s' e. later E s E' s' \<Longrightarrow> follows W Q E' s' (k (Err e))"
  let ?Ps = "[\<lambda>E. seen_owner_file W E False (pcf_server_certificate_path config),
      \<lambda>E. seen_owner_file W E True (pcf_server_private_key_path config),
      \<lambda>E. seen_owner_file W E False (pcf_client_ca_path config),
      \<lambda>E. seen_owner_directory W E (pcf_state_directory config)] @
    (case pcf_runtime_mtls_directory config of None \<Rightarrow> []
      | Some directory \<Rightarrow> [\<lambda>E. seen_owner_directory W E directory])"
  have checks: "secures W (in_order (config_checks W config)) (\<lambda>E. list_all (\<lambda>P. P E) ?Ps)"
    by (rule secures_in_order)
      (auto simp: config_checks_def secures_owner_file secures_owner_directory split: option.splits)
  show "follows W Q E s (validate_config W config k)"
  proof (cases "valid_transport config")
    case True
    have "follows W Q E s (validate_provider W config (\<lambda>provider. case provider of Inl e \<Rightarrow> k (Err e) | Inr _ \<Rightarrow>
        if \<not> valid_deadlines config then k (Err ConfigError) else in_order (config_checks W config) k))"
    proof (rule securesD [OF secures_provider])
      fix E' s'
      assume later: "later E s E' s'" and provider: "seen_provider W E' config"
      have "follows W Q E' s' (in_order (config_checks W config) k)" if deadlines: "valid_deadlines config"
      proof (rule securesD [OF checks])
        fix E'' s''
        assume later': "later E' s' E'' s''" and Ps: "list_all (\<lambda>P. P E'') ?Ps"
        from seen_mono(4) [OF later_set [OF later'] provider] Ps True deadlines
        show "follows W Q E'' s'' (k (Ok ()))"
          by (intro passed later_trans [OF later later']) (auto simp: seen_config_def split: option.splits)
      next
        fix E'' s'' e
        assume "later E' s' E'' s''"
        from failed [OF later_trans [OF later this]] show "follows W Q E'' s'' (k (Err e))" .
      qed
      with failed [OF later] show "follows W Q E' s' (case Ok () of Inl e \<Rightarrow> k (Err e) | Inr _ \<Rightarrow>
          if \<not> valid_deadlines config then k (Err ConfigError) else in_order (config_checks W config) k)"
        by simp
    qed (simp add: failed)
    with True show ?thesis
      by (simp add: validate_config_def)
  qed (simp add: validate_config_def failed)
qed

lemma follows_load:
  assumes passed: "\<And>E' s' config. later E s E' s' \<Longrightarrow> loaded_from W E' path config \<Longrightarrow> follows W Q E' s' (k (Ok config))"
    and failed: "\<And>E' s' e. later E s E' s' \<Longrightarrow> follows W Q E' s' (k (Err e))"
  shows "follows W Q E s (load W path k)"
  unfolding load_def
proof (rule follows_open_owner_file)
  fix E' s' h
  assume later: "later E s E' s'" and opened: "seen_owner_file W E' True path" and h: "ps_opened s' ! h = path"
  have failed': "later E' s' E'' s'' \<Longrightarrow> follows W Q E'' s'' (k (Err e))" for E'' s'' e
    by (rule failed [OF later_trans [OF later]])
  have body: "follows W Q (E' @ [PV_Fstat path (Some m), PV_ReadTake path (MAX_CONFIG_BYTES + 1) (Some body)]) s'
      (validate_config W config (\<lambda>valid. k (case valid of Inl e \<Rightarrow> Err e | Inr _ \<Rightarrow> Ok config)))"
      (is "follows W Q ?E s' _")
    if "decode_config W body = Some config" and "length body \<le> MAX_CONFIG_BYTES" for m body config
  proof (rule securesD [OF secures_config])
    fix E'' s''
    assume later': "later ?E s' E'' s''" and config: "seen_config W E'' config"
    have "later E' s' E'' s''"
      by (rule later_trans [OF _ later']) simp
    moreover have "set ?E \<subseteq> set E''"
      by (rule later_set [OF later'])
    ultimately have "loaded_from W E'' path config"
      using that config seen_mono(2) [OF later_set opened] unfolding loaded_from_def by auto
    from passed [OF later_trans [OF later \<open>later E' s' E'' s''\<close>] this]
    show "follows W Q E'' s'' (k (case Ok () of Inl e \<Rightarrow> Err e | Inr _ \<Rightarrow> Ok config))"
      by simp
  next
    fix E'' s'' e
    assume later': "later ?E s' E'' s''"
    have "later E' s' E'' s''"
      by (rule later_trans [OF _ later']) simp
    from failed' [OF this] show "follows W Q E'' s'' (k (case Err e of Inl e \<Rightarrow> Err e | Inr _ \<Rightarrow> Ok config))"
      by simp
  qed
  show "follows W Q E' s' (case Ok h of Inl e \<Rightarrow> k (Err e) | Inr h \<Rightarrow>
      P_Fstat h (\<lambda>metadata. case metadata of None \<Rightarrow> k (Err ConfigError)
        | Some m \<Rightarrow> if md_len m = 0 \<or> MAX_CONFIG_BYTES < unat (md_len m) then k (Err ConfigError)
            else P_ReadTake h (MAX_CONFIG_BYTES + 1) (\<lambda>content. case content of None \<Rightarrow> k (Err ConfigError)
              | Some body \<Rightarrow> if length body \<noteq> unat (md_len m) then k (Err ConfigError)
                  else case decode_config W body of None \<Rightarrow> k (Err ConfigError)
                    | Some config \<Rightarrow> validate_config W config (\<lambda>valid. k (case valid of Inl e \<Rightarrow> Err e | Inr _ \<Rightarrow> Ok config)))))"
    using body by (auto simp: h not_less intro!: follows_fstat follows_read_take failed' split: option.splits)
qed (simp add: failed)

end
