(* ===== verification/OpenShell_Connect.thy ===== *)
theory OpenShell_Connect
  imports Process_Files
begin

text \<open>
  The channel of the OpenShell provider (\<^verbatim>\<open>src/src/openshell/config.rs\<close>, \<^verbatim>\<open>error.rs\<close>, \<open>connect\<close> of
  \<^verbatim>\<open>mod.rs\<close>): its checked configuration, the credential files and the connection.
\<close>

section \<open>Configuration\<close>

datatype OpenShellConnectErrorCode = OC_InvalidConfiguration | OC_CredentialRead | OC_TransportConfiguration | OC_Connect

record OpenShellConnectError =
  oce_code :: OpenShellConnectErrorCode

definition OpenShellConnectError_new :: "OpenShellConnectErrorCode \<Rightarrow> OpenShellConnectError" where
  "OpenShellConnectError_new code = \<lparr>oce_code = code\<rparr>"

definition DEFAULT_CONNECT_TIMEOUT :: duration where "DEFAULT_CONNECT_TIMEOUT = secs 10"
definition DEFAULT_POLL_INTERVAL :: duration where "DEFAULT_POLL_INTERVAL = millis 250"

record OpenShellConfig =
  osc_endpoint :: string
  osc_mtls_directory :: string
  osc_connect_timeout :: duration
  osc_poll_interval :: duration
  osc_allow_degraded_landlock :: bool
  osc_allow_insecure_gateway :: bool

definition OpenShellConfig_new :: "string \<Rightarrow> string \<Rightarrow> OpenShellConnectError + OpenShellConfig" where
  "OpenShellConfig_new endpoint mtls_directory =
     (if endpoint = [] \<or> mtls_directory = [] then Err (OpenShellConnectError_new OC_InvalidConfiguration)
      else Ok \<lparr>osc_endpoint = endpoint, osc_mtls_directory = mtls_directory,
             osc_connect_timeout = DEFAULT_CONNECT_TIMEOUT, osc_poll_interval = DEFAULT_POLL_INTERVAL,
             osc_allow_degraded_landlock = False, osc_allow_insecure_gateway = False\<rparr>)"

definition with_degraded_landlock :: "bool \<Rightarrow> OpenShellConfig \<Rightarrow> OpenShellConfig" where
  "with_degraded_landlock allow config = config\<lparr>osc_allow_degraded_landlock := allow\<rparr>"

definition with_insecure_gateway :: "bool \<Rightarrow> OpenShellConfig \<Rightarrow> OpenShellConfig" where
  "with_insecure_gateway allow config = config\<lparr>osc_allow_insecure_gateway := allow\<rparr>"

definition with_connect_timeout :: "duration \<Rightarrow> OpenShellConfig \<Rightarrow> OpenShellConnectError + OpenShellConfig" where
  "with_connect_timeout timeout config =
     (if timeout = 0 then Err (OpenShellConnectError_new OC_InvalidConfiguration)
      else Ok (config\<lparr>osc_connect_timeout := timeout\<rparr>))"

definition with_poll_interval :: "duration \<Rightarrow> OpenShellConfig \<Rightarrow> OpenShellConnectError + OpenShellConfig" where
  "with_poll_interval interval config =
     (if interval = 0 then Err (OpenShellConnectError_new OC_InvalidConfiguration)
      else Ok (config\<lparr>osc_poll_interval := interval\<rparr>))"

section \<open>Credentials\<close>

definition MAX_CREDENTIAL_BYTES :: nat where
  "MAX_CREDENTIAL_BYTES = 1024 * 1024"

definition credential_directory :: "u32 \<Rightarrow> string \<Rightarrow> Metadata \<Rightarrow> bool" where
  "credential_directory euid directory m \<longleftrightarrow>
     \<not> (\<not> is_absolute directory \<or> md_kind m = SymbolicLink \<or> md_kind m \<noteq> DirectoryFile \<or> md_uid m \<noteq> euid
        \<or> md_mode m AND 511 \<noteq> 448)"

definition validate_credential_directory ::
  "'x process_lib \<Rightarrow> string \<Rightarrow> (OpenShellConnectError + unit \<Rightarrow> 'r pprog) \<Rightarrow> 'r pprog" where
  "validate_credential_directory W directory k =
     P_SymlinkMetadata directory (\<lambda>metadata.
       case metadata of
         None \<Rightarrow> k (Err (OpenShellConnectError_new OC_CredentialRead))
       | Some m \<Rightarrow>
           if \<not> credential_directory (wl_euid W) directory m
           then k (Err (OpenShellConnectError_new OC_CredentialRead)) else k (Ok ()))"

definition credential_file :: "u32 \<Rightarrow> bool \<Rightarrow> Metadata \<Rightarrow> bool" where
  "credential_file euid private m \<longleftrightarrow>
     (let mode = md_mode m AND 511 in
      \<not> (md_kind m \<noteq> RegularFile \<or> md_uid m \<noteq> euid \<or> md_len m = 0 \<or> MAX_CREDENTIAL_BYTES < unat (md_len m)
         \<or> private \<and> mode \<noteq> 384 \<or> \<not> private \<and> mode AND 18 \<noteq> 0))"

definition read_credential ::
  "'x process_lib \<Rightarrow> string \<Rightarrow> string \<Rightarrow> bool \<Rightarrow> (OpenShellConnectError + bytes \<Rightarrow> 'r pprog) \<Rightarrow> 'r pprog" where
  "read_credential W directory name private k =
     (let path = path_join directory name;
          failed = k (Err (OpenShellConnectError_new OC_CredentialRead)) in
      P_Open path (\<lambda>descriptor.
        case descriptor of
          None \<Rightarrow> failed
        | Some h \<Rightarrow>
            P_Fstat h (\<lambda>metadata.
              case metadata of
                None \<Rightarrow> failed
              | Some m \<Rightarrow>
                  if \<not> credential_file (wl_euid W) private m then failed
                  else P_ReadTake h (MAX_CREDENTIAL_BYTES + 1) (\<lambda>content.
                    case content of
                      None \<Rightarrow> failed
                    | Some body \<Rightarrow> if length body \<noteq> unat (md_len m) then failed else k (Ok body)))))"

section \<open>The channel\<close>

definition channel_endpoint :: "OpenShellConfig \<Rightarrow> Endpoint" where
  "channel_endpoint config =
     \<lparr>ep_uri = osc_endpoint config, ep_connect_timeout = osc_connect_timeout config, ep_http2_adaptive_window = True,
      ep_http2_keep_alive_interval = Some (secs 10), ep_keep_alive_while_idle = True, ep_tls_config = None\<rparr>"

definition connect_endpoint :: "Endpoint \<Rightarrow> (OpenShellConnectError + unit \<Rightarrow> 'r pprog) \<Rightarrow> 'r pprog" where
  "connect_endpoint endpoint k =
     P_Connect endpoint (\<lambda>connected. k (if connected then Ok () else Err (OpenShellConnectError_new OC_Connect)))"

definition read_credentials ::
  "'x process_lib \<Rightarrow> string \<Rightarrow> (OpenShellConnectError + bytes \<times> bytes \<times> bytes \<Rightarrow> 'r pprog) \<Rightarrow> 'r pprog" where
  "read_credentials W directory k =
     validate_credential_directory W directory (\<lambda>valid.
       case valid of
         Inl e \<Rightarrow> k (Err e)
       | Inr _ \<Rightarrow>
           read_credential W directory ''ca.crt'' False (\<lambda>ca.
             case ca of
               Inl e \<Rightarrow> k (Err e)
             | Inr ca \<Rightarrow>
                 read_credential W directory ''tls.crt'' False (\<lambda>certificate.
                   case certificate of
                     Inl e \<Rightarrow> k (Err e)
                   | Inr certificate \<Rightarrow>
                       read_credential W directory ''tls.key'' True (\<lambda>key.
                         case key of Inl e \<Rightarrow> k (Err e) | Inr key \<Rightarrow> k (Ok (ca, certificate, key))))))"

definition connect_channel ::
  "'x process_lib \<Rightarrow> OpenShellConfig \<Rightarrow> (OpenShellConnectError + unit \<Rightarrow> 'r pprog) \<Rightarrow> 'r pprog" where
  "connect_channel W config k =
     (if \<not> wl_from_shared W (osc_endpoint config)
      then k (Err (OpenShellConnectError_new OC_TransportConfiguration))
      else
        let endpoint = channel_endpoint config in
        if osc_allow_insecure_gateway config then connect_endpoint endpoint k
        else read_credentials W (osc_mtls_directory config) (\<lambda>credentials.
          case credentials of
            Inl e \<Rightarrow> k (Err e)
          | Inr tls \<Rightarrow>
              if \<not> wl_tls_config W tls then k (Err (OpenShellConnectError_new OC_TransportConfiguration))
              else connect_endpoint (endpoint\<lparr>ep_tls_config := Some tls\<rparr>) k))"

text \<open>What \<open>connect\<close> keeps of the configuration; the channel is the one of the last \<open>P_Connect\<close>.\<close>

record OpenShellSettings =
  oss_poll_interval :: duration
  oss_allow_degraded_landlock :: bool

definition openshell_connect ::
  "'x process_lib \<Rightarrow> OpenShellConfig \<Rightarrow> (OpenShellConnectError + OpenShellSettings \<Rightarrow> 'r pprog) \<Rightarrow> 'r pprog" where
  "openshell_connect W config k =
     connect_channel W config (\<lambda>channel.
       k (case channel of
            Inl e \<Rightarrow> Err e
          | Inr _ \<Rightarrow> Ok \<lparr>oss_poll_interval = osc_poll_interval config,
              oss_allow_degraded_landlock = osc_allow_degraded_landlock config\<rparr>))"

section \<open>Evidence\<close>

text \<open>A credential that was read from a file of the owner, private where it has to be.\<close>

definition seen_credential :: "'x process_lib \<Rightarrow> pevent list \<Rightarrow> string \<Rightarrow> string \<Rightarrow> bool \<Rightarrow> bytes \<Rightarrow> bool" where
  "seen_credential W E directory name private body \<longleftrightarrow>
     (\<exists>m limit. PV_Fstat (path_join directory name) (Some m) \<in> set E \<and> credential_file (wl_euid W) private m
        \<and> PV_ReadTake (path_join directory name) limit (Some body) \<in> set E \<and> length body = unat (md_len m))"

definition seen_tls :: "'x process_lib \<Rightarrow> pevent list \<Rightarrow> string \<Rightarrow> bytes \<times> bytes \<times> bytes \<Rightarrow> bool" where
  "seen_tls W E directory tls \<longleftrightarrow>
     (\<exists>m. PV_Metadata directory (Some m) \<in> set E \<and> credential_directory (wl_euid W) directory m)
     \<and> (case tls of (ca, certificate, key) \<Rightarrow>
          seen_credential W E directory ''ca.crt'' False ca
          \<and> seen_credential W E directory ''tls.crt'' False certificate
          \<and> seen_credential W E directory ''tls.key'' True key)"

definition mutual_tls :: "'x process_lib \<Rightarrow> pevent list \<Rightarrow> OpenShellConfig \<Rightarrow> bool" where
  "mutual_tls W E config \<longleftrightarrow>
     (\<exists>tls. seen_tls W E (osc_mtls_directory config) tls
        \<and> PV_Connect ((channel_endpoint config)\<lparr>ep_tls_config := Some tls\<rparr>) True \<in> set E)"

lemma seen_credential_mono:
  "seen_credential W E directory name b body \<Longrightarrow> set E \<subseteq> set E' \<Longrightarrow> seen_credential W E' directory name b body"
  unfolding seen_credential_def by blast

lemma seen_tls_mono:
  assumes "seen_tls W E directory tls" and "set E \<subseteq> set E'"
  shows "seen_tls W E' directory tls"
proof -
  obtain ca certificate key where "tls = (ca, certificate, key)"
    by (cases tls)
  with assms(1) seen_credential_mono [OF _ assms(2)] assms(2) show ?thesis
    unfolding seen_tls_def by auto
qed

lemma mutual_tls_mono: "mutual_tls W E config \<Longrightarrow> set E \<subseteq> set E' \<Longrightarrow> mutual_tls W E' config"
  unfolding mutual_tls_def using seen_tls_mono by blast

lemma follows_read_credential:
  assumes "\<And>E' s' body. later E s E' s' \<Longrightarrow> seen_credential W E' directory name b body \<Longrightarrow> follows W Q E' s' (k (Ok body))"
    and "\<And>E' s' e. later E s E' s' \<Longrightarrow> follows W Q E' s' (k (Err e))"
  shows "follows W Q E s (read_credential W directory name b k)"
proof -
  let ?path = "path_join directory name"
  let ?s = "s\<lparr>ps_opened := ps_opened s @ [?path]\<rparr>"
  have body: "follows W Q (E @ [PV_Open ?path True, PV_Fstat ?path (Some m), PV_ReadTake ?path (Suc MAX_CREDENTIAL_BYTES) (Some body)])
      ?s (k (Ok body))" if "credential_file (wl_euid W) b m" and "length body = unat (md_len m)" for m body
    by (rule assms(1)) (use that in \<open>auto simp: seen_credential_def\<close>)
  show ?thesis
    unfolding read_credential_def Let_def
    using body by (auto intro!: follows_open follows_fstat follows_read_take assms(2) split: option.splits)
qed

lemma follows_read_credentials:
  assumes passed: "\<And>E' s' tls. later E s E' s' \<Longrightarrow> seen_tls W E' directory tls \<Longrightarrow> follows W Q E' s' (k (Ok tls))"
    and failed: "\<And>E' s' e. later E s E' s' \<Longrightarrow> follows W Q E' s' (k (Err e))"
  shows "follows W Q E s (read_credentials W directory k)"
proof -
  let ?E = "\<lambda>m. E @ [PV_Metadata directory m]"
  have key: "follows W Q E3 s3 (k (Ok (ca, certificate, key)))"
    if "credential_directory (wl_euid W) directory m" and "later (?E (Some m)) s E1 s1" and "later E1 s1 E2 s2" and "later E2 s2 E3 s3"
      and "seen_credential W E1 directory ''ca.crt'' False ca" and "seen_credential W E2 directory ''tls.crt'' False certificate"
      and "seen_credential W E3 directory ''tls.key'' True key"
    for m E1 s1 E2 s2 E3 s3 ca certificate key
  proof (rule passed)
    have "later (?E (Some m)) s E3 s3"
      by (rule later_trans [OF later_trans [OF that(2,3)] that(4)])
    from later_trans [OF _ this] show "later E s E3 s3"
      by simp
    have "PV_Metadata directory (Some m) \<in> set E3"
      using later_set [OF \<open>later (?E (Some m)) s E3 s3\<close>] by auto
    moreover have "set E1 \<subseteq> set E3" "set E2 \<subseteq> set E3"
      using later_set [OF that(3)] later_set [OF that(4)] by auto
    ultimately show "seen_tls W E3 directory (ca, certificate, key)"
      using that(1,5-7) seen_credential_mono by (fastforce simp: seen_tls_def)
  qed
  have failed1: "later (?E m) s E1 s1 \<Longrightarrow> follows W Q E1 s1 (k (Err e))" for m E1 s1 e
    by (rule failed [OF later_trans]) simp_all
  have failed2: "later (?E m) s E1 s1 \<Longrightarrow> later E1 s1 E2 s2 \<Longrightarrow> follows W Q E2 s2 (k (Err e))" for m E1 s1 E2 s2 e
    by (rule failed1 [OF later_trans])
  have failed3: "later (?E m) s E1 s1 \<Longrightarrow> later E1 s1 E2 s2 \<Longrightarrow> later E2 s2 E3 s3 \<Longrightarrow> follows W Q E3 s3 (k (Err e))"
    for m E1 s1 E2 s2 E3 s3 e
    by (rule failed2 [OF _ later_trans])
  show ?thesis
    unfolding read_credentials_def validate_credential_directory_def
    by (auto intro!: follows_metadata follows_read_credential split: option.splits)
      (blast intro: key failed1 [OF later_refl] failed1 failed2 failed3)+
qed

text \<open>Reads of files and attempts to connect with TLS, the same service.\<close>

fun channel_event :: "OpenShellConfig \<Rightarrow> pevent \<Rightarrow> bool" where
  "channel_event config (PV_Connect endpoint _) \<longleftrightarrow>
     (\<exists>tls. endpoint = (channel_endpoint config)\<lparr>ep_tls_config := Some tls\<rparr>)"
| "channel_event config e \<longleftrightarrow> file_event e"

lemma file_channel_events: "list_all file_event ev \<Longrightarrow> list_all (channel_event config) ev"
proof (rule list.pred_mono_strong)
  fix e
  show "file_event e \<Longrightarrow> channel_event config e"
    by (cases e) simp_all
qed

definition grown :: "OpenShellConfig \<Rightarrow> pevent list \<Rightarrow> pstate \<Rightarrow> pevent list \<Rightarrow> pstate \<Rightarrow> bool" where
  "grown config E s E' s' \<longleftrightarrow>
     (\<exists>ev. E' = E @ ev \<and> list_all (channel_event config) ev) \<and> ps_store s' = ps_store s \<and> ps_service s' = ps_service s"

lemma grown_set: "grown config E s E' s' \<Longrightarrow> set E \<subseteq> set E'"
  by (auto simp: grown_def)

lemma later_grown: "later E s E' s' \<Longrightarrow> list_all (channel_event config) ev \<Longrightarrow> grown config E s (E' @ ev) s'"
  by (auto simp: later_def grown_def dest: file_channel_events)

lemma follows_connect_channel:
  assumes passed: "\<And>E' s'. grown config E s E' s' \<Longrightarrow> mutual_tls W E' config \<Longrightarrow> follows W Q E' s' (k (Ok ()))"
    and failed: "\<And>E' s' e. grown config E s E' s' \<Longrightarrow> follows W Q E' s' (k (Err e))"
    and secure: "\<not> osc_allow_insecure_gateway config"
  shows "follows W Q E s (connect_channel W config k)"
proof -
  have "follows W Q E s (read_credentials W (osc_mtls_directory config) (\<lambda>credentials.
          case credentials of
            Inl e \<Rightarrow> k (Err e)
          | Inr tls \<Rightarrow>
              if \<not> wl_tls_config W tls then k (Err (OpenShellConnectError_new OC_TransportConfiguration))
              else connect_endpoint ((channel_endpoint config)\<lparr>ep_tls_config := Some tls\<rparr>) k))"
  proof (rule follows_read_credentials)
    fix E' s' tls
    assume later: "later E s E' s'" and tls: "seen_tls W E' (osc_mtls_directory config) tls"
    let ?endpoint = "(channel_endpoint config)\<lparr>ep_tls_config := Some tls\<rparr>"
    have "seen_tls W (E' @ [PV_Connect ?endpoint True]) (osc_mtls_directory config) tls"
      by (rule seen_tls_mono [OF tls]) auto
    then have "mutual_tls W (E' @ [PV_Connect ?endpoint True]) config"
      unfolding mutual_tls_def by (intro exI [of _ tls]) simp
    have event: "list_all (channel_event config) [PV_Connect ?endpoint ok]" for ok
      by (simp del: split_paired_Ex) blast
    from passed [OF later_grown [OF later event] \<open>mutual_tls W _ config\<close>]
    have "follows W Q (E' @ [PV_Connect ?endpoint True]) s' (k (Ok ()))"
      by simp
    moreover have "follows W Q (E' @ [PV_Connect ?endpoint False]) s' (k (Err e))" for e
      by (rule failed [OF later_grown [OF later event]])
    ultimately have "follows W Q (E' @ [PV_Connect ?endpoint ok]) s'
        (k (if ok then Ok () else Err (OpenShellConnectError_new OC_Connect)))" for ok
      by (cases ok) simp_all
    then have "follows W Q E' s' (connect_endpoint ?endpoint k)"
      unfolding connect_endpoint_def by (rule follows_connect)
    with failed [OF later_grown [OF later, where ev = "[]"]] show "follows W Q E' s' (case Ok tls of Inl e \<Rightarrow> k (Err e)
        | Inr tls \<Rightarrow> if \<not> wl_tls_config W tls then k (Err (OpenShellConnectError_new OC_TransportConfiguration))
            else connect_endpoint ((channel_endpoint config)\<lparr>ep_tls_config := Some tls\<rparr>) k)"
      by simp
  qed (use failed [OF later_grown [where ev = "[]"]] in simp)
  with secure failed [OF later_grown [OF later_refl, where ev = "[]"]] show ?thesis
    by (simp add: connect_channel_def Let_def)
qed

end
