(* ===== verification/Process_Main.thy ===== *)
theory Process_Main
  imports OpenShell_Connect
begin

text \<open>
  The service process (\<^verbatim>\<open>src/src/main.rs\<close>): the command line, and \<open>run\<close> as the stages from the
  configuration to the server, with what is certain when the server starts.
\<close>

section \<open>Command line\<close>

datatype Mode =
    Mode_Run
  | Mode_CheckConfig
  | Mode_CompileNativePolicy string string string

datatype ProcessError =
    PE_Usage | PE_Configuration | PE_Runtime | PE_DurableState | PE_Reconciliation | PE_Transport

fun process_error_message :: "ProcessError \<Rightarrow> string" where
  "process_error_message PE_Usage = ''unsupported command line''"
| "process_error_message PE_Configuration = ''configuration rejected''"
| "process_error_message PE_Runtime = ''sandbox runtime unavailable''"
| "process_error_message PE_DurableState = ''durable state unavailable''"
| "process_error_message PE_Reconciliation = ''startup reconciliation incomplete''"
| "process_error_message PE_Transport = ''local authenticated transport unavailable''"

text \<open>The exit code of \<open>main\<close>.\<close>

definition exit_code :: "ProcessError + unit \<Rightarrow> u8" where
  "exit_code r = (case r of Inl _ \<Rightarrow> 1 | Inr _ \<Rightarrow> 0)"

definition parse_mode :: "string list \<Rightarrow> ProcessError + Mode" where
  "parse_mode arguments =
     (case arguments of
        [] \<Rightarrow> Ok Mode_Run
      | [argument] \<Rightarrow> if argument = ''--check-config'' then Ok Mode_CheckConfig else Err PE_Usage
      | [flag, policy_document, output, workspace_root] \<Rightarrow>
          if flag = ''--compile-native-policy''
          then Ok (Mode_CompileNativePolicy policy_document output workspace_root) else Err PE_Usage
      | _ \<Rightarrow> Err PE_Usage)"

section \<open>Stages\<close>

definition verify_running_binary :: "'x process_lib \<Rightarrow> string \<Rightarrow> (ProcessError + unit \<Rightarrow> 'r pprog) \<Rightarrow> 'r pprog" where
  "verify_running_binary W expected k =
     P_CurrentExe (\<lambda>executable.
       case executable of
         None \<Rightarrow> k (Err PE_Configuration)
       | Some path \<Rightarrow>
           P_Read path (\<lambda>content.
             case content of
               None \<Rightarrow> k (Err PE_Configuration)
             | Some bytes \<Rightarrow>
                 let encoded = hex_string (tl_sha256 (wl_transport W) bytes) in
                 if encoded \<noteq> expected then k (Err PE_Configuration) else k (Ok ())))"

fun collect_callers :: "AuthorizedCaller list \<Rightarrow> callers \<Rightarrow> ProcessError + callers" where
  "collect_callers [] callers = Ok callers"
| "collect_callers (caller # rest) callers =
     (case CallerFingerprint_parse (auc_certificate_sha256 caller) of
        Inl _ \<Rightarrow> Err PE_Configuration
      | Inr fingerprint \<Rightarrow>
          collect_callers rest (hm_insert fingerprint (CallerRole_from (auc_role caller)) callers))"

definition runtime_config :: "ProcessConfig \<Rightarrow> ProcessError + OpenShellConfig" where
  "runtime_config config =
     (case (pcf_runtime_endpoint config, pcf_runtime_mtls_directory config) of
        (Some endpoint, Some directory) \<Rightarrow>
          (case OpenShellConfig_new endpoint directory of
             Inl _ \<Rightarrow> Err PE_Runtime
           | Inr created \<Rightarrow>
               (case pcf_runtime_connect_timeout_ms config of
                  None \<Rightarrow> Err PE_Configuration
                | Some connect_timeout \<Rightarrow>
                    (case with_connect_timeout (millis connect_timeout) created of
                       Inl _ \<Rightarrow> Err PE_Runtime
                     | Inr timed \<Rightarrow>
                         (case pcf_runtime_poll_interval_ms config of
                            None \<Rightarrow> Err PE_Configuration
                          | Some poll_interval \<Rightarrow>
                              (case with_poll_interval (millis poll_interval) timed of
                                 Inl _ \<Rightarrow> Err PE_Runtime
                               | Inr polled \<Rightarrow>
                                   Ok (with_degraded_landlock (pcf_allow_degraded_landlock config) polled))))))
      | _ \<Rightarrow> Err PE_Configuration)"

definition serve_process ::
  "ProcessConfig \<Rightarrow> callers \<Rightarrow> (ProcessError + unit) pprog" where
  "serve_process config callers =
     P_StoreInit (pcf_state_directory config) (\<lambda>initialized.
       if \<not> initialized then P_Return (Err PE_DurableState)
       else P_Boundary (pcf_asset_bundle config)
         (P_Reconcile (millis (pcf_reconcile_delete_deadline_ms config))
            (millis (pcf_reconcile_wait_deadline_ms config)) (\<lambda>reconciled.
           if \<not> reconciled then P_Return (Err PE_Reconciliation)
           else case TlsServerConfig_new (pcf_bind_address config) (pcf_server_certificate_path config)
                       (pcf_server_private_key_path config) (pcf_client_ca_path config) callers
                       (pcf_maximum_connections config) (millis (pcf_drain_timeout_ms config)) of
                  Inl _ \<Rightarrow> P_Return (Err PE_Configuration)
                | Inr tls \<Rightarrow>
                    P_Bind tls (\<lambda>bound.
                      case bound of
                        Inl _ \<Rightarrow> P_Return (Err PE_Transport)
                      | Inr server \<Rightarrow>
                          P_Serve server (\<lambda>served.
                            P_Return (case served of Inl _ \<Rightarrow> Err PE_Transport | Inr _ \<Rightarrow> Ok ()))))))"

definition start_provider ::
  "'x process_lib \<Rightarrow> Mode \<Rightarrow> ProcessConfig \<Rightarrow> callers \<Rightarrow> (ProcessError + unit) pprog" where
  "start_provider W mode config callers =
     (case pcf_provider config of
        PK_OpenShell \<Rightarrow>
          (case runtime_config config of
             Inl e \<Rightarrow> P_Return (Err e)
           | Inr runtime \<Rightarrow>
               if mode = Mode_CheckConfig then P_Return (Ok ())
               else openshell_connect W runtime (\<lambda>connected.
                 case connected of
                   Inl _ \<Rightarrow> P_Return (Err PE_Runtime)
                 | Inr _ \<Rightarrow> serve_process config callers))
      | PK_Native \<Rightarrow>
          (case (pcf_native_profile_path config, pcf_native_profile_sha256 config, pcf_native_workspace_root config) of
             (Some profile, Some sha256, Some root) \<Rightarrow>
               P_NativeConfig profile sha256 root (ab_policy (pcf_asset_bundle config)) (\<lambda>native.
                 case native of
                   Inl _ \<Rightarrow> P_Return (Err PE_Runtime)
                 | Inr native_config \<Rightarrow>
                     if mode = Mode_CheckConfig then P_Return (Ok ())
                     else P_NativeRuntime native_config (\<lambda>started.
                       if \<not> started then P_Return (Err PE_Runtime) else serve_process config callers))
           | _ \<Rightarrow> P_Return (Err PE_Configuration)))"

definition run_configured :: "'x process_lib \<Rightarrow> Mode \<Rightarrow> ProcessConfig \<Rightarrow> (ProcessError + unit) pprog" where
  "run_configured W mode config =
     verify_running_binary W (sha_str (ab_adapter_build_sha256 (pcf_asset_bundle config))) (\<lambda>verified.
       case verified of
         Inl e \<Rightarrow> P_Return (Err e)
       | Inr _ \<Rightarrow>
           (case collect_callers (pcf_authorized_callers config) [] of
              Inl e \<Rightarrow> P_Return (Err e)
            | Inr callers \<Rightarrow>
                if length callers \<noteq> length (pcf_authorized_callers config) then P_Return (Err PE_Configuration)
                else start_provider W mode config callers))"

definition run_process :: "'x process_lib \<Rightarrow> string list \<Rightarrow> (ProcessError + unit) pprog" where
  "run_process W arguments =
     (case parse_mode arguments of
        Inl e \<Rightarrow> P_Return (Err e)
      | Inr (Mode_CompileNativePolicy policy_document output workspace_root) \<Rightarrow>
          P_CompilePolicy policy_document output workspace_root (\<lambda>compiled.
            case compiled of
              Inl _ \<Rightarrow> P_Return (Err PE_Configuration)
            | Inr digest \<Rightarrow> P_Print digest (P_Return (Ok ())))
      | Inr mode \<Rightarrow>
          P_VarOs ''OPENBOX_SANDBOX_CONFIG'' (\<lambda>config_path.
            case config_path of
              None \<Rightarrow> P_Return (Err PE_Configuration)
            | Some path \<Rightarrow>
                load W path (\<lambda>loaded.
                  case loaded of
                    Inl _ \<Rightarrow> P_Return (Err PE_Configuration)
                  | Inr config \<Rightarrow> run_configured W mode config)))"

end
