(* ===== verification/Process_Claims.thy ===== *)
theory Process_Claims
  imports Process_Main
begin

text \<open>What is certain when the service process serves, ends, or has only checked its configuration.\<close>

section \<open>Stages\<close>

lemma reconcile_keeps:
  "always (\<lambda>evs s' p. sv_owned s' = sv_owned s \<and> sv_bundle s' = sv_bundle s) s (reconcile_loop d w records removed unresolved)"
proof (induction records arbitrary: s removed unresolved)
  case Nil
  show ?case
    by (simp add: always_simps)
next
  case (Cons r records)
  have rec: "always (\<lambda>evs s' p. sv_owned s' = sv_owned s \<and> sv_bundle s' = sv_bundle s) s1
      (reconcile_loop d w records removed' unresolved')"
    if "sv_owned s1 = sv_owned s" "sv_bundle s1 = sv_bundle s" for s1 removed' unresolved'
    using Cons.IH [of s1 removed' unresolved'] that by simp
  show ?case
    by (auto simp: always_simps Let_def intro!: rec split: sum.splits)
qed

lemma reconciled_service:
  assumes "table_invar records" and "preach (service_new B records) (reconcile_startup d w) evs service (Ret r)" and "is_ok r"
  shows "sv_startup_reconciled service \<and> sv_owned service = [] \<and> sv_bundle service = B
     \<and> (\<forall>i. hm_get (sv_store service) i = None)"
proof -
  from assms(3) obtain report where r: "r = Ok report"
    by (auto simp: is_ok_iff)
  have "table_invar (sv_store (service_new B records))"
    using assms(1) by (simp add: service_new_def)
  from startup_swept [OF this assms(2) [unfolded r]]
  have "sv_startup_reconciled service \<and> (\<forall>i. hm_get (sv_store service) i = None)"
    by blast
  moreover have "always (\<lambda>evs s' p. sv_owned s' = sv_owned s \<and> sv_bundle s' = sv_bundle s) s (reconcile_startup d w)"
    for s :: service
    using reconcile_keeps [of "s\<lparr>sv_startup_reconciled := False\<rparr>" d w]
    by (auto simp: reconcile_startup_def always_simps split: option.splits)
  from alwaysD [OF this assms(2)] have "sv_owned service = [] \<and> sv_bundle service = B"
    by (simp add: service_new_def)
  ultimately show ?thesis
    by blast
qed

lemma native_config_values:
  assumes "reaches nstep system (NativeConfig_new platform N profile sha256 root canonicalized identity) evs system' (N_Return (Ok config))"
  shows "nc_profile_path config = profile \<and> nc_profile_sha256 config = sha256 \<and> nc_policy_identity config = identity"
proof -
  let ?C = "concludes nstep N_Return N_Panic (\<lambda>evs s r. \<forall>config. r = Ok config \<longrightarrow>
      nc_profile_path config = profile \<and> nc_profile_sha256 config = sha256 \<and> nc_policy_identity config = identity)"
  have read: "?C s (N_Read path k)" if "\<And>s r. ?C s (k r)" for s path k
    by (rule native.outcome_stepI) (use that in \<open>auto split: nreply.splits\<close>)
  have "?C system (verify_profile_at platform N profile expected root' (\<lambda>verified. N_Return (case verified of
      Inl e \<Rightarrow> Err e | Inr _ \<Rightarrow> Ok \<lparr>nc_profile_path = profile, nc_profile_sha256 = sha256,
        nc_workspace_root = root', nc_policy_identity = identity\<rparr>)))" for expected root'
    unfolding verify_profile_at_def by (intro read) (auto simp: native.outcome_ret split: sum.splits intro!: read)
  then have "?C system (NativeConfig_new platform N profile sha256 root canonicalized identity)"
    by (auto simp: NativeConfig_new_def native.outcome_ret split: option.splits)
  from native.outcome_returned [OF this assms] show ?thesis
    by blast
qed

section \<open>Evidence\<close>

definition seen_binary :: "'x process_lib \<Rightarrow> pevent list \<Rightarrow> ProcessConfig \<Rightarrow> bool" where
  "seen_binary W E config \<longleftrightarrow>
     (\<exists>path bytes. PV_CurrentExe (Some path) \<in> set E \<and> PV_Read path (Some bytes) \<in> set E
        \<and> hex_string (tl_sha256 (wl_transport W) bytes) = sha_str (ab_adapter_build_sha256 (pcf_asset_bundle config)))"

text \<open>The callers that the server is given are those of the configuration, each named once.\<close>

definition configured_callers :: "ProcessConfig \<Rightarrow> callers \<Rightarrow> bool" where
  "configured_callers config callers \<longleftrightarrow>
     collect_callers (pcf_authorized_callers config) [] = Ok callers
     \<and> length callers = length (pcf_authorized_callers config)"

definition checked :: "'x process_lib \<Rightarrow> pevent list \<Rightarrow> ProcessConfig \<Rightarrow> callers \<Rightarrow> bool" where
  "checked W E config callers \<longleftrightarrow>
     (\<exists>path. PV_VarOs ''OPENBOX_SANDBOX_CONFIG'' (Some path) \<in> set E \<and> loaded_from W E path config)
     \<and> seen_binary W E config \<and> configured_callers config callers"

definition provider_ready :: "'x process_lib \<Rightarrow> pevent list \<Rightarrow> ProcessConfig \<Rightarrow> bool" where
  "provider_ready W E config \<longleftrightarrow>
     (case pcf_provider config of
        PK_OpenShell \<Rightarrow>
          \<exists>runtime. runtime_config config = Ok runtime \<and> \<not> osc_allow_insecure_gateway runtime \<and> mutual_tls W E runtime
      | PK_Native \<Rightarrow>
          \<exists>evs native evs'. PV_NativeConfig evs (Ok native) \<in> set E \<and> PV_NativeRuntime native evs' True \<in> set E
            \<and> pcf_native_profile_path config = Some (nc_profile_path native)
            \<and> pcf_native_profile_sha256 config = Some (nc_profile_sha256 native)
            \<and> nc_policy_identity native = ab_policy (pcf_asset_bundle config))"

definition accepting_service :: "ProcessConfig \<Rightarrow> service \<Rightarrow> bool" where
  "accepting_service config service \<longleftrightarrow>
     sv_startup_reconciled service \<and> sv_owned service = [] \<and> sv_bundle service = pcf_asset_bundle config
     \<and> (\<forall>i. hm_get (sv_store service) i = None)"

definition configured_server :: "ProcessConfig \<Rightarrow> callers \<Rightarrow> pevent list \<Rightarrow> SandboxTlsServer \<Rightarrow> bool" where
  "configured_server config callers E server \<longleftrightarrow>
     (\<exists>tls. PV_Bind tls (Ok server) \<in> set E \<and> tsc_bind_address tls = pcf_bind_address config
        \<and> tsc_private_key_path tls = pcf_server_private_key_path config)
     \<and> sts_authorized_callers server = callers
     \<and> sts_maximum_connections server = pcf_maximum_connections config
     \<and> sts_drain_timeout server = millis (pcf_drain_timeout_ms config)"

definition ready_to_serve :: "'x process_lib \<Rightarrow> pevent list \<Rightarrow> pstate \<Rightarrow> SandboxTlsServer \<Rightarrow> bool" where
  "ready_to_serve W E s server \<longleftrightarrow>
     (\<exists>config callers service. checked W E config callers \<and> provider_ready W E config
        \<and> PV_StoreInit (pcf_state_directory config) True \<in> set E
        \<and> ps_service s = Some service \<and> accepting_service config service
        \<and> configured_server config callers E server)"

fun check_event :: "pevent \<Rightarrow> bool" where
  "check_event (PV_VarOs _ _) = True"
| "check_event (PV_CurrentExe _) = True"
| "check_event (PV_Read _ _) = True"
| "check_event (PV_NativeConfig _ _) = True"
| "check_event e = file_event e"

definition ended_well :: "'x process_lib \<Rightarrow> string list \<Rightarrow> pevent list \<Rightarrow> bool" where
  "ended_well W arguments E \<longleftrightarrow>
     (case parse_mode arguments of
        Inl _ \<Rightarrow> False
      | Inr Mode_Run \<Rightarrow> \<exists>tr. PV_Serve tr (Ok ()) \<in> set E
      | Inr Mode_CheckConfig \<Rightarrow> (\<exists>config callers. checked W E config callers) \<and> list_all check_event E
      | Inr (Mode_CompileNativePolicy _ _ _) \<Rightarrow> \<exists>digest. PV_Print digest \<in> set E)"

definition sound_run :: "'x process_lib \<Rightarrow> string list \<Rightarrow> pevent list \<Rightarrow> pstate \<Rightarrow> (ProcessError + unit) pprog \<Rightarrow> bool" where
  "sound_run W arguments E s p \<longleftrightarrow>
     p \<noteq> P_Panic
     \<and> (\<forall>server k. p = P_Serve server k \<longrightarrow> ready_to_serve W E s server \<and> parse_mode arguments = Ok Mode_Run)
     \<and> (p = P_Return (Ok ()) \<longrightarrow> ended_well W arguments E)"

lemma loaded_mono: "loaded_from W E path config \<Longrightarrow> set E \<subseteq> set E' \<Longrightarrow> loaded_from W E' path config"
  using seen_mono [of E E'] unfolding loaded_from_def seen_config_def by blast

lemma checked_mono: "checked W E config callers \<Longrightarrow> set E \<subseteq> set E' \<Longrightarrow> checked W E' config callers"
  using loaded_mono [of W E _ config E'] unfolding checked_def seen_binary_def by blast

lemma provider_ready_mono: "provider_ready W E config \<Longrightarrow> set E \<subseteq> set E' \<Longrightarrow> provider_ready W E' config"
  using mutual_tls_mono [of W E _ E'] unfolding provider_ready_def by (auto split: ProviderKind.splits)

lemma failed_run: "follows W (sound_run W arguments) E s (P_Return (Err e))"
  by (rule follows_return) (simp add: sound_run_def)

lemma follows_serve_process:
  assumes checked: "checked W E config callers" and provider: "provider_ready W E config"
    and mode: "parse_mode arguments = Ok Mode_Run"
  shows "follows W (sound_run W arguments) E s (serve_process config callers)"
proof -
  have config: "valid_transport config"
    using checked by (auto simp: checked_def loaded_from_def seen_config_def)
  have serve: "follows W (sound_run W arguments) E2 s2 (P_Serve server (\<lambda>served.
      P_Return (case served of Inl _ \<Rightarrow> Err PE_Transport | Inr _ \<Rightarrow> Ok ())))"
    if "ready_to_serve W E2 s2 server" and "sts_maximum_connections server = pcf_maximum_connections config" for E2 s2 server
  proof (rule follows_serve)
    show "sound_run W arguments E2 s2 (P_Serve server (\<lambda>served. P_Return (case served of Inl _ \<Rightarrow> Err PE_Transport | Inr _ \<Rightarrow> Ok ())))"
      using that(1) mode by (simp add: sound_run_def)
    show "sts_maximum_connections server \<le> MAX_PERMITS"
      using that(2) config by (simp add: valid_transport_def MAX_PERMITS_def)
    fix service tr r result
    assume "run_phase r = PH_Finished result"
    show "follows W (sound_run W arguments) (E2 @ [PV_Serve tr result]) (s2\<lparr>ps_service := Some (run_service r)\<rparr>)
        (P_Return (case result of Inl _ \<Rightarrow> Err PE_Transport | Inr _ \<Rightarrow> Ok ()))"
      using mode by (cases result) (auto simp: failed_run ended_well_def sound_run_def intro!: follows_return)
  qed
  have bind: "follows W (sound_run W arguments) E1 s1 (P_Bind tls (\<lambda>bound. case bound of
        Inl _ \<Rightarrow> P_Return (Err PE_Transport)
      | Inr server \<Rightarrow> P_Serve server (\<lambda>served. P_Return (case served of Inl _ \<Rightarrow> Err PE_Transport | Inr _ \<Rightarrow> Ok ()))))"
    if "set E \<subseteq> set E1" and "PV_StoreInit (pcf_state_directory config) True \<in> set E1"
      and "ps_service s1 = Some service" and "accepting_service config service"
      and tls: "TlsServerConfig_new (pcf_bind_address config) (pcf_server_certificate_path config)
         (pcf_server_private_key_path config) (pcf_client_ca_path config) callers
         (pcf_maximum_connections config) (millis (pcf_drain_timeout_ms config)) = Ok tls"
    for E1 s1 service tls
  proof (rule follows_bind)
    fix bound calls
    let ?E = "E1 @ [PV_Bind tls (server_bind tls bound calls)]"
    show "follows W (sound_run W arguments) ?E s1 (case server_bind tls bound calls of
        Inl _ \<Rightarrow> P_Return (Err PE_Transport)
      | Inr server \<Rightarrow> P_Serve server (\<lambda>served. P_Return (case served of Inl _ \<Rightarrow> Err PE_Transport | Inr _ \<Rightarrow> Ok ())))"
    proof (cases "server_bind tls bound calls")
      case (Inr server)
      from tls have fields_of_tls: "tsc_bind_address tls = pcf_bind_address config" "tsc_authorized_callers tls = callers"
          "tsc_private_key_path tls = pcf_server_private_key_path config"
          "tsc_maximum_connections tls = pcf_maximum_connections config"
          "tsc_drain_timeout tls = millis (pcf_drain_timeout_ms config)"
        by (auto simp: TlsServerConfig_new_def split: if_splits)
      from Inr have server: "sts_authorized_callers server = callers"
          "sts_maximum_connections server = pcf_maximum_connections config"
          "sts_drain_timeout server = millis (pcf_drain_timeout_ms config)"
        by (auto simp: server_bind_def from_listener_def fields_of_tls split: option.splits sum.splits)
      have "configured_server config callers ?E server"
        unfolding configured_server_def using Inr server fields_of_tls by auto
      moreover have "checked W ?E config callers" "provider_ready W ?E config"
        using that(1) by (auto intro!: checked_mono [OF checked] provider_ready_mono [OF provider])
      ultimately have "ready_to_serve W ?E s1 server"
        unfolding ready_to_serve_def using that(2-4) by (metis in_set_conv_decomp_first append_assoc append_Cons)
      from serve [OF this server(2)] Inr show ?thesis
        by simp
    qed (simp add: failed_run)
  qed
  show ?thesis
    unfolding serve_process_def
  proof (intro follows_store_init, goal_cases)
    case (1 records initialized)
    have "follows W (sound_run W arguments) (E @ [PV_StoreInit (pcf_state_directory config) True])
        (s\<lparr>ps_store := records\<rparr>) (P_Boundary (pcf_asset_bundle config)
         (P_Reconcile (millis (pcf_reconcile_delete_deadline_ms config))
            (millis (pcf_reconcile_wait_deadline_ms config)) (\<lambda>reconciled.
           if \<not> reconciled then P_Return (Err PE_Reconciliation)
           else case TlsServerConfig_new (pcf_bind_address config) (pcf_server_certificate_path config)
                       (pcf_server_private_key_path config) (pcf_client_ca_path config) callers
                       (pcf_maximum_connections config) (millis (pcf_drain_timeout_ms config)) of
                  Inl _ \<Rightarrow> P_Return (Err PE_Configuration)
                | Inr tls \<Rightarrow>
                    P_Bind tls (\<lambda>bound.
                      case bound of
                        Inl _ \<Rightarrow> P_Return (Err PE_Transport)
                      | Inr server \<Rightarrow>
                          P_Serve server (\<lambda>served.
                            P_Return (case served of Inl _ \<Rightarrow> Err PE_Transport | Inr _ \<Rightarrow> Ok ()))))))"
    proof (intro follows_boundary follows_reconcile, goal_cases)
      case (1 service evs service1 r)
      then have service: "preach (service_new (pcf_asset_bundle config) records)
          (reconcile_startup (millis (pcf_reconcile_delete_deadline_ms config)) (millis (pcf_reconcile_wait_deadline_ms config)))
          evs service1 (Ret r)"
        by simp
      show ?case
      proof (cases "is_ok r")
        case True
        from reconciled_service [OF \<open>table_invar records\<close> service True]
        have "accepting_service config service1"
          by (auto simp: accepting_service_def)
        with True show ?thesis
          by (auto simp: failed_run split: sum.splits intro!: bind)
      qed (simp add: failed_run)
    qed
    then show ?case
      by (simp add: failed_run)
  qed
qed

lemma grown_refl [simp]: "grown config E s E s"
  by (simp add: grown_def)

lemma valid_runtime_config:
  assumes "seen_provider W E config" and "pcf_provider config = PK_OpenShell"
  obtains runtime where "runtime_config config = Ok runtime" and "\<not> osc_allow_insecure_gateway runtime"
proof -
  from assms have "valid_openshell config"
    by (simp add: seen_provider_def)
  then obtain endpoint directory connect_timeout poll_interval
    where config: "pcf_runtime_endpoint config = Some endpoint" "pcf_runtime_mtls_directory config = Some directory"
        "pcf_runtime_connect_timeout_ms config = Some connect_timeout"
        "pcf_runtime_poll_interval_ms config = Some poll_interval"
      and rest: "valid_loopback_https_endpoint endpoint" "directory \<noteq> []" "connect_timeout \<noteq> 0" "poll_interval \<noteq> 0"
    by (auto simp: valid_openshell_def outside_def split: option.splits)
  have "endpoint \<noteq> []"
    using rest(1) by (auto simp: valid_loopback_https_endpoint_def)
  with config rest that show ?thesis
    by (simp add: runtime_config_def OpenShellConfig_new_def with_connect_timeout_def with_poll_interval_def
        with_degraded_landlock_def)
qed

text \<open>The two modes that have a configuration.\<close>

lemma follows_start_provider:
  assumes checked: "checked W E config callers" and quiet: "list_all check_event E"
    and mode: "parse_mode arguments = Ok mode" "mode = Mode_Run \<or> mode = Mode_CheckConfig"
  shows "follows W (sound_run W arguments) E s (start_provider W mode config callers)"
proof -
  have ended: "follows W (sound_run W arguments) E' s' (P_Return (Ok ()))"
    if "mode = Mode_CheckConfig" and "list_all check_event E'" and "set E \<subseteq> set E'" for E' s'
    using that checked_mono [OF checked that(3)] mode
    by (intro follows_return) (auto simp: sound_run_def ended_well_def)
  have seen: "seen_provider W E config"
    using checked by (auto simp: checked_def loaded_from_def seen_config_def)
  show ?thesis
  proof (cases "pcf_provider config")
    case PK_OpenShell
    obtain runtime where runtime: "runtime_config config = Ok runtime" "\<not> osc_allow_insecure_gateway runtime"
      using valid_runtime_config [OF seen PK_OpenShell] .
    show ?thesis
    proof (cases "mode = Mode_CheckConfig")
      case True
      then show ?thesis
        using PK_OpenShell runtime ended [of E s] quiet by (simp add: start_provider_def)
    next
      case False
      then have run: "parse_mode arguments = Ok Mode_Run"
        using mode by auto
      have "follows W (sound_run W arguments) E s (openshell_connect W runtime (\<lambda>connected. case connected of
          Inl _ \<Rightarrow> P_Return (Err PE_Runtime) | Inr _ \<Rightarrow> serve_process config callers))"
        unfolding openshell_connect_def
      proof (rule follows_connect_channel)
        fix E' s'
        assume grown: "grown runtime E s E' s'" and "mutual_tls W E' runtime"
        then have "provider_ready W E' config" and "set E \<subseteq> set E'"
          using PK_OpenShell runtime by (auto simp: provider_ready_def grown_def)
        from follows_serve_process [OF checked_mono [OF checked this(2)] this(1) run]
        show "follows W (sound_run W arguments) E' s' (case case Ok () of Inl e \<Rightarrow> Err e
            | Inr _ \<Rightarrow> Ok \<lparr>oss_poll_interval = osc_poll_interval runtime,
                oss_allow_degraded_landlock = osc_allow_degraded_landlock runtime\<rparr> of
            Inl _ \<Rightarrow> P_Return (Err PE_Runtime) | Inr _ \<Rightarrow> serve_process config callers)"
          by simp
      qed (use runtime in \<open>simp_all add: failed_run\<close>)
      with False PK_OpenShell runtime show ?thesis
        by (simp add: start_provider_def)
    qed
  next
    case PK_Native
    then obtain profile root sha256 where native: "pcf_native_profile_path config = Some profile"
        "pcf_native_workspace_root config = Some root" "pcf_native_profile_sha256 config = Some sha256"
      using seen by (auto simp: seen_provider_def)
    have "follows W (sound_run W arguments) E s (P_NativeConfig profile sha256 root (ab_policy (pcf_asset_bundle config))
        (\<lambda>native. case native of
           Inl _ \<Rightarrow> P_Return (Err PE_Runtime)
         | Inr native_config \<Rightarrow>
             if mode = Mode_CheckConfig then P_Return (Ok ())
             else P_NativeRuntime native_config (\<lambda>started.
               if \<not> started then P_Return (Err PE_Runtime) else serve_process config callers)))"
    proof (rule follows_native_config)
      fix canonicalized system evs system' r
      assume reached: "reaches nstep system (NativeConfig_new (wl_platform W) (wl_native W) profile sha256 root
          canonicalized (ab_policy (pcf_asset_bundle config))) evs system' (N_Return r)"
      let ?E = "E @ [PV_NativeConfig evs r]"
      show "follows W (sound_run W arguments) ?E s (case r of
           Inl _ \<Rightarrow> P_Return (Err PE_Runtime)
         | Inr native_config \<Rightarrow>
             if mode = Mode_CheckConfig then P_Return (Ok ())
             else P_NativeRuntime native_config (\<lambda>started.
               if \<not> started then P_Return (Err PE_Runtime) else serve_process config callers))"
      proof (cases r)
        case (Inr native_config)
        note fields_of_config = native_config_values [OF reached [unfolded Inr]]
        show ?thesis
        proof (cases "mode = Mode_CheckConfig")
          case True
          with Inr ended [of ?E s] quiet show ?thesis
            by (simp add: subset_insertI)
        next
          case False
          then have run: "parse_mode arguments = Ok Mode_Run"
            using mode by auto
          have "follows W (sound_run W arguments) ?E s (P_NativeRuntime native_config (\<lambda>started.
               if \<not> started then P_Return (Err PE_Runtime) else serve_process config callers))"
          proof (rule follows_native_runtime)
            fix system evs' system' r'
            let ?E' = "?E @ [PV_NativeRuntime native_config evs' (is_ok r')]"
            have "follows W (sound_run W arguments) ?E' s (serve_process config callers)" if "is_ok r'"
            proof (rule follows_serve_process [OF _ _ run])
              show "checked W ?E' config callers"
                by (rule checked_mono [OF checked]) auto
              show "provider_ready W ?E' config"
                unfolding provider_ready_def
                using PK_Native native fields_of_config that Inr by simp blast
            qed
            then show "follows W (sound_run W arguments) ?E' s
                (if \<not> is_ok r' then P_Return (Err PE_Runtime) else serve_process config callers)"
              by (simp add: failed_run)
          qed
          with False Inr show ?thesis
            by simp
        qed
      qed (simp add: failed_run)
    qed
    with PK_Native native show ?thesis
      by (simp add: start_provider_def)
  qed
qed

lemma follows_run_configured:
  assumes loaded: "loaded_from W E path config" and path: "PV_VarOs ''OPENBOX_SANDBOX_CONFIG'' (Some path) \<in> set E"
    and quiet: "list_all check_event E" and mode: "parse_mode arguments = Ok mode" "mode = Mode_Run \<or> mode = Mode_CheckConfig"
  shows "follows W (sound_run W arguments) E s (run_configured W mode config)"
proof -
  let ?expected = "sha_str (ab_adapter_build_sha256 (pcf_asset_bundle config))"
  have verified: "follows W (sound_run W arguments) (E @ [PV_CurrentExe (Some exe), PV_Read exe (Some bytes)]) s
      (case collect_callers (pcf_authorized_callers config) [] of
         Inl e \<Rightarrow> P_Return (Err e)
       | Inr callers \<Rightarrow>
           if length callers \<noteq> length (pcf_authorized_callers config) then P_Return (Err PE_Configuration)
           else start_provider W mode config callers)" (is "follows W _ ?E s _")
    if "hex_string (tl_sha256 (wl_transport W) bytes) = ?expected" for exe bytes
  proof (cases "collect_callers (pcf_authorized_callers config) []")
    case (Inr callers)
    have "follows W (sound_run W arguments) ?E s (start_provider W mode config callers)"
      if "length callers = length (pcf_authorized_callers config)"
    proof (rule follows_start_provider [OF _ _ mode])
      have "seen_binary W ?E config"
        unfolding seen_binary_def using \<open>hex_string _ = ?expected\<close> by auto
      moreover have "loaded_from W ?E path config"
        by (rule loaded_mono [OF loaded]) auto
      ultimately show "checked W ?E config callers"
        using path that Inr by (auto simp: checked_def configured_callers_def)
    qed (use quiet in simp)
    with Inr show ?thesis
      by (simp add: failed_run)
  qed (simp add: failed_run)
  show ?thesis
    unfolding run_configured_def verify_running_binary_def
    using verified by (auto simp: failed_run Let_def intro!: follows_current_exe follows_read split: option.splits)
qed

lemma file_events_quiet: "list_all file_event ev \<Longrightarrow> list_all check_event ev"
proof (rule list.pred_mono_strong)
  fix e
  show "file_event e \<Longrightarrow> check_event e"
    by (cases e) simp_all
qed

lemma follows_run_process: "follows W (sound_run W arguments) [] s (run_process W arguments)"
proof (cases "parse_mode arguments")
  case (Inl e)
  then show ?thesis
    by (simp add: run_process_def failed_run)
next
  case (Inr mode)
  have configured: "follows W (sound_run W arguments) [] s (P_VarOs ''OPENBOX_SANDBOX_CONFIG'' (\<lambda>config_path.
      case config_path of
        None \<Rightarrow> P_Return (Err PE_Configuration)
      | Some path \<Rightarrow> load W path (\<lambda>loaded. case loaded of
            Inl _ \<Rightarrow> P_Return (Err PE_Configuration) | Inr config \<Rightarrow> run_configured W mode config)))"
    if "mode = Mode_Run \<or> mode = Mode_CheckConfig"
  proof (rule follows_var_os)
    fix v
    have "follows W (sound_run W arguments) [PV_VarOs ''OPENBOX_SANDBOX_CONFIG'' (Some path)] s (load W path (\<lambda>loaded.
        case loaded of Inl _ \<Rightarrow> P_Return (Err PE_Configuration) | Inr config \<Rightarrow> run_configured W mode config))" for path
    proof (rule follows_load)
      fix E' s' config
      assume later: "later [PV_VarOs ''OPENBOX_SANDBOX_CONFIG'' (Some path)] s E' s'" and "loaded_from W E' path config"
      moreover from later have "list_all check_event E'" and "PV_VarOs ''OPENBOX_SANDBOX_CONFIG'' (Some path) \<in> set E'"
        by (auto simp: later_def file_events_quiet)
      ultimately show "follows W (sound_run W arguments) E' s' (case Ok config of
          Inl _ \<Rightarrow> P_Return (Err PE_Configuration) | Inr config \<Rightarrow> run_configured W mode config)"
        using follows_run_configured [OF _ _ _ Inr that] by simp
    qed (simp add: failed_run)
    then show "follows W (sound_run W arguments) ([] @ [PV_VarOs ''OPENBOX_SANDBOX_CONFIG'' v]) s (case v of
        None \<Rightarrow> P_Return (Err PE_Configuration)
      | Some path \<Rightarrow> load W path (\<lambda>loaded. case loaded of
            Inl _ \<Rightarrow> P_Return (Err PE_Configuration) | Inr config \<Rightarrow> run_configured W mode config))"
      by (cases v) (simp_all add: failed_run)
  qed
  show ?thesis
  proof (cases mode)
    case (Mode_CompileNativePolicy policy_document compiled root)
    with Inr show ?thesis
      by (auto simp: run_process_def failed_run sound_run_def ended_well_def split: sum.splits
          intro!: follows_compile_policy follows_print follows_return)
  qed (use Inr configured in \<open>simp_all add: run_process_def\<close>)
qed

text \<open>Who a configured server lets in.\<close>

lemma collect_callers_named:
  assumes "collect_callers configured callers0 = Ok callers" and "hm_get callers fingerprint = Some role"
  shows "hm_get callers0 fingerprint = Some role
     \<or> (\<exists>c \<in> set configured. auc_certificate_sha256 c = fp_str fingerprint \<and> role = CallerRole_from (auc_role c))"
  using assms
proof (induction configured arbitrary: callers0)
  case (Cons c configured)
  from Cons.prems(1) obtain f where f: "CallerFingerprint_parse (auc_certificate_sha256 c) = Ok f"
    and rest: "collect_callers configured (hm_insert f (CallerRole_from (auc_role c)) callers0) = Ok callers"
    by (auto split: sum.splits)
  from f have "fp_str f = auc_certificate_sha256 c"
    by (auto simp: CallerFingerprint_parse_def split: if_splits)
  with Cons.IH [OF rest Cons.prems(2)] show ?case
    by (auto split: if_splits)
qed simp

lemma parse_mode_run: "parse_mode arguments = Ok Mode_Run \<longleftrightarrow> arguments = []"
  by (auto simp: parse_mode_def split: list.splits if_splits)

end
