(* ===== verification/Process_Witness.thy ===== *)
theory Process_Witness
  imports Process_Claims
begin

text \<open>A process that reads a configuration for the OpenShell provider and starts to serve.\<close>

definition sample_digest64 :: string where
  "sample_digest64 = replicate 64 (CHR ''b'')"

definition local_text :: "nat \<Rightarrow> string" where
  "local_text port = show_ipv4 127 0 0 1 port"

definition sample_raw :: raw_json where
  "sample_raw = RJ_Map
     [(''bind_address'', RJ_Str (local_text 17443)), (''server_certificate_path'', RJ_Str ''/c''),
      (''server_private_key_path'', RJ_Str ''/c''), (''client_ca_path'', RJ_Str ''/c''),
      (''authorized_callers'', RJ_Seq [RJ_Map [(''certificate_sha256'', RJ_Str sample_digest64), (''role'', RJ_Str ''runtime'')]]),
      (''state_directory'', RJ_Str ''/d''),
      (''asset_bundle'', RJ_Map
         [(''runtime_contract_version'', RJ_U64 1), (''adapter_build_sha256'', RJ_Str sample_digest64),
          (''template'', RJ_Str ''t''),
          (''policy'', RJ_Map [(''id'', RJ_Str ''p''), (''version'', RJ_U64 1), (''sha256'', RJ_Str sample_digest64)]),
          (''compatibility_id'', RJ_Str ''v1'')]),
      (''provider'', RJ_Str ''openshell''), (''provider_capability'', RJ_Str ''attested''),
      (''runtime_endpoint'', RJ_Str (''https://'' @ local_text 17670)), (''runtime_mtls_directory'', RJ_Str ''/d''),
      (''runtime_connect_timeout_ms'', RJ_U64 9), (''runtime_poll_interval_ms'', RJ_U64 9),
      (''reconcile_delete_deadline_ms'', RJ_U64 9), (''reconcile_wait_deadline_ms'', RJ_U64 9),
      (''maximum_connections'', RJ_U64 8), (''drain_timeout_ms'', RJ_U64 9)]"

definition sample_asset_bundle :: AssetBundleIdentity where
  "sample_asset_bundle = \<lparr>ab_runtime_contract_version = 1, ab_adapter_build_sha256 = Sha256Digest sample_digest64,
     ab_template = TemplateIdentity ''t'',
     ab_policy = \<lparr>policy_id = ''p'', policy_version = 1, policy_sha256 = Sha256Digest sample_digest64\<rparr>,
     ab_compatibility_id = ''v1''\<rparr>"

definition sample_process_config :: ProcessConfig where
  "sample_process_config = \<lparr>pcf_bind_address = local_address, pcf_server_certificate_path = ''/c'',
     pcf_server_private_key_path = ''/c'', pcf_client_ca_path = ''/c'',
     pcf_authorized_callers = [\<lparr>auc_certificate_sha256 = sample_digest64, auc_role = AR_Runtime\<rparr>],
     pcf_state_directory = ''/d'', pcf_asset_bundle = sample_asset_bundle, pcf_provider = PK_OpenShell,
     pcf_provider_capability = Attested, pcf_runtime_endpoint = Some (''https://'' @ local_text 17670),
     pcf_runtime_mtls_directory = Some ''/d'', pcf_runtime_connect_timeout_ms = Some 9,
     pcf_runtime_poll_interval_ms = Some 9, pcf_native_profile_path = None, pcf_native_profile_sha256 = None,
     pcf_native_workspace_root = None, pcf_reconcile_delete_deadline_ms = 9, pcf_reconcile_wait_deadline_ms = 9,
     pcf_maximum_connections = 8, pcf_drain_timeout_ms = 9, pcf_allow_degraded_landlock = False\<rparr>"

lemma local_text_parsed: "port < 65536 \<Longrightarrow> parse_socket_addr (local_text port) = Some \<lparr>sa_ip = IPv4 [127, 0, 0, 1], sa_port = port\<rparr>"
  by (simp add: local_text_def parse_show_ipv4)

lemma show_nat_plain: "c \<in> set (show_nat n) \<Longrightarrow> is_ascii_digit c"
  using show_nat_digits [of n] by (auto simp: list_all_iff)

lemma local_text_plain:
  "c \<in> set (local_text port) \<Longrightarrow> is_ascii_digit c \<or> c = CHR ''.'' \<or> c = CHR '':''"
  unfolding local_text_def show_ipv4_def by (auto dest: show_nat_plain)

lemma local_text_no [simp]:
  "nul \<notin> set (local_text port)" "CHR ''/'' \<notin> set (local_text port)" "CHR ''?'' \<notin> set (local_text port)"
  "CHR ''#'' \<notin> set (local_text port)" "CHR ''@'' \<notin> set (local_text port)" "local_text port \<noteq> []"
proof -
  have "c \<notin> set (local_text port)" if "\<not> is_ascii_digit c" "c \<noteq> CHR ''.''" "c \<noteq> CHR '':''" for c
    using that local_text_plain by blast
  then show "nul \<notin> set (local_text port)" "CHR ''/'' \<notin> set (local_text port)" "CHR ''?'' \<notin> set (local_text port)"
      "CHR ''#'' \<notin> set (local_text port)" "CHR ''@'' \<notin> set (local_text port)"
    by (simp_all add: nul_def is_ascii_digit_def)
  show "local_text port \<noteq> []"
    by (simp add: local_text_def show_ipv4_def)
qed

lemma local_endpoint: "0 < port \<Longrightarrow> port < 65536 \<Longrightarrow> valid_loopback_https_endpoint (''https://'' @ local_text port)"
  by (simp add: valid_loopback_https_endpoint_def local_text_parsed list_ex_iff disj_imp del: local_text_def) (auto)

lemma sample_digest64_ok [simp]:
  "Sha256Digest_parse sample_digest64 = Ok (Sha256Digest sample_digest64)"
  "CallerFingerprint_parse sample_digest64 = Ok (CallerFingerprint sample_digest64)" "nul \<notin> set sample_digest64"
  by (simp_all add: sample_digest64_def Sha256Digest_parse_def CallerFingerprint_parse_def list_all_iff
      is_lower_hex_def nul_def)

lemma small_digits: "char_of (49 :: nat) = CHR ''1''" "char_of (56 :: nat) = CHR ''8''" "char_of (57 :: nat) = CHR ''9''"
proof -
  have "(49 :: nat) = of_char (CHR ''1'')" "(56 :: nat) = of_char (CHR ''8'')" "(57 :: nat) = of_char (CHR ''9'')"
    by simp_all
  then show "char_of (49 :: nat) = CHR ''1''" "char_of (56 :: nat) = CHR ''8''" "char_of (57 :: nat) = CHR ''9''"
    by (metis char_of_char)+
qed

lemma small_numbers [simp]: "show_nat (Suc 0) = ''1''" "show_nat 8 = ''8''" "show_nat 9 = ''9''"
  by (simp_all add: show_nat.simps digit_char_def small_digits)

lemma nul_plain [simp]: "CHR 0x00 \<notin> set (local_text port)" "CHR 0x00 \<notin> set sample_digest64"
  using local_text_no(1) sample_digest64_ok(3) by (simp_all add: nul_def)

definition sample_json :: json where
  "sample_json = J_Object
     [(''bind_address'', J_String (local_text 17443)), (''server_certificate_path'', J_String ''/c''),
      (''server_private_key_path'', J_String ''/c''), (''client_ca_path'', J_String ''/c''),
      (''authorized_callers'', J_Array [J_Object [(''certificate_sha256'', J_String sample_digest64), (''role'', J_String ''runtime'')]]),
      (''state_directory'', J_String ''/d''),
      (''asset_bundle'', J_Object
         [(''runtime_contract_version'', J_Number ''1''), (''adapter_build_sha256'', J_String sample_digest64),
          (''template'', J_String ''t''),
          (''policy'', J_Object [(''id'', J_String ''p''), (''version'', J_Number ''1''), (''sha256'', J_String sample_digest64)]),
          (''compatibility_id'', J_String ''v1'')]),
      (''provider'', J_String ''openshell''), (''provider_capability'', J_String ''attested''),
      (''runtime_endpoint'', J_String (''https://'' @ local_text 17670)), (''runtime_mtls_directory'', J_String ''/d''),
      (''runtime_connect_timeout_ms'', J_Number ''9''), (''runtime_poll_interval_ms'', J_Number ''9''),
      (''reconcile_delete_deadline_ms'', J_Number ''9''), (''reconcile_wait_deadline_ms'', J_Number ''9''),
      (''maximum_connections'', J_Number ''8''), (''drain_timeout_ms'', J_Number ''9'')]"

lemma sample_visited: "map_option into_value (visit sample_raw) = Some sample_json"
  by (simp add: sample_raw_def sample_json_def nul_def)

lemma number_1: "json_as_u64 (J_Number ''1'') = Some 1" and number_8: "json_as_u64 (J_Number ''8'') = Some 8"
  and number_9: "json_as_u64 (J_Number ''9'') = Some 9"
  by (simp_all add: parse_unsigned_def is_ascii_digit_def decimal_def digit_value_def)

lemma bundle_decoded:
  "de_asset_bundle (J_Object
         [(''runtime_contract_version'', J_Number ''1''), (''adapter_build_sha256'', J_String sample_digest64),
          (''template'', J_String ''t''),
          (''policy'', J_Object [(''id'', J_String ''p''), (''version'', J_Number ''1''), (''sha256'', J_String sample_digest64)]),
          (''compatibility_id'', J_String ''v1'')]) = Some sample_asset_bundle"
  by (simp add: de_asset_bundle_def struct_fields_def required_def de_u16_def de_unsigned_def number_1 de_sha256_def
      ok_value_def de_template_def TemplateIdentity_new_def de_policy_identity_def de_u64_def PolicyIdentity_new_def
      AssetBundleIdentity_new_def is_compatibility_byte_def is_ascii_alphanumeric_def is_ascii_digit_def
      sample_asset_bundle_def del: json_as_u64.simps)

lemma callers_decoded:
  "de_list AuthorizedCaller_deserialize
     (J_Array [J_Object [(''certificate_sha256'', J_String sample_digest64), (''role'', J_String ''runtime'')]]) =
   Some [\<lparr>auc_certificate_sha256 = sample_digest64, auc_role = AR_Runtime\<rparr>]"
  by (simp add: de_list_def AuthorizedCaller_deserialize_def struct_fields_def required_def
      AuthorizedRole_deserialize_def de_variant_def)

lemma sample_decoded: "ProcessConfig_deserialize sample_json = Some sample_process_config"
proof -
  have fields: "struct_fields CONFIG_FIELDS sample_json = Some (case sample_json of J_Object m \<Rightarrow> m | _ \<Rightarrow> [])"
    by (simp add: struct_fields_def sample_json_def CONFIG_FIELDS_def)
  show ?thesis
    unfolding ProcessConfig_deserialize_def fields
    by (simp add: sample_json_def required_def defaulted_def de_option_def local_text_parsed callers_decoded
        bundle_decoded ProviderKind_deserialize_def ProviderCapability_deserialize_def de_variant_def
        de_u64_def de_unsigned_def number_8 number_9 sample_process_config_def local_address_def
        del: json_as_u64.simps)
qed

end
