(* ===== verification/Process_Props.thy ===== *)
theory Process_Props
  imports Process_Witness
begin

text \<open>
  The properties of the service process: strict JSON, \<open>load\<close>, the channel of the OpenShell provider and the
  whole of \<open>run\<close>; a process that reads the sample configuration and starts to serve as the concrete run.
\<close>

section \<open>A concrete run\<close>

definition sample_process :: "unit process_lib" where
  "sample_process = \<lparr>wl_platform = Linux, wl_native = sample_native_lib,
     wl_transport = sample_transport\<lparr>tl_sha256 := (\<lambda>_. replicate 32 187)\<rparr>, wl_json = (\<lambda>_. Some sample_raw),
     wl_from_shared = (\<lambda>_. True), wl_tls_config = (\<lambda>_. True), wl_euid = 7\<rparr>"

definition idle_process :: pstate where
  "idle_process = \<lparr>ps_opened = [], ps_store = [], ps_service = None\<rparr>"

text \<open>Files of one byte with the mode 0600, directories with the mode 0700.\<close>

definition own_file :: Metadata where
  "own_file = \<lparr>md_kind = RegularFile, md_uid = 7, md_mode = 384, md_len = 1\<rparr>"

definition own_directory :: Metadata where
  "own_directory = \<lparr>md_kind = DirectoryFile, md_uid = 7, md_mode = 448, md_len = 4\<rparr>"

lemma own_accepted [simp]:
  "owner_file 7 b own_file" "credential_file 7 b own_file" "owner_directory 7 own_directory"
  "is_absolute directory \<Longrightarrow> credential_directory 7 directory own_directory"
  "md_kind own_file \<noteq> SymbolicLink" "md_kind own_directory \<noteq> SymbolicLink" "md_len own_file = 1"
  by (cases b; simp add: owner_file_def credential_file_def owner_directory_def credential_directory_def
      own_file_def own_directory_def MAX_CREDENTIAL_BYTES_def)+

lemma sample_process_simps [simp]:
  "wl_euid sample_process = 7" "wl_json sample_process body = Some sample_raw" "wl_from_shared sample_process uri"
  "wl_tls_config sample_process tls" "hex_string (tl_sha256 (wl_transport sample_process) body) = sample_digest64"
proof -
  have "hex_byte 187 = [CHR ''b'', CHR ''b'']"
    by code_simp
  moreover have "concat (replicate n [c, c]) = replicate (n + n) c" for n and c :: char
    by (induction n) (simp_all add: replicate_append_same)
  ultimately show "hex_string (tl_sha256 (wl_transport sample_process) body) = sample_digest64"
    by (simp add: sample_process_def sample_digest64_def hex_string_def)
qed (simp_all add: sample_process_def)

text \<open>\<open>leads_to goal s p\<close>: some answers lead from \<open>p\<close> to a point with the goal.\<close>

definition leads_to :: "('r pprog \<Rightarrow> bool) \<Rightarrow> pstate \<Rightarrow> 'r pprog \<Rightarrow> bool" where
  "leads_to goal s p \<longleftrightarrow> (\<exists>E s' p'. reaches (pstep sample_process) s p E s' p' \<and> goal p')"

lemma leads_here: "goal p \<Longrightarrow> leads_to goal s p"
  unfolding leads_to_def by (blast intro: reaches_refl)

lemma leads_step:
  "pstep sample_process p a s = Some (ev, s1, p1) \<Longrightarrow> leads_to goal s1 p1 \<Longrightarrow> leads_to goal s p"
  unfolding leads_to_def by (blast intro: reaches_step)

lemma leads_symlink_metadata: "leads_to goal s (k (Some m)) \<Longrightarrow> leads_to goal s (P_SymlinkMetadata path k)"
  by (rule leads_step [where a = "PR_Metadata (Some m)"]) simp_all

lemma leads_fstat: "leads_to goal s (k (Some m)) \<Longrightarrow> leads_to goal s (P_Fstat h k)"
  by (rule leads_step [where a = "PR_Metadata (Some m)"]) simp_all

lemma leads_open:
  "(\<And>h opened. leads_to goal (s\<lparr>ps_opened := opened\<rparr>) (k (Some h))) \<Longrightarrow> leads_to goal s (P_Open path k)"
  by (rule leads_step [where a = "PR_Bool True"]) simp_all

lemma leads_read_take:
  "0 < limit \<Longrightarrow> leads_to goal s (k (Some [0])) \<Longrightarrow> leads_to goal s (P_ReadTake h limit k)"
  by (rule leads_step [where a = "PR_Bytes (Some [0])"]) (simp_all add: guarded_def)

lemma path_of_c: "path_components ''/c'' = [''c'']" and path_of_d: "path_components ''/d'' = [''d'']"
  by (simp_all add: path_components_def)

lemma leads_open_owner_file:
  assumes "\<And>h opened. leads_to goal (s\<lparr>ps_opened := opened\<rparr>) (k (Ok h))"
  shows "leads_to goal s (open_owner_file sample_process ''/c'' b k)"
  unfolding open_owner_file_def reject_symlink_components_def path_of_c
  by (auto simp: is_absolute_def starts_with_def Let_def assms
      intro!: leads_symlink_metadata [where m = own_file] leads_open leads_fstat [where m = own_file])

lemma leads_owner_file:
  "(\<And>opened. leads_to goal (s\<lparr>ps_opened := opened\<rparr>) (k (Ok ()))) \<Longrightarrow>
     leads_to goal s (validate_owner_file sample_process ''/c'' b k)"
  unfolding validate_owner_file_def by (rule leads_open_owner_file) simp

lemma leads_owner_directory:
  "leads_to goal s (k (Ok ())) \<Longrightarrow> leads_to goal s (validate_owner_directory sample_process ''/d'' k)"
  unfolding validate_owner_directory_def reject_symlink_components_def path_of_d
  by (auto simp: is_absolute_def starts_with_def Let_def
      intro!: leads_symlink_metadata [where m = own_directory])

lemma sample_config_accepted:
  "decode_config sample_process body = Some sample_process_config" "valid_transport sample_process_config"
  "valid_openshell sample_process_config" "valid_deadlines sample_process_config"
proof -
  show "decode_config sample_process body = Some sample_process_config"
    using sample_visited sample_decoded by (auto simp: decode_config_def)
  show "valid_transport sample_process_config" "valid_deadlines sample_process_config"
    by (simp_all add: sample_process_config_def valid_transport_def valid_deadlines_def local_address_def)
  show "valid_openshell sample_process_config"
    using local_endpoint [of 17670] by (simp add: sample_process_config_def valid_openshell_def outside_def)
qed

lemma leads_load:
  assumes "\<And>opened. leads_to goal (s\<lparr>ps_opened := opened\<rparr>) (k (Ok sample_process_config))"
  shows "leads_to goal s (load sample_process ''/c'' k)"
proof -
  have checks: "leads_to goal s1 (in_order (config_checks sample_process sample_process_config) k1)"
    if "\<And>opened. leads_to goal (s1\<lparr>ps_opened := opened\<rparr>) (k1 (Ok ()))" for s1 k1
    using that [of "ps_opened s1"]
    by (auto simp: config_checks_def sample_process_config_def intro!: leads_owner_file leads_owner_directory that)
  have provider: "pcf_provider sample_process_config = PK_OpenShell"
    by (simp add: sample_process_config_def)
  show ?thesis
    unfolding load_def validate_config_def validate_provider_def
    by (auto simp: sample_config_accepted provider assms MAX_CONFIG_BYTES_def
        intro!: leads_open_owner_file leads_fstat [where m = own_file] leads_read_take checks)
qed

lemma leads_read_credential:
  assumes "\<And>opened. leads_to goal (s\<lparr>ps_opened := opened\<rparr>) (k (Ok [0]))"
  shows "leads_to goal s (read_credential sample_process ''/d'' name b k)"
  unfolding read_credential_def
  by (auto simp: Let_def assms MAX_CREDENTIAL_BYTES_def
      intro!: leads_open leads_fstat [where m = own_file] leads_read_take)

definition sample_channel :: OpenShellConfig where
  "sample_channel = \<lparr>osc_endpoint = ''https://'' @ local_text 17670, osc_mtls_directory = ''/d'',
     osc_connect_timeout = millis 9, osc_poll_interval = millis 9, osc_allow_degraded_landlock = False,
     osc_allow_insecure_gateway = False\<rparr>"

lemma sample_channel_config: "runtime_config sample_process_config = Ok sample_channel"
  by (simp add: runtime_config_def sample_process_config_def OpenShellConfig_new_def with_connect_timeout_def
      with_poll_interval_def with_degraded_landlock_def sample_channel_def)

lemma leads_connect:
  assumes "\<And>opened. leads_to goal (s\<lparr>ps_opened := opened\<rparr>) (k (Ok
      \<lparr>oss_poll_interval = millis 9, oss_allow_degraded_landlock = False\<rparr>))"
  shows "leads_to goal s (openshell_connect sample_process sample_channel k)"
proof -
  have connect: "leads_to goal s1 (P_Connect endpoint k1)" if "leads_to goal s1 (k1 True)" for s1 endpoint k1
    by (rule leads_step [OF _ that, where a = "PR_Bool True"]) simp
  show ?thesis
    unfolding openshell_connect_def connect_channel_def read_credentials_def validate_credential_directory_def
    by (auto simp: Let_def sample_channel_def is_absolute_def starts_with_def connect_endpoint_def assms
        intro!: leads_symlink_metadata [where m = own_directory] leads_read_credential connect)
qed

text \<open>The stages from the store to the server.\<close>

definition sample_callers :: callers where
  "sample_callers = [(CallerFingerprint sample_digest64, RuntimeRole)]"

lemma sample_callers_collected:
  "collect_callers (pcf_authorized_callers sample_process_config) [] = Ok sample_callers"
  by (simp add: sample_process_config_def sample_callers_def hm_insert_def)

fun serving :: "'r pprog \<Rightarrow> bool" where
  "serving (P_Serve _ _) = True"
| "serving _ = False"

lemma leads_store_init:
  "leads_to goal (s\<lparr>ps_store := []\<rparr>) (k True) \<Longrightarrow> path \<noteq> [] \<Longrightarrow> leads_to goal s (P_StoreInit path k)"
  by (rule leads_step [where a = "PR_StoreInit True True (\<lambda>m. Some m) \<lparr>dir_present = None, dir_mode = 0\<rparr> []"])
    (simp_all add: guarded_def DurableStore_initialize_def Let_def table_invar_def hm_invar_def)

lemma leads_boundary:
  "leads_to goal (s\<lparr>ps_service := Some (service_new B (ps_store s))\<rparr>) p \<Longrightarrow> leads_to goal s (P_Boundary B p)"
  by (rule leads_step [where a = PR_Done]) simp_all

lemma leads_reconcile:
  assumes "ps_service s = Some (service_new B [])" and "\<And>service. leads_to goal (s\<lparr>ps_service := Some service\<rparr>) (k True)"
  shows "leads_to goal s (P_Reconcile d w k)"
proof -
  have "\<exists>evs service report. run_prog [A_tick, A_load True, A_tick] (service_new B []) (reconcile_startup d w) =
      (evs, service, Ret (Ok report))"
    by (simp add: service_new_def reconcile_startup_def table_load_def Let_def)
  then obtain evs service report where "run_prog [A_tick, A_load True, A_tick] (service_new B []) (reconcile_startup d w) =
      (evs, service, Ret (Ok report))"
    by blast
  with assms(1) show ?thesis
    by - (rule leads_step [OF _ assms(2), where a = "PR_Reconcile [A_tick, A_load True, A_tick]"], simp add: is_ok_def)
qed

lemma leads_bind:
  assumes "\<And>server. leads_to goal s (k (Ok server))"
  shows "leads_to goal s (P_Bind config k)"
proof -
  obtain server where "server_bind config (Some local_address) sample_tls_calls = Ok server"
    by (simp add: server_bind_def from_listener_def load_tls_config_def read_certificates_def
        read_private_key_def read_root_store_def sample_tls_calls_def local_address_def)
  then show ?thesis
    by - (rule leads_step [OF _ assms, where a = "PR_Bind (Some local_address) sample_tls_calls"], simp add: Let_def)
qed

lemma leads_serve: "leads_to serving s (serve_process sample_process_config sample_callers)"
proof -
  have tls: "\<exists>tls. TlsServerConfig_new (pcf_bind_address sample_process_config)
      (pcf_server_certificate_path sample_process_config) (pcf_server_private_key_path sample_process_config)
      (pcf_client_ca_path sample_process_config) sample_callers (pcf_maximum_connections sample_process_config)
      (millis (pcf_drain_timeout_ms sample_process_config)) = Ok tls"
    by (simp add: TlsServerConfig_new_def sample_process_config_def sample_callers_def local_address_def millis_def)
  have "pcf_state_directory sample_process_config \<noteq> []"
    by (simp add: sample_process_config_def)
  moreover have serving: "leads_to serving s1 (P_Serve server k)" for s1 server
      and k :: "ServerError + unit \<Rightarrow> (ProcessError + unit) pprog"
    by (rule leads_here) simp
  ultimately show ?thesis
    using tls unfolding serve_process_def
    by - (rule leads_store_init, simp, rule leads_boundary, rule leads_reconcile,
        auto intro!: leads_bind serving)
qed

lemma leads_run: "leads_to serving s (run_process sample_process [])"
proof -
  have var: "leads_to goal s1 (P_VarOs name k)" if "leads_to goal s1 (k (Some ''/c''))" for goal s1 name
      and k :: "string option \<Rightarrow> (ProcessError + unit) pprog"
    by (rule leads_step [OF _ that, where a = "PR_Text (Some ''/c'')"]) simp
  have exe: "leads_to goal s1 (P_CurrentExe k)" if "leads_to goal s1 (k (Some ''/x''))" for goal s1
      and k :: "string option \<Rightarrow> (ProcessError + unit) pprog"
    by (rule leads_step [OF _ that, where a = "PR_Text (Some ''/x'')"]) simp
  have content: "leads_to goal s1 (P_Read path k)" if "leads_to goal s1 (k (Some []))" for goal s1 path
      and k :: "bytes option \<Rightarrow> (ProcessError + unit) pprog"
    by (rule leads_step [OF _ that, where a = "PR_Bytes (Some [])"]) simp
  have pinned: "sha_str (ab_adapter_build_sha256 (pcf_asset_bundle sample_process_config)) = sample_digest64"
      and callers: "length sample_callers = length (pcf_authorized_callers sample_process_config)"
      and provider: "pcf_provider sample_process_config = PK_OpenShell"
    by (simp_all add: sample_process_config_def sample_asset_bundle_def sample_callers_def)
  have "leads_to serving s1 (run_configured sample_process Mode_Run sample_process_config)" for s1
    unfolding run_configured_def verify_running_binary_def start_provider_def
    by (auto simp: Let_def pinned callers provider sample_callers_collected sample_channel_config
        intro!: exe content leads_connect leads_serve)
  then show ?thesis
    unfolding run_process_def by (auto simp: parse_mode_def intro!: var leads_load)
qed

section \<open>Properties\<close>

text \<open>
  C39. What the strict visitor makes of a document: it refuses exactly the documents with a NUL character in
  a text or a key, a key that an object has twice, or a number that is not finite, and the value that it
  gives has each key of an object once and no NUL anywhere.
\<close>

theorem strict_json_clean:
  "(visit raw = None \<longleftrightarrow> \<not> clean_raw raw) \<and> (\<forall>v. visit raw = Some v \<longrightarrow> clean_json (into_value v))"
  using visit_accepts(1) [of raw] visit_clean(1) [of raw] by auto

theorem strict_json_clean_witness: "visit sample_raw \<noteq> None \<and> clean_raw sample_raw \<and> clean_json sample_json"
  using strict_json_clean [of sample_raw] sample_visited by (cases "visit sample_raw") auto







end
