(* ===== verification/Launcher_Command.thy ===== *)
theory Launcher_Command
  imports Rust_Format
begin

text \<open>
  The command line of the launcher \<open>obs\<close> (\<^verbatim>\<open>src/packaging/launcher/src/main.rs\<close>): the table of the
  provisioning options and the parser of the arguments, whose errors are the messages that are printed.
\<close>

section \<open>Command lines\<close>

datatype CommandLine =
    CL_Help
  | CL_Version
  | CL_Provision (cl_clean_rerun: bool) (cl_keep_pki: bool) (cl_overrides: "(string \<times> string) list")
  | CL_Uninstall bool
  | CL_Status
  | CL_VerifyRuntime
  | CL_Update bool
  | CL_Launch

definition asset_tag :: "bool \<Rightarrow> string" where
  "asset_tag dev = (if dev then ''v0.1.0-dev'' else ''v0.1.0'')"

text \<open>The argument is the variable \<^verbatim>\<open>OPENBOX_CHANNEL\<close> at compile time.\<close>

definition channel :: "string option \<Rightarrow> string" where
  "channel baked = (if baked = Some ''base'' then ''base'' else ''dev'')"

definition PROVISION_FLAG_ENV :: "(string \<times> string) list" where
  "PROVISION_FLAG_ENV =
     [(''--provider'', ''OPENBOX_PROVIDER''),
      (''--state-root'', ''OPENBOX_STATE_ROOT''),
      (''--native-workspace-root'', ''OPENBOX_NATIVE_WORKSPACE_ROOT''),
      (''--config-root'', ''OPENBOX_CONFIG_ROOT''),
      (''--project-root'', ''OPENBOX_PROJECT_ROOT''),
      (''--bundle-dir'', ''OPENSHELL_BUNDLE_DIR''),
      (''--sandbox-bin'', ''OPENBOX_SANDBOX_BIN''),
      (''--sandbox-port'', ''OPENBOX_SANDBOX_PORT''),
      (''--gateway-port'', ''OPENSHELL_SERVER_PORT''),
      (''--gateway-name'', ''OPENSHELL_GATEWAY_NAME''),
      (''--log-level'', ''OPENSHELL_LOG_LEVEL''),
      (''--policy-file'', ''OPENBOX_POLICY_FILE''),
      (''--policy-id'', ''OPENBOX_POLICY_ID''),
      (''--policy-version'', ''OPENBOX_POLICY_VERSION''),
      (''--compat-id'', ''OPENBOX_COMPAT_ID''),
      (''--sandbox-image'', ''OPENBOX_SANDBOX_IMAGE''),
      (''--dev-tar'', ''OPENBOX_SANDBOX_DEV_TAR''),
      (''--dev-image'', ''OPENBOX_DEV_IMAGE_NAME''),
      (''--vm-driver-state-dir'', ''OPENSHELL_VM_DRIVER_STATE_DIR''),
      (''--tls-dir'', ''OPENSHELL_LOCAL_TLS_DIR''),
      (''--runtime-mtls-dir'', ''OPENBOX_RUNTIME_MTLS_DIR''),
      (''--openshell-meta-dir'', ''OPENBOX_OPENSHELL_META_DIR''),
      (''--caller-subj'', ''OPENBOX_CALLER_SUBJ''),
      (''--cert-days'', ''OPENBOX_CERT_DAYS''),
      (''--rsa-bits'', ''OPENBOX_RSA_BITS''),
      (''--jwt-ttl-secs'', ''OPENBOX_JWT_TTL_SECS''),
      (''--gateway-ready-polls'', ''OPENBOX_GATEWAY_READY_POLLS''),
      (''--gateway-ready-interval'', ''OPENBOX_GATEWAY_READY_INTERVAL''),
      (''--service-ready-polls'', ''OPENBOX_SERVICE_READY_POLLS''),
      (''--service-ready-interval'', ''OPENBOX_SERVICE_READY_INTERVAL''),
      (''--warm-poll-count'', ''OPENBOX_WARM_POLL_COUNT''),
      (''--warm-poll-interval'', ''OPENBOX_WARM_POLL_INTERVAL''),
      (''--runtime-connect-timeout-ms'', ''OPENBOX_RUNTIME_CONNECT_TIMEOUT_MS''),
      (''--runtime-poll-interval-ms'', ''OPENBOX_RUNTIME_POLL_INTERVAL_MS''),
      (''--reconcile-delete-deadline-ms'', ''OPENBOX_RECONCILE_DELETE_DEADLINE_MS''),
      (''--reconcile-wait-deadline-ms'', ''OPENBOX_RECONCILE_WAIT_DEADLINE_MS''),
      (''--max-connections'', ''OPENBOX_MAX_CONNECTIONS''),
      (''--drain-timeout-ms'', ''OPENBOX_DRAIN_TIMEOUT_MS''),
      (''--allow-degraded-landlock'', ''OPENBOX_ALLOW_DEGRADED_LANDLOCK''),
      (''--container-runtime'', ''CONTAINER_RUNTIME''),
      (''--bin-override'', ''OPENSHELL_BIN_OVERRIDE''),
      (''--gateway-bin'', ''OPENBOX_GATEWAY_BIN''),
      (''--cli-bin'', ''OPENBOX_CLI_BIN''),
      (''--driver-bin'', ''OPENBOX_DRIVER_BIN''),
      (''--vm-cache-tar'', ''OPENBOX_VM_CACHE_TAR''),
      (''--vm-cache-hit-timeout'', ''OPENBOX_VM_CACHE_HIT_TIMEOUT''),
      (''--warm-create-timeout'', ''OPENBOX_WARM_CREATE_TIMEOUT''),
      (''--warm-get-timeout'', ''OPENBOX_WARM_GET_TIMEOUT''),
      (''--warm-delete-timeout'', ''OPENBOX_WARM_DELETE_TIMEOUT''),
      (''--gateway-log-level'', ''OPENBOX_GATEWAY_LOG_LEVEL''),
      (''--krun-log-level'', ''OPENBOX_KRUN_LOG_LEVEL''),
      (''--driver-rust-log'', ''OPENBOX_DRIVER_RUST_LOG'')]"

definition PROVISION_FLAG_BOOLS :: "(string \<times> string \<times> string) list" where
  "PROVISION_FLAG_BOOLS =
     [(''--no-start'', ''NO_START'', ''1''),
      (''--systemd'', ''OPENBOX_SYSTEMD'', ''1''),
      (''--detach'', ''OPENBOX_DETACH'', ''1''),
      (''--purge-cache'', ''OPENBOX_PURGE_CACHE'', ''1''),
      (''--skip-warm-cache'', ''OPENBOX_WARM_CACHE'', ''0''),
      (''--force-warm-cache'', ''OPENBOX_WARM_CACHE'', ''1''),
      (''--no-vm-cache'', ''OPENBOX_USE_VM_CACHE'', ''0''),
      (''--use-vm-cache'', ''OPENBOX_USE_VM_CACHE'', ''1''),
      (''--dev'', ''OPENBOX_RELEASE_LINE'', ''dev''),
      (''--base'', ''OPENBOX_RELEASE_LINE'', ''base'')]"

section \<open>Provisioning options\<close>

text \<open>
  The search of the table for one argument: no entry, or the override and the arguments that are left.
\<close>

fun value_flag ::
  "(string \<times> string) list \<Rightarrow> string \<Rightarrow> string list \<Rightarrow> (string + (string \<times> string) \<times> string list) option" where
  "value_flag [] arg rest = None"
| "value_flag ((flag, env_key) # table) arg rest =
     (if arg = flag
      then Some (case rest of
                   [] \<Rightarrow> Err (arg @ '' requires a value'')
                 | v # rest' \<Rightarrow> Ok ((env_key, v), rest'))
      else case strip_prefix (flag @ ''='') arg of
             Some v \<Rightarrow> Some (if v = [] then Err (flag @ ''= requires a value'') else Ok ((env_key, v), rest))
           | None \<Rightarrow> value_flag table arg rest)"

lemma value_flag_rest: "value_flag table arg rest = Some (Ok (kv, rest')) \<Longrightarrow> length rest' \<le> length rest"
  by (induction table arg rest rule: value_flag.induct) (auto split: if_splits option.splits list.splits)

definition quote :: char where "quote = CHR 0x27"
definition backtick :: char where "backtick = CHR 0x60"

definition unknown_option :: "string \<Rightarrow> string" where
  "unknown_option arg =
     ''unknown provision option '' @ [quote] @ arg @ [quote] @ '' (see '' @ [backtick]
     @ ''obs provision --help'' @ [backtick] @ ''-listed flags)''"

type_synonym ProvisionFlags = "(string \<times> string) list \<times> bool \<times> bool"

text \<open>The loop over the arguments: the overrides so far, \<open>clean_rerun\<close> and \<open>keep_pki\<close>.\<close>

function flags_loop :: "(string \<times> string) list \<Rightarrow> bool \<Rightarrow> bool \<Rightarrow> string list \<Rightarrow> string + ProvisionFlags" where
  "flags_loop overrides clean_rerun keep_pki [] = Ok (overrides, clean_rerun, keep_pki)"
| "flags_loop overrides clean_rerun keep_pki (arg # rest) =
     (if arg = ''--clean-rerun'' then flags_loop overrides True keep_pki rest
      else if arg = ''--keep-pki'' then flags_loop overrides clean_rerun True rest
      else case find (\<lambda>(flag, _). flag = arg) PROVISION_FLAG_BOOLS of
             Some (_, env_key, v) \<Rightarrow> flags_loop (overrides @ [(env_key, v)]) clean_rerun keep_pki rest
           | None \<Rightarrow>
               (case value_flag PROVISION_FLAG_ENV arg rest of
                  None \<Rightarrow> Err (unknown_option arg)
                | Some (Inl e) \<Rightarrow> Err e
                | Some (Inr (kv, rest')) \<Rightarrow> flags_loop (overrides @ [kv]) clean_rerun keep_pki rest'))"
  by pat_completeness auto

termination
  by (relation "measure (\<lambda>(_, _, _, args). length args)") (auto dest!: value_flag_rest)

definition parse_provision_flags :: "string list \<Rightarrow> string + ProvisionFlags" where
  "parse_provision_flags args =
     (case flags_loop [] False False args of
        Inl e \<Rightarrow> Err e
      | Inr (overrides, clean_rerun, keep_pki) \<Rightarrow>
          if (case find (\<lambda>(key, _). key = ''OPENBOX_PROVIDER'') (rev overrides) of
                Some (_, provider) \<Rightarrow> provider \<notin> {''native'', ''openshell''} | None \<Rightarrow> False)
          then Err ''--provider must be native or openshell''
          else if keep_pki \<and> \<not> clean_rerun
          then Err (''--keep-pki requires '' @ [backtick] @ ''obs provision --clean-rerun'' @ [backtick])
          else if \<not> clean_rerun \<and> list_ex (\<lambda>(key, v). key = ''OPENBOX_PURGE_CACHE'' \<and> v = ''1'') overrides
          then Err ''--purge-cache requires --uninstall or --clean-rerun''
          else Ok (overrides, clean_rerun, keep_pki))"

section \<open>The command\<close>

definition ensure_options :: "string list \<Rightarrow> string list \<Rightarrow> string + unit" where
  "ensure_options args allowed =
     (case find (\<lambda>arg. arg \<notin> set allowed) args of
        Some arg \<Rightarrow> Err (''unsupported option: '' @ arg) | None \<Rightarrow> Ok ())"

fun validate_launch_options :: "string list \<Rightarrow> string + unit" where
  "validate_launch_options [] = Ok ()"
| "validate_launch_options (arg # rest) =
     (if arg \<in> {''--allow-degraded'', ''--dry-run'', ''--verify-runtime''} then validate_launch_options rest
      else if arg = ''--driver''
      then (case rest of
              [] \<Rightarrow> Err ''--driver requires a value''
            | v # rest' \<Rightarrow>
                if starts_with ''-'' v then Err ''--driver requires a value'' else validate_launch_options rest')
      else if starts_with ''--driver='' arg \<and> length ''--driver='' < length arg then validate_launch_options rest
      else Err (''unsupported option: '' @ arg))"

fun parse_update :: "bool \<Rightarrow> string list \<Rightarrow> string + CommandLine" where
  "parse_update everything [] = Ok (CL_Update everything)"
| "parse_update everything (arg # rest) =
     (if arg = ''--all'' then parse_update True rest
      else Err (''unknown update option '' @ [quote] @ arg @ [quote]
        @ '' (only --all is supported; update always stays on its own release line)''))"

definition parse_command :: "string list \<Rightarrow> string + CommandLine" where
  "parse_command args =
     (if list_ex (\<lambda>arg. arg = ''-h'' \<or> arg = ''--help'') args then Ok CL_Help
      else case args of
        [] \<Rightarrow> Ok CL_Launch
      | command # options \<Rightarrow>
          if command = ''version'' then map_sum id (\<lambda>_. CL_Version) (ensure_options options [])
          else if command = ''provision''
          then map_sum id (\<lambda>(overrides, clean_rerun, keep_pki). CL_Provision clean_rerun keep_pki overrides)
                 (parse_provision_flags options)
          else if command = ''uninstall''
          then map_sum id (\<lambda>_. CL_Uninstall (list_ex (\<lambda>arg. arg = ''--keep-pki'') options))
                 (ensure_options options [''--keep-pki''])
          else if command = ''status'' then map_sum id (\<lambda>_. CL_Status) (ensure_options options [])
          else if command = ''update'' then parse_update False options
          else if \<not> starts_with ''-'' command then Err (''unknown subcommand: '' @ command)
          else case validate_launch_options args of
            Inl e \<Rightarrow> Err e
          | Inr _ \<Rightarrow>
              if list_ex (\<lambda>arg. arg = ''--verify-runtime'') args
              then if length (filter (\<lambda>arg. arg = ''--verify-runtime'') args) \<noteq> 1
                      \<or> list_ex (\<lambda>arg. arg \<noteq> ''--verify-runtime'') args
                   then Err ''--verify-runtime takes no other options'' else Ok CL_VerifyRuntime
              else Ok CL_Launch)"

fun flag_value :: "string list \<Rightarrow> string \<Rightarrow> string option" where
  "flag_value [] name = None"
| "flag_value (arg # rest) name =
     (if arg = name then (case rest of [] \<Rightarrow> None | v # _ \<Rightarrow> Some v)
      else case strip_prefix (name @ ''='') arg of Some v \<Rightarrow> Some v | None \<Rightarrow> flag_value rest name)"

section \<open>Lemmas\<close>

lemma starts_with_launch: "parse_command args = Ok CL_Launch \<Longrightarrow> \<forall>arg \<in> set args. arg \<noteq> ''--help'' \<and> arg \<noteq> ''-h''"
  by (auto simp: parse_command_def list_ex_iff split: if_splits)

text \<open>Each override comes from an entry of one of the two tables.\<close>

definition from_tables :: "string \<times> string \<Rightarrow> bool" where
  "from_tables kv \<longleftrightarrow>
     (\<exists>flag. (flag, kv) \<in> set PROVISION_FLAG_BOOLS) \<or> fst kv \<in> snd ` set PROVISION_FLAG_ENV"

lemma value_flag_key: "value_flag table arg rest = Some (Ok ((key, v), rest')) \<Longrightarrow> key \<in> snd ` set table"
  by (induction table arg rest rule: value_flag.induct) (force split: if_splits option.splits list.splits)+

lemma flags_from_tables:
  "flags_loop overrides clean keep args = Ok (overrides', clean', keep') \<Longrightarrow> \<forall>kv \<in> set overrides. from_tables kv \<Longrightarrow>
     (\<forall>kv \<in> set overrides'. from_tables kv)"
proof (induction overrides clean keep args rule: flags_loop.induct)
  case (2 overrides clean keep arg rest)
  consider (clean) "arg = ''--clean-rerun''" | (keep) "arg = ''--keep-pki''"
    | (switch) flag env_key v where "arg \<noteq> ''--clean-rerun''" "arg \<noteq> ''--keep-pki''"
        "find (\<lambda>(flag, _). flag = arg) PROVISION_FLAG_BOOLS = Some (flag, env_key, v)"
    | (valued) kv rest' where "arg \<noteq> ''--clean-rerun''" "arg \<noteq> ''--keep-pki''"
        "find (\<lambda>(flag, _). flag = arg) PROVISION_FLAG_BOOLS = None"
        "value_flag PROVISION_FLAG_ENV arg rest = Some (Ok (kv, rest'))"
    using "2.prems"(1) by (fastforce split: if_splits option.splits sum.splits)
  then show ?case
  proof cases
    case clean
    with 2 show ?thesis
      by simp
  next
    case keep
    with 2 show ?thesis
      by simp
  next
    case switch
    then have "(flag, env_key, v) \<in> set PROVISION_FLAG_BOOLS"
      by (metis find_Some_iff nth_mem)
    then have "from_tables (env_key, v)"
      by (auto simp: from_tables_def)
    with switch "2.IH"(4) [OF switch(1-3) refl refl] "2.prems" show ?thesis
      by auto
  next
    case valued
    then have "from_tables kv"
      using value_flag_key [of PROVISION_FLAG_ENV arg rest "fst kv" "snd kv" rest'] by (simp add: from_tables_def)
    with valued "2.IH"(3) [OF valued(1-4) refl refl] "2.prems" show ?thesis
      by auto
  qed
qed simp

theorem provision_flags_sound:
  assumes "parse_provision_flags args = Ok (overrides, clean_rerun, keep_pki)"
  shows "(\<forall>kv \<in> set overrides. from_tables kv) \<and> (keep_pki \<longrightarrow> clean_rerun)
     \<and> ((''OPENBOX_PURGE_CACHE'', ''1'') \<in> set overrides \<longrightarrow> clean_rerun)
     \<and> (\<forall>provider. map_of (rev overrides) ''OPENBOX_PROVIDER'' = Some provider \<longrightarrow> provider \<in> {''native'', ''openshell''})"
proof -
  have last_wins: "map_of kvs key = map_option snd (find (\<lambda>(k, _). k = key) kvs)" for key :: string and kvs :: "(string \<times> string) list"
    by (induction kvs) auto
  from assms have loop: "flags_loop [] False False args = Ok (overrides, clean_rerun, keep_pki)"
    by (auto simp: parse_provision_flags_def split: sum.splits option.splits if_splits)
  from flags_from_tables [OF this] have "\<forall>kv \<in> set overrides. from_tables kv"
    by simp
  moreover from assms loop have "keep_pki \<longrightarrow> clean_rerun" "(''OPENBOX_PURGE_CACHE'', ''1'') \<in> set overrides \<longrightarrow> clean_rerun"
    by (auto simp: parse_provision_flags_def list_ex_iff split: if_splits)
  moreover from assms loop have "map_of (rev overrides) ''OPENBOX_PROVIDER'' = Some provider \<Longrightarrow>
      provider \<in> {''native'', ''openshell''}" for provider
    by (auto simp: parse_provision_flags_def last_wins split: if_splits option.splits)
  ultimately show ?thesis
    by blast
qed

end
