(* ===== verification/Launcher_Artifacts.thy ===== *)
theory Launcher_Artifacts
  imports Launcher_Command Native_System Rust_Text
begin

text \<open>
  What the launcher finds on the host and how it pins it: the search of the artifacts
  (\<^verbatim>\<open>src/packaging/launcher/src/bundle.rs\<close>) and the check of the versions and digests
  (\<^verbatim>\<open>src/packaging/launcher/src/pin.rs\<close>).
\<close>

section \<open>The host\<close>

text \<open>
  What the launcher can see of the host: the target and the channel that it was compiled for, variables,
  files, and what a command prints when it runs, with its success. Each fact is asked for once in a run.
\<close>

record host =
  h_os :: string
  h_arch :: string
  h_channel :: "string option"
  h_var :: "string \<Rightarrow> string option"
  h_cwd :: "string option"
  h_is_file :: "string \<Rightarrow> bool"
  h_exists :: "string \<Rightarrow> bool"
  h_read :: "string \<Rightarrow> string option"
  h_output :: "string \<Rightarrow> string list \<Rightarrow> (bool \<times> string) option"

text \<open>\<open>std::env::var\<close> refuses a value that is not UTF-8.\<close>

definition env_var :: "host \<Rightarrow> string \<Rightarrow> string option" where
  "env_var H name = (case h_var H name of None \<Rightarrow> None | Some v \<Rightarrow> if is_utf8 v then Some v else None)"

section \<open>Artifacts\<close>

record Artifacts =
  art_gateway :: string
  art_cli :: string
  art_driver_vm :: "string option"
  art_policy_strict :: string
  art_policy_dev :: string

definition policy_of :: "Artifacts \<Rightarrow> bool \<Rightarrow> string" where
  "policy_of artifacts dev = (if dev then art_policy_dev artifacts else art_policy_strict artifacts)"

definition bundle_dir :: "host \<Rightarrow> string option" where
  "bundle_dir H = h_var H ''OPENBOX_BUNDLE_DIR''"

definition install_prefixes :: "host \<Rightarrow> string list" where
  "install_prefixes H =
     (if h_os H = ''macos'' then [''/opt/homebrew/opt/openshell'', ''/opt/homebrew''] else [])
     @ [''/usr/local'', ''/usr'']"

text \<open>\<open>env::split_paths\<close>.\<close>

definition split_paths :: "string \<Rightarrow> string list" where
  "split_paths path = split_str '':'' path"

definition find_on_path :: "host \<Rightarrow> string \<Rightarrow> string option" where
  "find_on_path H name =
     (case h_var H ''PATH'' of
        None \<Rightarrow> None
      | Some path \<Rightarrow> find (h_is_file H) (map (\<lambda>dir. path_join dir name) (split_paths path)))"

text \<open>The candidates of the bundle directory come before those of the installation prefixes.\<close>

definition bundle_candidates :: "host \<Rightarrow> (string \<Rightarrow> string list) \<Rightarrow> string list" where
  "bundle_candidates H candidates = (case bundle_dir H of None \<Rightarrow> [] | Some dir \<Rightarrow> candidates dir)"

definition find_binary :: "host \<Rightarrow> string \<Rightarrow> string option" where
  "find_binary H name =
     (case find (h_is_file H)
             (bundle_candidates H (\<lambda>dir. [path_join dir name, path_join (path_join dir ''bin'') name])
              @ map (\<lambda>prefix. path_join (path_join prefix ''bin'') name) (install_prefixes H)) of
        Some candidate \<Rightarrow> Some candidate
      | None \<Rightarrow> find_on_path H name)"

definition DRIVER_NAME :: string where
  "DRIVER_NAME = ''openshell-driver-vm''"

definition find_driver_vm :: "host \<Rightarrow> string option" where
  "find_driver_vm H =
     (case find (h_is_file H)
             (bundle_candidates H (\<lambda>dir. [path_join dir DRIVER_NAME, path_join (path_join dir ''libexec'') DRIVER_NAME,
                path_join (path_join dir ''bin'') DRIVER_NAME])
              @ concat (map (\<lambda>prefix. [path_join (path_join prefix ''libexec'') DRIVER_NAME,
                  path_join (path_join (path_join prefix ''libexec'') ''openshell'') DRIVER_NAME,
                  path_join (path_join prefix ''bin'') DRIVER_NAME]) (install_prefixes H))) of
        Some candidate \<Rightarrow> Some candidate
      | None \<Rightarrow> find_on_path H DRIVER_NAME)"

text \<open>The walk up from the working directory.\<close>

function repo_walk :: "host \<Rightarrow> string \<Rightarrow> string option" where
  "repo_walk H directory =
     (if h_is_file H (path_join directory ''packaging/launcher/Cargo.toml'') then Some directory
      else case path_parent directory of None \<Rightarrow> None | Some parent \<Rightarrow> repo_walk H parent)"
  by pat_completeness auto

termination
  by (relation "measure (\<lambda>(_, directory). length directory)") (auto dest: path_parent_less)

declare repo_walk.simps [simp del]

definition repo_root :: "host \<Rightarrow> string option" where
  "repo_root H = (case h_cwd H of None \<Rightarrow> None | Some cwd \<Rightarrow> repo_walk H cwd)"

definition find_policy :: "host \<Rightarrow> string \<Rightarrow> string option" where
  "find_policy H name =
     find (h_is_file H)
       (bundle_candidates H (\<lambda>dir. [path_join dir name, path_join (path_join (path_join dir ''share'') ''openbox-sandbox'') name])
        @ map (\<lambda>prefix. path_join (path_join prefix ''share/openbox-sandbox'') name) (install_prefixes H)
        @ (case repo_root H of None \<Rightarrow> [] | Some repo \<Rightarrow> [path_join (path_join repo ''deploy/policies'') name]))"

text \<open>The result is the first artifact that is missing, in the order of the search.\<close>

definition required_artifact :: "string \<Rightarrow> string option \<Rightarrow> string + string" where
  "required_artifact name found = (case found of None \<Rightarrow> Err name | Some path \<Rightarrow> Ok path)"

definition resolve_artifacts :: "host \<Rightarrow> string + Artifacts" where
  "resolve_artifacts H =
     (case required_artifact ''openshell-gateway'' (find_binary H ''openshell-gateway'') of Inl e \<Rightarrow> Err e | Inr gateway \<Rightarrow>
      case required_artifact ''openshell'' (find_binary H ''openshell'') of Inl e \<Rightarrow> Err e | Inr cli \<Rightarrow>
      case required_artifact ''policy-deny-network.yaml'' (find_policy H ''policy-deny-network.yaml'') of
        Inl e \<Rightarrow> Err e | Inr policy_strict \<Rightarrow>
      case required_artifact ''policy-deny-network-dev.yaml'' (find_policy H ''policy-deny-network-dev.yaml'') of
        Inl e \<Rightarrow> Err e | Inr policy_dev \<Rightarrow>
      Ok \<lparr>art_gateway = gateway, art_cli = cli, art_driver_vm = find_driver_vm H,
        art_policy_strict = policy_strict, art_policy_dev = policy_dev\<rparr>)"

section \<open>The pin\<close>

definition REQUIRED_VERSION :: string where "REQUIRED_VERSION = ''0.0.88''"
definition LOCKED_RELEASE_VERSION :: string where "LOCKED_RELEASE_VERSION = ''0.0.88''"
definition ROOT_PROTOCOL_MARKER :: string where "ROOT_PROTOCOL_MARKER = ''gf1690849''"
definition ZOT_VERSION :: string where "ZOT_VERSION = ''v2.1.20''"

record ZotPin =
  zp_asset :: string
  zp_local_name :: string
  zp_sha256 :: string

definition ZOT_DARWIN_ARM64 :: ZotPin where
  "ZOT_DARWIN_ARM64 = \<lparr>zp_asset = ''zot-darwin-arm64-minimal'', zp_local_name = ''zot-darwin-arm64'',
     zp_sha256 = ''edeb86f0533d21305bbc775f23da0356a5ce3fd3dd4f614d3257f75ca2ef617a''\<rparr>"

definition ZOT_LINUX_X86_64 :: ZotPin where
  "ZOT_LINUX_X86_64 = \<lparr>zp_asset = ''zot-linux-amd64-minimal'', zp_local_name = ''zot-linux-x86_64'',
     zp_sha256 = ''902ea958c4a59c0f5c4ac9fa2bbaad8716e80551bcaede7ab4ea998bf57190a6''\<rparr>"

definition zot_pin_for :: "string \<Rightarrow> string \<Rightarrow> ZotPin option" where
  "zot_pin_for target_os target_arch =
     (if (target_os, target_arch) = (''macos'', ''aarch64'') then Some ZOT_DARWIN_ARM64
      else if (target_os, target_arch) = (''linux'', ''x86_64'') then Some ZOT_LINUX_X86_64
      else None)"

definition zot_pin :: "host \<Rightarrow> ZotPin option" where
  "zot_pin H = zot_pin_for (h_os H) (h_arch H)"

text \<open>\<open>str::trim\<close>.\<close>

function trim_start :: "string \<Rightarrow> string" where
  "trim_start s = (if ws_len s = 0 then s else trim_start (drop (ws_len s) s))"
  by pat_completeness auto

termination
proof (relation "measure length")
  fix s :: string
  assume "ws_len s \<noteq> 0"
  then show "(drop (ws_len s) s, s) \<in> measure length"
    by (cases s) auto
qed simp

declare trim_start.simps [simp del]

fun trim_end :: "string \<Rightarrow> string" where
  "trim_end [] = []"
| "trim_end (c # cs) = (if trim_start (c # cs) = [] then [] else c # trim_end cs)"

definition str_trim :: "string \<Rightarrow> string" where
  "str_trim s = trim_end (trim_start s)"

definition extract_version_from :: "host \<Rightarrow> string \<Rightarrow> string + string" where
  "extract_version_from H binary =
     (case h_output H binary [''--version''] of
        None \<Rightarrow> Err ''failed to run --version''
      | Some (_, stdout) \<Rightarrow>
          let printed = str_trim stdout in
          if printed = [] then Err ''--version printed nothing''
          else let tokens = split_whitespace printed in
               Ok (if tokens \<noteq> [] \<and> list_ex is_ascii_digit (last tokens) then last tokens else printed))"

definition version_satisfies :: "string \<Rightarrow> string \<Rightarrow> bool" where
  "version_satisfies found required \<longleftrightarrow>
     found = required \<or> found = LOCKED_RELEASE_VERSION \<or> str_contains ROOT_PROTOCOL_MARKER found"

definition check_sha256 :: "host \<Rightarrow> string \<Rightarrow> string \<Rightarrow> string + unit" where
  "check_sha256 H path expected =
     (let (cmd, args) = (if h_os H = ''macos'' then (''shasum'', [''-a'', ''256'']) else (''sha256sum'', []));
          full_args = args @ [if is_utf8 path then path else []] in
      case h_output H cmd full_args of
        None \<Rightarrow> Err (''failed to run '' @ cmd)
      | Some (success, stdout) \<Rightarrow>
          if \<not> success then Err (cmd @ '' exited'')
          else let digest = (case split_whitespace stdout of [] \<Rightarrow> [] | word # _ \<Rightarrow> word) in
               if eq_ignore_ascii_case digest expected then Ok ()
               else Err (''sha256 mismatch: expected '' @ expected @ '', found '' @ digest))"

record VerifyError =
  ve_artifact :: string
  ve_reason :: string

definition check_version :: "host \<Rightarrow> string \<Rightarrow> string \<Rightarrow> VerifyError + unit" where
  "check_version H artifact binary =
     (case extract_version_from H binary of
        Inl reason \<Rightarrow> Err \<lparr>ve_artifact = artifact, ve_reason = reason\<rparr>
      | Inr found \<Rightarrow>
          if version_satisfies found REQUIRED_VERSION then Ok ()
          else Err \<lparr>ve_artifact = artifact,
            ve_reason = ''version mismatch: required '' @ REQUIRED_VERSION @ '', found '' @ found\<rparr>)"

text \<open>A digest is compared when the operator has pinned it in a variable.\<close>

definition check_pinned :: "host \<Rightarrow> string \<Rightarrow> string \<Rightarrow> string \<Rightarrow> VerifyError + unit" where
  "check_pinned H variable artifact binary =
     (case env_var H variable of
        None \<Rightarrow> Ok ()
      | Some expected \<Rightarrow>
          if expected = [] then Ok ()
          else (case check_sha256 H binary expected of
                  Inl reason \<Rightarrow> Err \<lparr>ve_artifact = artifact, ve_reason = reason\<rparr>
                | Inr _ \<Rightarrow> Ok ()))"

primrec first_error :: "('e + unit) list \<Rightarrow> 'e + unit" where
  "first_error [] = Ok ()"
| "first_error (r # rs) = (case r of Inl e \<Rightarrow> Err e | Inr _ \<Rightarrow> first_error rs)"

definition verify_artifacts :: "host \<Rightarrow> Artifacts \<Rightarrow> VerifyError + unit" where
  "verify_artifacts H artifacts =
     first_error
       ([check_version H ''openshell-gateway'' (art_gateway artifacts),
         check_version H ''openshell-cli'' (art_cli artifacts)]
        @ (case art_driver_vm artifacts of
             None \<Rightarrow> [] | Some driver \<Rightarrow> [check_version H ''openshell-driver-vm'' driver])
        @ [check_pinned H ''OPENBOX_SANDBOX_GATEWAY_SHA256'' ''openshell-gateway'' (art_gateway artifacts),
           check_pinned H ''OPENBOX_SANDBOX_CLI_SHA256'' ''openshell-cli'' (art_cli artifacts)]
        @ (case art_driver_vm artifacts of
             None \<Rightarrow> []
           | Some driver \<Rightarrow> [check_pinned H ''OPENBOX_SANDBOX_DRIVER_SHA256'' ''openshell-driver-vm'' driver]))"

section \<open>Lemmas\<close>

lemma first_error_Ok [simp]: "first_error rs = Ok () \<longleftrightarrow> (\<forall>r \<in> set rs. is_ok r)"
  by (induction rs) (auto simp: is_ok_def split: sum.splits)

declare first_error.simps [simp del]

end
