(* ===== verification/Launcher.thy ===== *)
theory Launcher
  imports Launcher_Artifacts
begin

text \<open>
  The launcher itself (\<^verbatim>\<open>src/packaging/launcher/src/main.rs\<close>): the choice of a driver, the isolation it gives,
  and \<open>main\<close> up to the start of the gateway. What is printed for the operator is left out; the subcommands
  that provision, remove, report or update are other parts of the launcher and end in their names here.
\<close>

section \<open>Drivers\<close>

datatype Runtime = Podman | Docker | Kubernetes | MicroVm

definition Runtime_ALL :: "Runtime list" where
  "Runtime_ALL = [Podman, Docker, Kubernetes, MicroVm]"

fun runtime_key :: "Runtime \<Rightarrow> string" where
  "runtime_key Podman = ''podman''"
| "runtime_key Docker = ''docker''"
| "runtime_key Kubernetes = ''kubernetes''"
| "runtime_key MicroVm = ''vm''"

fun runtime_label :: "Runtime \<Rightarrow> string" where
  "runtime_label Podman = ''Podman (rootless container)''"
| "runtime_label Docker = ''Docker (container, root daemon)''"
| "runtime_label Kubernetes = ''Kubernetes (cluster)''"
| "runtime_label MicroVm = ''libkrun microVM (hardware-isolated)''"

definition runtime_from_key :: "string \<Rightarrow> Runtime option" where
  "runtime_from_key v = find (\<lambda>runtime. runtime_key runtime = v) Runtime_ALL"

definition command_ok :: "host \<Rightarrow> string \<Rightarrow> string list \<Rightarrow> bool" where
  "command_ok H bin args = (case h_output H bin args of None \<Rightarrow> False | Some (success, _) \<Rightarrow> success)"

definition hypervisor_available :: "host \<Rightarrow> bool" where
  "hypervisor_available H =
     (if h_os H = ''linux'' then h_exists H ''/dev/kvm''
      else if h_os H = ''macos''
      then (case h_output H ''sysctl'' [''-n'', ''kern.hv_support''] of
              None \<Rightarrow> False | Some (_, stdout) \<Rightarrow> str_trim stdout = ''1'')
      else False)"

definition landlock_available :: "host \<Rightarrow> bool" where
  "landlock_available H =
     (case h_read H ''/sys/kernel/security/lsm'' of
        None \<Rightarrow> False
      | Some modules \<Rightarrow> list_ex (\<lambda>m. str_trim m = ''landlock'') (split_str '','' modules))"

fun available :: "host \<Rightarrow> Runtime \<Rightarrow> bool" where
  "available H Podman = command_ok H ''podman'' [''--version'']"
| "available H Docker = command_ok H ''docker'' [''--version'']"
| "available H Kubernetes = command_ok H ''kubectl'' [''version'', ''--client'']"
| "available H MicroVm = hypervisor_available H"

definition driver_priority :: "string \<Rightarrow> Runtime list" where
  "driver_priority os =
     (if os = ''macos'' then [MicroVm, Podman, Docker, Kubernetes] else [Podman, Docker, MicroVm, Kubernetes])"

section \<open>Isolation\<close>

datatype Posture = Post_ContainerStrict | Post_ContainerDegraded | Post_MicroVm | Post_Cluster

definition assess :: "host \<Rightarrow> Runtime \<Rightarrow> string \<Rightarrow> bool \<Rightarrow> Posture option" where
  "assess H chosen os allow_degraded =
     (case chosen of
        MicroVm \<Rightarrow> Some Post_MicroVm
      | Kubernetes \<Rightarrow> Some Post_Cluster
      | _ \<Rightarrow>
          if os = ''linux''
          then Some (if landlock_available H then Post_ContainerStrict else Post_ContainerDegraded)
          else if os = ''macos''
          then if \<not> command_ok H (runtime_key chosen) [''info''] then None
               else if \<not> allow_degraded then None
               else Some Post_ContainerDegraded
          else None)"

text \<open>\<open>allow_degraded_landlock\<close> and the use of the policy for development.\<close>

fun posture_config :: "Posture \<Rightarrow> bool \<times> bool" where
  "posture_config Post_ContainerStrict = (False, False)"
| "posture_config Post_ContainerDegraded = (True, True)"
| "posture_config Post_MicroVm = (True, True)"
| "posture_config Post_Cluster = (False, False)"

section \<open>The run\<close>

definition platform_os :: "host \<Rightarrow> string" where
  "platform_os H = (if h_os H \<in> {''linux'', ''macos'', ''windows''} then h_os H else ''unknown'')"

text \<open>
  How a run ends: with an exit code, in another part of the launcher, with the printed plan, or with the
  gateway as a child process, given its environment and arguments; a panic is an end of its own.
\<close>

datatype launch_end =
    LE_Success
  | LE_Failure
  | LE_Panic
  | LE_Subcommand CommandLine
  | LE_Plan Runtime Posture Artifacts
  | LE_Gateway string "(string \<times> string) list" "string list"

definition launch_gateway :: "Runtime \<Rightarrow> Artifacts \<Rightarrow> launch_end" where
  "launch_gateway chosen artifacts =
     LE_Gateway (art_gateway artifacts) [(''OPENSHELL_DRIVERS'', runtime_key chosen)]
       [''--drivers'', runtime_key chosen]"

definition verify_runtime :: "host \<Rightarrow> launch_end" where
  "verify_runtime H =
     (case resolve_artifacts H of
        Inl _ \<Rightarrow> LE_Failure
      | Inr artifacts \<Rightarrow> (case verify_artifacts H artifacts of Inl _ \<Rightarrow> LE_Failure | Inr _ \<Rightarrow> LE_Success))"

text \<open>The driver: the requested one if it is available, or the first available one of the priority.\<close>

datatype driver_choice = DC_Chosen Runtime | DC_Refused | DC_Panic

definition choose_driver :: "host \<Rightarrow> string \<Rightarrow> string option \<Rightarrow> driver_choice" where
  "choose_driver H os requested_key =
     (case map_option runtime_from_key requested_key of
        Some None \<Rightarrow> DC_Refused
      | requested \<Rightarrow>
          let present = filter (available H) Runtime_ALL in
          if present = [] then DC_Refused
          else (case requested of
                  Some (Some runtime) \<Rightarrow> if runtime \<in> set present then DC_Chosen runtime else DC_Refused
                | _ \<Rightarrow> (case find (\<lambda>runtime. runtime \<in> set present) (driver_priority os) of
                           Some runtime \<Rightarrow> DC_Chosen runtime | None \<Rightarrow> DC_Panic)))"

definition start_launcher :: "host \<Rightarrow> string list \<Rightarrow> launch_end" where
  "start_launcher H args =
     (let allow_degraded = list_ex (\<lambda>arg. arg = ''--allow-degraded'') args;
          dry_run = list_ex (\<lambda>arg. arg = ''--dry-run'') args;
          os = platform_os H in
      if os = ''windows'' then LE_Failure
      else case choose_driver H os (flag_value args ''--driver'') of
        DC_Refused \<Rightarrow> LE_Failure
      | DC_Panic \<Rightarrow> LE_Panic
      | DC_Chosen chosen \<Rightarrow>
          (case assess H chosen os allow_degraded of
             None \<Rightarrow> LE_Failure
           | Some posture \<Rightarrow>
               (case resolve_artifacts H of
                  Inl _ \<Rightarrow> LE_Failure
                | Inr artifacts \<Rightarrow>
                    (case verify_artifacts H artifacts of
                       Inl _ \<Rightarrow> LE_Failure
                     | Inr _ \<Rightarrow>
                         if dry_run then LE_Plan chosen posture artifacts
                         else launch_gateway chosen artifacts))))"

definition launcher_main :: "host \<Rightarrow> string list \<Rightarrow> launch_end" where
  "launcher_main H args =
     (case parse_command args of
        Inl _ \<Rightarrow> LE_Failure
      | Inr CL_Help \<Rightarrow> LE_Success
      | Inr CL_Version \<Rightarrow> LE_Success
      | Inr CL_VerifyRuntime \<Rightarrow> verify_runtime H
      | Inr CL_Launch \<Rightarrow> start_launcher H args
      | Inr command \<Rightarrow> LE_Subcommand command)"

section \<open>Lemmas\<close>

definition pinned_version :: "host \<Rightarrow> string \<Rightarrow> bool" where
  "pinned_version H binary \<longleftrightarrow>
     (\<exists>found. extract_version_from H binary = Ok found
        \<and> (found = ''0.0.88'' \<or> (\<exists>before after. found = before @ ''gf1690849'' @ after)))"

definition pinned_digest :: "host \<Rightarrow> string \<Rightarrow> string \<Rightarrow> bool" where
  "pinned_digest H variable binary \<longleftrightarrow>
     (\<forall>expected. env_var H variable = Some expected \<and> expected \<noteq> [] \<longrightarrow> check_sha256 H binary expected = Ok ())"

lemma check_version_ok: "is_ok (check_version H artifact binary) \<longleftrightarrow> pinned_version H binary"
  by (auto simp: check_version_def pinned_version_def version_satisfies_def REQUIRED_VERSION_def
      LOCKED_RELEASE_VERSION_def ROOT_PROTOCOL_MARKER_def str_contains_iff is_ok_def split: sum.splits)

lemma check_pinned_ok: "is_ok (check_pinned H variable artifact binary) \<longleftrightarrow> pinned_digest H variable binary"
  by (auto simp: check_pinned_def pinned_digest_def is_ok_def split: sum.splits option.splits)

lemma verify_artifacts_ok:
  "verify_artifacts H artifacts = Ok () \<longleftrightarrow>
     pinned_version H (art_gateway artifacts) \<and> pinned_version H (art_cli artifacts)
     \<and> pinned_digest H ''OPENBOX_SANDBOX_GATEWAY_SHA256'' (art_gateway artifacts)
     \<and> pinned_digest H ''OPENBOX_SANDBOX_CLI_SHA256'' (art_cli artifacts)
     \<and> (\<forall>driver. art_driver_vm artifacts = Some driver \<longrightarrow>
          pinned_version H driver \<and> pinned_digest H ''OPENBOX_SANDBOX_DRIVER_SHA256'' driver)"
  by (auto simp: verify_artifacts_def check_version_ok check_pinned_ok split: option.splits)

lemma choose_driver_sound:
  "choose_driver H os requested \<noteq> DC_Panic"
  "choose_driver H os requested = DC_Chosen runtime \<Longrightarrow>
     available H runtime \<and> (\<forall>key. requested = Some key \<longrightarrow> runtime_key runtime = key)"
proof -
  have complete: "runtime \<in> set (driver_priority os)" "runtime \<in> set Runtime_ALL" for runtime
    by (cases runtime; simp add: driver_priority_def Runtime_ALL_def)+
  then show "choose_driver H os requested \<noteq> DC_Panic"
    by (auto simp: choose_driver_def Let_def find_None_iff filter_empty_conv split: option.splits)
  show "choose_driver H os requested = DC_Chosen runtime \<Longrightarrow>
     available H runtime \<and> (\<forall>key. requested = Some key \<longrightarrow> runtime_key runtime = key)"
    by (auto simp: choose_driver_def Let_def runtime_from_key_def find_Some_iff split: option.splits if_splits)
qed

section \<open>A concrete run\<close>

definition sample_host :: host where
  "sample_host = \<lparr>h_os = ''linux'', h_arch = ''x86_64'', h_channel = None, h_var = (\<lambda>_. None), h_cwd = None,
     h_is_file = (\<lambda>_. True), h_exists = (\<lambda>_. True), h_read = (\<lambda>_. None),
     h_output = (\<lambda>_ _. Some (True, ''0.0.88''))\<rparr>"

definition sample_artifacts :: Artifacts where
  "sample_artifacts = \<lparr>art_gateway = ''/usr/local/bin/openshell-gateway'', art_cli = ''/usr/local/bin/openshell'',
     art_driver_vm = Some ''/usr/local/libexec/openshell-driver-vm'',
     art_policy_strict = ''/usr/local/share/openbox-sandbox/policy-deny-network.yaml'',
     art_policy_dev = ''/usr/local/share/openbox-sandbox/policy-deny-network-dev.yaml''\<rparr>"

lemma sample_run_gateway:
  "launcher_main sample_host [''--driver'', ''vm''] =
     LE_Gateway ''/usr/local/bin/openshell-gateway'' [(''OPENSHELL_DRIVERS'', ''vm'')] [''--drivers'', ''vm'']"
proof -
  have "extract_version_from sample_host binary = Ok ''0.0.88''" for binary
    by (simp add: sample_host_def) code_simp
  then have verified: "verify_artifacts sample_host artifacts = Ok ()" for artifacts
    by (simp add: verify_artifacts_ok pinned_version_def pinned_digest_def env_var_def sample_host_def)
  have "resolve_artifacts sample_host = Ok sample_artifacts"
    by code_simp
  moreover have "choose_driver sample_host ''linux'' (Some ''vm'') = DC_Chosen MicroVm"
    by code_simp
  moreover have "parse_command [''--driver'', ''vm''] = Ok CL_Launch" and "flag_value [''--driver'', ''vm''] ''--driver'' = Some ''vm''"
    by code_simp+
  moreover have "platform_os sample_host = ''linux''"
    by code_simp
  ultimately show ?thesis
    by (simp add: launcher_main_def start_launcher_def verified assess_def launch_gateway_def sample_artifacts_def)
qed

section \<open>Properties\<close>



end
