(* ===== verification/Launcher_Update.thy ===== *)
theory Launcher_Update
  imports Launcher Process_System
begin

text \<open>
  \<open>obs update\<close> (\<^verbatim>\<open>src/packaging/launcher/src/update.rs\<close>): the newest release of the launcher's line, the
  downloads into the working directory, the check of the checksums and the replacement of the launcher. The
  files are a map from the files that exist to their content; \<open>uc_file\<close> says which file a path names, so that
  two paths may be the same file.
\<close>

section \<open>Versions\<close>

fun parse_part :: "string option \<Rightarrow> nat" where
  "parse_part None = 0"
| "parse_part (Some part) = (case parse_unsigned (2 ^ 32) part of None \<Rightarrow> 0 | Some n \<Rightarrow> n)"

definition nth_part :: "nat \<Rightarrow> string list \<Rightarrow> string option" where
  "nth_part i parts = (if i < length parts then Some (parts ! i) else None)"

definition parse_version :: "string \<Rightarrow> nat list" where
  "parse_version v = (let parts = split_str ''.'' v in map (\<lambda>i. parse_part (nth_part i parts)) [0, 1, 2])"

definition tag_version :: "string \<Rightarrow> nat list option" where
  "tag_version tag =
     (let core = hd (split_str ''-'' (dropWhile (\<lambda>c. c = CHR ''v'') tag));
          parsed = parse_version core
      in if parsed \<noteq> [0, 0, 0] then Some parsed else None)"

text \<open>The order of Rust's arrays.\<close>

fun version_less :: "nat list \<Rightarrow> nat list \<Rightarrow> bool" where
  "version_less (m # ms) (n # ns) = (m < n \<or> m = n \<and> version_less ms ns)"
| "version_less [] (n # ns) = True"
| "version_less _ [] = False"

section \<open>Calls\<close>

text \<open>
  \<open>uc_releases\<close>: the success of curl and the JSON value of what it printed; \<open>uc_download\<close>: the content of a
  file after curl has tried to fetch an address into it, given the content before; \<open>uc_shasum\<close>: what shasum
  prints for a file, if it runs; \<open>uc_partial\<close>: what a copy that fails leaves behind.
\<close>

record update_calls =
  uc_version :: string
  uc_releases :: "(bool \<times> json option) option"
  uc_download :: "string \<Rightarrow> string option \<Rightarrow> string option"
  uc_shasum :: "string \<Rightarrow> string option \<Rightarrow> string option"
  uc_arg0 :: "string option"
  uc_file :: "string \<Rightarrow> string"
  uc_remove_ok :: bool
  uc_copy_ok :: bool
  uc_partial :: "string option"
  uc_rename_ok :: bool

type_synonym content_map = "string \<Rightarrow> string option"

definition json_member :: "string \<Rightarrow> json \<Rightarrow> json option" where
  "json_member key v = (case v of J_Object m \<Rightarrow> map_of m key | _ \<Rightarrow> None)"

definition release_tag :: "bool \<Rightarrow> json \<Rightarrow> string option" where
  "release_tag dev release =
     (if Option.bind (json_member ''draft'' release) json_as_bool = Some True then None
      else case Option.bind (json_member ''tag_name'' release) json_as_str of
             None \<Rightarrow> None
           | Some tag \<Rightarrow> if ends_with ''-dev'' tag = dev then Some tag else None)"

text \<open>\<open>Iterator::find_map\<close>.\<close>

primrec find_first :: "('a \<Rightarrow> 'b option) \<Rightarrow> 'a list \<Rightarrow> 'b option" where
  "find_first f [] = None"
| "find_first f (x # xs) = (case f x of None \<Rightarrow> find_first f xs | Some y \<Rightarrow> Some y)"

definition latest_release :: "update_calls \<Rightarrow> bool \<Rightarrow> string \<Rightarrow> string" where
  "latest_release U dev pinned =
     (case uc_releases U of
        Some (True, Some (J_Array releases)) \<Rightarrow>
          (case find_first (release_tag dev) releases of None \<Rightarrow> pinned | Some tag \<Rightarrow> tag)
      | _ \<Rightarrow> pinned)"

section \<open>The update\<close>

datatype asset_platform = AP_Darwin | AP_Linux | AP_Other

definition asset_platform_of :: "host \<Rightarrow> asset_platform" where
  "asset_platform_of H =
     (if h_os H = ''macos'' \<and> h_arch H = ''aarch64'' then AP_Darwin
      else if h_os H = ''linux'' \<and> h_arch H = ''x86_64'' then AP_Linux else AP_Other)"

fun service_asset :: "asset_platform \<Rightarrow> string \<times> string" where
  "service_asset AP_Darwin = (''openbox-sandbox-darwin-arm64'', ''openbox-sandbox-dev-darwin-arm64.tar.gz'')"
| "service_asset AP_Linux = (''openbox-sandbox-linux-x86_64'', ''openbox-sandbox-dev-linux-x86_64.tar.gz'')"
| "service_asset AP_Other = (''openbox-sandbox'', [])"

fun obs_asset :: "asset_platform \<Rightarrow> string option" where
  "obs_asset AP_Darwin = Some ''obs-darwin-arm64''"
| "obs_asset AP_Linux = Some ''obs-linux-x86_64''"
| "obs_asset AP_Other = None"

fun vm_cache_asset :: "asset_platform \<Rightarrow> string" where
  "vm_cache_asset AP_Darwin = ''prepared-vm-cache-darwin-arm64.tar.gz''"
| "vm_cache_asset AP_Linux = ''prepared-vm-cache-linux-x86_64.tar.gz''"
| "vm_cache_asset AP_Other = []"

definition download_patterns :: "bool \<Rightarrow> string \<Rightarrow> string \<Rightarrow> string \<Rightarrow> string \<Rightarrow> string \<Rightarrow> string list" where
  "download_patterns everything release obs_name svc dev_tar vm_cache =
     (let is_dev = str_contains ''-dev'' release in
      filter (\<lambda>p. p \<noteq> [])
        ([obs_name, svc, ''SHA256SUMS''] @
         (if everything
          then [if is_dev then ''policy-allow-network-dev.yaml'' else ''policy-deny-network-dev.yaml'']
               @ (if is_dev \<and> dev_tar \<noteq> [] then [dev_tar] else [])
               @ (if vm_cache \<noteq> [] then [vm_cache] else [])
          else [])))"

definition release_url :: "string \<Rightarrow> string \<Rightarrow> string" where
  "release_url release pattern =
     ''https://github.com/OpenBox-AI/openbox-sandbox/releases/download/'' @ release @ ''/'' @ pattern"

primrec download_all :: "update_calls \<Rightarrow> string \<Rightarrow> string list \<Rightarrow> content_map \<Rightarrow> content_map" where
  "download_all U release [] F = F"
| "download_all U release (pattern # patterns) F =
     download_all U release patterns
       (F(uc_file U pattern := uc_download U (release_url release pattern) (F (uc_file U pattern))))"

definition first_word :: "string \<Rightarrow> string" where
  "first_word s = (case split_whitespace s of [] \<Rightarrow> [] | word # _ \<Rightarrow> word)"

text \<open>The checksum that a text of checksums has for a name, the empty text if it has none.\<close>

definition expected_sum :: "string \<Rightarrow> string \<Rightarrow> string" where
  "expected_sum sums name =
     (case find (\<lambda>line. ends_with (''  '' @ name) line) (str_lines sums) of
        None \<Rightarrow> [] | Some line \<Rightarrow> first_word line)"

definition actual_sum :: "update_calls \<Rightarrow> content_map \<Rightarrow> string \<Rightarrow> string" where
  "actual_sum U F name =
     (case uc_shasum U name (F (uc_file U name)) of None \<Rightarrow> [] | Some printed \<Rightarrow> first_word printed)"

definition sum_matches :: "update_calls \<Rightarrow> content_map \<Rightarrow> string \<Rightarrow> string \<Rightarrow> bool" where
  "sum_matches U F sums name \<longleftrightarrow> expected_sum sums name \<noteq> [] \<and> actual_sum U F name = expected_sum sums name"

definition read_sums :: "update_calls \<Rightarrow> content_map \<Rightarrow> string" where
  "read_sums U F =
     (case F (uc_file U ''SHA256SUMS'') of None \<Rightarrow> [] | Some body \<Rightarrow> if is_utf8 body then body else [])"

definition update_target :: "host \<Rightarrow> update_calls \<Rightarrow> content_map \<Rightarrow> string" where
  "update_target H U F =
     (let invoked = (case uc_arg0 U of None \<Rightarrow> ''obs'' | Some arg \<Rightarrow> arg) in
      if CHR ''/'' \<in> set invoked then invoked
      else case Option.bind (h_var H ''PATH'')
                  (\<lambda>path. find (\<lambda>dir. h_is_file H (path_join dir invoked)) (split_paths path)) of
             Some dir \<Rightarrow> path_join dir invoked
           | None \<Rightarrow> if F (uc_file U invoked) \<noteq> None then invoked else ''obs'')"

datatype update_end = UE_Failure | UE_Updated string string

text \<open>Staged beside the target and renamed over it.\<close>

definition replace_target :: "update_calls \<Rightarrow> string \<Rightarrow> string \<Rightarrow> string \<Rightarrow> content_map \<Rightarrow> content_map \<times> update_end" where
  "replace_target U release obs_name target F =
     (let staged = uc_file U (target @ ''.new'');
          F1 = (if uc_remove_ok U then F(staged := None) else F) in
      case F1 (uc_file U obs_name) of
        None \<Rightarrow> (F1, UE_Failure)
      | Some content \<Rightarrow>
          if \<not> uc_copy_ok U then (F1(staged := uc_partial U), UE_Failure)
          else let F2 = F1(staged := Some content) in
               if \<not> uc_rename_ok U then (if uc_remove_ok U then F2(staged := None) else F2, UE_Failure)
               else (F2(staged := None, uc_file U target := F2 staged), UE_Updated target release))"

text \<open>The files after the run, how it ends, and whether it warned that it goes back to an older version.\<close>

definition run_update :: "host \<Rightarrow> update_calls \<Rightarrow> bool \<Rightarrow> content_map \<Rightarrow> content_map \<times> update_end \<times> bool" where
  "run_update H U everything F =
     (let dev = (channel (h_channel H) \<noteq> ''base'');
          release = latest_release U dev (asset_tag dev);
          warned = (case tag_version release of
                      None \<Rightarrow> False | Some newest \<Rightarrow> version_less newest (parse_version (uc_version U)));
          platform = asset_platform_of H;
          (svc, dev_tar) = service_asset platform in
      case obs_asset platform of
        None \<Rightarrow> (F, UE_Failure, warned)
      | Some obs_name \<Rightarrow>
          let F1 = download_all U release
                     (download_patterns everything release obs_name svc dev_tar (vm_cache_asset platform)) F in
          if list_ex (\<lambda>name. F1 (uc_file U name) = None) [obs_name, svc, ''SHA256SUMS'']
          then (F1, UE_Failure, warned)
          else if \<not> list_all (sum_matches U F1 (read_sums U F1)) [obs_name, svc]
          then (F1, UE_Failure, warned)
          else case replace_target U release obs_name (update_target H U F1) F1 of
                 (F2, ended) \<Rightarrow> (F2, ended, warned))"

section \<open>What an update guarantees\<close>

text \<open>
  A successful update has put in the place of the target a content whose checksum is the one that the text of
  checksums has for the launcher of this platform, the service binary beside it matching its own.
\<close>

lemma replace_target_done:
  assumes "replace_target U release obs_name target F = (F', UE_Updated target' release')"
  shows "target' = target \<and> release' = release \<and> F' (uc_file U target) = F (uc_file U obs_name)
     \<and> F (uc_file U obs_name) \<noteq> None"
  using assms by (auto simp: replace_target_def Let_def split: if_splits option.splits)

theorem update_replaces_verified:
  assumes "run_update H U everything F = (F', UE_Updated target release, warned)"
  shows "\<exists>obs_name content sums downloaded.
     obs_asset (asset_platform_of H) = Some obs_name \<and> F' (uc_file U target) = Some content
     \<and> downloaded (uc_file U obs_name) = Some content
     \<and> sums = read_sums U downloaded
     \<and> sum_matches U downloaded sums obs_name
     \<and> sum_matches U downloaded sums (fst (service_asset (asset_platform_of H)))
     \<and> (\<forall>newest. tag_version release = Some newest \<and> version_less newest (parse_version (uc_version U)) \<longrightarrow> warned)"
proof -
  let ?dev = "channel (h_channel H) \<noteq> ''base''"
  let ?platform = "asset_platform_of H"
  obtain svc dev_tar where svc: "service_asset ?platform = (svc, dev_tar)"
    by fastforce
  from assms obtain obs_name where obs_name: "obs_asset ?platform = Some obs_name"
    by (auto simp: run_update_def svc Let_def split: option.splits)
  let ?F = "download_all U (latest_release U ?dev (asset_tag ?dev))
      (download_patterns everything (latest_release U ?dev (asset_tag ?dev)) obs_name svc dev_tar (vm_cache_asset ?platform)) F"
  from assms have sums: "sum_matches U ?F (read_sums U ?F) obs_name" "sum_matches U ?F (read_sums U ?F) svc"
      and replaced: "replace_target U (latest_release U ?dev (asset_tag ?dev)) obs_name (update_target H U ?F) ?F =
        (F', UE_Updated target release)"
      and warned: "warned = (case tag_version (latest_release U ?dev (asset_tag ?dev)) of
        None \<Rightarrow> False | Some newest \<Rightarrow> version_less newest (parse_version (uc_version U)))"
    by (auto simp: run_update_def svc obs_name Let_def split: if_splits prod.splits)
  from replace_target_done [OF replaced] obtain content where "F' (uc_file U target) = Some content"
      "?F (uc_file U obs_name) = Some content" "release = latest_release U ?dev (asset_tag ?dev)"
    by force
  with obs_name svc sums warned show ?thesis
    by (intro exI [of _ obs_name] exI [of _ content] exI [of _ "read_sums U ?F"] exI [of _ ?F]) simp
qed

text \<open>
  What curl does is not looked at: when every download fails, the files that an earlier run left behind are
  verified against their own checksums and installed as the newest release.
\<close>

theorem failed_downloads_update:
  assumes "\<And>url content. uc_download U url content = content"
    and "obs_asset (asset_platform_of H) = Some obs_name" and "F (uc_file U ''SHA256SUMS'') \<noteq> None"
    and "\<forall>name \<in> {obs_name, fst (service_asset (asset_platform_of H))}.
           F (uc_file U name) \<noteq> None \<and> sum_matches U F (read_sums U F) name"
    and "uc_copy_ok U" and "uc_rename_ok U"
    and "uc_file U (update_target H U F @ ''.new'') \<noteq> uc_file U obs_name"
  shows "\<exists>F' release warned. run_update H U everything F = (F', UE_Updated (update_target H U F) release, warned)
     \<and> release = latest_release U (channel (h_channel H) \<noteq> ''base'') (asset_tag (channel (h_channel H) \<noteq> ''base''))"
proof -
  have kept: "download_all U release patterns F = F" for release patterns
    by (induction patterns) (simp_all add: assms(1))
  obtain svc dev_tar where svc: "service_asset (asset_platform_of H) = (svc, dev_tar)"
    by fastforce
  from assms(4) obtain content where "F (uc_file U obs_name) = Some content"
    by auto
  with assms(5-7) have "snd (replace_target U release obs_name (update_target H U F) F) = UE_Updated (update_target H U F) release"
    for release
    by (simp add: replace_target_def Let_def)
  with assms(2-4) svc show ?thesis
    by (auto simp: run_update_def kept Let_def split: prod.splits) (metis snd_conv)+
qed

end
